(* ===== verification/Prelude.thy ===== *)
theory Prelude
  imports Main "HOL-Library.Word"
begin

text \<open>
  What every component of the development shares: machine integers and byte strings, the
  result type of fallible Rust code with its \<open>?\<close> operator, little-endian integers, checked
  arithmetic, and the loops over lists that stop at the first error. The four collections
  are the simplification sets of the component theories: \<open>res_simps\<close> evaluates the \<open>?\<close>
  operator, \<open>res_elims\<close> takes a successful computation apart, \<open>len_simps\<close> computes the
  length of encoded data, \<open>byte_eval\<close> evaluates encodings on concrete values.
\<close>

named_theorems res_simps \<open>evaluation of fallible computations\<close>
named_theorems res_elims \<open>inversion of successful fallible computations\<close>
named_theorems byte_eval \<open>evaluation of encodings on concrete values\<close>
named_theorems len_simps \<open>lengths of encoded data\<close>

type_synonym byte = "8 word"
type_synonym bytes = "8 word list"
type_synonym u16 = "16 word"
type_synonym u32 = "32 word"
type_synonym u64 = "64 word"

unbundle bit_operations_syntax

section \<open>Fallible computations\<close>

text \<open>
  A Rust \<open>Result<T, E>\<close> is \<open>'e + 'a\<close> with \<open>Inl\<close> for \<open>Err\<close>. \<open>rbind r f\<close> is
  \<open>let x = r?; f(x)\<close>, \<open>ensure b e\<close> is \<open>if !b { return Err(e) }\<close>, \<open>ok_or\<close> and
  \<open>map_err\<close> are the methods of \<open>Option\<close> and \<open>Result\<close>.
\<close>

definition rbind :: "'e + 'a \<Rightarrow> ('a \<Rightarrow> 'e + 'b) \<Rightarrow> 'e + 'b" where
  "rbind r f = (case r of Inl e \<Rightarrow> Inl e | Inr x \<Rightarrow> f x)"

definition ensure :: "bool \<Rightarrow> 'e \<Rightarrow> 'e + unit" where
  "ensure b e = (if b then Inr () else Inl e)"

definition ok_or :: "'e \<Rightarrow> 'a option \<Rightarrow> 'e + 'a" where
  "ok_or e x = (case x of None \<Rightarrow> Inl e | Some y \<Rightarrow> Inr y)"

definition map_err :: "('d \<Rightarrow> 'e) \<Rightarrow> 'd + 'a \<Rightarrow> 'e + 'a" where
  "map_err g r = (case r of Inl e \<Rightarrow> Inl (g e) | Inr x \<Rightarrow> Inr x)"

definition is_ok :: "'e + 'a \<Rightarrow> bool" where
  "is_ok r = (case r of Inl _ \<Rightarrow> False | Inr _ \<Rightarrow> True)"

lemma rbind_simps [simp, res_simps]:
  "rbind (Inl e) f = Inl e" "rbind (Inr x) f = f x"
  by (simp_all add: rbind_def)

lemma ensure_simps [simp, res_simps]:
  "ensure True e = Inr ()" "ensure False e = Inl e"
  by (simp_all add: ensure_def)

lemma ok_or_simps [simp, res_simps]:
  "ok_or e None = Inl e" "ok_or e (Some x) = Inr x"
  by (simp_all add: ok_or_def)

lemma map_err_simps [simp, res_simps]:
  "map_err g (Inl e) = Inl (g e)" "map_err g (Inr x) = Inr x"
  by (simp_all add: map_err_def)

lemma is_ok_simps [simp, res_simps]:
  "\<not> is_ok (Inl e)" "is_ok (Inr x)"
  by (simp_all add: is_ok_def)

lemma is_ok_iff: "is_ok r \<longleftrightarrow> (\<exists>x. r = Inr x)"
  by (cases r) auto

lemma rbind_eq_Inr [res_elims]:
  "rbind r f = Inr y \<longleftrightarrow> (\<exists>x. r = Inr x \<and> f x = Inr y)"
  by (cases r) auto

lemma ensure_eq_Inr [res_elims]: "ensure b e = Inr u \<longleftrightarrow> b"
  by (simp add: ensure_def)

lemma ensure_eq_Inl [res_elims]: "ensure b e = Inl e' \<longleftrightarrow> \<not> b \<and> e' = e"
  by (auto simp: ensure_def)

lemma ok_or_eq_Inr [res_elims]: "ok_or e x = Inr y \<longleftrightarrow> x = Some y"
  by (cases x) auto

lemma map_err_eq_Inr [res_elims]: "map_err g r = Inr y \<longleftrightarrow> r = Inr y"
  by (cases r) auto

lemma rbind_assoc: "rbind (rbind r f) g = rbind r (\<lambda>x. rbind (f x) g)"
  by (cases r) auto

text \<open>A \<open>for\<close> loop that collects results and returns the first error.\<close>

fun traverse :: "('a \<Rightarrow> 'e + 'b) \<Rightarrow> 'a list \<Rightarrow> 'e + 'b list" where
  "traverse f [] = Inr []"
| "traverse f (x # xs) = rbind (f x) (\<lambda>y. rbind (traverse f xs) (\<lambda>ys. Inr (y # ys)))"

lemma traverse_append:
  "traverse f (xs @ ys) =
     rbind (traverse f xs) (\<lambda>as. rbind (traverse f ys) (\<lambda>bs. Inr (as @ bs)))"
  by (induction xs) (auto simp: rbind_def split: sum.splits)

lemma traverse_length: "traverse f xs = Inr ys \<Longrightarrow> length ys = length xs"
  by (induction xs arbitrary: ys) (auto simp: res_elims)

lemma traverse_nth:
  "traverse f xs = Inr ys \<Longrightarrow> i < length xs \<Longrightarrow> f (xs ! i) = Inr (ys ! i)"
  by (induction xs arbitrary: ys i) (auto simp: res_elims nth_Cons split: nat.splits)

lemma traverse_all_Inr:
  "(\<And>x. x \<in> set xs \<Longrightarrow> f x = Inr (g x)) \<Longrightarrow> traverse f xs = Inr (map g xs)"
  by (induction xs) auto

section \<open>Stateful fallible computations\<close>

text \<open>
  Code that also changes a state (a reader, a writer, the file system) maps the state to a
  result and the new state; an error keeps the changes made before it.
\<close>

type_synonym ('s, 'e, 'a) action = "'s \<Rightarrow> ('e + 'a) \<times> 's"

definition ret :: "'a \<Rightarrow> ('s, 'e, 'a) action" where
  "ret x = (\<lambda>s. (Inr x, s))"

definition fail :: "'e \<Rightarrow> ('s, 'e, 'a) action" where
  "fail e = (\<lambda>s. (Inl e, s))"

definition lift :: "'e + 'a \<Rightarrow> ('s, 'e, 'a) action" where
  "lift r = (\<lambda>s. (r, s))"

definition act :: "('s, 'e, 'a) action \<Rightarrow> ('a \<Rightarrow> ('s, 'e, 'b) action) \<Rightarrow> ('s, 'e, 'b) action" where
  "act m f = (\<lambda>s. case m s of (Inl e, t) \<Rightarrow> (Inl e, t) | (Inr x, t) \<Rightarrow> f x t)"

definition act_map_err :: "('d \<Rightarrow> 'e) \<Rightarrow> ('s, 'd, 'a) action \<Rightarrow> ('s, 'e, 'a) action" where
  "act_map_err g m = (\<lambda>s. case m s of (r, t) \<Rightarrow> (map_err g r, t))"

lemma act_simps [simp, res_simps]:
  "ret x s = (Inr x, s)" "fail e s = (Inl e, s)" "lift r s = (r, s)"
  by (simp_all add: ret_def fail_def lift_def)

lemma act_apply: "act m f s = (case m s of (Inl e, t) \<Rightarrow> (Inl e, t) | (Inr x, t) \<Rightarrow> f x t)"
  by (simp add: act_def)

lemma act_lift [simp, res_simps]:
  "act (lift (Inl e)) f s = (Inl e, s)" "act (lift (Inr x)) f s = f x s"
  by (simp_all add: act_def)

lemma act_ret [simp, res_simps]: "act (ret x) f s = f x s"
  by (simp add: act_def)

lemma act_fail [simp, res_simps]: "act (fail e) f s = (Inl e, s)"
  by (simp add: act_def)

lemma act_eq_Inr [res_elims]:
  "act m f s = (Inr y, u) \<longleftrightarrow> (\<exists>x t. m s = (Inr x, t) \<and> f x t = (Inr y, u))"
  by (auto simp: act_def split: prod.splits sum.splits)

lemma act_map_err_eq_Inr [res_elims]:
  "act_map_err g m s = (Inr y, u) \<longleftrightarrow> m s = (Inr y, u)"
  by (auto simp: act_map_err_def res_elims split: prod.splits)

lemma lift_eq_Inr [res_elims]: "lift r s = (Inr y, u) \<longleftrightarrow> r = Inr y \<and> u = s"
  by auto

text \<open>Taking a successful sequence of actions apart, one step at a time.\<close>

lemma act_ensure_InrE:
  assumes "act (lift (ensure b e)) f s = (Inr y, u)"
  obtains "b" "f () s = (Inr y, u)"
  using assms by (auto simp: res_elims)

lemma act_lift_InrE:
  assumes "act (lift r) f s = (Inr y, u)"
  obtains x where "r = Inr x" "f x s = (Inr y, u)"
  using assms by (auto simp: res_elims)

lemma act_map_err_InrE:
  assumes "act (act_map_err g m) f s = (Inr y, u)"
  obtains x t where "m s = (Inr x, t)" "f x t = (Inr y, u)"
  using assms by (auto simp: res_elims)

lemma act_InrE:
  assumes "act m f s = (Inr y, u)"
  obtains x t where "m s = (Inr x, t)" "f x t = (Inr y, u)"
  using assms by (auto simp: res_elims)

lemmas act_steps = act_ensure_InrE act_lift_InrE act_map_err_InrE act_InrE

section \<open>Checked machine arithmetic\<close>

definition checked_add_u64 :: "u64 \<Rightarrow> u64 \<Rightarrow> u64 option" where
  "checked_add_u64 a b = (if unat a + unat b < 2 ^ 64 then Some (a + b) else None)"

definition checked_add_u32 :: "u32 \<Rightarrow> u32 \<Rightarrow> u32 option" where
  "checked_add_u32 a b = (if unat a + unat b < 2 ^ 32 then Some (a + b) else None)"

lemma unat_bound: "unat (w :: 'a :: len word) < 2 ^ LENGTH('a)"
  by (rule unsigned_less)

lemma unat_add_no_overflow:
  "unat (a :: 'a :: len word) + unat b < 2 ^ LENGTH('a) \<Longrightarrow> unat (a + b) = unat a + unat b"
  by (simp add: unat_word_ariths)

lemma checked_add_u64_Some: "checked_add_u64 a b = Some c \<Longrightarrow> unat c = unat a + unat b"
  using unat_add_no_overflow [of a b] by (auto simp: checked_add_u64_def split: if_splits)

lemma checked_add_u64_None: "checked_add_u64 a b = None \<longleftrightarrow> 2 ^ 64 \<le> unat a + unat b"
  by (auto simp: checked_add_u64_def)

lemma checked_add_u64_of_nat:
  "m + n < 2 ^ 64 \<Longrightarrow> checked_add_u64 (of_nat m) (of_nat n) = Some (of_nat (m + n))"
  by (simp add: checked_add_u64_def unat_of_nat take_bit_nat_eq_self)

lemma checked_add_u32_Some: "checked_add_u32 a b = Some c \<Longrightarrow> unat c = unat a + unat b"
  using unat_add_no_overflow [of a b] by (auto simp: checked_add_u32_def split: if_splits)

section \<open>Little-endian integers\<close>

text \<open>\<open>to_le_bytes\<close> and \<open>from_le_bytes\<close> of Rust's unsigned integers.\<close>

fun le_bytes :: "nat \<Rightarrow> nat \<Rightarrow> bytes" where
  "le_bytes 0 n = []"
| "le_bytes (Suc k) n = of_nat n # le_bytes k (n div 256)"

fun le_nat :: "bytes \<Rightarrow> nat" where
  "le_nat [] = 0"
| "le_nat (b # bs) = unat b + 256 * le_nat bs"

definition u32_to_le_bytes :: "u32 \<Rightarrow> bytes" where
  "u32_to_le_bytes w = le_bytes 4 (unat w)"

definition u64_to_le_bytes :: "u64 \<Rightarrow> bytes" where
  "u64_to_le_bytes w = le_bytes 8 (unat w)"

definition u32_from_le_bytes :: "bytes \<Rightarrow> u32" where
  "u32_from_le_bytes bs = of_nat (le_nat bs)"

definition u64_from_le_bytes :: "bytes \<Rightarrow> u64" where
  "u64_from_le_bytes bs = of_nat (le_nat bs)"

lemma le_bytes_numeral [byte_eval]:
  "le_bytes (numeral k) n = of_nat n # le_bytes (pred_numeral k) (n div 256)"
  by (subst numeral_eq_Suc) (rule le_bytes.simps)

lemma replicate_numeral_eval [byte_eval]:
  "replicate (numeral k) x = x # replicate (pred_numeral k) x"
  by (subst numeral_eq_Suc) (rule replicate.simps)

lemma length_le_bytes [simp, len_simps]: "length (le_bytes k n) = k"
  by (induction k arbitrary: n) auto

lemma length_u32_to_le_bytes [simp, len_simps]: "length (u32_to_le_bytes w) = 4"
  by (simp add: u32_to_le_bytes_def)

lemma length_u64_to_le_bytes [simp, len_simps]: "length (u64_to_le_bytes w) = 8"
  by (simp add: u64_to_le_bytes_def)

lemma unat_of_nat_byte: "unat (of_nat n :: byte) = n mod 256"
  by (simp add: unat_of_nat take_bit_eq_mod)

lemma le_nat_le_bytes: "le_nat (le_bytes k n) = n mod 256 ^ k"
proof (induction k arbitrary: n)
  case 0
  then show ?case by simp
next
  case (Suc k)
  have "n mod (256 * 256 ^ k) = n mod 256 + 256 * (n div 256 mod 256 ^ k)"
    by (simp add: mod_mult2_eq add.commute)
  with Suc show ?case by (simp add: unat_of_nat_byte)
qed

lemma le_bytes_le_nat: "le_bytes (length bs) (le_nat bs) = bs"
proof (induction bs)
  case Nil
  then show ?case by simp
next
  case (Cons b bs)
  have lt: "unat b < 256"
    using unat_bound [of b] by simp
  have "(unat b + 256 * le_nat bs) div 256 = le_nat bs"
    using lt by simp
  moreover have "(of_nat (unat b + 256 * le_nat bs) :: byte) = b"
    by (rule word_unat_eq_iff [THEN iffD2]) (use lt in \<open>simp add: unat_of_nat_byte del: of_nat_add\<close>)
  ultimately show ?case
    using Cons by (simp del: of_nat_add)
qed

lemma le_nat_bound: "le_nat bs < 256 ^ length bs"
  using le_nat_le_bytes [of "length bs" "le_nat bs"] le_bytes_le_nat [of bs]
  by (metis mod_less_divisor zero_less_numeral zero_less_power)

lemma u32_le_roundtrip [simp]: "u32_from_le_bytes (u32_to_le_bytes w) = w"
proof -
  have "unat w mod 256 ^ 4 = unat w"
    using unat_bound [of w] by simp
  then show ?thesis
    by (simp add: u32_from_le_bytes_def u32_to_le_bytes_def le_nat_le_bytes)
qed

lemma u64_le_roundtrip [simp]: "u64_from_le_bytes (u64_to_le_bytes w) = w"
proof -
  have "unat w mod 256 ^ 8 = unat w"
    using unat_bound [of w] by simp
  then show ?thesis
    by (simp add: u64_from_le_bytes_def u64_to_le_bytes_def le_nat_le_bytes)
qed

lemma u32_to_le_bytes_inj [simp]: "u32_to_le_bytes a = u32_to_le_bytes b \<longleftrightarrow> a = b"
  by (metis u32_le_roundtrip)

lemma u64_to_le_bytes_inj [simp]: "u64_to_le_bytes a = u64_to_le_bytes b \<longleftrightarrow> a = b"
  by (metis u64_le_roundtrip)

lemma unat_u32_from_le_bytes: "length bs = 4 \<Longrightarrow> unat (u32_from_le_bytes bs) = le_nat bs"
  using le_nat_bound [of bs] by (simp add: u32_from_le_bytes_def unat_of_nat take_bit_nat_eq_self)

lemma unat_u64_from_le_bytes: "length bs = 8 \<Longrightarrow> unat (u64_from_le_bytes bs) = le_nat bs"
  using le_nat_bound [of bs] by (simp add: u64_from_le_bytes_def unat_of_nat take_bit_nat_eq_self)

lemma u32_from_le_bytes_inj:
  "length a = 4 \<Longrightarrow> length b = 4 \<Longrightarrow> u32_from_le_bytes a = u32_from_le_bytes b \<Longrightarrow> a = b"
  by (metis le_bytes_le_nat unat_u32_from_le_bytes)

lemma u32_to_from_le_bytes: "length bs = 4 \<Longrightarrow> u32_to_le_bytes (u32_from_le_bytes bs) = bs"
  by (metis le_bytes_le_nat u32_to_le_bytes_def unat_u32_from_le_bytes)

section \<open>Byte-wise XOR and slices\<close>

definition xor_bytes :: "bytes \<Rightarrow> bytes \<Rightarrow> bytes" where
  "xor_bytes xs ys = map2 (XOR) xs ys"

lemma length_xor_bytes [simp, len_simps]: "length (xor_bytes xs ys) = min (length xs) (length ys)"
  by (simp add: xor_bytes_def)

lemma xor_bytes_involution: "length xs \<le> length ks \<Longrightarrow> xor_bytes (xor_bytes xs ks) ks = xs"
  unfolding xor_bytes_def
  by (rule nth_equalityI) (auto simp: xor.assoc)

lemma xor_bytes_inj:
  assumes "length a = length b" "length xs = length a" "xor_bytes xs a = xor_bytes xs b"
  shows "a = b"
proof (rule nth_equalityI)
  show "length a = length b" by fact
next
  fix i assume i: "i < length a"
  have "xor_bytes xs a ! i = xor_bytes xs b ! i" using assms(3) by simp
  then have "xs ! i XOR (xs ! i XOR a ! i) = xs ! i XOR (xs ! i XOR b ! i)"
    using i assms(1,2) by (simp add: xor_bytes_def)
  then show "a ! i = b ! i"
    by (simp add: xor.assoc [symmetric])
qed

text \<open>\<open>data.get(a..b)\<close>: the slice, or \<open>None\<close> when it does not lie inside the data.\<close>

definition get_range :: "nat \<Rightarrow> nat \<Rightarrow> 'a list \<Rightarrow> 'a list option" where
  "get_range a b xs = (if a \<le> b \<and> b \<le> length xs then Some (take (b - a) (drop a xs)) else None)"

lemma get_range_append:
  "get_range (length xs) (length xs + length ys) (xs @ ys @ zs) = Some ys"
  by (simp add: get_range_def)

lemma get_range_prefix: "n = length xs \<Longrightarrow> get_range 0 n (xs @ ys) = Some xs"
  by (simp add: get_range_def)

text \<open>ASCII literals as bytes, for the domain-separation strings of the code.\<close>

definition ascii :: "string \<Rightarrow> bytes" where
  "ascii s = map of_char s"

lemma unat_of_char_byte: "unat (of_char c :: byte) = of_char c"
proof -
  have "unat (of_nat (of_char c) :: byte) = of_char c"
    by (simp only: unat_of_nat_byte of_char_mod_256)
  then show ?thesis by (simp only: of_nat_of_char)
qed

lemma ascii_inj [simp]: "ascii s = ascii t \<longleftrightarrow> s = t"
proof -
  have "inj (of_char :: char \<Rightarrow> byte)"
    by (rule injI) (metis of_char_eq_iff unat_of_char_byte)
  then show ?thesis by (simp add: ascii_def inj_map_eq_map)
qed

lemma take_ascii: "take n (ascii s) = ascii (take n s)"
  by (simp add: ascii_def take_map)

lemma length_ascii [simp, len_simps]: "length (ascii s) = length s"
  by (simp add: ascii_def)

text \<open>Text: decimal numbers, as \<open>format!("{}")\<close> prints them, and ASCII case folding.\<close>

fun decimal :: "nat \<Rightarrow> string" where
  "decimal n =
     (if n < 10 then [char_of (48 + n)] else decimal (n div 10) @ [char_of (48 + n mod 10)])"

declare decimal.simps [simp del]

definition to_ascii_lowercase :: "char \<Rightarrow> char" where
  "to_ascii_lowercase c =
     (let n = of_char c :: nat in if 65 \<le> n \<and> n \<le> 90 then char_of (n + 32) else c)"

definition eq_ignore_ascii_case :: "string \<Rightarrow> string \<Rightarrow> bool" where
  "eq_ignore_ascii_case a b \<longleftrightarrow> map to_ascii_lowercase a = map to_ascii_lowercase b"

lemma eq_ignore_ascii_case_refl [simp]: "eq_ignore_ascii_case a a"
  by (simp add: eq_ignore_ascii_case_def)

end
