(* ===== verification/Errors.thy ===== *)
theory Errors
  imports Prelude
begin

text \<open>
  The error type of the crypto module (\<open>CryptoError\<close>, crypto/mod.rs) and the part of
  \<open>std::io::ErrorKind\<close> the code distinguishes. The payload of \<open>Serialization\<close> (a
  postcard error) is never inspected and is left out; static messages are kept, since the
  code's branches are told apart by them.
\<close>

datatype io_error = NotFound | AlreadyExists | InvalidData | UnexpectedEof | OtherIo

datatype crypto_error =
    Io io_error
  | Serialization
  | Validation string
  | EncryptionFailed
  | DecryptionFailed
  | UnsupportedProfile
  | MissingKdfParams
  | MissingSecondaryNonce
  | OutputExists
  | PolicyViolationErr string

end
