(* ===== verification/Envelope.thy ===== *)
theory Envelope
  imports Errors
begin

text \<open>
  The serialized data of crate lvau-protocol (src/envelope.rs). Fixed-size arrays
  \<open>[u8; N]\<close> are byte lists whose length the Rust type fixes; \<open>env_arrays\<close> states those
  lengths for an envelope. \<open>Vec<u8>\<close> is a byte list, \<open>String\<close> a character list (a
  character is one byte of the UTF-8 text).
\<close>

definition MAGIC_REAL :: bytes where
  "MAGIC_REAL = [0x4C, 0x56, 0x41, 0x55]"

definition LEGACY_VERSION :: u16 where "LEGACY_VERSION = 1"

definition CURRENT_VERSION :: u16 where "CURRENT_VERSION = 2"

datatype security_profile = Fast | Balanced | Archive | Paranoid | Extreme

datatype algorithm_id =
    XChaCha20Poly1305
  | CascadeAesGcmXChaCha
  | TripleCascadeAesXChaChaLco
  | X25519
  | Ed25519
  | X25519MlkemHybrid
  | Ed25519MldsaHybrid

datatype kdf_params = Argon2id (m_cost: u32) (t_cost: u32) (p_cost: u32) (kdf_salt: bytes)

datatype recipient =
    RPassword (wrap_nonce: bytes) (encrypted_file_key: bytes)
  | RX25519MlkemHybrid (ephemeral_public_x25519: bytes) (mlkem_ciphertext: bytes)
      (encrypted_file_key: bytes)

datatype content_type = SingleFile | Bundle

record envelope_signature =
  sig_fingerprint :: bytes
  sig_bytes :: bytes
  sig_created_at :: "string option"
  sig_comment :: "string option"

record approval_signature =
  ap_fingerprint :: bytes
  ap_signature :: bytes
  ap_comment :: "string option"

record release_metadata =
  rel_project_name :: "string option"
  rel_version :: "string option"
  rel_git_commit :: "string option"
  rel_build_timestamp :: "string option"

record bundle_entry =
  relative_path :: string
  be_size :: u64
  blake3_hash :: bytes
  be_offset :: u64

record bundle_manifest =
  entries :: "bundle_entry list"
  bm_created_at :: "string option"
  bm_tool_version :: "string option"

record envelope_header =
  h_magic :: bytes
  h_version :: u16
  h_profile :: security_profile
  h_algorithm :: algorithm_id
  h_kdf :: "kdf_params option"
  h_recipients :: "recipient list"

record envelope =
  header :: envelope_header
  plaintext_len :: u64
  e_nonce :: bytes
  secondary_nonce :: "bytes option"
  aad_hash :: bytes
  metadata :: bytes
  e_content_type :: "content_type option"
  e_signature :: "envelope_signature option"
  public_label :: "string option"
  approvals :: "approval_signature list"
  e_release :: "release_metadata option"
  policy_overridden :: bool
  recovery_metadata :: "bytes option"

definition validate :: "envelope \<Rightarrow> string + unit" where
  "validate e =
     (if h_magic (header e) \<noteq> MAGIC_REAL then Inl ''Invalid magic bytes, not a Lvau file''
      else if \<not> (LEGACY_VERSION \<le> h_version (header e) \<and> h_version (header e) \<le> CURRENT_VERSION)
      then Inl ''Unsupported format version''
      else Inr ())"

definition effective_content_type :: "envelope \<Rightarrow> content_type" where
  "effective_content_type e =
     (case e_content_type e of None \<Rightarrow> SingleFile | Some ct \<Rightarrow> ct)"

section \<open>Lemmas\<close>

lemma validate_Inr:
  "validate e = Inr u \<longleftrightarrow>
     h_magic (header e) = MAGIC_REAL \<and>
     (h_version (header e) = LEGACY_VERSION \<or> h_version (header e) = CURRENT_VERSION)"
proof -
  have "1 \<le> (v :: u16) \<and> v \<le> 2 \<longleftrightarrow> v = 1 \<or> v = 2" for v
  proof
    assume "1 \<le> v \<and> v \<le> 2"
    then have "1 \<le> unat v" "unat v \<le> 2"
      by (simp_all add: word_le_nat_alt)
    then have "unat v = 1 \<or> unat v = 2" by linarith
    then show "v = 1 \<or> v = 2"
      by (auto simp: word_unat_eq_iff)
  next
    assume "v = 1 \<or> v = 2"
    then show "1 \<le> v \<and> v \<le> 2"
      by (auto simp: word_le_nat_alt)
  qed
  then show ?thesis
    by (auto simp: validate_def LEGACY_VERSION_def CURRENT_VERSION_def)
qed

lemma versions_distinct [simp]: "LEGACY_VERSION \<noteq> CURRENT_VERSION" "CURRENT_VERSION \<noteq> LEGACY_VERSION"
  by (simp_all add: LEGACY_VERSION_def CURRENT_VERSION_def)

lemma current_le_legacy [simp]: "\<not> CURRENT_VERSION \<le> LEGACY_VERSION" "\<not> LEGACY_VERSION \<ge> CURRENT_VERSION"
  "LEGACY_VERSION < CURRENT_VERSION"
  by (simp_all add: LEGACY_VERSION_def CURRENT_VERSION_def word_le_nat_alt word_less_nat_alt)

text \<open>The lengths of the fixed-size arrays of an envelope.\<close>

definition recipient_arrays :: "recipient \<Rightarrow> bool" where
  "recipient_arrays r = (case r of RPassword n _ \<Rightarrow> length n = 24
     | RX25519MlkemHybrid pk _ _ \<Rightarrow> length pk = 32)"

definition env_arrays :: "envelope \<Rightarrow> bool" where
  "env_arrays e \<longleftrightarrow>
     length (h_magic (header e)) = 4 \<and> length (e_nonce e) = 24 \<and> length (aad_hash e) = 32 \<and>
     (\<forall>sn. secondary_nonce e = Some sn \<longrightarrow> length sn = 12) \<and>
     (\<forall>k. h_kdf (header e) = Some k \<longrightarrow> length (kdf_salt k) = 16) \<and>
     (\<forall>r \<in> set (h_recipients (header e)). recipient_arrays r)"

end
