(* ===== verification/Ciphers.thy ===== *)
theory Ciphers
  imports Errors
begin

text \<open>
  The third-party primitives the payload pipeline calls (crates chacha20poly1305, aes-gcm
  and hkdf), as a record of functions: they are parameters of the model. A key, a nonce,
  associated data and a message give a ciphertext or fail.

  \<open>aead_laws\<close> is what their documentation promises of a deterministic AEAD with a 16-byte
  tag: decryption inverts encryption, and a ciphertext that decrypts is the one encryption
  produces (the tag is recomputed and compared). Nothing is assumed about secrecy.
\<close>

record ciphers =
  xchacha_encrypt :: "bytes \<Rightarrow> bytes \<Rightarrow> bytes \<Rightarrow> bytes \<Rightarrow> bytes option"
  xchacha_decrypt :: "bytes \<Rightarrow> bytes \<Rightarrow> bytes \<Rightarrow> bytes \<Rightarrow> bytes option"
  aesgcm_encrypt :: "bytes \<Rightarrow> bytes \<Rightarrow> bytes \<Rightarrow> bytes \<Rightarrow> bytes option"
  aesgcm_decrypt :: "bytes \<Rightarrow> bytes \<Rightarrow> bytes \<Rightarrow> bytes \<Rightarrow> bytes option"
  hkdf_new :: "bytes option \<Rightarrow> bytes \<Rightarrow> bytes"
  hkdf_expand :: "bytes \<Rightarrow> bytes \<Rightarrow> nat \<Rightarrow> bytes option"

definition aead_laws ::
  "(bytes \<Rightarrow> bytes \<Rightarrow> bytes \<Rightarrow> bytes \<Rightarrow> bytes option) \<Rightarrow>
   (bytes \<Rightarrow> bytes \<Rightarrow> bytes \<Rightarrow> bytes \<Rightarrow> bytes option) \<Rightarrow> bool" where
  "aead_laws enc dec \<longleftrightarrow>
     (\<forall>k n a m c. enc k n a m = Some c \<longrightarrow> dec k n a c = Some m \<and> length c = length m + 16) \<and>
     (\<forall>k n a m c. dec k n a c = Some m \<longrightarrow> enc k n a m = Some c)"

definition ciphers_ok :: "ciphers \<Rightarrow> bool" where
  "ciphers_ok C \<longleftrightarrow>
     aead_laws (xchacha_encrypt C) (xchacha_decrypt C) \<and>
     aead_laws (aesgcm_encrypt C) (aesgcm_decrypt C)"

lemma ciphers_okD:
  assumes "ciphers_ok C"
  shows "xchacha_encrypt C k n a m = Some c \<longleftrightarrow> xchacha_decrypt C k n a c = Some m"
    and "aesgcm_encrypt C k n a m = Some c \<longleftrightarrow> aesgcm_decrypt C k n a c = Some m"
    and "xchacha_encrypt C k n a m = Some c \<Longrightarrow> length c = length m + 16"
    and "aesgcm_encrypt C k n a m = Some c \<Longrightarrow> length c = length m + 16"
  using assms unfolding ciphers_ok_def aead_laws_def by blast+

section \<open>An instance\<close>

text \<open>
  A concrete instance of the laws, for the witnesses: the tag is sixteen copies of the sum
  of all bytes of the key, nonce, associated data and message.
\<close>

definition sum_tag :: "bytes \<Rightarrow> bytes \<Rightarrow> bytes \<Rightarrow> bytes \<Rightarrow> bytes" where
  "sum_tag k n a m = replicate 16 (sum_list k + sum_list n + sum_list a + sum_list m)"

definition tag_encrypt :: "bytes \<Rightarrow> bytes \<Rightarrow> bytes \<Rightarrow> bytes \<Rightarrow> bytes option" where
  "tag_encrypt k n a m = Some (m @ sum_tag k n a m)"

definition tag_decrypt :: "bytes \<Rightarrow> bytes \<Rightarrow> bytes \<Rightarrow> bytes \<Rightarrow> bytes option" where
  "tag_decrypt k n a c =
     (let m = take (length c - 16) c
      in if 16 \<le> length c \<and> drop (length c - 16) c = sum_tag k n a m then Some m else None)"

lemma tag_laws: "aead_laws tag_encrypt tag_decrypt"
  unfolding aead_laws_def
proof (intro conjI allI impI)
  fix k n a m c
  assume "tag_encrypt k n a m = Some c"
  then show "tag_decrypt k n a c = Some m" "length c = length m + 16"
    by (auto simp: tag_encrypt_def tag_decrypt_def sum_tag_def)
next
  fix k n a m c
  assume "tag_decrypt k n a c = Some m"
  then show "tag_encrypt k n a m = Some c"
    by (auto simp: tag_encrypt_def tag_decrypt_def Let_def split: if_splits)
      (metis append_take_drop_id)
qed

definition sample_ciphers :: ciphers where
  "sample_ciphers =
     \<lparr>xchacha_encrypt = tag_encrypt, xchacha_decrypt = tag_decrypt,
      aesgcm_encrypt = tag_encrypt, aesgcm_decrypt = tag_decrypt,
      hkdf_new = (\<lambda>salt ikm. (case salt of None \<Rightarrow> ikm | Some s \<Rightarrow> s @ ikm)),
      hkdf_expand = (\<lambda>prk info n. Some (replicate n (sum_list prk + sum_list info)))\<rparr>"

lemma sample_ciphers_ok [simp]: "ciphers_ok sample_ciphers"
  by (simp add: ciphers_ok_def sample_ciphers_def tag_laws)

end
