(* ===== verification/Key_Schedule.thy ===== *)
theory Key_Schedule
  imports Ciphers
begin

text \<open>
  Domain-separated key derivation (crypto/key_schedule.rs): a purpose selects a fixed HKDF
  label. HKDF itself is the parameter \<open>hkdf_expand\<close>.
\<close>

datatype key_purpose =
    Payload | CascadeAes | CascadeXChaCha | LegacyLco | KeyWrap
  | EnvelopeCommitment | BundleManifest | Padding

fun label :: "key_purpose \<Rightarrow> bytes" where
  "label Payload = ascii ''Lvau-file-encryption''"
| "label CascadeAes = ascii ''Lvau-Cascade-AES''"
| "label CascadeXChaCha = ascii ''Lvau-Cascade-XChaCha''"
| "label LegacyLco = ascii ''Lvau-Cascade-LCO''"
| "label KeyWrap = ascii ''Lvau-Key-Wrap''"
| "label EnvelopeCommitment = ascii ''Lvau-v3-envelope-commitment''"
| "label BundleManifest = ascii ''Lvau-v3-bundle-manifest''"
| "label Padding = ascii ''Lvau-v3-padding''"

definition derive_subkey :: "ciphers \<Rightarrow> bytes \<Rightarrow> key_purpose \<Rightarrow> crypto_error + bytes" where
  "derive_subkey C hk purpose = ok_or EncryptionFailed (hkdf_expand C hk (label purpose) 32)"

text \<open>The label of the \<open>KeyWrap\<close> purpose and the literal used by the decryption paths agree.\<close>

lemma key_wrap_label: "label KeyWrap = ascii ''Lvau-Key-Wrap''"
  by simp

text \<open>
  The eight key purposes have eight different labels, none a prefix of another, so no
  two purposes ever expand the root key with the same input.
\<close>

theorem labels_prefix_free:
  "label p = take (length (label p)) (label q) \<longleftrightarrow> p = q"
  by (cases p; cases q) (simp_all add: take_ascii len_simps)

end
