(* ===== verification/Framing.thy ===== *)
theory Framing
  imports Errors
begin

text \<open>
  Per-chunk nonces and associated data of format v2 (crypto/framing.rs). The locale
  \<open>chunk_nonce\<close> is the contract the payload pipeline relies on: a derivation that keeps
  the nonce length and never maps two chunk indices to the same nonce.
\<close>

section \<open>The code\<close>

text \<open>The loop over \<open>nonce[..8].iter_mut().zip(chunk_index.to_le_bytes())\<close>.\<close>

definition xor_index :: "bytes \<Rightarrow> u64 \<Rightarrow> bytes" where
  "xor_index base chunk_index =
     xor_bytes (take 8 base) (u64_to_le_bytes chunk_index) @ drop 8 base"

definition xchacha_nonce :: "bytes \<Rightarrow> u64 \<Rightarrow> bytes" where
  "xchacha_nonce base chunk_index = xor_index base chunk_index"

definition aes_nonce :: "bytes \<Rightarrow> u64 \<Rightarrow> bytes" where
  "aes_nonce base chunk_index = xor_index base chunk_index"

definition chunk_aad :: "bytes \<Rightarrow> u64 \<Rightarrow> bytes" where
  "chunk_aad commitment chunk_index = commitment @ u64_to_le_bytes chunk_index"

definition checked_next_chunk :: "u64 \<Rightarrow> crypto_error + u64" where
  "checked_next_chunk chunk_index =
     ok_or (Validation ''Chunk index overflow'') (checked_add_u64 chunk_index 1)"

section \<open>Injectivity\<close>

lemma length_xor_index: "8 \<le> length base \<Longrightarrow> length (xor_index base i) = length base"
  by (simp add: xor_index_def)

lemma xor_index_inj:
  assumes "8 \<le> length base" "xor_index base i = xor_index base j"
  shows "i = j"
proof -
  have "xor_bytes (take 8 base) (u64_to_le_bytes i) = xor_bytes (take 8 base) (u64_to_le_bytes j)"
    using assms by (simp add: xor_index_def)
  then have "u64_to_le_bytes i = u64_to_le_bytes j"
    by (rule xor_bytes_inj [rotated 2]) (use assms(1) in auto)
  then show ?thesis by simp
qed

lemma le_bytes_zero: "le_bytes k 0 = replicate k 0"
  by (induction k) auto

lemma xor_index_zero: "8 \<le> length base \<Longrightarrow> xor_index base 0 = base"
proof -
  assume le: "8 \<le> length base"
  have "xor_bytes (take 8 base) (replicate 8 0) = take 8 base"
    unfolding xor_bytes_def by (rule nth_equalityI) (use le in auto)
  then show ?thesis
    by (simp add: xor_index_def u64_to_le_bytes_def le_bytes_zero)
qed

locale chunk_nonce =
  fixes derive :: "bytes \<Rightarrow> u64 \<Rightarrow> bytes"
    and size_of :: nat
  assumes derive_length: "length base = size_of \<Longrightarrow> length (derive base i) = size_of"
    and derive_inj: "length base = size_of \<Longrightarrow> derive base i = derive base j \<Longrightarrow> i = j"
    and derive_zero: "length base = size_of \<Longrightarrow> derive base 0 = base"
begin

lemma run_distinct:
  assumes "length base = size_of" "n \<le> 2 ^ 64"
  shows "distinct (map (\<lambda>k. derive base (of_nat k)) [0..<n])"
proof (subst distinct_map, intro conjI inj_onI)
  show "distinct [0..<n]" by simp
next
  fix x y
  assume xy: "x \<in> set [0..<n]" "y \<in> set [0..<n]"
    "derive base (of_nat x) = derive base (of_nat y)"
  have "(of_nat x :: u64) = of_nat y"
    by (rule derive_inj [OF assms(1) xy(3)])
  then have "unat (of_nat x :: u64) = unat (of_nat y :: u64)" by simp
  with xy assms(2) show "x = y"
    by (simp add: unat_of_nat take_bit_nat_eq_self)
qed

lemma no_repeat: "length base = size_of \<Longrightarrow> i \<noteq> j \<Longrightarrow> derive base i \<noteq> derive base j"
  using derive_inj by blast

lemma later_fresh: "length base = size_of \<Longrightarrow> i \<noteq> 0 \<Longrightarrow> derive base i \<noteq> base"
  using derive_inj derive_zero by metis

end

interpretation xn: chunk_nonce xchacha_nonce 24
  by unfold_locales
    (auto simp: xchacha_nonce_def length_xor_index xor_index_zero dest: xor_index_inj [rotated])

interpretation an: chunk_nonce aes_nonce 12
  by unfold_locales
    (auto simp: aes_nonce_def length_xor_index xor_index_zero dest: xor_index_inj [rotated])

lemma chunk_aad_inj:
  "length c = length d \<Longrightarrow> chunk_aad c i = chunk_aad d j \<longleftrightarrow> c = d \<and> i = j"
  by (simp add: chunk_aad_def)

lemma length_chunk_aad [len_simps]: "length (chunk_aad c i) = length c + 8"
  by (simp add: chunk_aad_def)

lemma checked_next_chunk_Inr:
  "checked_next_chunk i = Inr j \<longleftrightarrow> unat i + 1 < 2 ^ 64 \<and> j = i + 1"
  by (auto simp: checked_next_chunk_def checked_add_u64_def)

text \<open>The known-answer vector of the module's own tests.\<close>

lemma xchacha_nonce_vector:
  "take 8 (xchacha_nonce (replicate 24 0xA5) 0x0102030405060708) =
     [0xAD, 0xA2, 0xA3, 0xA0, 0xA1, 0xA6, 0xA7, 0xA4]"
  by (simp add: xchacha_nonce_def xor_index_def xor_bytes_def u64_to_le_bytes_def byte_eval)

end
