(* ===== verification/Lco.thy ===== *)
theory Lco
  imports Prelude "HOL-Library.Multiset"
begin

text \<open>
  The Lvau custom obfuscator (crypto/lco.rs), the byte stream the Extreme profile XORs over
  the outer ciphertext. The model keeps the two loops: the 256 mixing steps that permute the
  table, and the keystream loop over the data.
\<close>

section \<open>The code\<close>

definition swap_at :: "'a list \<Rightarrow> nat \<Rightarrow> nat \<Rightarrow> 'a list" where
  "swap_at st i j = st[i := st ! j, j := st ! i]"

definition lco_table :: bytes where
  "lco_table = map of_nat [0..<256]"

text \<open>\<open>nonce.get(i % nonce.len().max(1)).copied().unwrap_or(0)\<close>\<close>

definition lco_nonce_byte :: "bytes \<Rightarrow> nat \<Rightarrow> byte" where
  "lco_nonce_byte nonce i =
     (let k = i mod (max (length nonce) 1) in if k < length nonce then nonce ! k else 0)"

definition lco_mix :: "bytes \<Rightarrow> bytes \<Rightarrow> nat \<Rightarrow> byte" where
  "lco_mix key nonce i = word_rotl (i mod 8) (key ! (i mod 32) + lco_nonce_byte nonce i)"

definition lco_mix_step :: "bytes \<Rightarrow> bytes \<Rightarrow> nat \<Rightarrow> bytes \<times> byte \<Rightarrow> bytes \<times> byte" where
  "lco_mix_step key nonce i s =
     (case s of (st, j) \<Rightarrow>
        let j' = j + st ! i + lco_mix key nonce i in (swap_at st i (unat j'), j'))"

definition lco_schedule :: "bytes \<Rightarrow> bytes \<Rightarrow> bytes" where
  "lco_schedule key nonce = fst (fold (lco_mix_step key nonce) [0..<256] (lco_table, 0))"

fun lco_stream :: "bytes \<Rightarrow> byte \<Rightarrow> byte \<Rightarrow> bytes \<Rightarrow> bytes" where
  "lco_stream st i j [] = []"
| "lco_stream st i j (b # bs) =
     (let i' = i + 1;
          j' = j + st ! unat i';
          st' = swap_at st (unat i') (unat j');
          k = st' ! unat i' + st' ! unat j';
          keystream_byte = st' ! unat k;
          rot = unat (j' mod 8);
          obfuscated_byte = word_rotr rot keystream_byte
      in (b XOR obfuscated_byte) # lco_stream st' i' j' bs)"

definition apply_lco :: "bytes \<Rightarrow> bytes \<Rightarrow> bytes \<Rightarrow> bytes" where
  "apply_lco data key nonce = lco_stream (lco_schedule key nonce) 0 0 data"

section \<open>The keystream does not depend on the data\<close>

lemma length_lco_stream [simp]: "length (lco_stream st i j bs) = length bs"
  by (induction bs arbitrary: st i j) (auto simp: Let_def)

lemma length_apply_lco [simp, len_simps]: "length (apply_lco data key nonce) = length data"
  by (simp add: apply_lco_def)

lemma lco_stream_involution: "lco_stream st i j (lco_stream st i j bs) = bs"
  by (induction bs arbitrary: st i j) (auto simp: Let_def xor.assoc)

lemma lco_stream_prefix:
  "take n (lco_stream st i j bs) = lco_stream st i j (take n bs)"
  by (induction bs arbitrary: st i j n) (auto simp: Let_def take_Cons split: nat.splits)

section \<open>The table stays a permutation of the byte values\<close>

lemma length_swap_at [simp]: "length (swap_at st i j) = length st"
  by (simp add: swap_at_def)

lemma mset_swap_at: "i < length st \<Longrightarrow> j < length st \<Longrightarrow> mset (swap_at st i j) = mset st"
  by (simp add: swap_at_def mset_swap)

lemma unat_byte_lt: "unat (b :: byte) < 256"
  using unat_bound [of b] by simp

lemma lco_mix_step_mset:
  assumes "mset (fst s) = mset lco_table" "i < 256"
  shows "mset (fst (lco_mix_step key nonce i s)) = mset lco_table"
proof -
  have "length (fst s) = 256"
    using assms(1) by (metis lco_table_def length_map length_upt mset_eq_length diff_zero)
  with assms show ?thesis
    by (cases s) (simp add: lco_mix_step_def Let_def mset_swap_at unat_byte_lt)
qed

lemma lco_fold_mset:
  "mset (fst s) = mset lco_table \<Longrightarrow> (\<forall>i \<in> set is. i < 256) \<Longrightarrow>
     mset (fst (fold (lco_mix_step key nonce) is s)) = mset lco_table"
  by (induction "is" arbitrary: s) (auto simp: lco_mix_step_mset)

lemma lco_schedule_mset: "mset (lco_schedule key nonce) = mset lco_table"
  unfolding lco_schedule_def by (rule lco_fold_mset) auto

lemma distinct_lco_table: "distinct lco_table"
proof -
  have "inj_on (of_nat :: nat \<Rightarrow> byte) {0..<256}"
    by (rule inj_onI) (metis atLeastLessThan_iff mod_less unat_of_nat_byte)
  then show ?thesis by (simp add: lco_table_def distinct_map)
qed

lemma length_lco_schedule: "length (lco_schedule key nonce) = 256"
  using lco_schedule_mset [of key nonce]
  by (metis lco_table_def length_map length_upt mset_eq_length diff_zero)

section \<open>Properties\<close>

text \<open>
  applying the obfuscator twice with the same key and nonce gives the data back, for
  every key, nonce (the empty one included) and data, and it never changes the length.
\<close>

theorem lco_reversible:
  "apply_lco (apply_lco data key nonce) key nonce = data \<and>
   length (apply_lco data key nonce) = length data"
  by (simp add: apply_lco_def lco_stream_involution)

text \<open>
  After the key schedule the table is still a permutation of the 256 byte values, so
  every byte of it is a valid index into it and no table access of the keystream loop is
  out of range.
\<close>

theorem lco_table_permutation:
  "distinct (lco_schedule key nonce) \<and> set (lco_schedule key nonce) = UNIV \<and>
   length (lco_schedule key nonce) = 256"
proof -
  have d: "distinct (lco_schedule key nonce)"
    using distinct_lco_table lco_schedule_mset mset_eq_imp_distinct_iff by blast
  have "card (set (lco_schedule key nonce)) = card (UNIV :: byte set)"
    using distinct_card [OF d] by (simp add: length_lco_schedule card_word)
  then have "set (lco_schedule key nonce) = UNIV"
    by (simp add: card_eq_UNIV_imp_eq_UNIV)
  with d show ?thesis by (simp add: length_lco_schedule)
qed

end
