(* ===== verification/Streams.thy ===== *)
theory Streams
  imports Errors
begin

text \<open>
  The part of \<open>std::io\<close> the streaming code uses. A reader holds the bytes still to be
  delivered and a script of what its next calls do: \<open>Short k\<close> delivers at most \<open>k + 1\<close>
  bytes (a short read), \<open>Fault e\<close> fails; with the script used up, a call delivers as much
  as was asked for. \<open>read\<close> returns no bytes only at the end of the data or for an empty
  buffer, as \<open>Read::read\<close> documents. A writer collects bytes up to an optional capacity
  (a full disk) and the calls made to the progress callback.
\<close>

section \<open>Readers\<close>

datatype read_event = Short nat | Fault io_error

record reader =
  r_data :: bytes
  r_events :: "read_event list"

definition read :: "nat \<Rightarrow> reader \<Rightarrow> (io_error + bytes) \<times> reader" where
  "read n rd =
     (case r_events rd of
        [] \<Rightarrow> (Inr (take n (r_data rd)), rd\<lparr>r_data := drop n (r_data rd)\<rparr>)
      | Fault e # es \<Rightarrow> (Inl e, rd\<lparr>r_events := es\<rparr>)
      | Short k # es \<Rightarrow>
          (Inr (take (min n (Suc k)) (r_data rd)),
           rd\<lparr>r_data := drop (min n (Suc k)) (r_data rd), r_events := es\<rparr>))"

text \<open>
  The loop \<open>while len < want { let n = reader.read(&mut buf[len..])?; if n == 0 { break; }
  len += n; }\<close> of the streaming functions; \<open>acc\<close> is the filled part of the buffer.
\<close>

function fill :: "nat \<Rightarrow> bytes \<Rightarrow> reader \<Rightarrow> (io_error + bytes) \<times> reader" where
  "fill want acc rd =
     (if length acc < want
      then (case read (want - length acc) rd of
              (Inl e, rd') \<Rightarrow> (Inl e, rd')
            | (Inr got, rd') \<Rightarrow>
                if got = [] then (Inr acc, rd') else fill want (acc @ got) rd')
      else (Inr acc, rd))"
  by pat_completeness auto
termination
  by (relation "measure (\<lambda>(want, acc, rd). want - length acc)") (auto simp: neq_Nil_conv)

declare fill.simps [simp del]

text \<open>\<open>Read::read_exact\<close>: an early end of the data is \<open>UnexpectedEof\<close>.\<close>

definition read_exact :: "nat \<Rightarrow> reader \<Rightarrow> (io_error + bytes) \<times> reader" where
  "read_exact n rd =
     (case fill n [] rd of
        (Inl e, rd') \<Rightarrow> (Inl e, rd')
      | (Inr bs, rd') \<Rightarrow> if length bs = n then (Inr bs, rd') else (Inl UnexpectedEof, rd'))"

text \<open>A reader whose script has no faults, and readers that deliver the same bytes.\<close>

definition quiet :: "reader \<Rightarrow> bool" where
  "quiet rd \<longleftrightarrow> (\<forall>e. Fault e \<notin> set (r_events rd))"

lemma read_Inr:
  assumes "read n rd = (Inr got, rd')" "0 < n"
  shows "r_data rd = got @ r_data rd'" "length got \<le> n" "got = [] \<longleftrightarrow> r_data rd = []"
  using assms by (auto simp: read_def min_def split: list.splits read_event.splits if_splits)

lemma read_quiet:
  assumes "quiet rd"
  obtains got rd' where "read n rd = (Inr got, rd')" "quiet rd'"
  using assms
  by (cases "r_events rd"; cases "hd (r_events rd)")
    (auto simp: read_def quiet_def split: list.splits read_event.splits)

text \<open>
  Whatever the script, a filled buffer holds the next bytes of the data: short reads do not
  change what the loop collects.
\<close>

lemma fill_Inr:
  "fill want acc rd = (Inr bs, rd') \<Longrightarrow> length acc \<le> want \<Longrightarrow>
     bs = acc @ take (want - length acc) (r_data rd) \<and>
     r_data rd' = drop (want - length acc) (r_data rd)"
proof (induction want acc rd rule: fill.induct)
  case (1 want acc rd)
  show ?case
  proof (cases "length acc < want")
    case False
    with "1.prems" show ?thesis by (simp add: fill.simps [of want acc rd])
  next
    case lt: True
    obtain r rd1 where rd1: "read (want - length acc) rd = (r, rd1)" by fastforce
    from lt "1.prems" rd1 obtain got where r: "r = Inr got"
      by (cases r) (auto simp: fill.simps [of want acc rd])
    have pos: "0 < want - length acc" using lt by simp
    note got = read_Inr [OF rd1 [unfolded r] pos]
    show ?thesis
    proof (cases "got = []")
      case True
      with lt "1.prems" rd1 r got show ?thesis
        by (simp add: fill.simps [of want acc rd])
    next
      case False
      with lt "1.prems" rd1 r have "fill want (acc @ got) rd1 = (Inr bs, rd')"
        by (simp add: fill.simps [of want acc rd])
      with "1.IH" [OF lt rd1 [symmetric] r False] got lt have
        "bs = (acc @ got) @ take (want - length (acc @ got)) (r_data rd1)"
        "r_data rd' = drop (want - length (acc @ got)) (r_data rd1)"
        by auto
      with got show ?thesis by simp
    qed
  qed
qed

lemma fill_quiet:
  "quiet rd \<Longrightarrow> \<exists>bs rd'. fill want acc rd = (Inr bs, rd') \<and> quiet rd'"
proof (induction want acc rd rule: fill.induct)
  case (1 want acc rd)
  show ?case
  proof (cases "length acc < want")
    case False
    with "1.prems" show ?thesis by (simp add: fill.simps [of want acc rd])
  next
    case lt: True
    obtain got rd1 where rd1: "read (want - length acc) rd = (Inr got, rd1)" "quiet rd1"
      using read_quiet [OF "1.prems"] by blast
    show ?thesis
    proof (cases "got = []")
      case True
      with lt rd1 show ?thesis by (simp add: fill.simps [of want acc rd])
    next
      case False
      with "1.IH" [OF lt rd1(1) [symmetric] refl False rd1(2)] lt rd1 show ?thesis
        by (simp add: fill.simps [of want acc rd])
    qed
  qed
qed

lemma fill_quiet_eq:
  assumes "quiet rd"
  obtains rd' where "fill want [] rd = (Inr (take want (r_data rd)), rd')"
    "r_data rd' = drop want (r_data rd)" "quiet rd'"
proof -
  obtain bs rd' where f: "fill want [] rd = (Inr bs, rd')" "quiet rd'"
    using fill_quiet [OF assms] by blast
  show ?thesis
    by (rule that [of rd']) (use f fill_Inr [OF f(1)] in simp_all)
qed

section \<open>Writers\<close>

record writer =
  w_data :: bytes
  w_room :: "nat option"
  w_progress :: "nat list"

definition write_all :: "bytes \<Rightarrow> writer \<Rightarrow> (io_error + unit) \<times> writer" where
  "write_all bs wr =
     (case w_room wr of
        None \<Rightarrow> (Inr (), wr\<lparr>w_data := w_data wr @ bs\<rparr>)
      | Some r \<Rightarrow>
          if length bs \<le> r
          then (Inr (), wr\<lparr>w_data := w_data wr @ bs, w_room := Some (r - length bs)\<rparr>)
          else (Inl OtherIo, wr\<lparr>w_data := w_data wr @ take r bs, w_room := Some 0\<rparr>))"

text \<open>\<open>for chunk in batch { writer.write_all(&chunk)?; }\<close>\<close>

fun write_chunks :: "bytes list \<Rightarrow> writer \<Rightarrow> (io_error + unit) \<times> writer" where
  "write_chunks [] wr = (Inr (), wr)"
| "write_chunks (c # cs) wr =
     (case write_all c wr of (Inl e, wr') \<Rightarrow> (Inl e, wr') | (Inr _, wr') \<Rightarrow> write_chunks cs wr')"

definition report_progress :: "nat \<Rightarrow> writer \<Rightarrow> writer" where
  "report_progress n wr = wr\<lparr>w_progress := w_progress wr @ [n]\<rparr>"

lemma report_progress_sel [simp]:
  "w_data (report_progress n wr) = w_data wr" "w_room (report_progress n wr) = w_room wr"
  "w_progress (report_progress n wr) = w_progress wr @ [n]"
  by (simp_all add: report_progress_def)

lemma write_all_Inr:
  "write_all bs wr = (Inr u, wr') \<Longrightarrow>
     w_data wr' = w_data wr @ bs \<and> w_progress wr' = w_progress wr \<and>
     (w_room wr = None \<longrightarrow> w_room wr' = None)"
  by (cases "w_room wr") (auto simp: write_all_def split: if_splits)

lemma write_chunks_Inr:
  "write_chunks cs wr = (Inr u, wr') \<Longrightarrow>
     w_data wr' = w_data wr @ concat cs \<and> w_progress wr' = w_progress wr \<and>
     (w_room wr = None \<longrightarrow> w_room wr' = None)"
proof (induction cs arbitrary: wr)
  case Nil
  then show ?case by simp
next
  case (Cons c cs)
  obtain r wr1 where wr1: "write_all c wr = (r, wr1)" by fastforce
  with Cons.prems have r: "r = Inr ()" and rest: "write_chunks cs wr1 = (Inr u, wr')"
    by (auto split: sum.splits)
  from write_all_Inr [OF wr1 [unfolded r]] Cons.IH [OF rest] show ?case by simp
qed

lemma write_chunks_unlimited:
  "w_room wr = None \<Longrightarrow> \<exists>wr'. write_chunks cs wr = (Inr (), wr') \<and> w_room wr' = None"
  by (induction cs arbitrary: wr) (auto simp: write_all_def)

text \<open>An empty writer, as a fresh temporary file or an empty vector is.\<close>

definition fresh_writer :: "nat option \<Rightarrow> writer" where
  "fresh_writer room = \<lparr>w_data = [], w_room = room, w_progress = []\<rparr>"

lemma fresh_writer_sel [simp]:
  "w_data (fresh_writer room) = []" "w_room (fresh_writer room) = room"
  "w_progress (fresh_writer room) = []"
  by (simp_all add: fresh_writer_def)

end
