(* ===== verification/Parallel.thy ===== *)
theory Parallel
  imports Envelope Key_Schedule Framing Lco Streams
begin

text \<open>
  The streaming payload pipeline (crypto/parallel.rs): 1 MiB chunks, read in batches of 32,
  each chunk sealed under its own nonce and associated data, the batch written in order.
  The rayon loop of a batch is modelled by its sequential result: every chunk is processed
  from its index alone, and the first failing chunk decides the error.

  Both loops are stated with the reader and writer they work on; theory Payload_Stream proves
  what they compute.

  Byte counters (\<open>u64\<close> in the code) are naturals: they count bytes that were read or
  written. The chunk index, whose overflow the code checks, is a 64-bit word.
\<close>

section \<open>Chunk sizes and keys\<close>

definition CHUNK_SIZE :: nat where "CHUNK_SIZE = 1024 * 1024"

definition BATCH_CHUNKS :: nat where "BATCH_CHUNKS = 32"

fun get_encrypted_chunk_size :: "algorithm_id \<Rightarrow> nat" where
  "get_encrypted_chunk_size XChaCha20Poly1305 = CHUNK_SIZE + 16"
| "get_encrypted_chunk_size CascadeAesGcmXChaCha = CHUNK_SIZE + 32"
| "get_encrypted_chunk_size TripleCascadeAesXChaChaLco = CHUNK_SIZE + 32"
| "get_encrypted_chunk_size _ = CHUNK_SIZE"

record payload_keys =
  file_key :: bytes
  key_aes :: bytes
  key_xchacha :: bytes
  key_lco :: bytes

definition no_keys :: payload_keys where
  "no_keys = \<lparr>file_key = replicate 32 0, key_aes = replicate 32 0,
     key_xchacha = replicate 32 0, key_lco = replicate 32 0\<rparr>"

fun derive_payload_keys ::
  "ciphers \<Rightarrow> bytes \<Rightarrow> algorithm_id \<Rightarrow> crypto_error + payload_keys" where
  "derive_payload_keys C hk XChaCha20Poly1305 =
     rbind (derive_subkey C hk Payload) (\<lambda>k. Inr (no_keys\<lparr>file_key := k\<rparr>))"
| "derive_payload_keys C hk CascadeAesGcmXChaCha =
     rbind (derive_subkey C hk CascadeAes) (\<lambda>a.
     rbind (derive_subkey C hk CascadeXChaCha) (\<lambda>x.
       Inr (no_keys\<lparr>key_aes := a, key_xchacha := x\<rparr>)))"
| "derive_payload_keys C hk TripleCascadeAesXChaChaLco =
     rbind (derive_subkey C hk CascadeAes) (\<lambda>a.
     rbind (derive_subkey C hk CascadeXChaCha) (\<lambda>x.
     rbind (derive_subkey C hk LegacyLco) (\<lambda>l.
       Inr (no_keys\<lparr>key_aes := a, key_xchacha := x, key_lco := l\<rparr>))))"
| "derive_payload_keys C hk _ = Inl UnsupportedProfile"

section \<open>One chunk\<close>

text \<open>The variables captured by the closure that processes a chunk.\<close>

record chunk_ctx =
  cx_ciphers :: ciphers
  cx_alg :: algorithm_id
  cx_keys :: payload_keys
  cx_nonce :: bytes
  cx_secondary :: "bytes option"
  cx_aad :: bytes

definition encrypt_chunk :: "chunk_ctx \<Rightarrow> u64 \<Rightarrow> bytes \<Rightarrow> crypto_error + bytes" where
  "encrypt_chunk cx chunk_idx chunk =
     (let C = cx_ciphers cx;
          ks = cx_keys cx;
          chunk_nonce = xchacha_nonce (cx_nonce cx) chunk_idx;
          aad = chunk_aad (cx_aad cx) chunk_idx
      in case cx_alg cx of
           XChaCha20Poly1305 \<Rightarrow>
             ok_or EncryptionFailed (xchacha_encrypt C (file_key ks) chunk_nonce aad chunk)
         | CascadeAesGcmXChaCha \<Rightarrow>
             rbind (ok_or MissingSecondaryNonce (cx_secondary cx)) (\<lambda>sn.
             rbind (ok_or EncryptionFailed
               (aesgcm_encrypt C (key_aes ks) (aes_nonce sn chunk_idx) aad chunk)) (\<lambda>c1.
             ok_or EncryptionFailed (xchacha_encrypt C (key_xchacha ks) chunk_nonce aad c1)))
         | TripleCascadeAesXChaChaLco \<Rightarrow>
             rbind (ok_or MissingSecondaryNonce (cx_secondary cx)) (\<lambda>sn.
             rbind (ok_or EncryptionFailed
               (aesgcm_encrypt C (key_aes ks) (aes_nonce sn chunk_idx) aad chunk)) (\<lambda>c1.
             rbind (ok_or EncryptionFailed
               (xchacha_encrypt C (key_xchacha ks) chunk_nonce aad c1)) (\<lambda>c2.
             Inr (apply_lco c2 (key_lco ks) chunk_nonce))))
         | _ \<Rightarrow> Inl UnsupportedProfile)"

definition decrypt_chunk :: "chunk_ctx \<Rightarrow> u64 \<Rightarrow> bytes \<Rightarrow> crypto_error + bytes" where
  "decrypt_chunk cx chunk_idx chunk =
     (let C = cx_ciphers cx;
          ks = cx_keys cx;
          chunk_nonce = xchacha_nonce (cx_nonce cx) chunk_idx;
          aad = chunk_aad (cx_aad cx) chunk_idx
      in case cx_alg cx of
           XChaCha20Poly1305 \<Rightarrow>
             ok_or DecryptionFailed (xchacha_decrypt C (file_key ks) chunk_nonce aad chunk)
         | CascadeAesGcmXChaCha \<Rightarrow>
             rbind (ok_or MissingSecondaryNonce (cx_secondary cx)) (\<lambda>sn.
             rbind (ok_or DecryptionFailed
               (xchacha_decrypt C (key_xchacha ks) chunk_nonce aad chunk)) (\<lambda>c1.
             ok_or DecryptionFailed
               (aesgcm_decrypt C (key_aes ks) (aes_nonce sn chunk_idx) aad c1)))
         | TripleCascadeAesXChaChaLco \<Rightarrow>
             rbind (ok_or MissingSecondaryNonce (cx_secondary cx)) (\<lambda>sn.
             rbind (ok_or DecryptionFailed
               (xchacha_decrypt C (key_xchacha ks) chunk_nonce aad
                 (apply_lco chunk (key_lco ks) chunk_nonce))) (\<lambda>c1.
             ok_or DecryptionFailed
               (aesgcm_decrypt C (key_aes ks) (aes_nonce sn chunk_idx) aad c1)))
         | _ \<Rightarrow> Inl UnsupportedProfile)"

section \<open>A batch\<close>

text \<open>The chunks of one batch, processed from \<open>start_idx.checked_add(local_idx)\<close>.\<close>

fun par_chunks ::
  "(u64 \<Rightarrow> bytes \<Rightarrow> crypto_error + bytes) \<Rightarrow> u64 \<Rightarrow> nat \<Rightarrow> bytes list \<Rightarrow> crypto_error + bytes list"
  where
  "par_chunks f start_idx local_idx [] = Inr []"
| "par_chunks f start_idx local_idx (chunk # rest) =
     rbind (ok_or (Validation ''Chunk index overflow'')
       (checked_add_u64 start_idx (of_nat local_idx))) (\<lambda>chunk_idx.
     rbind (f chunk_idx chunk) (\<lambda>out.
     rbind (par_chunks f start_idx (Suc local_idx) rest) (\<lambda>outs.
       Inr (out # outs))))"

text \<open>Reading a batch of plaintext: up to \<open>BATCH_CHUNKS\<close> chunks, ending at a short one.\<close>

fun read_batch :: "nat \<Rightarrow> bytes list \<Rightarrow> reader \<Rightarrow> (crypto_error + bytes list) \<times> reader" where
  "read_batch 0 batch rd = (Inr batch, rd)"
| "read_batch (Suc n) batch rd =
     (case fill CHUNK_SIZE [] rd of
        (Inl e, rd') \<Rightarrow> (Inl (Io e), rd')
      | (Inr chunk, rd') \<Rightarrow>
          let batch' = (if chunk = [] then batch else batch @ [chunk])
          in if length chunk < CHUNK_SIZE then (Inr batch', rd') else read_batch n batch' rd')"

lemma read_batch_data:
  "read_batch n batch rd = (Inr batch', rd') \<Longrightarrow>
     concat batch' @ r_data rd' = concat batch @ r_data rd"
proof (induction n arbitrary: batch rd)
  case 0
  then show ?case by simp
next
  case (Suc n)
  obtain r rd1 where rd1: "fill CHUNK_SIZE [] rd = (r, rd1)" by fastforce
  with Suc.prems obtain chunk where r: "r = Inr chunk" by (cases r) auto
  from fill_Inr [OF rd1 [unfolded r]] have d: "chunk @ r_data rd1 = r_data rd" by simp
  show ?case
  proof (cases "length chunk < CHUNK_SIZE")
    case True
    with Suc.prems rd1 r d show ?thesis by (auto simp: Let_def split: if_splits)
  next
    case False
    with Suc.prems rd1 r have
      "read_batch n (if chunk = [] then batch else batch @ [chunk]) rd1 = (Inr batch', rd')"
      by (simp add: Let_def)
    from Suc.IH [OF this] d show ?thesis by (auto split: if_splits)
  qed
qed

definition batch_bytes :: "bytes list \<Rightarrow> nat" where
  "batch_bytes batch = sum_list (map length batch)"

lemma batch_bytes_concat: "batch_bytes batch = length (concat batch)"
  by (simp add: batch_bytes_def length_concat)

lemma read_batch_progress:
  assumes rb: "read_batch BATCH_CHUNKS [] rd = (Inr batch, rd')"
    and full: "\<not> batch_bytes (if batch = [] then [[]] else batch) < BATCH_CHUNKS * CHUNK_SIZE"
  shows "length (r_data rd') < length (r_data rd)"
proof -
  have "0 < BATCH_CHUNKS * CHUNK_SIZE"
    by (simp add: BATCH_CHUNKS_def CHUNK_SIZE_def)
  moreover have "batch_bytes (if batch = [] then [[]] else batch) = length (concat batch)"
    by (simp add: batch_bytes_concat)
  ultimately have "0 < length (concat batch)"
    using full by linarith
  moreover have "length (concat batch) + length (r_data rd') = length (r_data rd)"
    using arg_cong [OF read_batch_data [OF rb], of length] by (simp del: length_concat)
  ultimately show ?thesis by linarith
qed

section \<open>Streaming encryption\<close>

function enc_loop ::
  "chunk_ctx \<Rightarrow> u16 \<Rightarrow> nat \<Rightarrow> u64 \<Rightarrow> reader \<times> writer \<Rightarrow> (crypto_error + nat) \<times> (reader \<times> writer)"
  where
  "enc_loop cx format_version total_bytes_read global_chunk_idx (rd, wr) =
     (case read_batch BATCH_CHUNKS [] rd of
        (Inl e, rd') \<Rightarrow> (Inl e, (rd', wr))
      | (Inr batch0, rd') \<Rightarrow>
          if batch0 = [] \<and> \<not> (CURRENT_VERSION \<le> format_version \<and> global_chunk_idx = 0)
          then (Inr total_bytes_read, (rd', wr))
          else let batch = (if batch0 = [] then [[]] else batch0) in
            (case par_chunks (encrypt_chunk cx) global_chunk_idx 0 batch of
               Inl e \<Rightarrow> (Inl e, (rd', wr))
             | Inr cts \<Rightarrow>
                 (case write_chunks cts wr of
                    (Inl e, wr') \<Rightarrow> (Inl (Io e), (rd', wr'))
                  | (Inr _, wr') \<Rightarrow>
                      let written' = total_bytes_read + batch_bytes batch in
                      (case checked_add_u64 global_chunk_idx (of_nat (length batch)) of
                         None \<Rightarrow> (Inl (Validation ''Chunk index overflow''), (rd', wr'))
                       | Some idx' \<Rightarrow>
                           let wr'' = report_progress written' wr' in
                           if batch_bytes batch < BATCH_CHUNKS * CHUNK_SIZE
                           then (Inr written', (rd', wr''))
                           else enc_loop cx format_version written' idx' (rd', wr'')))))"
  by pat_completeness auto
termination
  by (relation "measure (\<lambda>(cx, ver, written, idx, rd, wr). length (r_data rd))")
    (auto dest!: sym [of "(_, _)" "read_batch _ _ _"] intro: read_batch_progress)

declare enc_loop.simps [simp del]

definition stream_encrypt_payload ::
  "ciphers \<Rightarrow> algorithm_id \<Rightarrow> u16 \<Rightarrow> bytes \<Rightarrow> bytes \<Rightarrow> bytes option \<Rightarrow> bytes \<Rightarrow>
   reader \<times> writer \<Rightarrow> (crypto_error + nat) \<times> (reader \<times> writer)" where
  "stream_encrypt_payload C algorithm format_version hk nonce_bytes secondary_nonce_bytes aad s =
     (case derive_payload_keys C hk algorithm of
        Inl e \<Rightarrow> (Inl e, s)
      | Inr ks \<Rightarrow>
          enc_loop \<lparr>cx_ciphers = C, cx_alg = algorithm, cx_keys = ks, cx_nonce = nonce_bytes,
            cx_secondary = secondary_nonce_bytes, cx_aad = aad\<rparr> format_version 0 0 s)"

section \<open>Streaming decryption\<close>

text \<open>
  Reading a batch of ciphertext frames. The size of each frame follows from the plaintext
  length still outstanding; the flag is \<open>eof_reached\<close>.
\<close>

definition tag_size :: "algorithm_id \<Rightarrow> nat" where
  "tag_size algorithm = get_encrypted_chunk_size algorithm - CHUNK_SIZE"

fun read_frames ::
  "algorithm_id \<Rightarrow> u16 \<Rightarrow> u64 \<Rightarrow> nat \<Rightarrow> u64 \<Rightarrow> nat \<Rightarrow> bytes list \<Rightarrow> bool \<Rightarrow> reader \<Rightarrow>
   (crypto_error + bytes list \<times> bool) \<times> reader" where
  "read_frames alg ver plen written idx 0 batch eof rd = (Inr (batch, eof), rd)"
| "read_frames alg ver plen written idx (Suc n) batch eof rd =
     (let remaining = unat plen - (written + length batch * CHUNK_SIZE);
          is_v2_empty_frame = (CURRENT_VERSION \<le> ver \<and> plen = 0 \<and> idx = 0 \<and> batch = []);
          expected_read_size =
            (if is_v2_empty_frame then tag_size alg
             else if remaining < CHUNK_SIZE then remaining + tag_size alg
             else get_encrypted_chunk_size alg)
      in if remaining = 0 \<and> \<not> is_v2_empty_frame then (Inr (batch, True), rd)
         else (case fill expected_read_size [] rd of
             (Inl e, rd') \<Rightarrow> (Inl (Io e), rd')
           | (Inr chunk, rd') \<Rightarrow>
               if chunk \<noteq> [] \<and> length chunk \<noteq> expected_read_size
               then (Inl DecryptionFailed, rd')
               else let batch' = (if chunk = [] then batch else batch @ [chunk]);
                        eof' = (eof \<or> (chunk = [] \<and> 0 < expected_read_size))
                    in if is_v2_empty_frame \<or> remaining < CHUNK_SIZE then (Inr (batch', True), rd')
                       else read_frames alg ver plen written idx n batch' eof' rd'))"

lemma read_frames_data:
  "read_frames alg ver plen written idx n batch eof rd = (Inr (batch', eof'), rd') \<Longrightarrow>
     concat batch' @ r_data rd' = concat batch @ r_data rd \<and>
     ([] \<notin> set batch \<longrightarrow> [] \<notin> set batch')"
proof (induction n arbitrary: batch eof rd)
  case 0
  then show ?case by simp
next
  case (Suc n)
  define remaining where "remaining = unat plen - (written + length batch * CHUNK_SIZE)"
  define v2e where "v2e = (CURRENT_VERSION \<le> ver \<and> plen = 0 \<and> idx = 0 \<and> batch = [])"
  define want where "want = (if v2e then tag_size alg
    else if remaining < CHUNK_SIZE then remaining + tag_size alg else get_encrypted_chunk_size alg)"
  note unfolded = Suc.prems [unfolded read_frames.simps Let_def, folded remaining_def v2e_def,
      folded want_def]
  show ?case
  proof (cases "remaining = 0 \<and> \<not> v2e")
    case True
    with unfolded show ?thesis by auto
  next
    case False
    obtain r rd1 where rd1: "fill want [] rd = (r, rd1)" by fastforce
    with unfolded False obtain chunk where r: "r = Inr chunk" by (cases r) auto
    from fill_Inr [OF rd1 [unfolded r]] have d: "chunk @ r_data rd1 = r_data rd" by simp
    show ?thesis
    proof (cases "v2e \<or> remaining < CHUNK_SIZE")
      case True
      with unfolded False rd1 r d show ?thesis by (auto split: if_splits)
    next
      case rec: False
      with unfolded False rd1 r obtain eof1 where
        "read_frames alg ver plen written idx n (if chunk = [] then batch else batch @ [chunk]) eof1 rd1
           = (Inr (batch', eof'), rd')"
        by (auto split: if_splits)
      from Suc.IH [OF this] d show ?thesis by (auto split: if_splits)
    qed
  qed
qed

lemma read_frames_progress:
  assumes rf: "read_frames alg ver plen written idx n [] eof rd = (Inr (batch, eof'), rd')"
    and ne: "batch \<noteq> []"
  shows "length (r_data rd') < length (r_data rd)"
proof -
  have d: "concat batch @ r_data rd' = r_data rd" and "[] \<notin> set batch"
    using read_frames_data [OF rf] by simp_all
  with ne have "concat batch \<noteq> []" by (cases batch) auto
  moreover have "length (concat batch) + length (r_data rd') = length (r_data rd)"
    using arg_cong [OF d, of length] by simp
  ultimately show ?thesis by (metis add_less_cancel_right add_0 length_greater_0_conv)
qed

function dec_loop ::
  "chunk_ctx \<Rightarrow> u16 \<Rightarrow> u64 \<Rightarrow> nat \<Rightarrow> u64 \<Rightarrow> bool \<Rightarrow> reader \<times> writer \<Rightarrow>
   (crypto_error + nat) \<times> (reader \<times> writer)" where
  "dec_loop cx ver plen written idx eof (rd, wr) =
     (if eof then (Inr written, (rd, wr))
      else (case read_frames (cx_alg cx) ver plen written idx BATCH_CHUNKS [] False rd of
          (Inl e, rd') \<Rightarrow> (Inl e, (rd', wr))
        | (Inr (batch, eof'), rd') \<Rightarrow>
            if batch = [] then (Inr written, (rd', wr))
            else (case par_chunks (decrypt_chunk cx) idx 0 batch of
                Inl e \<Rightarrow> (Inl e, (rd', wr))
              | Inr pts \<Rightarrow>
                  (case write_chunks pts wr of
                     (Inl e, wr') \<Rightarrow> (Inl (Io e), (rd', wr'))
                   | (Inr _, wr') \<Rightarrow>
                       let written' = written + batch_bytes pts in
                       (case checked_add_u64 idx (of_nat (length batch)) of
                          None \<Rightarrow> (Inl (Validation ''Chunk index overflow''), (rd', wr'))
                        | Some idx' \<Rightarrow>
                            dec_loop cx ver plen written' idx' eof'
                              (rd', report_progress written' wr'))))))"
  by pat_completeness auto
termination
  by (relation "measure (\<lambda>(cx, ver, plen, written, idx, eof, rd, wr). length (r_data rd))")
    (auto dest!: sym [of "(_, _)" "read_frames _ _ _ _ _ _ _ _ _"] intro: read_frames_progress)

declare dec_loop.simps [simp del]

definition stream_decrypt_payload ::
  "ciphers \<Rightarrow> algorithm_id \<Rightarrow> u16 \<Rightarrow> bytes \<Rightarrow> bytes \<Rightarrow> bytes option \<Rightarrow> bytes \<Rightarrow> u64 \<Rightarrow>
   reader \<times> writer \<Rightarrow> (crypto_error + unit) \<times> (reader \<times> writer)" where
  "stream_decrypt_payload C algorithm format_version hk nonce_bytes secondary_nonce_bytes aad plen s =
     (case derive_payload_keys C hk algorithm of
        Inl e \<Rightarrow> (Inl e, s)
      | Inr ks \<Rightarrow>
          (case dec_loop \<lparr>cx_ciphers = C, cx_alg = algorithm, cx_keys = ks, cx_nonce = nonce_bytes,
               cx_secondary = secondary_nonce_bytes, cx_aad = aad\<rparr> format_version plen 0 0 False s of
             (Inl e, s') \<Rightarrow> (Inl e, s')
           | (Inr written, (rd, wr)) \<Rightarrow>
               if written \<noteq> unat plen then (Inl DecryptionFailed, (rd, wr))
               else (case read 1 rd of
                   (Inl e, rd') \<Rightarrow> (Inl (Io e), (rd', wr))
                 | (Inr trailing, rd') \<Rightarrow>
                     if trailing \<noteq> [] then (Inl DecryptionFailed, (rd', wr))
                     else (Inr (), (rd', wr)))))"

end
