(* ===== verification/Payload_Stream.thy ===== *)
theory Payload_Stream
  imports Parallel
begin

text \<open>
  Correctness of the streaming payload pipeline of theory Parallel: what encryption writes,
  what decryption accepts, and that the two agree, for every way the reader may cut its data
  into reads.
\<close>

section \<open>Runs of chunks\<close>

text \<open>Processing a list of chunks whose first one has index \<open>k\<close>.\<close>

definition indexed ::
  "(u64 \<Rightarrow> bytes \<Rightarrow> crypto_error + bytes) \<Rightarrow> nat \<Rightarrow> bytes list \<Rightarrow> crypto_error + bytes list" where
  "indexed f k xs = traverse (\<lambda>(i, x). f (of_nat i) x) (enumerate k xs)"

lemma indexed_simps [simp]:
  "indexed f k [] = Inr []"
  "indexed f k (x # xs) = rbind (f (of_nat k) x) (\<lambda>y. rbind (indexed f (Suc k) xs) (\<lambda>ys. Inr (y # ys)))"
  by (simp_all add: indexed_def)

lemma indexed_append:
  "indexed f k (xs @ ys) =
     rbind (indexed f k xs) (\<lambda>as. rbind (indexed f (k + length xs) ys) (\<lambda>bs. Inr (as @ bs)))"
  by (simp add: indexed_def enumerate_append_eq traverse_append)

lemma indexed_length: "indexed f k xs = Inr ys \<Longrightarrow> length ys = length xs"
  by (simp add: indexed_def traverse_length [where xs = "enumerate k xs", simplified])

lemma par_chunks_indexed:
  "k + i + length xs \<le> 2 ^ 64 \<Longrightarrow> par_chunks f (of_nat k) i xs = indexed f (k + i) xs"
proof (induction xs arbitrary: i)
  case Nil
  then show ?case by simp
next
  case (Cons x xs)
  then have "checked_add_u64 (of_nat k) (of_nat i) = Some (of_nat (k + i))"
    by (intro checked_add_u64_of_nat) simp
  with Cons show ?case by simp
qed

lemma par_chunks_Inr:
  "par_chunks f idx i xs = Inr ys \<Longrightarrow> i + length xs \<le> 2 ^ 64 \<Longrightarrow>
     indexed f (unat idx + i) xs = Inr ys \<and> (xs \<noteq> [] \<longrightarrow> unat idx + i + length xs \<le> 2 ^ 64)"
proof (induction xs arbitrary: i ys)
  case Nil
  then show ?case by simp
next
  case (Cons x xs)
  then obtain j y zs where *: "checked_add_u64 idx (of_nat i) = Some j" "f j x = Inr y"
      "par_chunks f idx (Suc i) xs = Inr zs" "ys = y # zs"
    by (auto simp: res_elims)
  have ui: "unat (of_nat i :: u64) = i"
    using Cons.prems(2) by (simp add: unat_of_nat take_bit_nat_eq_self)
  have lt: "unat idx + i < 2 ^ 64"
    using *(1) ui by (auto simp: checked_add_u64_def split: if_splits)
  have "unat j = unat idx + i"
    using checked_add_u64_Some [OF *(1)] ui by simp
  then have j: "j = of_nat (unat idx + i)"
    by (metis of_nat_unat ucast_id)
  from Cons.IH [OF *(3)] Cons.prems(2) *(2,4) j lt show ?case
    by (cases xs) auto
qed

section \<open>The contract of a chunk codec\<close>

locale chunk_codec =
  fixes seal :: "'c \<Rightarrow> u64 \<Rightarrow> bytes \<Rightarrow> crypto_error + bytes"
    and "open" :: "'c \<Rightarrow> u64 \<Rightarrow> bytes \<Rightarrow> crypto_error + bytes"
    and usable :: "'c \<Rightarrow> bool"
    and overhead :: "'c \<Rightarrow> nat"
  assumes open_seal: "usable c \<Longrightarrow> seal c i m = Inr x \<Longrightarrow> open c i x = Inr m"
    and seal_length: "usable c \<Longrightarrow> seal c i m = Inr x \<Longrightarrow> length x = length m + overhead c"
begin

lemma run_open_seal:
  "usable c \<Longrightarrow> indexed (seal c) k ms = Inr cs \<Longrightarrow> indexed (open c) k cs = Inr ms"
  by (induction ms arbitrary: k cs) (auto simp: res_elims open_seal)

lemma run_lengths:
  "usable c \<Longrightarrow> indexed (seal c) k ms = Inr cs \<Longrightarrow>
     map length cs = map (\<lambda>m. length m + overhead c) ms"
  by (induction ms arbitrary: k cs) (auto simp: res_elims seal_length)

end

locale tidy_chunk_codec = chunk_codec +
  assumes seal_open: "usable c \<Longrightarrow> open c i x = Inr m \<Longrightarrow> seal c i m = Inr x"
begin

lemma run_seal_open:
  "usable c \<Longrightarrow> indexed (open c) k cs = Inr ms \<Longrightarrow> indexed (seal c) k ms = Inr cs"
  by (induction cs arbitrary: k ms) (auto simp: res_elims seal_open)

lemma run_iff: "usable c \<Longrightarrow> indexed (open c) k cs = Inr ms \<longleftrightarrow> indexed (seal c) k ms = Inr cs"
  using run_seal_open run_open_seal by blast

end

definition payload_algorithm :: "algorithm_id \<Rightarrow> bool" where
  "payload_algorithm a \<longleftrightarrow>
     a \<in> {XChaCha20Poly1305, CascadeAesGcmXChaCha, TripleCascadeAesXChaChaLco}"

definition ctx_ok :: "chunk_ctx \<Rightarrow> bool" where
  "ctx_ok cx \<longleftrightarrow> ciphers_ok (cx_ciphers cx) \<and> payload_algorithm (cx_alg cx)"

lemma tag_size_simps [simp]:
  "tag_size XChaCha20Poly1305 = 16" "tag_size CascadeAesGcmXChaCha = 32"
  "tag_size TripleCascadeAesXChaChaLco = 32"
  by (simp_all add: tag_size_def)

lemma tag_size_pos: "payload_algorithm a \<Longrightarrow> 0 < tag_size a"
  by (auto simp: payload_algorithm_def)

lemma encrypted_chunk_size: "payload_algorithm a \<Longrightarrow> get_encrypted_chunk_size a = CHUNK_SIZE + tag_size a"
  by (auto simp: payload_algorithm_def)

interpretation cc: tidy_chunk_codec encrypt_chunk decrypt_chunk ctx_ok "\<lambda>cx. tag_size (cx_alg cx)"
proof unfold_locales
  fix cx i m x
  assume ok: "ctx_ok cx" and e: "encrypt_chunk cx i m = Inr x"
  then have C: "ciphers_ok (cx_ciphers cx)" by (simp add: ctx_ok_def)
  show "decrypt_chunk cx i x = Inr m"
    using e by (cases "cx_alg cx")
      (auto simp: encrypt_chunk_def decrypt_chunk_def Let_def res_elims ciphers_okD(1,2) [OF C]
        lco_reversible)
  show "length x = length m + tag_size (cx_alg cx)"
    using e by (cases "cx_alg cx")
      (auto simp: encrypt_chunk_def Let_def res_elims dest!: ciphers_okD(3,4) [OF C])
next
  fix cx i x m
  assume ok: "ctx_ok cx" and e: "decrypt_chunk cx i x = Inr m"
  then have C: "ciphers_ok (cx_ciphers cx)" by (simp add: ctx_ok_def)
  show "encrypt_chunk cx i m = Inr x"
    using e by (cases "cx_alg cx")
      (auto simp: encrypt_chunk_def decrypt_chunk_def Let_def res_elims ciphers_okD(1,2) [OF C, symmetric]
        lco_reversible)
qed

section \<open>Cutting data into chunks\<close>

function chunked :: "nat \<Rightarrow> 'a list \<Rightarrow> 'a list list" where
  "chunked n xs = (if n = 0 \<or> xs = [] then [] else take n xs # chunked n (drop n xs))"
  by pat_completeness auto
termination
  by (relation "measure (\<lambda>(n, xs). length xs)") (auto simp: neq_Nil_conv)

declare chunked.simps [simp del]

text \<open>
  \<open>fits rem ms\<close>: the list can be the next plaintext chunks of a payload that has \<open>rem\<close>
  bytes left; \<open>frames t rem cs\<close> is the same for frames with \<open>t\<close> bytes of overhead.
\<close>

fun frames :: "nat \<Rightarrow> nat \<Rightarrow> bytes list \<Rightarrow> bool" where
  "frames t rem [] = True"
| "frames t rem (c # cs) =
     (0 < rem \<and> length c = min rem CHUNK_SIZE + t \<and> frames t (rem - CHUNK_SIZE) cs)"

abbreviation fits :: "nat \<Rightarrow> bytes list \<Rightarrow> bool" where
  "fits \<equiv> frames 0"

lemma CHUNK_SIZE_pos [simp]: "0 < CHUNK_SIZE" "CHUNK_SIZE \<noteq> 0"
  by (simp_all add: CHUNK_SIZE_def)

lemma frames_append:
  "frames t rem (xs @ ys) \<longleftrightarrow> frames t rem xs \<and> frames t (rem - CHUNK_SIZE * length xs) ys"
  by (induction xs arbitrary: rem) (auto simp: diff_diff_eq)

lemma frames_overhead:
  "map length cs = map (\<lambda>m. length m + t) ms \<Longrightarrow> frames t rem cs \<longleftrightarrow> fits rem ms"
  by (induction cs arbitrary: ms rem) (auto simp: Cons_eq_map_conv)

lemma fits_concat: "fits rem ms \<Longrightarrow> length (concat ms) = min rem (CHUNK_SIZE * length ms)"
  by (induction ms arbitrary: rem) auto

lemma fits_chunked: "fits (length xs) (chunked CHUNK_SIZE xs)"
proof (induction CHUNK_SIZE xs rule: chunked.induct)
  case (1 xs)
  then show ?case by (auto simp: chunked.simps [of CHUNK_SIZE xs] min_def)
qed

lemma concat_chunked: "concat (chunked CHUNK_SIZE xs) = xs"
proof (induction CHUNK_SIZE xs rule: chunked.induct)
  case (1 xs)
  then show ?case by (auto simp: chunked.simps [of CHUNK_SIZE xs])
qed

lemma fits_unique:
  "fits rem ms \<Longrightarrow> length (concat ms) = rem \<Longrightarrow> ms = chunked CHUNK_SIZE (concat ms)"
proof (induction ms arbitrary: rem)
  case Nil
  then show ?case by (simp add: chunked.simps)
next
  case (Cons m ms)
  have m: "0 < rem" "length m = min rem CHUNK_SIZE" "fits (rem - CHUNK_SIZE) ms"
    using Cons.prems(1) by auto
  have "length (concat ms) = rem - CHUNK_SIZE"
    using Cons.prems(2) m(2) by auto
  with Cons.IH [OF m(3)] have IH: "ms = chunked CHUNK_SIZE (concat ms)" .
  have ne: "m @ concat ms \<noteq> []"
    using m(1,2) by (cases m) (auto simp: min_def split: if_splits)
  have tk: "take CHUNK_SIZE (m @ concat ms) = m \<and> drop CHUNK_SIZE (m @ concat ms) = concat ms"
  proof (cases "rem \<le> CHUNK_SIZE")
    case True
    then have "concat ms = []"
      using \<open>length (concat ms) = rem - CHUNK_SIZE\<close> by (metis diff_is_0_eq length_0_conv)
    with True m(2) show ?thesis by (simp del: concat_eq_Nil_conv)
  next
    case False
    with m(2) show ?thesis by simp
  qed
  show ?case
    using IH ne tk by (simp add: chunked.simps [of CHUNK_SIZE "m @ concat ms"])
qed

lemma length_chunked_le: "length (chunked CHUNK_SIZE xs) \<le> length xs"
proof (induction CHUNK_SIZE xs rule: chunked.induct)
  case (1 xs)
  show ?case
  proof (cases "xs = []")
    case False
    with 1 have "length (chunked CHUNK_SIZE (drop CHUNK_SIZE xs)) \<le> length xs - CHUNK_SIZE"
      by simp
    moreover have "length xs - CHUNK_SIZE < length xs"
      using False by (simp add: diff_less)
    ultimately have "Suc (length (chunked CHUNK_SIZE (drop CHUNK_SIZE xs))) \<le> length xs"
      by linarith
    then show ?thesis
      using False by (simp add: chunked.simps [of CHUNK_SIZE xs])
  qed (simp add: chunked.simps)
qed

lemma chunked_Nil [simp]: "chunked n [] = []"
  by (simp add: chunked.simps)

lemma chunked_eq_Nil [simp]: "chunked CHUNK_SIZE xs = [] \<longleftrightarrow> xs = []"
  by (simp add: chunked.simps [of CHUNK_SIZE xs])

lemma chunked_step: "xs \<noteq> [] \<Longrightarrow>
    chunked CHUNK_SIZE xs = take CHUNK_SIZE xs # chunked CHUNK_SIZE (drop CHUNK_SIZE xs)"
  by (simp add: chunked.simps [of CHUNK_SIZE xs])

lemma drop_chunked: "drop n (chunked CHUNK_SIZE xs) = chunked CHUNK_SIZE (drop (n * CHUNK_SIZE) xs)"
proof (induction n arbitrary: xs)
  case 0
  then show ?case by simp
next
  case (Suc n)
  then show ?case by (cases "xs = []") (simp_all add: chunked_step add.commute)
qed

lemma chunked_short: "xs \<noteq> [] \<Longrightarrow> length xs \<le> CHUNK_SIZE \<Longrightarrow> chunked CHUNK_SIZE xs = [xs]"
  by (simp add: chunked_step)

section \<open>Reading a batch\<close>

lemma read_batch_chunks:
  "read_batch n batch rd = (Inr batch', rd') \<Longrightarrow>
     batch' = batch @ take n (chunked CHUNK_SIZE (r_data rd)) \<and>
     r_data rd' = drop (n * CHUNK_SIZE) (r_data rd)"
proof (induction n arbitrary: batch rd)
  case 0
  then show ?case by simp
next
  case (Suc n)
  obtain r rd1 where rd1: "fill CHUNK_SIZE [] rd = (r, rd1)" by fastforce
  with Suc.prems obtain chunk where r: "r = Inr chunk" by (cases r) auto
  from fill_Inr [OF rd1 [unfolded r]]
  have chunk: "chunk = take CHUNK_SIZE (r_data rd)" and rest: "r_data rd1 = drop CHUNK_SIZE (r_data rd)"
    by simp_all
  show ?case
  proof (cases "length (r_data rd) < CHUNK_SIZE")
    case True
    with Suc.prems rd1 r chunk rest show ?thesis
      by (cases "r_data rd = []") (auto simp: Let_def chunked_short)
  next
    case False
    then have ne: "r_data rd \<noteq> []" by auto
    from False Suc.prems rd1 r chunk ne have
      "read_batch n (batch @ [chunk]) rd1 = (Inr batch', rd')"
      by (simp add: Let_def)
    from Suc.IH [OF this] rest chunk ne show ?thesis
      by (simp add: chunked_step add.commute)
  qed
qed

lemma read_batch_quiet:
  "quiet rd \<Longrightarrow> \<exists>batch' rd'. read_batch n batch rd = (Inr batch', rd') \<and> quiet rd'"
proof (induction n arbitrary: batch rd)
  case 0
  then show ?case by simp
next
  case (Suc n)
  obtain rd1 where rd1: "fill CHUNK_SIZE [] rd = (Inr (take CHUNK_SIZE (r_data rd)), rd1)" "quiet rd1"
    using fill_quiet_eq [OF Suc.prems] by blast
  with Suc.IH [OF rd1(2)] show ?case by (simp add: Let_def)
qed

section \<open>Encryption writes the sealed chunks\<close>

text \<open>The plaintext chunks of a payload: format v2 seals one empty chunk for an empty file.\<close>

definition payload_chunks :: "u16 \<Rightarrow> bytes \<Rightarrow> bytes list" where
  "payload_chunks ver xs =
     (if xs = [] \<and> CURRENT_VERSION \<le> ver then [[]] else chunked CHUNK_SIZE xs)"

lemma concat_payload_chunks [simp]: "concat (payload_chunks ver xs) = xs"
  by (simp add: payload_chunks_def concat_chunked)

lemma BATCH_pos: "BATCH_CHUNKS = Suc 31"
  by (simp add: BATCH_CHUNKS_def)

lemma concat_take_chunked: "concat (take n (chunked CHUNK_SIZE xs)) = take (n * CHUNK_SIZE) xs"
proof -
  have "take n (chunked CHUNK_SIZE xs) @ chunked CHUNK_SIZE (drop (n * CHUNK_SIZE) xs)
      = chunked CHUNK_SIZE xs"
    by (metis append_take_drop_id drop_chunked)
  then have "concat (take n (chunked CHUNK_SIZE xs)) @ drop (n * CHUNK_SIZE) xs = xs"
    by (metis concat_append concat_chunked)
  then show ?thesis
    by (metis append_same_eq append_take_drop_id)
qed

text \<open>One successful iteration of the loop.\<close>

lemma enc_loop_cases:
  assumes "enc_loop cx ver n idx (rd, wr) = (Inr t, (rd', wr'))"
  obtains
    (stop) "r_data rd = []" "\<not> (CURRENT_VERSION \<le> ver \<and> idx = 0)" "t = n" "r_data rd' = []" "wr' = wr"
  | (step) batch cts rd1 wr1 idx' where
      "batch = (if r_data rd = [] then [[]] else take BATCH_CHUNKS (chunked CHUNK_SIZE (r_data rd)))"
      "r_data rd = [] \<longrightarrow> CURRENT_VERSION \<le> ver \<and> idx = 0"
      "r_data rd1 = drop (BATCH_CHUNKS * CHUNK_SIZE) (r_data rd)"
      "par_chunks (encrypt_chunk cx) idx 0 batch = Inr cts"
      "write_chunks cts wr = (Inr (), wr1)"
      "checked_add_u64 idx (of_nat (length batch)) = Some idx'"
      "if length (r_data rd) < BATCH_CHUNKS * CHUNK_SIZE
       then t = n + length (r_data rd) \<and> rd' = rd1 \<and> wr' = report_progress (n + length (r_data rd)) wr1
       else enc_loop cx ver (n + BATCH_CHUNKS * CHUNK_SIZE) idx'
              (rd1, report_progress (n + BATCH_CHUNKS * CHUNK_SIZE) wr1) = (Inr t, (rd', wr'))"
proof -
  let ?data = "r_data rd" and ?full = "BATCH_CHUNKS * CHUNK_SIZE"
  note eq = assms [unfolded enc_loop.simps [of cx ver n idx rd wr]]
  obtain r rd1 where rb: "read_batch BATCH_CHUNKS [] rd = (r, rd1)" by fastforce
  with eq obtain b0 where r: "r = Inr b0" by (cases r) auto
  from read_batch_chunks [OF rb [unfolded r]]
  have b0: "b0 = take BATCH_CHUNKS (chunked CHUNK_SIZE ?data)" and rd1: "r_data rd1 = drop ?full ?data"
    by simp_all
  have b0_Nil: "b0 = [] \<longleftrightarrow> ?data = []" by (simp add: b0 BATCH_pos)
  define batch where "batch = (if ?data = [] then [[]] else b0)"
  have bytes: "batch_bytes batch = min (length ?data) ?full"
  proof (cases "?data = []")
    case False
    then show ?thesis
      by (simp add: batch_def b0 batch_bytes_concat concat_take_chunked del: length_concat)
  qed (simp add: batch_def batch_bytes_def)
  show ?thesis
  proof (cases "b0 = [] \<and> \<not> (CURRENT_VERSION \<le> ver \<and> idx = 0)")
    case True
    with eq rb r b0_Nil rd1 show ?thesis by (intro stop) auto
  next
    case go: False
    have lb: "(if b0 = [] then [[]] else b0) = batch" using b0_Nil by (simp add: batch_def)
    note eq = eq [unfolded rb r prod.case sum.case if_not_P [OF go] lb Let_def]
    obtain q where q: "par_chunks (encrypt_chunk cx) idx 0 batch = q" by blast
    with eq obtain cts where cts: "q = Inr cts" by (cases q) auto
    obtain w wr1 where w: "write_chunks cts wr = (w, wr1)" by fastforce
    with eq q cts have w_ok: "w = Inr ()" by (cases w) auto
    obtain idx' where idx': "checked_add_u64 idx (of_nat (length batch)) = Some idx'"
      using eq q cts w w_ok by (cases "checked_add_u64 idx (of_nat (length batch))") auto
    have lt: "batch_bytes batch < ?full \<longleftrightarrow> length ?data < ?full"
      by (simp add: bytes min_less_iff_disj)
    show ?thesis
    proof (rule step [of batch rd1 cts wr1 idx'])
      show "batch = (if ?data = [] then [[]] else take BATCH_CHUNKS (chunked CHUNK_SIZE ?data))"
        by (simp add: batch_def b0)
      show "?data = [] \<longrightarrow> CURRENT_VERSION \<le> ver \<and> idx = 0"
        using go b0_Nil by blast
      show "if length ?data < ?full
         then t = n + length ?data \<and> rd' = rd1 \<and> wr' = report_progress (n + length ?data) wr1
         else enc_loop cx ver (n + ?full) idx' (rd1, report_progress (n + ?full) wr1) = (Inr t, (rd', wr'))"
        using eq q cts w w_ok idx' lt bytes by (cases "length ?data < ?full") auto
    qed (use q cts w w_ok idx' rd1 in simp_all)
  qed
qed

lemma enc_loop_Inr:
  "enc_loop cx ver n idx (rd, wr) = (Inr t, (rd', wr')) \<Longrightarrow>
     \<exists>cs. indexed (encrypt_chunk cx) (unat idx)
            (if idx = 0 then payload_chunks ver (r_data rd) else chunked CHUNK_SIZE (r_data rd)) = Inr cs \<and>
          w_data wr' = w_data wr @ concat cs \<and> t = n + length (r_data rd) \<and> r_data rd' = [] \<and>
          unat idx + length cs \<le> 2 ^ 64"
proof (induction "length (r_data rd)" arbitrary: rd wr n idx rule: less_induct)
  case less
  let ?data = "r_data rd" and ?full = "BATCH_CHUNKS * CHUNK_SIZE"
  from less.prems show ?case
  proof (cases rule: enc_loop_cases)
    case stop
    then show ?thesis using unat_bound [of idx] by (auto simp: payload_chunks_def)
  next
    case (step batch cts rd1 wr1 idx')
    have lb: "0 + length batch \<le> 2 ^ 64" and bne: "batch \<noteq> []"
      using step(1) by (auto simp: BATCH_CHUNKS_def split: if_splits)
    from par_chunks_Inr [OF step(4) lb] bne
    have ix: "indexed (encrypt_chunk cx) (unat idx) batch = Inr cts"
      and idx_le: "unat idx + length batch \<le> 2 ^ 64" by simp_all
    have chunks: "(if idx = 0 then payload_chunks ver ?data else chunked CHUNK_SIZE ?data)
        = batch @ chunked CHUNK_SIZE (r_data rd1)"
    proof (cases "?data = []")
      case True
      with step(1,2,3) show ?thesis by (simp add: payload_chunks_def)
    next
      case False
      with step(1,3) show ?thesis
        by (simp add: payload_chunks_def) (metis append_take_drop_id drop_chunked)
    qed
    from write_chunks_Inr [OF step(5)] have wr1: "w_data wr1 = w_data wr @ concat cts" by simp
    show ?thesis
    proof (cases "length ?data < ?full")
      case True
      with step(3,7) chunks ix wr1 idx_le indexed_length [OF ix] show ?thesis by auto
    next
      case False
      have rec: "enc_loop cx ver (n + ?full) idx' (rd1, report_progress (n + ?full) wr1) = (Inr t, (rd', wr'))"
        using step(7) False by simp
      have len: "length (r_data rd1) = length ?data - ?full" using step(3) by simp
      have full_pos: "0 < ?full" by (simp add: BATCH_CHUNKS_def)
      have shorter: "length (r_data rd1) < length ?data"
        using False len full_pos by linarith
      have ub: "unat (of_nat (length batch) :: u64) = length batch"
        using step(1) by (auto simp: unat_of_nat BATCH_CHUNKS_def intro!: take_bit_nat_eq_self)
      have idx': "unat idx' = unat idx + length batch"
        using checked_add_u64_Some [OF step(6)] ub by simp
      then have "idx' \<noteq> 0" using bne by auto
      with less.hyps [OF shorter rec] obtain cs where
        cs: "indexed (encrypt_chunk cx) (unat idx') (chunked CHUNK_SIZE (r_data rd1)) = Inr cs"
          "w_data wr' = w_data (report_progress (n + ?full) wr1) @ concat cs"
          "t = n + ?full + length (r_data rd1)" "r_data rd' = []" "unat idx' + length cs \<le> 2 ^ 64"
        by auto
      have "indexed (encrypt_chunk cx) (unat idx) (batch @ chunked CHUNK_SIZE (r_data rd1))
          = Inr (cts @ cs)"
        using ix cs(1) idx' by (simp add: indexed_append)
      moreover have "unat idx + length (cts @ cs) \<le> 2 ^ 64" using cs(5) idx' indexed_length [OF ix] by simp
      ultimately show ?thesis using chunks cs(2,3,4) wr1 len False by auto
    qed
  qed
qed

end
