(* ===== verification/Payload_Correct.thy ===== *)
theory Payload_Correct
  imports Payload_Stream
begin

text \<open>
  What \<open>stream_encrypt_payload\<close> and \<open>stream_decrypt_payload\<close> compute. The reference is
  \<open>seal_payload\<close>, which has no batches, readers or counters: seal the list of chunks,
  concatenate. The lemmas on the two loops relate them to it; the properties say that
  encryption writes it, and that decryption accepts it and (one case apart) nothing else.
\<close>

section \<open>Reading frames\<close>

lemma read_frames_step:
  fixes alg ver plen written idx n batch eof rd
  defines "remaining \<equiv> unat plen - (written + length batch * CHUNK_SIZE)"
  assumes alg: "payload_algorithm alg" and not_empty: "\<not> (CURRENT_VERSION \<le> ver \<and> plen = 0)"
  shows "read_frames alg ver plen written idx (Suc n) batch eof rd =
     (if remaining = 0 then (Inr (batch, True), rd)
      else (case fill (min remaining CHUNK_SIZE + tag_size alg) [] rd of
          (Inl e, rd') \<Rightarrow> (Inl (Io e), rd')
        | (Inr chunk, rd') \<Rightarrow>
            if chunk \<noteq> [] \<and> length chunk \<noteq> min remaining CHUNK_SIZE + tag_size alg
            then (Inl DecryptionFailed, rd')
            else let batch' = (if chunk = [] then batch else batch @ [chunk])
                 in if remaining < CHUNK_SIZE then (Inr (batch', True), rd')
                    else read_frames alg ver plen written idx n batch' (eof \<or> chunk = []) rd'))"
proof -
  have want: "(if remaining < CHUNK_SIZE then remaining + tag_size alg else get_encrypted_chunk_size alg)
      = min remaining CHUNK_SIZE + tag_size alg"
    using encrypted_chunk_size [OF alg] by auto
  have v2e: "(CURRENT_VERSION \<le> ver \<and> plen = 0 \<and> idx = 0 \<and> batch = []) = False"
    using not_empty by blast
  have pos: "(0 < min remaining CHUNK_SIZE + tag_size alg) = True"
    using tag_size_pos [OF alg] by simp
  show ?thesis
    by (subst read_frames.simps)
      (simp only: Let_def remaining_def [symmetric] v2e want pos simp_thms if_False)
qed

lemma read_frames_sound:
  assumes alg: "payload_algorithm alg" and not_empty: "\<not> (CURRENT_VERSION \<le> ver \<and> plen = 0)"
  shows "read_frames alg ver plen written idx n batch eof rd = (Inr (batch', eof'), rd') \<Longrightarrow>
     \<exists>cs. batch' = batch @ cs \<and> r_data rd = concat cs @ r_data rd' \<and> length cs \<le> n \<and>
       frames (tag_size alg) (unat plen - (written + length batch * CHUNK_SIZE)) cs"
proof (induction n arbitrary: batch eof rd)
  case 0
  then show ?case by simp
next
  case (Suc n)
  let ?rem = "unat plen - (written + length batch * CHUNK_SIZE)"
  let ?want = "min ?rem CHUNK_SIZE + tag_size alg"
  note unfolded = Suc.prems [unfolded read_frames_step [OF alg not_empty]]
  show ?case
  proof (cases "?rem = 0")
    case True
    with unfolded show ?thesis by auto
  next
    case False
    obtain r rd1 where rd1: "fill ?want [] rd = (r, rd1)" by fastforce
    with unfolded False obtain chunk where r: "r = Inr chunk" by (cases r) auto
    from fill_Inr [OF rd1 [unfolded r]] have d: "r_data rd = chunk @ r_data rd1" by simp
    have len: "chunk = [] \<or> length chunk = ?want"
      using unfolded False rd1 r by (auto split: if_splits)
    let ?batch1 = "if chunk = [] then batch else batch @ [chunk]"
    show ?thesis
    proof (cases "?rem < CHUNK_SIZE")
      case True
      with unfolded False rd1 r len have "batch' = ?batch1" "rd' = rd1"
        by (auto simp: Let_def split: if_splits)
      with d len False True show ?thesis
        by (intro exI [of _ "if chunk = [] then [] else [chunk]"]) auto
    next
      case rec: False
      with unfolded False rd1 r len have
        "read_frames alg ver plen written idx n ?batch1 (eof \<or> chunk = []) rd1 = (Inr (batch', eof'), rd')"
        by (auto simp: Let_def split: if_splits)
      from Suc.IH [OF this] obtain cs where cs: "batch' = ?batch1 @ cs"
        "r_data rd1 = concat cs @ r_data rd'" "length cs \<le> n"
        "frames (tag_size alg) (unat plen - (written + length ?batch1 * CHUNK_SIZE)) cs"
        by blast
      with d len False show ?thesis
        by (intro exI [of _ "if chunk = [] then cs else chunk # cs"])
          (auto simp: diff_diff_eq add.commute add.left_commute)
    qed
  qed
qed

lemma read_frames_complete:
  assumes alg: "payload_algorithm alg" and not_empty: "\<not> (CURRENT_VERSION \<le> ver \<and> plen = 0)"
  shows "quiet rd \<Longrightarrow> r_data rd = concat cs @ rest \<Longrightarrow>
     frames (tag_size alg) (unat plen - (written + length batch * CHUNK_SIZE)) cs \<Longrightarrow>
     unat plen - (written + length batch * CHUNK_SIZE) \<le> CHUNK_SIZE * length cs \<Longrightarrow>
     \<exists>rd' e. read_frames alg ver plen written idx n batch False rd = (Inr (batch @ take n cs, e), rd') \<and>
       quiet rd' \<and> r_data rd' = concat (drop n cs) @ rest \<and> (e \<longrightarrow> drop n cs = [])"
proof (induction n arbitrary: batch rd cs)
  case 0
  then show ?case by auto
next
  case (Suc n)
  let ?rem = "unat plen - (written + length batch * CHUNK_SIZE)"
  let ?want = "min ?rem CHUNK_SIZE + tag_size alg"
  show ?case
  proof (cases cs)
    case Nil
    with Suc.prems have "?rem = 0" by simp
    with Nil Suc.prems show ?thesis
      by (intro exI [of _ rd] exI [of _ True])
        (simp add: read_frames_step [OF alg not_empty] del: read_frames.simps)
  next
    case (Cons c cs')
    have c: "0 < ?rem" "length c = ?want" "frames (tag_size alg) (?rem - CHUNK_SIZE) cs'"
      using Suc.prems(3) Cons by auto
    have cne: "c \<noteq> []" using c(1,2) tag_size_pos [OF alg] by auto
    obtain rd1 where rd1: "fill ?want [] rd = (Inr (take ?want (r_data rd)), rd1)"
        "r_data rd1 = drop ?want (r_data rd)" "quiet rd1"
      using fill_quiet_eq [OF Suc.prems(1)] by blast
    have tk: "take ?want (r_data rd) = c" and rest: "r_data rd1 = concat cs' @ rest"
      using Suc.prems(2) Cons rd1(2) c(2) [symmetric] by auto
    show ?thesis
    proof (cases "?rem < CHUNK_SIZE")
      case True
      then have "cs' = []" using c(3) by (cases cs') auto
      with True Cons rd1 tk rest c cne show ?thesis
        by (intro exI [of _ rd1] exI [of _ True]) (simp add: read_frames_step [OF alg not_empty] del: read_frames.simps)
    next
      case False
      have rem': "unat plen - (written + length (batch @ [c]) * CHUNK_SIZE) = ?rem - CHUNK_SIZE"
        by (simp add: diff_diff_eq add.commute add.left_commute)
      have "?rem - CHUNK_SIZE \<le> CHUNK_SIZE * length cs'"
        using Suc.prems(4) Cons by simp
      from Suc.IH [OF rd1(3) rest, of "batch @ [c]", unfolded rem', OF c(3) this] False Cons rd1 tk c cne
      show ?thesis
        by (simp add: read_frames_step [OF alg not_empty] del: read_frames.simps)
    qed
  qed
qed

section \<open>The decryption loop\<close>

lemma dec_loop_cases:
  assumes "dec_loop cx ver plen written idx eof (rd, wr) = (Inr t, (rd', wr'))"
    and ok: "ctx_ok cx" and not_empty: "\<not> (CURRENT_VERSION \<le> ver \<and> plen = 0)"
  obtains
    (stop) "t = written" "r_data rd' = r_data rd" "wr' = wr"
  | (step) cs ms rd1 wr1 idx' eof' where
      "cs \<noteq> []" "length cs \<le> BATCH_CHUNKS" "r_data rd = concat cs @ r_data rd1"
      "frames (tag_size (cx_alg cx)) (unat plen - written) cs"
      "par_chunks (decrypt_chunk cx) idx 0 cs = Inr ms"
      "write_chunks ms wr = (Inr (), wr1)"
      "checked_add_u64 idx (of_nat (length cs)) = Some idx'"
      "dec_loop cx ver plen (written + batch_bytes ms) idx' eof'
         (rd1, report_progress (written + batch_bytes ms) wr1) = (Inr t, (rd', wr'))"
proof (cases eof)
  case True
  with assms(1) stop show ?thesis by (simp add: dec_loop.simps)
next
  case False
  have alg: "payload_algorithm (cx_alg cx)" using ok by (simp add: ctx_ok_def)
  note eq = assms(1) [unfolded dec_loop.simps [of cx ver plen written idx eof rd wr] if_not_P [OF False]]
  obtain r rd1 where rf: "read_frames (cx_alg cx) ver plen written idx BATCH_CHUNKS [] False rd = (r, rd1)"
    by fastforce
  with eq obtain cs eof' where r: "r = Inr (cs, eof')" by (cases r) auto
  from read_frames_sound [OF alg not_empty rf [unfolded r]]
  have cs: "r_data rd = concat cs @ r_data rd1" "length cs \<le> BATCH_CHUNKS"
      "frames (tag_size (cx_alg cx)) (unat plen - written) cs"
    by auto
  show ?thesis
  proof (cases "cs = []")
    case True
    with eq rf r cs(1) show ?thesis by (intro stop) auto
  next
    case ne: False
    note eq = eq [unfolded rf r prod.case sum.case if_not_P [OF ne] Let_def]
    obtain q where q: "par_chunks (decrypt_chunk cx) idx 0 cs = q" by blast
    with eq obtain ms where ms: "q = Inr ms" by (cases q) auto
    obtain w wr1 where w: "write_chunks ms wr = (w, wr1)" by fastforce
    with eq q ms have w_ok: "w = Inr ()" by (cases w) auto
    obtain idx' where idx': "checked_add_u64 idx (of_nat (length cs)) = Some idx'"
      using eq q ms w w_ok by (cases "checked_add_u64 idx (of_nat (length cs))") auto
    show ?thesis
      by (rule step [OF ne cs(2,1,3)]) (use eq q ms w w_ok idx' in simp_all)
  qed
qed

lemma checked_advance:
  assumes "checked_add_u64 idx (of_nat n) = Some idx'" "n \<le> BATCH_CHUNKS"
  shows "unat idx' = unat idx + n"
proof -
  have "unat (of_nat n :: u64) = n"
    using assms(2) by (auto simp: unat_of_nat BATCH_CHUNKS_def intro!: take_bit_nat_eq_self)
  then show ?thesis using checked_add_u64_Some [OF assms(1)] by simp
qed

lemma dec_loop_sound:
  assumes ok: "ctx_ok cx" and not_empty: "\<not> (CURRENT_VERSION \<le> ver \<and> plen = 0)"
  shows "dec_loop cx ver plen written idx eof (rd, wr) = (Inr t, (rd', wr')) \<Longrightarrow>
     \<exists>cs ms. indexed (encrypt_chunk cx) (unat idx) ms = Inr cs \<and> r_data rd = concat cs @ r_data rd' \<and>
       w_data wr' = w_data wr @ concat ms \<and> t = written + length (concat ms) \<and>
       fits (unat plen - written) ms"
proof (induction "length (r_data rd)" arbitrary: rd wr written idx eof rule: less_induct)
  case less
  from less.prems ok not_empty show ?case
  proof (cases rule: dec_loop_cases)
    case stop
    then show ?thesis by (intro exI [of _ "[]"]) simp
  next
    case (step cs ms rd1 wr1 idx' eof')
    have "0 + length cs \<le> 2 ^ 64" using step(2) by (simp add: BATCH_CHUNKS_def)
    from par_chunks_Inr [OF step(5) this] have "indexed (decrypt_chunk cx) (unat idx) cs = Inr ms" by simp
    with cc.run_iff [OF ok] have enc: "indexed (encrypt_chunk cx) (unat idx) ms = Inr cs" by simp
    have fit: "fits (unat plen - written) ms"
      using step(4) frames_overhead [OF cc.run_lengths [OF ok enc]] by simp
    have len: "length ms = length cs" using indexed_length [OF enc] by simp
    have idx': "unat idx' = unat idx + length ms"
      using checked_advance [OF step(7,2)] len by simp
    have bytes: "batch_bytes ms = min (unat plen - written) (CHUNK_SIZE * length ms)"
      by (simp add: batch_bytes_concat fits_concat [OF fit] del: length_concat)
    have "0 < tag_size (cx_alg cx)" using tag_size_pos ok by (simp add: ctx_ok_def)
    then have "concat cs \<noteq> []" using step(1,4) by (cases cs) auto
    then have "length (r_data rd1) < length (r_data rd)"
      using step(3) by (simp del: length_concat concat_eq_Nil_conv)
    from less.hyps [OF this step(8)] obtain cs' ms' where rest:
        "indexed (encrypt_chunk cx) (unat idx') ms' = Inr cs'" "r_data rd1 = concat cs' @ r_data rd'"
        "w_data wr' = w_data wr1 @ concat ms'" "t = written + batch_bytes ms + length (concat ms')"
        "fits (unat plen - (written + batch_bytes ms)) ms'"
      by auto
    have rem: "unat plen - (written + batch_bytes ms) = unat plen - written - CHUNK_SIZE * length ms"
      using bytes by linarith
    have "indexed (encrypt_chunk cx) (unat idx) (ms @ ms') = Inr (cs @ cs')"
      using enc rest(1) idx' by (simp add: indexed_append)
    moreover have "w_data wr1 = w_data wr @ concat ms"
      using write_chunks_Inr [OF step(6)] by simp
    ultimately show ?thesis
      using step(3) rest fit rem
      by (intro exI [of _ "cs @ cs'"] exI [of _ "ms @ ms'"])
        (simp add: frames_append batch_bytes_concat del: length_concat)
  qed
qed

lemma dec_loop_complete:
  assumes ok: "ctx_ok cx" and not_empty: "\<not> (CURRENT_VERSION \<le> ver \<and> plen = 0)"
  shows "indexed (encrypt_chunk cx) (unat idx) ms = Inr cs \<Longrightarrow> fits (unat plen - written) ms \<Longrightarrow>
     length (concat ms) = unat plen - written \<Longrightarrow> written \<le> unat plen \<Longrightarrow>
     unat idx + length ms < 2 ^ 64 \<Longrightarrow> quiet rd \<Longrightarrow> r_data rd = concat cs @ rest \<Longrightarrow>
     w_room wr = None \<Longrightarrow> eof \<longrightarrow> ms = [] \<Longrightarrow>
     \<exists>rd' wr'. dec_loop cx ver plen written idx eof (rd, wr) = (Inr (unat plen), (rd', wr')) \<and>
       quiet rd' \<and> r_data rd' = rest \<and> w_data wr' = w_data wr @ concat ms \<and> w_room wr' = None"
proof (induction "length ms" arbitrary: ms cs rd wr written idx eof rule: less_induct)
  case less
  have alg: "payload_algorithm (cx_alg cx)" using ok by (simp add: ctx_ok_def)
  let ?rem = "unat plen - written"
  have len: "length cs = length ms" using indexed_length [OF less.prems(1)] .
  have fr: "frames (tag_size (cx_alg cx)) ?rem cs"
    using less.prems(2) frames_overhead [OF cc.run_lengths [OF ok less.prems(1)]] by simp
  have full: "?rem \<le> CHUNK_SIZE * length cs"
    using fits_concat [OF less.prems(2)] less.prems(3) len by (metis min.cobounded2)
  from read_frames_complete [OF alg not_empty less.prems(6,7), of written "[]" idx BATCH_CHUNKS] fr full
  obtain rd1 e where rf:
      "read_frames (cx_alg cx) ver plen written idx BATCH_CHUNKS [] False rd = (Inr (take BATCH_CHUNKS cs, e), rd1)"
      "quiet rd1" "r_data rd1 = concat (drop BATCH_CHUNKS cs) @ rest" "e \<longrightarrow> drop BATCH_CHUNKS cs = []"
    by auto
  show ?case
  proof (cases "ms = []")
    case True
    then have "written = unat plen" "cs = []" using less.prems(3,4) len by auto
    with rf True less.prems(6,7,8) show ?thesis
      by (cases eof) (simp_all add: dec_loop.simps)
  next
    case False
    let ?a = "take BATCH_CHUNKS ms" and ?b = "drop BATCH_CHUNKS ms"
    let ?ca = "take BATCH_CHUNKS cs" and ?cb = "drop BATCH_CHUNKS cs"
    have split: "indexed (encrypt_chunk cx) (unat idx) ?a = Inr ?ca \<and>
        indexed (encrypt_chunk cx) (unat idx + length ?a) ?b = Inr ?cb"
    proof -
      have "indexed (encrypt_chunk cx) (unat idx) (?a @ ?b) = Inr cs"
        using less.prems(1) by simp
      then obtain xs ys where xy: "indexed (encrypt_chunk cx) (unat idx) ?a = Inr xs"
          "indexed (encrypt_chunk cx) (unat idx + length ?a) ?b = Inr ys" "cs = xs @ ys"
        by (auto simp: indexed_append res_elims simp del: append_take_drop_id)
      moreover have "length xs = length ?a" using indexed_length [OF xy(1)] .
      ultimately show ?thesis using len by (auto simp: min_def split: if_splits)
    qed
    have la: "length ?a = length ?ca" using len by simp
    have dec: "indexed (decrypt_chunk cx) (unat idx) ?ca = Inr ?a"
      using split cc.run_iff [OF ok] by blast
    have "par_chunks (decrypt_chunk cx) (of_nat (unat idx)) 0 ?ca = indexed (decrypt_chunk cx) (unat idx + 0) ?ca"
      by (rule par_chunks_indexed) (use less.prems(5) len in simp)
    with dec have par: "par_chunks (decrypt_chunk cx) idx 0 ?ca = Inr ?a" by simp
    obtain wr1 where wr1: "write_chunks ?a wr = (Inr (), wr1)" "w_room wr1 = None"
      using write_chunks_unlimited [OF less.prems(8)] by blast
    have "unat idx + length ?ca < 2 ^ 64" using less.prems(5) len by simp
    from checked_add_u64_of_nat [OF this]
    have adv: "checked_add_u64 idx (of_nat (length ?ca)) = Some (of_nat (unat idx + length ?ca))" by simp
    let ?idx' = "of_nat (unat idx + length ?ca) :: u64"
    have idx': "unat ?idx' = unat idx + length ?a"
      using \<open>unat idx + length ?ca < 2 ^ 64\<close> la
      by (simp add: unat_of_nat take_bit_nat_eq_self del: of_nat_add)
    have fits_ab: "fits ?rem ?a \<and> fits (?rem - CHUNK_SIZE * length ?a) ?b"
      using less.prems(2) frames_append [of 0 ?rem ?a ?b] by simp
    have bytes: "batch_bytes ?a = min ?rem (CHUNK_SIZE * length ?a)"
      using fits_ab by (simp add: batch_bytes_concat fits_concat del: length_concat length_take)
    have rem': "unat plen - (written + batch_bytes ?a) = ?rem - CHUNK_SIZE * length ?a"
      unfolding bytes by linarith
    have cat: "length (concat ?a) + length (concat ?b) = ?rem"
      using less.prems(3) by (metis append_take_drop_id concat_append length_append)
    have shorter: "length ?b < length ms" using False by (simp add: BATCH_CHUNKS_def)
    have b1: "fits (unat plen - (written + batch_bytes ?a)) ?b" using fits_ab rem' by simp
    have b2: "length (concat ?b) = unat plen - (written + batch_bytes ?a)"
      using cat by (simp add: batch_bytes_concat del: length_concat)
    have b3: "written + batch_bytes ?a \<le> unat plen"
      using cat less.prems(4) by (simp add: batch_bytes_concat del: length_concat)
    have b4: "unat ?idx' + length ?b < 2 ^ 64"
      using less.prems(5) idx' by simp
    have b5: "e \<longrightarrow> ?b = []" using rf(4) len by simp
    have "indexed (encrypt_chunk cx) (unat ?idx') ?b = Inr ?cb" using split idx' by simp
    from less.hyps [OF shorter this b1 b2 b3 b4 rf(2,3) _ b5,
        of "report_progress (written + batch_bytes ?a) wr1"] wr1(2)
    obtain rd' wr' where fin:
        "dec_loop cx ver plen (written + batch_bytes ?a) ?idx' e (rd1, report_progress (written + batch_bytes ?a) wr1)
           = (Inr (unat plen), (rd', wr'))" "quiet rd'" "r_data rd' = rest"
        "w_data wr' = w_data wr1 @ concat ?b" "w_room wr' = None"
      by auto
    have "w_data wr' = w_data wr @ concat ms"
      using fin(4) write_chunks_Inr [OF wr1(1)]
      by (metis append.assoc append_take_drop_id concat_append)
    moreover have "?ca \<noteq> []" using False len by (auto simp: BATCH_CHUNKS_def)
    moreover have "\<not> eof" using less.prems(9) False by blast
    ultimately have "dec_loop cx ver plen written idx eof (rd, wr) =
        dec_loop cx ver plen (written + batch_bytes ?a) ?idx' e
          (rd1, report_progress (written + batch_bytes ?a) wr1)"
      unfolding dec_loop.simps [of cx ver plen written idx eof rd wr]
      by (simp only: rf(1) par wr1(1) adv prod.case sum.case option.case Let_def if_False)
    with fin \<open>w_data wr' = w_data wr @ concat ms\<close> show ?thesis by simp
  qed
qed

section \<open>The reference: seal the chunks, concatenate\<close>

definition seal_payload ::
  "ciphers \<Rightarrow> algorithm_id \<Rightarrow> u16 \<Rightarrow> bytes \<Rightarrow> bytes \<Rightarrow> bytes option \<Rightarrow> bytes \<Rightarrow> bytes \<Rightarrow>
   crypto_error + bytes" where
  "seal_payload C alg ver hk nonce sn aad xs =
     rbind (derive_payload_keys C hk alg) (\<lambda>ks.
     rbind (indexed (encrypt_chunk \<lparr>cx_ciphers = C, cx_alg = alg, cx_keys = ks, cx_nonce = nonce,
              cx_secondary = sn, cx_aad = aad\<rparr>) 0 (payload_chunks ver xs)) (\<lambda>cs.
       Inr (concat cs)))"

lemma derive_payload_keys_algorithm:
  "derive_payload_keys C hk alg = Inr ks \<Longrightarrow> payload_algorithm alg"
  by (cases alg) (auto simp: payload_algorithm_def)

lemma payload_chunks_count: "length xs < 2 ^ 64 \<Longrightarrow> length (payload_chunks ver xs) < 2 ^ 64"
  using length_chunked_le [of xs] by (auto simp: payload_chunks_def)

lemma enc_loop_complete:
  assumes "indexed (encrypt_chunk cx) (unat idx)
      (if idx = 0 then payload_chunks ver (r_data rd) else chunked CHUNK_SIZE (r_data rd)) = Inr cs"
    and "unat idx + length (r_data rd) + 1 < 2 ^ 64" "quiet rd" "w_room wr = None"
  shows "\<exists>rd' wr'. enc_loop cx ver n idx (rd, wr) = (Inr (n + length (r_data rd)), (rd', wr')) \<and>
      quiet rd'"
  using assms
proof (induction "length (r_data rd)" arbitrary: rd wr n idx cs rule: less_induct)
  case less
  let ?data = "r_data rd" and ?full = "BATCH_CHUNKS * CHUNK_SIZE"
  obtain b0 rd1 where rb: "read_batch BATCH_CHUNKS [] rd = (Inr b0, rd1)" "quiet rd1"
    using read_batch_quiet [OF less.prems(3)] by blast
  from read_batch_chunks [OF rb(1)]
  have b0: "b0 = take BATCH_CHUNKS (chunked CHUNK_SIZE ?data)" and rd1: "r_data rd1 = drop ?full ?data"
    by simp_all
  have b0_Nil: "b0 = [] \<longleftrightarrow> ?data = []" by (simp add: b0 BATCH_pos)
  show ?case
  proof (cases "?data = [] \<and> \<not> (CURRENT_VERSION \<le> ver \<and> idx = 0)")
    case True
    with rb b0_Nil show ?thesis by (simp add: enc_loop.simps [of cx ver n idx rd wr])
  next
    case go: False
    define batch where "batch = (if b0 = [] then [[]] else b0)"
    have chunks: "(if idx = 0 then payload_chunks ver ?data else chunked CHUNK_SIZE ?data)
        = batch @ chunked CHUNK_SIZE (r_data rd1)"
    proof (cases "?data = []")
      case True
      with go b0_Nil rd1 show ?thesis by (auto simp: payload_chunks_def batch_def)
    next
      case False
      with b0_Nil rd1 b0 show ?thesis
        by (simp add: payload_chunks_def batch_def) (metis append_take_drop_id drop_chunked)
    qed
    have lb: "length batch \<le> BATCH_CHUNKS" "batch \<noteq> []" and lb': "length batch \<le> length ?data + 1"
      using length_chunked_le [of ?data] by (auto simp: batch_def b0 BATCH_CHUNKS_def)
    from less.prems(1) [unfolded chunks indexed_append]
    obtain as bs where ab: "indexed (encrypt_chunk cx) (unat idx) batch = Inr as"
        "indexed (encrypt_chunk cx) (unat idx + length batch) (chunked CHUNK_SIZE (r_data rd1)) = Inr bs"
      by (auto simp: res_elims)
    have "par_chunks (encrypt_chunk cx) (of_nat (unat idx)) 0 batch = indexed (encrypt_chunk cx) (unat idx + 0) batch"
      by (rule par_chunks_indexed) (use less.prems(2) lb' in linarith)
    with ab have par: "par_chunks (encrypt_chunk cx) idx 0 batch = Inr as" by simp
    obtain wr1 where wr1: "write_chunks as wr = (Inr (), wr1)" "w_room wr1 = None"
      using write_chunks_unlimited [OF less.prems(4)] by blast
    have "unat idx + length batch < 2 ^ 64" using less.prems(2) lb' by linarith
    from checked_add_u64_of_nat [OF this]
    have adv: "checked_add_u64 idx (of_nat (length batch)) = Some (of_nat (unat idx + length batch))"
      by simp
    let ?idx' = "of_nat (unat idx + length batch) :: u64"
    have idx': "unat ?idx' = unat idx + length batch"
      using checked_advance [OF adv lb(1)] by simp
    then have idx0: "?idx' \<noteq> 0" using lb(2) by (metis add_is_0 length_0_conv unat_0)
    have bytes: "batch_bytes batch = min (length ?data) ?full"
      by (cases "b0 = []") (use b0_Nil in \<open>auto simp: batch_def b0 batch_bytes_concat
        concat_take_chunked simp del: length_concat\<close>)
    define wr2 where "wr2 = report_progress (n + batch_bytes batch) wr1"
    have step: "enc_loop cx ver n idx (rd, wr) =
        (if batch_bytes batch < ?full then (Inr (n + batch_bytes batch), (rd1, wr2))
         else enc_loop cx ver (n + batch_bytes batch) ?idx' (rd1, wr2))"
    proof -
      have "\<not> (b0 = [] \<and> \<not> (CURRENT_VERSION \<le> ver \<and> idx = 0))" using go b0_Nil by blast
      then show ?thesis
        unfolding enc_loop.simps [of cx ver n idx rd wr]
        by (simp only: rb(1) par wr1(1) adv prod.case sum.case option.case Let_def if_False
            batch_def [symmetric] wr2_def)
    qed
    show ?thesis
    proof (cases "length ?data < ?full")
      case True
      with step bytes rb(2) show ?thesis by simp
    next
      case False
      have shorter: "length (r_data rd1) < length ?data"
        using False rd1 by (simp add: BATCH_CHUNKS_def) (metis CHUNK_SIZE_pos(1) diff_less list.size(3)
          mult_is_0 not_less0 nat_0_less_mult_iff neq0_conv zero_less_numeral linorder_not_less le_0_eq)
      have small: "unat ?idx' + length (r_data rd1) + 1 < 2 ^ 64"
      proof -
        have "length batch \<le> ?full"
          using lb(1) by (metis CHUNK_SIZE_pos(1) One_nat_def Suc_leI le_trans mult.right_neutral mult_le_mono2)
        then show ?thesis using less.prems(2) idx' rd1 False by simp
      qed
      from less.hyps [OF shorter _ small rb(2), of bs wr2 "n + batch_bytes batch"] ab(2) idx' idx0 wr1(2)
      obtain rd' wr' where "enc_loop cx ver (n + batch_bytes batch) ?idx' (rd1, wr2)
          = (Inr (n + batch_bytes batch + length (r_data rd1)), (rd', wr'))" "quiet rd'"
        by (auto simp: wr2_def simp del: of_nat_add)
      with step bytes False rd1 show ?thesis by (simp del: of_nat_add)
    qed
  qed
qed

section \<open>Correctness of the payload functions\<close>

lemma stream_encrypt_eq_loop:
  "derive_payload_keys C hk alg = Inr ks \<Longrightarrow>
     stream_encrypt_payload C alg ver hk nonce sn aad s =
       enc_loop \<lparr>cx_ciphers = C, cx_alg = alg, cx_keys = ks, cx_nonce = nonce,
         cx_secondary = sn, cx_aad = aad\<rparr> ver 0 0 s"
  by (simp add: stream_encrypt_payload_def)

text \<open>The context the two functions build from their arguments.\<close>

abbreviation context_of ::
  "ciphers \<Rightarrow> algorithm_id \<Rightarrow> payload_keys \<Rightarrow> bytes \<Rightarrow> bytes option \<Rightarrow> bytes \<Rightarrow> chunk_ctx" where
  "context_of C alg ks nonce sn aad \<equiv> \<lparr>cx_ciphers = C, cx_alg = alg, cx_keys = ks,
     cx_nonce = nonce, cx_secondary = sn, cx_aad = aad\<rparr>"

lemma seal_payload_Inr:
  "seal_payload C alg ver hk nonce sn aad xs = Inr ct \<longleftrightarrow>
     (\<exists>ks cs. derive_payload_keys C hk alg = Inr ks \<and> ct = concat cs \<and>
        indexed (encrypt_chunk (context_of C alg ks nonce sn aad)) 0 (payload_chunks ver xs) = Inr cs)"
  by (auto simp: seal_payload_def res_elims)

lemma context_ok:
  "ciphers_ok C \<Longrightarrow> derive_payload_keys C hk alg = Inr ks \<Longrightarrow>
     ctx_ok (context_of C alg ks nonce sn aad)"
  by (simp add: ctx_ok_def derive_payload_keys_algorithm)

lemma stream_encrypt_sound:
  assumes run: "stream_encrypt_payload C alg ver hk nonce sn aad (rd, wr) = (Inr n, (rd', wr'))"
  shows "\<exists>ct. seal_payload C alg ver hk nonce sn aad (r_data rd) = Inr ct \<and>
        w_data wr' = w_data wr @ ct \<and> n = length (r_data rd) \<and> r_data rd' = []"
proof -
  from run obtain ks where ks: "derive_payload_keys C hk alg = Inr ks"
    by (auto simp: stream_encrypt_payload_def split: sum.splits)
  from enc_loop_Inr [OF run [unfolded stream_encrypt_eq_loop [OF ks]]] ks
  show ?thesis by (auto simp: seal_payload_def)
qed

text \<open>
  A successful run of \<open>stream_encrypt_payload\<close> has written exactly the sealed chunks of
  the reader's data after what the writer held, consumed the whole input and returned its
  length, whatever the sizes of the reads, and whatever faults the reader or writer could
  have had.
\<close>

theorem stream_encrypt_payload_sound:
  assumes run: "stream_encrypt_payload C alg ver hk nonce sn aad (rd, wr) = (Inr n, (rd', wr'))"
  shows "\<exists>ct. seal_payload C alg ver hk nonce sn aad (r_data rd) = Inr ct \<and>
        w_data wr' = w_data wr @ ct \<and> n = length (r_data rd) \<and> r_data rd' = []"
  by (rule stream_encrypt_sound [OF run])

lemma encrypt_total:
  assumes seal: "seal_payload C alg ver hk nonce sn aad (r_data rd) = Inr ct"
    and env: "quiet rd" "w_room wr = None" "length (r_data rd) + 1 < 2 ^ 64"
  shows "\<exists>rd' wr'. stream_encrypt_payload C alg ver hk nonce sn aad (rd, wr) =
      (Inr (length (r_data rd)), (rd', wr')) \<and> w_data wr' = w_data wr @ ct"
proof -
  from seal obtain ks cs where ks: "derive_payload_keys C hk alg = Inr ks"
      and cs: "indexed (encrypt_chunk (context_of C alg ks nonce sn aad)) (unat (0 :: u64))
          (if (0 :: u64) = 0 then payload_chunks ver (r_data rd) else chunked CHUNK_SIZE (r_data rd)) = Inr cs"
        "ct = concat cs"
    by (auto simp: seal_payload_Inr)
  have "unat (0 :: u64) + length (r_data rd) + 1 < 2 ^ 64" using env(3) by simp
  from enc_loop_complete [OF cs(1) this env(1,2), of 0]
  obtain rd2 wr2 where run: "stream_encrypt_payload C alg ver hk nonce sn aad (rd, wr) =
      (Inr (length (r_data rd)), (rd2, wr2))"
    by (auto simp: stream_encrypt_eq_loop [OF ks])
  with enc_loop_Inr [OF run [unfolded stream_encrypt_eq_loop [OF ks]]] cs show ?thesis
    by auto
qed

text \<open>
  C32: \<open>stream_encrypt_payload\<close> succeeds whenever the chunks can be sealed, the reader has no
  fault and the writer has room: it then returns the length and appends the ciphertext.
\<close>

theorem stream_encrypt_payload_total:
  assumes seal: "seal_payload C alg ver hk nonce sn aad (r_data rd) = Inr ct"
    and env: "quiet rd" "w_room wr = None" "length (r_data rd) + 1 < 2 ^ 64"
  shows "\<exists>rd' wr'. stream_encrypt_payload C alg ver hk nonce sn aad (rd, wr) =
      (Inr (length (r_data rd)), (rd', wr')) \<and> w_data wr' = w_data wr @ ct"
  by (rule encrypt_total [OF assms])

section \<open>Nonces\<close>

text \<open>One chunk sealed with given nonces: the calls of the ciphers that produce it.\<close>

fun sealed_under ::
  "ciphers \<Rightarrow> algorithm_id \<Rightarrow> payload_keys \<Rightarrow> bytes \<Rightarrow> bytes option \<Rightarrow> bytes \<Rightarrow> bytes \<Rightarrow> bytes \<Rightarrow> bool" where
  "sealed_under C XChaCha20Poly1305 ks x a aad m c \<longleftrightarrow> xchacha_encrypt C (file_key ks) x aad m = Some c"
| "sealed_under C CascadeAesGcmXChaCha ks x a aad m c \<longleftrightarrow> (\<exists>n c1. a = Some n \<and>
     aesgcm_encrypt C (key_aes ks) n aad m = Some c1 \<and> xchacha_encrypt C (key_xchacha ks) x aad c1 = Some c)"
| "sealed_under C TripleCascadeAesXChaChaLco ks x a aad m c \<longleftrightarrow> (\<exists>n c1 c2. a = Some n \<and>
     aesgcm_encrypt C (key_aes ks) n aad m = Some c1 \<and> xchacha_encrypt C (key_xchacha ks) x aad c1 = Some c2 \<and>
     c = apply_lco c2 (key_lco ks) x)"
| "sealed_under C _ ks x a aad m c \<longleftrightarrow> False"

lemma encrypt_chunk_sealed:
  "encrypt_chunk (context_of C alg ks nonce sn aad) i m = Inr c \<Longrightarrow>
     sealed_under C alg ks (xchacha_nonce nonce i) (map_option (\<lambda>s. aes_nonce s i) sn) (chunk_aad aad i) m c"
  by (cases alg) (auto simp: encrypt_chunk_def Let_def res_elims)

lemma indexed_nth:
  "indexed f k ms = Inr cs \<Longrightarrow> i < length ms \<Longrightarrow> f (of_nat (k + i)) (ms ! i) = Inr (cs ! i)"
proof (induction ms arbitrary: k i cs)
  case Nil
  then show ?case by simp
next
  case (Cons m ms)
  from Cons.prems(1) obtain c rest where "f (of_nat k) m = Inr c" "indexed f (Suc k) ms = Inr rest" "cs = c # rest"
    by (auto simp: res_elims)
  with Cons.IH [of "Suc k" rest] Cons.prems(2) show ?case by (cases i) auto
qed

text \<open>
  C40: What a successful \<open>stream_encrypt_payload\<close> writes are the chunks of its input in order, each
  sealed by calls with nonces of its own: under the keys of the payload no XChaCha20 nonce and no
  AES nonce is used for two chunks, however many chunks and batches there are.
\<close>

theorem nonces_never_repeat:
  assumes run: "stream_encrypt_payload C alg ver hk nonce sn aad (rd, wr) = (Inr n, (rd', wr'))"
    and len: "length nonce = 24" "\<forall>s. sn = Some s \<longrightarrow> length s = 12"
  shows "\<exists>ks ms cts. derive_payload_keys C hk alg = Inr ks \<and> concat ms = r_data rd \<and>
    w_data wr' = w_data wr @ concat cts \<and> length cts = length ms \<and>
    (\<forall>i < length ms. sealed_under C alg ks (xchacha_nonce nonce (of_nat i)) (map_option (\<lambda>s. aes_nonce s (of_nat i)) sn)
       (chunk_aad aad (of_nat i)) (ms ! i) (cts ! i)) \<and>
    distinct (map (\<lambda>i. xchacha_nonce nonce (of_nat i)) [0..<length ms]) \<and>
    (\<forall>s. sn = Some s \<longrightarrow> distinct (map (\<lambda>i. aes_nonce s (of_nat i)) [0..<length ms]))"
proof -
  from run obtain ks where ks: "derive_payload_keys C hk alg = Inr ks"
    by (auto simp: stream_encrypt_payload_def split: sum.splits)
  let ?ms = "payload_chunks ver (r_data rd)"
  from enc_loop_Inr [OF run [unfolded stream_encrypt_eq_loop [OF ks]]] obtain cts where
    cts: "indexed (encrypt_chunk (context_of C alg ks nonce sn aad)) 0 ?ms = Inr cts"
      "w_data wr' = w_data wr @ concat cts" "length cts \<le> 2 ^ 64" by auto
  note n = indexed_length [OF cts(1)]
  have "sealed_under C alg ks (xchacha_nonce nonce (of_nat i)) (map_option (\<lambda>s. aes_nonce s (of_nat i)) sn)
      (chunk_aad aad (of_nat i)) (?ms ! i) (cts ! i)" if "i < length ?ms" for i
    using encrypt_chunk_sealed [OF indexed_nth [OF cts(1) that]] by simp
  moreover have "length ?ms \<le> 2 ^ 64" using n cts(3) by simp
  then have "distinct (map (\<lambda>i. xchacha_nonce nonce (of_nat i)) [0..<length ?ms])"
      "\<forall>s. sn = Some s \<longrightarrow> distinct (map (\<lambda>i. aes_nonce s (of_nat i)) [0..<length ?ms])"
    using xn.run_distinct [OF len(1)] an.run_distinct len(2) by simp_all
  ultimately show ?thesis
    using ks cts(2) n by (intro exI [of _ ks] exI [of _ ?ms] exI [of _ cts]) simp
qed

section \<open>What decryption accepts\<close>

lemma read_one_quiet:
  assumes "quiet rd"
  obtains rd' where "read 1 rd = (Inr (take 1 (r_data rd)), rd')"
  using assms
  by (cases "r_events rd"; cases "hd (r_events rd)")
    (auto simp: read_def quiet_def split: list.splits read_event.splits)

lemma stream_decrypt_Inr:
  assumes ks: "derive_payload_keys C hk alg = Inr ks"
  shows "stream_decrypt_payload C alg ver hk nonce sn aad plen (rd, wr) = (Inr (), (rd', wr')) \<longleftrightarrow>
    (\<exists>rd1. dec_loop (context_of C alg ks nonce sn aad) ver plen 0 0 False (rd, wr) =
       (Inr (unat plen), (rd1, wr')) \<and> read 1 rd1 = (Inr [], rd'))"
  by (auto simp: stream_decrypt_payload_def ks split: prod.splits sum.splits if_splits)

text \<open>The one frame of an empty payload of format v2.\<close>

lemma read_frames_empty_frame:
  assumes "payload_algorithm alg" "CURRENT_VERSION \<le> ver"
  shows "read_frames alg ver 0 0 0 BATCH_CHUNKS [] False rd =
    (case fill (tag_size alg) [] rd of
       (Inl e, rd') \<Rightarrow> (Inl (Io e), rd')
     | (Inr chunk, rd') \<Rightarrow>
         if chunk = [] then (Inr ([], True), rd')
         else if length chunk = tag_size alg then (Inr ([chunk], True), rd')
         else (Inl DecryptionFailed, rd'))"
  using assms tag_size_pos [OF assms(1)] unfolding BATCH_pos read_frames.simps Let_def
  by (simp split: prod.splits sum.splits)

lemma dec_loop_eof [simp]: "dec_loop cx ver plen written idx True (rd, wr) = (Inr written, (rd, wr))"
  by (simp add: dec_loop.simps)

lemma dec_loop_empty_frame:
  assumes ok: "ctx_ok cx" and ver: "CURRENT_VERSION \<le> ver"
    and run: "dec_loop cx ver 0 0 0 False (rd, wr) = (Inr t, (rd', wr'))"
  shows "t = 0 \<and> w_data wr' = w_data wr \<and>
    (r_data rd = [] \<and> r_data rd' = [] \<or>
     (\<exists>c. encrypt_chunk cx 0 [] = Inr c \<and> r_data rd = c @ r_data rd'))"
proof -
  have alg: "payload_algorithm (cx_alg cx)" using ok by (simp add: ctx_ok_def)
  obtain r rd1 where rd1: "fill (tag_size (cx_alg cx)) [] rd = (r, rd1)" by fastforce
  note eq = run [unfolded dec_loop.simps [of cx ver 0 0 0 False rd wr]
      read_frames_empty_frame [OF alg ver] rd1 prod.case if_False]
  from eq obtain chunk where r: "r = Inr chunk" by (cases r) auto
  note eq = eq [unfolded r sum.case prod.case]
  from fill_Inr [OF rd1 [unfolded r]] have
    c: "chunk = take (tag_size (cx_alg cx)) (r_data rd)" "r_data rd1 = drop (tag_size (cx_alg cx)) (r_data rd)"
    by simp_all
  show ?thesis
  proof (cases "chunk = []")
    case True
    with c(1) tag_size_pos [OF alg] have "r_data rd = []" by (metis less_numeral_extra(3) take_eq_Nil)
    with eq True c show ?thesis by simp
  next
    case False
    with eq have len: "length chunk = tag_size (cx_alg cx)" by (auto split: if_splits)
    note eq = eq [unfolded if_not_P [OF False] if_P [OF len], simplified]
    from eq obtain m where m: "decrypt_chunk cx 0 chunk = Inr m"
      by (cases "decrypt_chunk cx 0 chunk") (auto simp: checked_add_u64_def)
    then have enc: "encrypt_chunk cx 0 m = Inr chunk" by (rule cc.seal_open [OF ok])
    with cc.seal_length [OF ok] len have "m = []" by simp
    with eq m enc c show ?thesis
      by (auto simp: write_all_def checked_add_u64_def batch_bytes_def split: option.splits)
  qed
qed

lemma dec_loop_empty_frame_complete:
  assumes ok: "ctx_ok cx" and ver: "CURRENT_VERSION \<le> ver" and rd: "quiet rd" and room: "w_room wr = None"
    and data: "r_data rd = [] \<or> encrypt_chunk cx 0 [] = Inr (r_data rd)"
  shows "\<exists>rd' wr'. dec_loop cx ver 0 0 0 False (rd, wr) = (Inr 0, (rd', wr')) \<and> quiet rd' \<and>
      r_data rd' = [] \<and> w_data wr' = w_data wr"
proof -
  have alg: "payload_algorithm (cx_alg cx)" using ok by (simp add: ctx_ok_def)
  obtain rd1 where rd1: "fill (tag_size (cx_alg cx)) [] rd = (Inr (take (tag_size (cx_alg cx)) (r_data rd)), rd1)"
      "r_data rd1 = drop (tag_size (cx_alg cx)) (r_data rd)" "quiet rd1"
    using fill_quiet_eq [OF rd] by blast
  note step = dec_loop.simps [of cx ver 0 0 0 False rd wr] read_frames_empty_frame [OF alg ver] rd1(1)
  from data show ?thesis
  proof
    assume "r_data rd = []"
    with rd1 show ?thesis by (simp add: step)
  next
    assume enc: "encrypt_chunk cx 0 [] = Inr (r_data rd)"
    then have len: "length (r_data rd) = tag_size (cx_alg cx)"
      using cc.seal_length [OF ok enc] by simp
    then have ne: "r_data rd \<noteq> []" using tag_size_pos [OF alg] by auto
    have "decrypt_chunk cx 0 (r_data rd) = Inr []" by (rule cc.open_seal [OF ok enc])
    with len ne rd1 room show ?thesis
      by (simp add: step write_all_def checked_add_u64_def batch_bytes_def)
  qed
qed

text \<open>Whatever the reader and the writer do: an accepted ciphertext is the sealed output.\<close>

lemma decrypt_sound:
  assumes C: "ciphers_ok C"
    and run: "stream_decrypt_payload C alg ver hk nonce sn aad plen (rd, wr) = (Inr (), (rd', wr'))"
  obtains out where "w_data wr' = w_data wr @ out" "length out = unat plen"
    "seal_payload C alg ver hk nonce sn aad out = Inr (r_data rd) \<or>
     CURRENT_VERSION \<le> ver \<and> plen = 0 \<and> r_data rd = []"
proof -
  from run obtain ks where ks: "derive_payload_keys C hk alg = Inr ks"
    by (auto simp: stream_decrypt_payload_def split: sum.splits)
  let ?cx = "context_of C alg ks nonce sn aad"
  have ok: "ctx_ok ?cx" using C ks by (rule context_ok)
  from run obtain rd1 where loop: "dec_loop ?cx ver plen 0 0 False (rd, wr) = (Inr (unat plen), (rd1, wr'))"
      and fin: "read 1 rd1 = (Inr [], rd')"
    by (auto simp: stream_decrypt_Inr [OF ks])
  have end_of_data: "r_data rd1 = []" using read_Inr(3) [OF fin] by simp
  show ?thesis
  proof (cases "CURRENT_VERSION \<le> ver \<and> plen = 0")
    case True
    with dec_loop_empty_frame [OF ok _ loop [unfolded True [THEN conjunct2]]] end_of_data
    have "w_data wr' = w_data wr @ []" "r_data rd = [] \<or> encrypt_chunk ?cx 0 [] = Inr (r_data rd)"
      by auto
    with True show ?thesis
      by (intro that [of "[]"]) (auto simp: seal_payload_Inr ks payload_chunks_def res_elims)
  next
    case ne: False
    from dec_loop_sound [OF ok ne loop] obtain cs ms where
      cs: "indexed (encrypt_chunk ?cx) 0 ms = Inr cs" "r_data rd = concat cs @ r_data rd1"
        "w_data wr' = w_data wr @ concat ms" "unat plen = length (concat ms)" "fits (unat plen) ms"
      by auto
    have "payload_chunks ver (concat ms) = ms"
    proof -
      have "concat ms \<noteq> [] \<or> \<not> CURRENT_VERSION \<le> ver"
        using ne cs(4) by (metis list.size(3) unat_eq_0)
      moreover have "ms = chunked CHUNK_SIZE (concat ms)"
        using fits_unique [OF cs(5)] cs(4) by simp
      ultimately show ?thesis by (auto simp: payload_chunks_def simp del: concat_eq_Nil_conv)
    qed
    with cs end_of_data ks show ?thesis
      by (intro that [of "concat ms"]) (auto simp: seal_payload_Inr)
  qed
qed

lemma decrypt_accepts:
  assumes C: "ciphers_ok C" and keys: "is_ok (derive_payload_keys C hk alg)"
    and env: "quiet rd" "w_room wr = None"
  shows "(\<exists>rd' wr'. stream_decrypt_payload C alg ver hk nonce sn aad plen (rd, wr) = (Inr (), (rd', wr')) \<and>
            w_data wr' = w_data wr @ out) \<longleftrightarrow>
         length out = unat plen \<and>
         (seal_payload C alg ver hk nonce sn aad out = Inr (r_data rd) \<or>
          CURRENT_VERSION \<le> ver \<and> plen = 0 \<and> r_data rd = [])"
    (is "?accepts \<longleftrightarrow> ?spec")
proof
  assume ?accepts
  then obtain rd' wr' where run: "stream_decrypt_payload C alg ver hk nonce sn aad plen (rd, wr) = (Inr (), (rd', wr'))"
      "w_data wr' = w_data wr @ out" by blast
  from decrypt_sound [OF C run(1)] run(2) show ?spec by (metis same_append_eq)
next
  assume spec: ?spec
  obtain ks where ks: "derive_payload_keys C hk alg = Inr ks"
    using keys by (auto simp: is_ok_iff)
  let ?cx = "context_of C alg ks nonce sn aad"
  have ok: "ctx_ok ?cx" using C ks by (rule context_ok)
  have seal: "seal_payload C alg ver hk nonce sn aad out = Inr ct \<longleftrightarrow>
      (\<exists>cs. ct = concat cs \<and> indexed (encrypt_chunk ?cx) 0 (payload_chunks ver out) = Inr cs)" for ct
    by (auto simp: seal_payload_Inr ks)
  show ?accepts
  proof (cases "CURRENT_VERSION \<le> ver \<and> plen = 0")
    case True
    have seal0: "seal_payload C alg ver hk nonce sn aad [] = Inr ct \<longleftrightarrow> encrypt_chunk ?cx 0 [] = Inr ct" for ct
      using True by (auto simp: seal_payload_Inr ks payload_chunks_def res_elims)
    have "out = []" using True spec by simp
    with spec seal0 have "r_data rd = [] \<or> encrypt_chunk ?cx 0 [] = Inr (r_data rd)" by auto
    from dec_loop_empty_frame_complete [OF ok _ env this, of ver] True
    obtain rd1 wr1 where run: "dec_loop ?cx ver 0 0 0 False (rd, wr) = (Inr 0, (rd1, wr1))" "quiet rd1"
        "r_data rd1 = []" "w_data wr1 = w_data wr" by auto
    obtain rd2 where "read 1 rd1 = (Inr (take 1 (r_data rd1)), rd2)" using read_one_quiet [OF run(2)] .
    with run True \<open>out = []\<close> show ?thesis by (auto simp: stream_decrypt_Inr [OF ks])
  next
    case ne: False
    from spec obtain cs where cs: "r_data rd = concat cs @ []"
        "indexed (encrypt_chunk ?cx) (unat (0 :: u64)) (payload_chunks ver out) = Inr cs"
      using ne seal by auto
    have chunks: "payload_chunks ver out = chunked CHUNK_SIZE out"
      using ne spec by (auto simp: payload_chunks_def unat_eq_0)
    note len = spec [THEN conjunct1]
    have "length out < 2 ^ 64" using len unat_bound [of plen] by simp
    then have small: "unat (0 :: u64) + length (payload_chunks ver out) < 2 ^ 64"
      using payload_chunks_count by simp
    have fit: "fits (unat plen - 0) (payload_chunks ver out)"
      using fits_chunked [of out] chunks len by simp
    have tot: "length (concat (payload_chunks ver out)) = unat plen - 0" using len by simp
    from dec_loop_complete [OF ok ne cs(2) fit tot _ small env(1) cs(1) env(2), of False]
    obtain rd1 wr1 where run: "dec_loop ?cx ver plen 0 0 False (rd, wr) = (Inr (unat plen), (rd1, wr1))"
        "quiet rd1" "r_data rd1 = []" "w_data wr1 = w_data wr @ out" by auto
    obtain rd2 where "read 1 rd1 = (Inr (take 1 (r_data rd1)), rd2)" using read_one_quiet [OF run(2)] .
    with run show ?thesis by (auto simp: stream_decrypt_Inr [OF ks])
  qed
qed

text \<open>
  C4: For keys that can be derived, a fault-free reader and a writer with room,
  \<open>stream_decrypt_payload\<close> accepts a ciphertext with output \<open>out\<close> exactly when \<open>out\<close> has the
  announced length and the ciphertext is the encryption of \<open>out\<close>, with one exception: for
  format v2 and announced length 0 the missing (unauthenticated) ciphertext is accepted too.
  In particular truncated, extended, reordered or altered ciphertexts of non-empty payloads
  are rejected, for every suite and every fragmentation of the reads.
\<close>

theorem stream_decrypt_payload_accepts_exactly:
  assumes C: "ciphers_ok C" and keys: "is_ok (derive_payload_keys C hk alg)"
    and env: "quiet rd" "w_room wr = None"
  shows "(\<exists>rd' wr'. stream_decrypt_payload C alg ver hk nonce sn aad plen (rd, wr) = (Inr (), (rd', wr')) \<and>
            w_data wr' = w_data wr @ out) \<longleftrightarrow>
         length out = unat plen \<and>
         (seal_payload C alg ver hk nonce sn aad out = Inr (r_data rd) \<or>
          CURRENT_VERSION \<le> ver \<and> plen = 0 \<and> r_data rd = [])"
  by (rule decrypt_accepts [OF assms])

text \<open>A short payload under the sample ciphers, for the witnesses.\<close>

lemma sample_seal_short:
  assumes "xs \<noteq> []" "length xs \<le> CHUNK_SIZE"
  shows "seal_payload sample_ciphers XChaCha20Poly1305 ver hk nonce sn aad xs =
    Inr (xs @ sum_tag (replicate 32 (sum_list hk + sum_list (label Payload)))
      (xchacha_nonce nonce 0) (chunk_aad aad 0) xs)"
  using assms
  by (simp add: seal_payload_def payload_chunks_def chunked_short derive_subkey_def sample_ciphers_def
      encrypt_chunk_def tag_encrypt_def)

text \<open>
  What \<open>stream_encrypt_payload\<close> wrote, \<open>stream_decrypt_payload\<close> restores, for every
  payload, suite and fragmentation of the reads on either side, given the same key material,
  nonces, associated data and the length of the plaintext.
\<close>

theorem payload_round_trip:
  assumes C: "ciphers_ok C"
    and enc: "stream_encrypt_payload C alg ver hk nonce sn aad (rd, fresh_writer room) = (Inr n, (rd', wr'))"
    and small: "length (r_data rd) < 2 ^ 64"
    and rd2: "quiet rd2" "r_data rd2 = w_data wr'"
  shows "\<exists>rd3 wr3. stream_decrypt_payload C alg ver hk nonce sn aad (of_nat n) (rd2, fresh_writer None) =
      (Inr (), (rd3, wr3)) \<and> w_data wr3 = r_data rd"
proof -
  from stream_encrypt_sound [OF enc]
  have seal: "seal_payload C alg ver hk nonce sn aad (r_data rd) = Inr (r_data rd2)" "n = length (r_data rd)"
    using rd2(2) by auto
  then have "is_ok (derive_payload_keys C hk alg)" by (auto simp: seal_payload_Inr)
  from decrypt_accepts [OF C this rd2(1), of "fresh_writer None" ver nonce sn aad "of_nat n" "r_data rd"]
  show ?thesis
    using seal small by (auto simp: unat_of_nat take_bit_nat_eq_self)
qed

lemma sample_sealed:
  "xs \<noteq> [] \<Longrightarrow> length xs \<le> CHUNK_SIZE \<Longrightarrow>
     \<exists>ct. seal_payload sample_ciphers XChaCha20Poly1305 ver hk nonce sn aad xs = Inr ct"
  by (simp add: sample_seal_short)

text \<open>A concrete run for the witnesses: three bytes, delivered one at a time.\<close>

definition sample_reader :: "bytes \<Rightarrow> reader" where
  "sample_reader xs = \<lparr>r_data = xs, r_events = [Short 0, Short 0, Short 4]\<rparr>"

lemma sample_reader_simps [simp]: "quiet (sample_reader xs)" "r_data (sample_reader xs) = xs"
  by (simp_all add: sample_reader_def quiet_def)

abbreviation sample_encrypt where
  "sample_encrypt ver s \<equiv> stream_encrypt_payload sample_ciphers XChaCha20Poly1305 ver [7]
     (replicate 24 1) None (replicate 32 2) s"

abbreviation sample_decrypt where
  "sample_decrypt ver plen s \<equiv> stream_decrypt_payload sample_ciphers XChaCha20Poly1305 ver [7]
     (replicate 24 1) None (replicate 32 2) plen s"

lemma sample_run: "\<exists>rd' wr'. sample_encrypt 2 (sample_reader [10, 20, 30], fresh_writer None) = (Inr 3, (rd', wr'))"
proof -
  obtain ct where "seal_payload sample_ciphers XChaCha20Poly1305 2 [7] (replicate 24 1) None
      (replicate 32 2) [10, 20, 30] = Inr ct"
    using sample_sealed [of "[10, 20, 30]" 2 "[7]" "replicate 24 1" None "replicate 32 2"]
    by (auto simp: CHUNK_SIZE_def)
  with encrypt_total [of sample_ciphers XChaCha20Poly1305 2 "[7]" "replicate 24 1" None "replicate 32 2"
      "sample_reader [10, 20, 30]" ct "fresh_writer None"]
  show ?thesis by auto
qed

theorem stream_encrypt_payload_sound_witness:
  "\<exists>ct rd' wr'. sample_encrypt 2 (sample_reader [10, 20, 30], fresh_writer None) = (Inr 3, (rd', wr')) \<and>
     seal_payload sample_ciphers XChaCha20Poly1305 2 [7] (replicate 24 1) None (replicate 32 2)
       [10, 20, 30] = Inr ct \<and> w_data wr' = ct"
proof -
  obtain rd' wr' where run: "sample_encrypt 2 (sample_reader [10, 20, 30], fresh_writer None) = (Inr 3, (rd', wr'))"
    using sample_run by blast
  from stream_encrypt_payload_sound [OF run] run show ?thesis by auto
qed

theorem stream_encrypt_payload_total_witness:
  "\<exists>rd' wr'. sample_encrypt 2 (sample_reader [10, 20, 30], fresh_writer None) = (Inr 3, (rd', wr'))"
proof -
  obtain ct where "seal_payload sample_ciphers XChaCha20Poly1305 2 [7] (replicate 24 1) None
      (replicate 32 2) (r_data (sample_reader [10, 20, 30])) = Inr ct"
    using sample_sealed [of "[10, 20, 30]" 2 "[7]" "replicate 24 1" None "replicate 32 2"]
    by (auto simp: CHUNK_SIZE_def)
  from stream_encrypt_payload_total [OF this, of "fresh_writer None"]
  show ?thesis by auto
qed

theorem nonces_never_repeat_witness:
  "\<exists>rd' wr' ms. sample_encrypt 2 (sample_reader [10, 20, 30], fresh_writer None) = (Inr 3, (rd', wr')) \<and>
     concat ms = ([10, 20, 30] :: bytes) \<and>
     distinct (map (\<lambda>i. xchacha_nonce (replicate 24 1) (of_nat i)) [0..<length ms])"
proof -
  obtain rd' wr' where run: "sample_encrypt 2 (sample_reader [10, 20, 30], fresh_writer None) = (Inr 3, (rd', wr'))"
    using sample_run by blast
  from nonces_never_repeat [OF run] run show ?thesis by auto
qed

theorem payload_round_trip_witness:
  "\<exists>rd' wr' rd3 wr3. sample_encrypt 2 (sample_reader [10, 20, 30], fresh_writer None) = (Inr 3, (rd', wr')) \<and>
     sample_decrypt 2 3 (sample_reader (w_data wr'), fresh_writer None) = (Inr (), (rd3, wr3)) \<and>
     w_data wr3 = [10, 20, 30]"
proof -
  obtain rd' wr' where run: "sample_encrypt 2 (sample_reader [10, 20, 30], fresh_writer None) = (Inr 3, (rd', wr'))"
    using sample_run by blast
  from payload_round_trip [OF sample_ciphers_ok run, of "sample_reader (w_data wr')"] run
  show ?thesis by auto
qed

theorem stream_decrypt_payload_accepts_exactly_witness:
  "\<not> (\<exists>rd' wr'. sample_decrypt 2 2 (sample_reader [], fresh_writer None) = (Inr (), (rd', wr')) \<and>
     w_data wr' = w_data (fresh_writer None) @ [10, 20])"
proof -
  have "is_ok (derive_payload_keys sample_ciphers [7] XChaCha20Poly1305)"
    by (simp add: derive_subkey_def sample_ciphers_def)
  from stream_decrypt_payload_accepts_exactly [OF sample_ciphers_ok this, of "sample_reader []"
      "fresh_writer None" 2 "replicate 24 1" None "replicate 32 2" 2 "[10, 20]"]
  show ?thesis
    using sample_seal_short [of "[10, 20]" 2 "[7]" "replicate 24 1" None "replicate 32 2"]
    by (simp add: CHUNK_SIZE_def)
qed

section \<open>The missing empty frame\<close>

text \<open>
  An empty version-2 payload is accepted without any authentication: with announced
  length 0 and no ciphertext at all, \<open>stream_decrypt_payload\<close> succeeds for every key, nonce
  and associated data, although encryption always writes one authenticated empty frame.
\<close>

theorem empty_payload_accepted_unauthenticated:
  assumes C: "ciphers_ok C" and keys: "is_ok (derive_payload_keys C hk alg)"
  shows "(\<exists>rd' wr'. stream_decrypt_payload C alg 2 hk nonce sn aad 0
            (\<lparr>r_data = [], r_events = []\<rparr>, fresh_writer None) = (Inr (), (rd', wr')) \<and> w_data wr' = []) \<and>
         (\<forall>ct. seal_payload C alg 2 hk nonce sn aad [] = Inr ct \<longrightarrow> ct \<noteq> [])"
proof
  have "quiet \<lparr>r_data = [], r_events = []\<rparr>" by (simp add: quiet_def)
  from decrypt_accepts [OF C keys this, of "fresh_writer None" 2 nonce sn aad 0 "[]"]
  show "\<exists>rd' wr'. stream_decrypt_payload C alg 2 hk nonce sn aad 0
            (\<lparr>r_data = [], r_events = []\<rparr>, fresh_writer None) = (Inr (), (rd', wr')) \<and> w_data wr' = []"
    by (simp add: CURRENT_VERSION_def)
  show "\<forall>ct. seal_payload C alg 2 hk nonce sn aad [] = Inr ct \<longrightarrow> ct \<noteq> []"
  proof (intro allI impI)
    fix ct
    assume "seal_payload C alg 2 hk nonce sn aad [] = Inr ct"
    then obtain ks where ks: "derive_payload_keys C hk alg = Inr ks"
        and enc: "encrypt_chunk (context_of C alg ks nonce sn aad) 0 [] = Inr ct"
      by (auto simp: seal_payload_Inr payload_chunks_def CURRENT_VERSION_def res_elims)
    show "ct \<noteq> []"
      using cc.seal_length [OF context_ok [OF C ks] enc] tag_size_pos [OF derive_payload_keys_algorithm [OF ks]]
      by auto
  qed
qed

theorem empty_payload_accepted_unauthenticated_witness:
  "\<exists>rd' wr'. sample_decrypt 2 0 (\<lparr>r_data = [], r_events = []\<rparr>, fresh_writer None) = (Inr (), (rd', wr'))"
proof -
  have "is_ok (derive_payload_keys sample_ciphers [7] XChaCha20Poly1305)"
    by (simp add: derive_subkey_def sample_ciphers_def)
  from empty_payload_accepted_unauthenticated [OF sample_ciphers_ok this] show ?thesis by blast
qed

section \<open>Ciphertext size\<close>

lemma length_chunked:
  "length (chunked CHUNK_SIZE xs) = (length xs + (CHUNK_SIZE - 1)) div CHUNK_SIZE"
proof (induction CHUNK_SIZE xs rule: chunked.induct)
  case (1 xs)
  show ?case
  proof (cases "length xs \<le> CHUNK_SIZE")
    case True
    show ?thesis
    proof (cases "xs = []")
      case False
      then have "0 < length xs" by simp
      then have "length xs + (CHUNK_SIZE - 1) = CHUNK_SIZE + (length xs - 1)" "length xs - 1 < CHUNK_SIZE"
        using True CHUNK_SIZE_pos(1) by linarith+
      then have "(length xs + (CHUNK_SIZE - 1)) div CHUNK_SIZE = 1"
        by (simp only: div_add_self1 [OF CHUNK_SIZE_pos(2)] div_less)
      with False True show ?thesis by (simp add: chunked_short)
    qed simp
  next
    case False
    then have "xs \<noteq> []" by auto
    with 1 have "length (chunked CHUNK_SIZE xs) = Suc ((length xs - CHUNK_SIZE + (CHUNK_SIZE - 1)) div CHUNK_SIZE)"
      by (simp add: chunked_step)
    moreover have "length xs + (CHUNK_SIZE - 1) = CHUNK_SIZE + (length xs - CHUNK_SIZE + (CHUNK_SIZE - 1))"
      using False by simp
    ultimately show ?thesis by (simp only: div_add_self1 [OF CHUNK_SIZE_pos(2)] add_Suc add_0 One_nat_def)
  qed
qed

lemma seal_payload_length:
  assumes C: "ciphers_ok C" and seal: "seal_payload C alg ver hk nonce sn aad xs = Inr ct"
  shows "length ct = length xs + tag_size alg *
    (if length xs = 0 then (if CURRENT_VERSION \<le> ver then 1 else 0) else (length xs + 1048575) div 1048576)"
proof -
  from seal obtain ks cs where ks: "derive_payload_keys C hk alg = Inr ks"
      and cs: "ct = concat cs"
        "indexed (encrypt_chunk (context_of C alg ks nonce sn aad)) 0 (payload_chunks ver xs) = Inr cs"
    by (auto simp: seal_payload_Inr)
  have "length (concat cs) = sum_list (map (\<lambda>m. length m + tag_size alg) (payload_chunks ver xs))"
    using cc.run_lengths [OF context_ok [OF C ks] cs(2)] by (simp add: length_concat)
  also have "\<dots> = length (concat (payload_chunks ver xs)) + tag_size alg * length (payload_chunks ver xs)"
    by (simp add: sum_list_addf length_concat sum_list_triv mult.commute del: concat_payload_chunks)
  finally have "length ct = length xs + tag_size alg * length (payload_chunks ver xs)"
    using cs by simp
  then show ?thesis
    using length_chunked [of xs] by (auto simp: payload_chunks_def CHUNK_SIZE_def)
qed

lemma sealed_lengths_agree:
  assumes C: "ciphers_ok C" and "seal_payload C alg ver hk nonce sn aad xs = Inr ct"
    and "seal_payload C alg ver hk nonce sn aad ys = Inr ct"
  shows "length xs = length ys"
proof -
  let ?g = "\<lambda>n :: nat. if n = 0 then (if CURRENT_VERSION \<le> ver then 1 else 0) else (n + 1048575) div 1048576"
  have mono: "?g m \<le> ?g n" if "m < n" for m n :: nat
  proof -
    have "1 \<le> (n + 1048575) div 1048576" using that by linarith
    moreover have "(m + 1048575) div 1048576 \<le> (n + 1048575) div 1048576"
      using that by (simp add: div_le_mono)
    ultimately show ?thesis using that by auto
  qed
  have eq: "length xs + tag_size alg * ?g (length xs) = length ys + tag_size alg * ?g (length ys)"
    using seal_payload_length [OF C assms(2)] seal_payload_length [OF C assms(3)] by linarith
  have "m + tag_size alg * ?g m < n + tag_size alg * ?g n" if "m < n" for m n :: nat
    using that mono [OF that] by (intro add_less_le_mono mult_le_mono2)
  with eq show ?thesis by (metis less_irrefl linorder_neqE_nat)
qed

text \<open>
  The size of a ciphertext is the size of the plaintext plus one authentication overhead
  (16 bytes for one cipher, 32 for a cascade) per started MiB, or for the single empty frame
  of an empty version-2 payload; it depends on nothing else.
\<close>

theorem ciphertext_size:
  assumes C: "ciphers_ok C"
    and enc: "stream_encrypt_payload C alg ver hk nonce sn aad (rd, fresh_writer room) = (Inr n, (rd', wr'))"
  shows "length (w_data wr') = n + tag_size alg *
    (if n = 0 then (if CURRENT_VERSION \<le> ver then 1 else 0) else (n + 1048575) div 1048576)"
proof -
  from stream_encrypt_sound [OF enc] obtain ct where
    ct: "seal_payload C alg ver hk nonce sn aad (r_data rd) = Inr ct" "w_data wr' = ct" "n = length (r_data rd)"
    by auto
  show ?thesis using seal_payload_length [OF C ct(1)] unfolding ct(2,3) .
qed

theorem ciphertext_size_witness:
  "\<exists>rd' wr'. sample_encrypt 2 (sample_reader [10, 20, 30], fresh_writer None) = (Inr 3, (rd', wr')) \<and>
     length (w_data wr') = 19"
proof -
  obtain rd' wr' where run: "sample_encrypt 2 (sample_reader [10, 20, 30], fresh_writer None) = (Inr 3, (rd', wr'))"
    using sample_run by blast
  from ciphertext_size [OF sample_ciphers_ok run] run show ?thesis by simp
qed

end
