(* ===== verification/Suite.thy ===== *)
theory Suite
  imports Payload_Correct
begin

text \<open>
  The registry of cryptographic suites (crypto/suite.rs) and the chunk primitives of the
  experimental format v3 (crypto/suite/v3.rs). The v2 registry only describes the pipeline of
  theory Parallel; the lemmas say that it describes it correctly. The v3 chunk primitive is a
  second provider of the contract \<open>tidy_chunk_codec\<close>.
\<close>

section \<open>The registry\<close>

datatype suite_id =
    V2XChaCha20Poly1305 | V2AesGcmXChaCha20Poly1305 | V2AesGcmXChaCha20Poly1305Lco

record crypto_suite =
  cs_id :: suite_id
  cs_format_version :: u16
  cs_layer_count :: byte
  cs_xchacha_nonce_len :: nat
  cs_aes_nonce_len :: "nat option"
  cs_tag_overhead_per_chunk :: nat
  cs_experimental :: bool
  cs_includes_legacy_obfuscation :: bool

fun for_v2_algorithm :: "algorithm_id \<Rightarrow> crypto_suite option" where
  "for_v2_algorithm XChaCha20Poly1305 = Some \<lparr>cs_id = V2XChaCha20Poly1305,
     cs_format_version = 2, cs_layer_count = 1, cs_xchacha_nonce_len = 24,
     cs_aes_nonce_len = None, cs_tag_overhead_per_chunk = 16, cs_experimental = False,
     cs_includes_legacy_obfuscation = False\<rparr>"
| "for_v2_algorithm CascadeAesGcmXChaCha = Some \<lparr>cs_id = V2AesGcmXChaCha20Poly1305,
     cs_format_version = 2, cs_layer_count = 2, cs_xchacha_nonce_len = 24,
     cs_aes_nonce_len = Some 12, cs_tag_overhead_per_chunk = 32, cs_experimental = True,
     cs_includes_legacy_obfuscation = False\<rparr>"
| "for_v2_algorithm TripleCascadeAesXChaChaLco = Some \<lparr>cs_id = V2AesGcmXChaCha20Poly1305Lco,
     cs_format_version = 2, cs_layer_count = 2, cs_xchacha_nonce_len = 24,
     cs_aes_nonce_len = Some 12, cs_tag_overhead_per_chunk = 32, cs_experimental = True,
     cs_includes_legacy_obfuscation = True\<rparr>"
| "for_v2_algorithm _ = None"

datatype v3_suite_id = V3XChaCha20Poly1305 | Aes256GcmSivXChaCha20Poly1305

record v3_crypto_suite =
  v3_id :: v3_suite_id
  v3_format_version :: u16
  v3_layer_count :: byte
  v3_xchacha_nonce_len :: nat
  v3_aes_nonce_len :: "nat option"
  v3_tag_overhead_per_chunk :: nat
  v3_experimental :: bool

fun for_suite :: "v3_suite_id \<Rightarrow> v3_crypto_suite" where
  "for_suite V3XChaCha20Poly1305 = \<lparr>v3_id = V3XChaCha20Poly1305, v3_format_version = 3,
     v3_layer_count = 1, v3_xchacha_nonce_len = 24, v3_aes_nonce_len = None,
     v3_tag_overhead_per_chunk = 16, v3_experimental = True\<rparr>"
| "for_suite Aes256GcmSivXChaCha20Poly1305 = \<lparr>v3_id = Aes256GcmSivXChaCha20Poly1305,
     v3_format_version = 3, v3_layer_count = 2, v3_xchacha_nonce_len = 24,
     v3_aes_nonce_len = Some 12, v3_tag_overhead_per_chunk = 32, v3_experimental = True\<rparr>"

section \<open>Format v3: names, keys, nonces\<close>

definition KEY_SCHEDULE_DOMAIN :: bytes where
  "KEY_SCHEDULE_DOMAIN = ascii ''Lvau v3 key schedule'' @ [0]"

definition SUBKEY_INFO_DOMAIN :: bytes where
  "SUBKEY_INFO_DOMAIN = ascii ''Lvau v3 subkey'' @ [0]"

definition NONCE_SCHEDULE_DOMAIN :: bytes where
  "NONCE_SCHEDULE_DOMAIN = ascii ''Lvau v3 nonce schedule'' @ [0]"

definition CHUNK_AAD_DOMAIN :: bytes where
  "CHUNK_AAD_DOMAIN = ascii ''Lvau v3 chunk AAD'' @ [0]"

definition XCHACHA_TAG_LEN :: nat where "XCHACHA_TAG_LEN = 16"

definition V3_MAX_CHUNK_PLAINTEXT_LEN :: nat where "V3_MAX_CHUNK_PLAINTEXT_LEN = 1024 * 1024"

datatype v3_layer = Single | Inner | Outer

fun layer_code :: "v3_layer \<Rightarrow> byte" where
  "layer_code Single = 1"
| "layer_code Inner = 2"
| "layer_code Outer = 3"

datatype v3_key_purpose =
    PayloadSingle | PayloadInnerAes256GcmSiv | PayloadOuterXChaCha20Poly1305 | RecipientWrap
  | V3EnvelopeCommitment | V3BundleManifest | V3Padding | Exporter

fun v3_label :: "v3_key_purpose \<Rightarrow> bytes" where
  "v3_label PayloadSingle = ascii ''payload-single''"
| "v3_label PayloadInnerAes256GcmSiv = ascii ''payload-inner-aes-256-gcm-siv''"
| "v3_label PayloadOuterXChaCha20Poly1305 = ascii ''payload-outer-xchacha20-poly1305''"
| "v3_label RecipientWrap = ascii ''recipient-wrap''"
| "v3_label V3EnvelopeCommitment = ascii ''envelope-commitment''"
| "v3_label V3BundleManifest = ascii ''bundle-manifest''"
| "v3_label V3Padding = ascii ''padding''"
| "v3_label Exporter = ascii ''exporter''"

record v3_chunk_descriptor =
  cd_index :: u64
  cd_plaintext_len :: u32
  cd_final_chunk :: bool

definition validate_plaintext_len :: "u32 \<Rightarrow> crypto_error + nat" where
  "validate_plaintext_len plen =
     (if V3_MAX_CHUNK_PLAINTEXT_LEN < unat plen
      then Inl (Validation ''v3 chunk plaintext exceeds the format limit'')
      else Inr (unat plen))"

text \<open>\<open>V3ChunkDescriptor::new\<close>; the length is a \<open>usize\<close>.\<close>

definition descriptor_new :: "u64 \<Rightarrow> nat \<Rightarrow> bool \<Rightarrow> crypto_error + v3_chunk_descriptor" where
  "descriptor_new index plen final =
     rbind (if plen < 2 ^ 32 then Inr (of_nat plen)
            else Inl (Validation ''v3 chunk plaintext is too large'')) (\<lambda>plen32.
     rbind (validate_plaintext_len plen32) (\<lambda>_.
       Inr \<lparr>cd_index = index, cd_plaintext_len = plen32, cd_final_chunk = final\<rparr>))"

fun suite_wire_name :: "v3_suite_id \<Rightarrow> bytes" where
  "suite_wire_name V3XChaCha20Poly1305 = ascii ''LV3-XC20P''"
| "suite_wire_name Aes256GcmSivXChaCha20Poly1305 = ascii ''LV3-AESGCMSIV-XC20P''"

fun suite_code :: "v3_suite_id \<Rightarrow> byte" where
  "suite_code V3XChaCha20Poly1305 = 1"
| "suite_code Aes256GcmSivXChaCha20Poly1305 = 2"

definition v3_subkey_info :: "v3_suite_id \<Rightarrow> v3_key_purpose \<Rightarrow> bytes" where
  "v3_subkey_info suite purpose =
     SUBKEY_INFO_DOMAIN @ suite_wire_name suite @ [0] @ v3_label purpose"

definition v3_derive_subkey ::
  "ciphers \<Rightarrow> bytes \<Rightarrow> v3_suite_id \<Rightarrow> v3_key_purpose \<Rightarrow> crypto_error + bytes" where
  "v3_derive_subkey C root_key suite purpose =
     (let hk = hkdf_new C (Some KEY_SCHEDULE_DOMAIN) root_key
      in ok_or EncryptionFailed (hkdf_expand C hk (v3_subkey_info suite purpose) 32))"

definition derive_nonce ::
  "ciphers \<Rightarrow> nat \<Rightarrow> bytes \<Rightarrow> v3_suite_id \<Rightarrow> v3_layer \<Rightarrow> u64 \<Rightarrow> crypto_error + bytes" where
  "derive_nonce C n base_nonce suite layer chunk_index =
     (let hk = hkdf_new C (Some NONCE_SCHEDULE_DOMAIN) base_nonce;
          info = [suite_code suite, layer_code layer] @ u64_to_le_bytes chunk_index
      in ok_or EncryptionFailed (hkdf_expand C hk info n))"

definition derive_xchacha_nonce ::
  "ciphers \<Rightarrow> bytes \<Rightarrow> v3_suite_id \<Rightarrow> v3_layer \<Rightarrow> u64 \<Rightarrow> crypto_error + bytes" where
  "derive_xchacha_nonce C base_nonce suite layer chunk_index =
     derive_nonce C 24 base_nonce suite layer chunk_index"

definition derive_aes_gcm_siv_nonce :: "ciphers \<Rightarrow> bytes \<Rightarrow> u64 \<Rightarrow> crypto_error + bytes" where
  "derive_aes_gcm_siv_nonce C base_nonce chunk_index =
     derive_nonce C 12 base_nonce Aes256GcmSivXChaCha20Poly1305 Inner chunk_index"

section \<open>Format v3: chunks\<close>

definition v3_chunk_aad ::
  "v3_suite_id \<Rightarrow> v3_layer \<Rightarrow> bytes \<Rightarrow> v3_chunk_descriptor \<Rightarrow> u32 \<Rightarrow> u32 \<Rightarrow> bytes" where
  "v3_chunk_aad suite layer commitment descriptor inner_len ciphertext_len =
     CHUNK_AAD_DOMAIN @ [suite_code suite] @ [layer_code layer] @ commitment @
     u64_to_le_bytes (cd_index descriptor) @ u32_to_le_bytes (cd_plaintext_len descriptor) @
     u32_to_le_bytes inner_len @ u32_to_le_bytes ciphertext_len @
     [if cd_final_chunk descriptor then 1 else 0]"

definition checked_single_layer_ciphertext_len :: "u32 \<Rightarrow> crypto_error + u32" where
  "checked_single_layer_ciphertext_len plen =
     ok_or (Validation ''v3 chunk ciphertext length overflow'')
       (checked_add_u32 plen (of_nat XCHACHA_TAG_LEN))"

definition encrypt_xchacha_chunk ::
  "ciphers \<Rightarrow> bytes \<Rightarrow> bytes \<Rightarrow> bytes \<Rightarrow> v3_chunk_descriptor \<Rightarrow> bytes \<Rightarrow> crypto_error + bytes" where
  "encrypt_xchacha_chunk C root_key base_nonce commitment descriptor plaintext =
     rbind (validate_plaintext_len (cd_plaintext_len descriptor)) (\<lambda>plen.
     if length plaintext \<noteq> plen
     then Inl (Validation ''v3 chunk plaintext length does not match its descriptor'')
     else rbind (checked_single_layer_ciphertext_len (cd_plaintext_len descriptor)) (\<lambda>clen.
       let suite = V3XChaCha20Poly1305;
           aad = v3_chunk_aad suite Single commitment descriptor 0 clen
       in rbind (v3_derive_subkey C root_key suite PayloadSingle) (\<lambda>key.
          rbind (derive_xchacha_nonce C base_nonce suite Single (cd_index descriptor)) (\<lambda>nonce.
            ok_or EncryptionFailed (xchacha_encrypt C key nonce aad plaintext)))))"

definition decrypt_xchacha_chunk ::
  "ciphers \<Rightarrow> bytes \<Rightarrow> bytes \<Rightarrow> bytes \<Rightarrow> v3_chunk_descriptor \<Rightarrow> bytes \<Rightarrow> crypto_error + bytes" where
  "decrypt_xchacha_chunk C root_key base_nonce commitment descriptor ciphertext =
     rbind (validate_plaintext_len (cd_plaintext_len descriptor)) (\<lambda>plen.
     rbind (checked_single_layer_ciphertext_len (cd_plaintext_len descriptor)) (\<lambda>expected_len.
     if \<not> length ciphertext < 2 ^ 32 then Inl (Validation ''v3 chunk ciphertext is too large'')
     else if of_nat (length ciphertext) \<noteq> expected_len then Inl DecryptionFailed
     else
       let suite = V3XChaCha20Poly1305;
           aad = v3_chunk_aad suite Single commitment descriptor 0 expected_len
       in rbind (v3_derive_subkey C root_key suite PayloadSingle) (\<lambda>key.
          rbind (derive_xchacha_nonce C base_nonce suite Single (cd_index descriptor)) (\<lambda>nonce.
          rbind (ok_or DecryptionFailed (xchacha_decrypt C key nonce aad ciphertext)) (\<lambda>plaintext.
            if length plaintext \<noteq> plen then Inl DecryptionFailed else Inr plaintext)))))"

section \<open>Lemmas\<close>

lemma validate_plaintext_len_Inr:
  "validate_plaintext_len n = Inr k \<longleftrightarrow> unat n \<le> 1048576 \<and> k = unat n"
  by (auto simp: validate_plaintext_len_def V3_MAX_CHUNK_PLAINTEXT_LEN_def)

lemma ciphertext_len_ok:
  "unat n \<le> 1048576 \<Longrightarrow> checked_single_layer_ciphertext_len n = Inr (n + 16) \<and> unat (n + 16) = unat n + 16"
  using unat_add_no_overflow [of n "16 :: u32"]
  by (auto simp: checked_single_layer_ciphertext_len_def checked_add_u32_def XCHACHA_TAG_LEN_def)

lemma v3_codes_inj [simp]:
  "suite_code s = suite_code t \<longleftrightarrow> s = t" "layer_code l = layer_code m \<longleftrightarrow> l = m"
  by (cases s; cases t; simp) (cases l; cases m; simp)

lemma v3_labels_inj: "v3_label p = v3_label q \<longleftrightarrow> p = q"
  by (cases p; cases q) simp_all

text \<open>The context of a v3 chunk: ciphers, keys, commitment, plaintext length, last chunk.\<close>

type_synonym v3_context = "ciphers \<times> bytes \<times> bytes \<times> bytes \<times> u32 \<times> bool"

definition v3_seal :: "v3_context \<Rightarrow> u64 \<Rightarrow> bytes \<Rightarrow> crypto_error + bytes" where
  "v3_seal cx i m = (case cx of (C, root, base, commitment, plen, final) \<Rightarrow>
     encrypt_xchacha_chunk C root base commitment
       \<lparr>cd_index = i, cd_plaintext_len = plen, cd_final_chunk = final\<rparr> m)"

definition v3_open :: "v3_context \<Rightarrow> u64 \<Rightarrow> bytes \<Rightarrow> crypto_error + bytes" where
  "v3_open cx i m = (case cx of (C, root, base, commitment, plen, final) \<Rightarrow>
     decrypt_xchacha_chunk C root base commitment
       \<lparr>cd_index = i, cd_plaintext_len = plen, cd_final_chunk = final\<rparr> m)"

lemma v3_chunk_tidy:
  assumes C: "ciphers_ok C"
  shows "encrypt_xchacha_chunk C root base commitment d m = Inr x \<longleftrightarrow>
         decrypt_xchacha_chunk C root base commitment d x = Inr m" (is "?e \<longleftrightarrow> ?d")
    and "encrypt_xchacha_chunk C root base commitment d m = Inr x \<Longrightarrow>
         length m = unat (cd_plaintext_len d) \<and> unat (cd_plaintext_len d) \<le> 1048576 \<and>
         length x = length m + 16"
proof -
  let ?n = "cd_plaintext_len d"
  have len: "length m = unat ?n \<and> unat ?n \<le> 1048576 \<and> length x = length m + 16" if ?e
    using that ciphers_okD(3) [OF C]
    by (auto simp: encrypt_xchacha_chunk_def res_elims validate_plaintext_len_Inr Let_def split: if_splits)
  then show "?e \<Longrightarrow> length m = unat ?n \<and> unat ?n \<le> 1048576 \<and> length x = length m + 16" .
  show "?e \<longleftrightarrow> ?d"
  proof
    assume e: ?e
    with len have l: "length m = unat ?n" "unat ?n \<le> 1048576" "length x = unat ?n + 16" by auto
    note c = ciphertext_len_ok [OF l(2)]
    have "(of_nat (length x) :: u32) = ?n + 16" using l(3) c by (metis of_nat_unat ucast_id)
    with e l c show ?d
      by (auto simp: encrypt_xchacha_chunk_def decrypt_xchacha_chunk_def res_elims
          validate_plaintext_len_Inr Let_def ciphers_okD(1) [OF C])
  next
    assume d: ?d
    then have n: "unat ?n \<le> 1048576" "length m = unat ?n"
      by (auto simp: decrypt_xchacha_chunk_def res_elims validate_plaintext_len_Inr Let_def split: if_splits)
    note c = ciphertext_len_ok [OF n(1)]
    from d n c show ?e
      by (auto simp: encrypt_xchacha_chunk_def decrypt_xchacha_chunk_def res_elims
          validate_plaintext_len_Inr Let_def ciphers_okD(1) [OF C, symmetric] split: if_splits)
  qed
qed

interpretation v3c: tidy_chunk_codec v3_seal v3_open "\<lambda>cx. ciphers_ok (fst cx)" "\<lambda>_. 16"
proof unfold_locales
  fix cx :: v3_context and i m x
  obtain C root base commitment n final where cx: "cx = (C, root, base, commitment, n, final)"
    by (cases cx)
  assume "ciphers_ok (fst cx)"
  then have "ciphers_ok C" by (simp add: cx)
  note tidy = v3_chunk_tidy [OF this, of root base commitment]
  show "v3_seal cx i m = Inr x \<Longrightarrow> v3_open cx i x = Inr m"
    and "v3_open cx i x = Inr m \<Longrightarrow> v3_seal cx i m = Inr x"
    by (simp_all add: cx v3_seal_def v3_open_def tidy(1))
  show "v3_seal cx i m = Inr x \<Longrightarrow> length x = length m + 16"
    using tidy(2) by (simp add: cx v3_seal_def)
qed

section \<open>Properties\<close>

text \<open>
  The v2 suite registry describes the payload pipeline: exactly the payload algorithms
  are registered, with the tag overhead the pipeline uses; an AES nonce is required exactly
  for the suites whose chunks cannot be sealed without one.
\<close>

theorem suite_registry_matches_pipeline:
  "(case for_v2_algorithm alg of
      None \<Rightarrow> \<forall>C hk. derive_payload_keys C hk alg = Inl UnsupportedProfile
    | Some s \<Rightarrow> payload_algorithm alg \<and> cs_tag_overhead_per_chunk s = tag_size alg \<and>
        cs_format_version s = CURRENT_VERSION \<and>
        (cs_aes_nonce_len s \<noteq> None \<longleftrightarrow>
           (\<forall>C ks n aad i m. encrypt_chunk (context_of C alg ks n None aad) i m = Inl MissingSecondaryNonce)))"
proof -
  have "\<exists>C ks n aad i m. encrypt_chunk (context_of C XChaCha20Poly1305 ks n None aad) i m
      \<noteq> Inl MissingSecondaryNonce"
    by (intro exI [of _ sample_ciphers] exI) (simp add: encrypt_chunk_def sample_ciphers_def tag_encrypt_def)
  then show ?thesis
    by (cases alg) (simp_all add: payload_algorithm_def CURRENT_VERSION_def encrypt_chunk_def)
qed

text \<open>
  The associated data of a v3 chunk determines everything it commits to: suite, layer,
  envelope commitment, chunk index, plaintext, inner and ciphertext lengths, last-chunk flag.
\<close>

theorem v3_chunk_aad_injective:
  assumes "length c = 32" "length c' = 32"
  shows "v3_chunk_aad s l c d i n = v3_chunk_aad s' l' c' d' i' n' \<longleftrightarrow>
    s = s' \<and> l = l' \<and> c = c' \<and> d = d' \<and> i = i' \<and> n = n'"
  using assms by (cases d; cases d') (auto simp: v3_chunk_aad_def)

theorem v3_chunk_aad_injective_witness:
  "v3_chunk_aad V3XChaCha20Poly1305 Single (replicate 32 7)
     \<lparr>cd_index = 1, cd_plaintext_len = 5, cd_final_chunk = False\<rparr> 0 21 \<noteq>
   v3_chunk_aad V3XChaCha20Poly1305 Single (replicate 32 7)
     \<lparr>cd_index = 1, cd_plaintext_len = 5, cd_final_chunk = True\<rparr> 0 21"
  by (subst v3_chunk_aad_injective) simp_all

text \<open>
  A v3 chunk decrypts to \<open>m\<close> exactly when it is the encryption of \<open>m\<close> under the same
  key, nonce, commitment and descriptor; a chunk that can be encrypted has the announced
  length, at most 1 MiB, and grows by 16 bytes. This extends to every sequence of chunks.
\<close>

theorem v3_chunk_exact:
  assumes "ciphers_ok C"
  shows "(decrypt_xchacha_chunk C root base commitment d x = Inr m \<longleftrightarrow>
          encrypt_xchacha_chunk C root base commitment d m = Inr x) \<and>
    (encrypt_xchacha_chunk C root base commitment d m = Inr x \<longrightarrow>
       length m = unat (cd_plaintext_len d) \<and> length m \<le> V3_MAX_CHUNK_PLAINTEXT_LEN \<and>
       length x = length m + XCHACHA_TAG_LEN) \<and>
    (indexed (v3_open (C, root, base, commitment, n, final)) k cs = Inr ms \<longleftrightarrow>
     indexed (v3_seal (C, root, base, commitment, n, final)) k ms = Inr cs)"
  using v3_chunk_tidy [OF assms] v3c.run_iff [of "(C, root, base, commitment, n, final)"] assms
  by (auto simp: V3_MAX_CHUNK_PLAINTEXT_LEN_def XCHACHA_TAG_LEN_def)

theorem v3_chunk_exact_witness:
  "\<exists>x. encrypt_xchacha_chunk sample_ciphers [1] [2] [3]
        \<lparr>cd_index = 4, cd_plaintext_len = 2, cd_final_chunk = True\<rparr> [5, 6] = Inr x \<and>
      decrypt_xchacha_chunk sample_ciphers [1] [2] [3]
        \<lparr>cd_index = 4, cd_plaintext_len = 2, cd_final_chunk = True\<rparr> x = Inr [5, 6]"
proof -
  obtain x where "encrypt_xchacha_chunk sample_ciphers [1] [2] [3]
      \<lparr>cd_index = 4, cd_plaintext_len = 2, cd_final_chunk = True\<rparr> [5, 6] = Inr x"
    by (simp add: encrypt_xchacha_chunk_def validate_plaintext_len_def V3_MAX_CHUNK_PLAINTEXT_LEN_def
        ciphertext_len_ok v3_derive_subkey_def derive_xchacha_nonce_def derive_nonce_def
        sample_ciphers_def tag_encrypt_def Let_def)
  with v3_chunk_exact [OF sample_ciphers_ok] show ?thesis by blast
qed

text \<open>
  Format v3 never expands two subkeys from the same input: the HKDF info string
  determines both the suite and the purpose.
\<close>

theorem v3_subkey_info_injective:
  "v3_subkey_info s p = v3_subkey_info t q \<longleftrightarrow> s = t \<and> p = q"
proof (cases "s = t")
  case True
  then show ?thesis by (simp add: v3_subkey_info_def v3_labels_inj)
next
  case False
  then show ?thesis
    by (cases s; cases t) (auto simp: v3_subkey_info_def ascii_def)
qed

end
