(* ===== verification/World.thy ===== *)
theory World
  imports Streams
begin

text \<open>
  The operating-system services the crate uses, as an explicit state: a file system, the
  process's working directory, the random generator, and what the environment decides (the
  sizes and faults of reads, free disk space, whether a sync succeeds).

  A path is the list of its normal components and whether it is absolute; \<open>parent\<close> follows
  the documentation of \<open>std::path::Path::parent\<close>: the parent of a bare file name is the
  empty path, which names no object. Paths have no \<open>..\<close> components and the file system no
  symbolic links. An open file is a reader on the contents at that moment.

  A \<open>NamedTempFile\<close> is its contents: its name is fresh and it disappears on every path on
  which it is not persisted, so it is not an entry of the file system.
\<close>

section \<open>Paths\<close>

datatype path = Path (absolute: bool) (comps: "string list")

definition parent :: "path \<Rightarrow> path option" where
  "parent p = (if comps p = [] then None else Some (Path (absolute p) (butlast (comps p))))"

definition dot :: path where "dot = Path False [''.'']"

text \<open>\<open>path.parent().unwrap_or_else(|| Path::new("."))\<close>\<close>

definition parent_or_dot :: "path \<Rightarrow> path" where
  "parent_or_dot p = (case parent p of None \<Rightarrow> dot | Some q \<Rightarrow> q)"

section \<open>The world\<close>

datatype node = Directory | Regular (contents: bytes) | Special

record world =
  w_fs :: "string list \<Rightarrow> node option"
  w_cwd :: "string list"
  w_script :: "string list \<Rightarrow> read_event list"
  w_disk :: "nat option"
  w_sync :: bool
  w_dir_size :: nat
  w_rng :: "nat \<Rightarrow> byte"
  w_rng_pos :: nat

definition resolve :: "world \<Rightarrow> path \<Rightarrow> string list" where
  "resolve w p = (if absolute p then [] else w_cwd w) @ filter (\<lambda>c. c \<noteq> ''.'') (comps p)"

definition lookup :: "world \<Rightarrow> path \<Rightarrow> node option" where
  "lookup w p = (if p = Path False [] then None else w_fs w (resolve w p))"

definition put_file :: "world \<Rightarrow> path \<Rightarrow> bytes \<Rightarrow> world" where
  "put_file w p bs = w\<lparr>w_fs := (w_fs w)(resolve w p \<mapsto> Regular bs)\<rparr>"

section \<open>Files\<close>

definition node_bytes :: "node \<Rightarrow> bytes" where
  "node_bytes n = (case n of Regular bs \<Rightarrow> bs | _ \<Rightarrow> [])"

text \<open>\<open>File::open\<close>: a directory can be opened, but every read from it fails.\<close>

definition open_file :: "path \<Rightarrow> (world, io_error, reader) action" where
  "open_file p w = (case lookup w p of
       None \<Rightarrow> (Inl NotFound, w)
     | Some Directory \<Rightarrow> (Inr \<lparr>r_data = [], r_events = [Fault OtherIo]\<rparr>, w)
     | Some n \<Rightarrow> (Inr \<lparr>r_data = node_bytes n, r_events = w_script w (resolve w p)\<rparr>, w))"

text \<open>\<open>metadata(p)\<close>: whether it is a regular file, and its length.\<close>

definition metadata_of :: "path \<Rightarrow> (world, io_error, bool \<times> nat) action" where
  "metadata_of p w = (case lookup w p of
       None \<Rightarrow> (Inl NotFound, w)
     | Some (Regular bs) \<Rightarrow> (Inr (True, length bs), w)
     | Some Directory \<Rightarrow> (Inr (False, w_dir_size w), w)
     | Some Special \<Rightarrow> (Inr (False, 0), w))"

text \<open>\<open>File::open(p)?.sync_all()\<close>\<close>

definition sync_path :: "path \<Rightarrow> (world, io_error, unit) action" where
  "sync_path p w = (case lookup w p of
       None \<Rightarrow> (Inl NotFound, w)
     | Some _ \<Rightarrow> (if w_sync w then Inr () else Inl OtherIo, w))"

section \<open>Temporary files\<close>

text \<open>
  \<open>NamedTempFile::new_in\<close>: a relative directory, the empty path included, is taken from the
  working directory.
\<close>

definition new_in :: "path \<Rightarrow> (world, io_error, writer) action" where
  "new_in dir w =
     (if w_fs w (resolve w dir) = Some Directory then (Inr (fresh_writer (w_disk w)), w)
      else (Inl NotFound, w))"

definition sync_temp :: "(world, io_error, unit) action" where
  "sync_temp w = (if w_sync w then Inr () else Inl OtherIo, w)"

text \<open>\<open>NamedTempFile::persist\<close>: an atomic replacement of whatever file has that name.\<close>

definition persist :: "writer \<Rightarrow> path \<Rightarrow> (world, io_error, unit) action" where
  "persist tmp p w =
     (if comps p = [] then (Inl NotFound, w)
      else if w_fs w (resolve w p) = Some Directory then (Inl OtherIo, w)
      else (Inr (), put_file w p (w_data tmp)))"

text \<open>\<open>persist_noclobber\<close>: fails when the name is taken.\<close>

definition persist_noclobber :: "writer \<Rightarrow> path \<Rightarrow> (world, io_error, unit) action" where
  "persist_noclobber tmp p w =
     (if comps p = [] then (Inl NotFound, w)
      else if w_fs w (resolve w p) \<noteq> None then (Inl AlreadyExists, w)
      else (Inr (), put_file w p (w_data tmp)))"

text \<open>
  \<open>fs::write\<close>: create or truncate, then write; a full disk leaves a prefix behind.
\<close>

definition fs_write :: "path \<Rightarrow> bytes \<Rightarrow> (world, io_error, unit) action" where
  "fs_write p bs w =
     (if comps p = [] \<or> w_fs w (butlast (resolve w p)) \<noteq> Some Directory then (Inl NotFound, w)
      else if w_fs w (resolve w p) = Some Directory then (Inl OtherIo, w)
      else (case write_all bs (fresh_writer (w_disk w)) of
          (r, wr) \<Rightarrow> (r, put_file w p (w_data wr))))"

section \<open>Random bytes\<close>

definition fill_bytes :: "nat \<Rightarrow> (world, crypto_error, bytes) action" where
  "fill_bytes n w =
     (Inr (map (w_rng w) [w_rng_pos w..<w_rng_pos w + n]), w\<lparr>w_rng_pos := w_rng_pos w + n\<rparr>)"

section \<open>Reading a bounded file\<close>

text \<open>Validity of UTF-8, as \<open>read_to_string\<close> checks it.\<close>

definition cont :: "byte \<Rightarrow> bool" where
  "cont b \<longleftrightarrow> 0x80 \<le> b \<and> b \<le> 0xBF"

fun utf8_valid :: "bytes \<Rightarrow> bool" where
  "utf8_valid [] = True"
| "utf8_valid (a # r) =
     (if a \<le> 0x7F then utf8_valid r
      else (case r of
          [] \<Rightarrow> False
        | b # r2 \<Rightarrow>
            if 0xC2 \<le> a \<and> a \<le> 0xDF then cont b \<and> utf8_valid r2
            else (case r2 of
                [] \<Rightarrow> False
              | c # r3 \<Rightarrow>
                  if a = 0xE0 then 0xA0 \<le> b \<and> b \<le> 0xBF \<and> cont c \<and> utf8_valid r3
                  else if a = 0xED then 0x80 \<le> b \<and> b \<le> 0x9F \<and> cont c \<and> utf8_valid r3
                  else if 0xE1 \<le> a \<and> a \<le> 0xEF then cont b \<and> cont c \<and> utf8_valid r3
                  else (case r3 of
                      [] \<Rightarrow> False
                    | d # r4 \<Rightarrow>
                        cont c \<and> cont d \<and> utf8_valid r4 \<and>
                        (a = 0xF0 \<and> 0x90 \<le> b \<and> b \<le> 0xBF \<or>
                         0xF1 \<le> a \<and> a \<le> 0xF3 \<and> cont b \<or>
                         a = 0xF4 \<and> 0x80 \<le> b \<and> b \<le> 0x8F)))))"

text \<open>
  The pattern of the key, policy, share and signature loaders: refuse anything but a regular
  file of at most \<open>limit\<close> bytes, read at most one byte more, check the length again. The
  error of an oversized file and the embedding of I/O errors are the caller's.
\<close>

definition read_limited ::
  "nat \<Rightarrow> 'e \<Rightarrow> (io_error \<Rightarrow> 'e) \<Rightarrow> path \<Rightarrow> (world, 'e, bytes) action" where
  "read_limited limit too_large io p =
     act (act_map_err io (open_file p)) (\<lambda>rd.
     act (act_map_err io (metadata_of p)) (\<lambda>m.
     act (lift (ensure (fst m \<and> snd m \<le> limit) too_large)) (\<lambda>_.
     act (lift (map_err io (fst (fill (limit + 1) [] rd)))) (\<lambda>bs.
     act (lift (ensure (utf8_valid bs) (io InvalidData))) (\<lambda>_.
     act (lift (ensure (length bs \<le> limit) too_large)) (\<lambda>_. ret bs))))))"

section \<open>Directories\<close>

text \<open>\<open>fs::create_dir_all\<close>: the missing directories on the way, from the root.\<close>

fun make_dirs :: "string list \<Rightarrow> string list \<Rightarrow> world \<Rightarrow> (io_error + unit) \<times> world" where
  "make_dirs parents [] w = (Inr (), w)"
| "make_dirs parents (c # cs) w =
     (let here = parents @ [c] in
      case w_fs w here of
        None \<Rightarrow> make_dirs here cs (w\<lparr>w_fs := (w_fs w)(here \<mapsto> Directory)\<rparr>)
      | Some Directory \<Rightarrow> make_dirs here cs w
      | Some _ \<Rightarrow> (Inl AlreadyExists, w))"

definition create_dir_all :: "path \<Rightarrow> (world, io_error, unit) action" where
  "create_dir_all p w = make_dirs [] (resolve w p) w"

text \<open>It only adds directories, on the path itself.\<close>

definition dirs_made :: "string list \<Rightarrow> world \<Rightarrow> world \<Rightarrow> bool" where
  "dirs_made k w w' \<longleftrightarrow> (\<exists>f. w' = w\<lparr>w_fs := f\<rparr>) \<and>
     (\<forall>q. w_fs w' q = w_fs w q \<or> w_fs w q = None \<and> w_fs w' q = Some Directory \<and> (\<exists>i. q = take i k))"

lemma dirs_made_refl [simp]: "dirs_made k w w"
  by (auto simp: dirs_made_def intro: exI [of _ "w_fs w"])

lemma dirs_made_sel: "dirs_made k w w' \<Longrightarrow> w_cwd w' = w_cwd w \<and> resolve w' p = resolve w p"
  by (auto simp: dirs_made_def resolve_def)

lemma dirs_made_keeps: "dirs_made k w w' \<Longrightarrow> w_fs w q = Some n \<Longrightarrow> w_fs w' q = Some n"
  unfolding dirs_made_def by (metis option.distinct(1))

lemma dirs_made_trans:
  assumes "dirs_made k u v" "dirs_made k v w"
  shows "dirs_made k u w"
proof -
  have "\<exists>f. w = u\<lparr>w_fs := f\<rparr>" using assms by (auto simp: dirs_made_def)
  moreover have "w_fs w q = w_fs u q \<or> w_fs u q = None \<and> w_fs w q = Some Directory \<and> (\<exists>i. q = take i k)" for q
    using assms unfolding dirs_made_def by metis
  ultimately show ?thesis by (simp add: dirs_made_def)
qed

lemma make_dirs_made: "make_dirs ps cs w = (r, w') \<Longrightarrow> dirs_made (ps @ cs) w w'"
proof (induction ps cs w arbitrary: r w' rule: make_dirs.induct)
  case (1 ps w)
  then show ?case by simp
next
  case (2 ps c cs w)
  show ?case
  proof (cases "w_fs w (ps @ [c])")
    case None
    let ?w1 = "w\<lparr>w_fs := (w_fs w)(ps @ [c] \<mapsto> Directory)\<rparr>"
    have here: "ps @ [c] = take (Suc (length ps)) (ps @ c # cs)" by simp
    have "dirs_made (ps @ c # cs) w ?w1"
      using None here unfolding dirs_made_def by (intro conjI allI) (auto simp del: take_append)
    moreover have "make_dirs (ps @ [c]) cs ?w1 = (r, w')" using "2.prems" None by (simp add: Let_def)
    from "2.IH"(1) [OF refl None this] have "dirs_made (ps @ c # cs) ?w1 w'" by simp
    ultimately show ?thesis by (rule dirs_made_trans)
  next
    case (Some n)
    show ?thesis
    proof (cases n)
      case Directory
      with "2.prems" Some have "make_dirs (ps @ [c]) cs w = (r, w')" by (simp add: Let_def)
      from "2.IH"(2) [OF refl Some Directory this] show ?thesis by simp
    qed (use "2.prems" Some in \<open>simp_all add: Let_def\<close>)
  qed
qed

section \<open>Lemmas\<close>

lemma parent_or_dot_name [simp]: "parent_or_dot (Path a [c]) = Path a []"
  by (simp add: parent_or_dot_def parent_def)

lemma lookup_put_file:
  "p \<noteq> Path False [] \<Longrightarrow> lookup (put_file w p bs) p = Some (Regular bs)"
  by (simp add: lookup_def put_file_def resolve_def)

lemma put_file_sel [simp]:
  "w_cwd (put_file w p bs) = w_cwd w" "w_script (put_file w p bs) = w_script w"
  "w_disk (put_file w p bs) = w_disk w" "w_sync (put_file w p bs) = w_sync w"
  "w_rng (put_file w p bs) = w_rng w" "w_rng_pos (put_file w p bs) = w_rng_pos w"
  "w_dir_size (put_file w p bs) = w_dir_size w"
  "resolve (put_file w p bs) q = resolve w q"
  by (simp_all add: put_file_def resolve_def)

lemma w_fs_put_file: "w_fs (put_file w p bs) = (w_fs w)(resolve w p \<mapsto> Regular bs)"
  by (simp add: put_file_def)

text \<open>Two worlds with the same files.\<close>

definition same_files :: "world \<Rightarrow> world \<Rightarrow> bool" where
  "same_files w w' \<longleftrightarrow> w_fs w' = w_fs w \<and> w_cwd w' = w_cwd w"

lemma same_files_refl [simp]: "same_files w w"
  by (simp add: same_files_def)

lemma same_files_trans: "same_files u v \<Longrightarrow> same_files v w \<Longrightarrow> same_files u w"
  by (simp add: same_files_def)

lemma same_files_lookup: "same_files w w' \<Longrightarrow> lookup w' p = lookup w p"
  by (simp add: same_files_def lookup_def resolve_def)

text \<open>Operations that only look leave the world as it is.\<close>

lemma pure_ops:
  "snd (open_file p w) = w" "snd (metadata_of p w) = w" "snd (sync_path p w) = w"
  "snd (new_in p w) = w" "snd (sync_temp w) = w"
  by (auto simp: open_file_def metadata_of_def sync_path_def new_in_def sync_temp_def
      split: option.splits node.splits)

lemma open_file_Inr:
  "open_file p w = (Inr rd, w') \<Longrightarrow> w' = w \<and> lookup w p \<noteq> None \<and>
     (\<forall>bs. lookup w p = Some (Regular bs) \<longrightarrow>
        rd = \<lparr>r_data = bs, r_events = w_script w (resolve w p)\<rparr>)"
  by (auto simp: open_file_def node_bytes_def split: option.splits node.splits)

lemma open_regular [simp]:
  "lookup w p = Some (Regular bs) \<Longrightarrow>
     open_file p w = (Inr \<lparr>r_data = bs, r_events = w_script w (resolve w p)\<rparr>, w)"
  by (simp add: open_file_def node_bytes_def)

lemma fill_bytes_sel [simp]:
  "fst (fill_bytes n w) = Inr (map (w_rng w) [w_rng_pos w..<w_rng_pos w + n])"
  by (simp add: fill_bytes_def)

lemma same_files_fill_bytes: "fill_bytes n w = (r, w') \<Longrightarrow> same_files w w'"
  by (auto simp: fill_bytes_def same_files_def)

lemma read_limited_Inr:
  assumes "read_limited limit e io p w = (Inr bs, w')"
  shows "w' = w \<and> length bs \<le> limit \<and> utf8_valid bs \<and> lookup w p = Some (Regular bs)"
proof -
  from assms obtain rd m where rd: "open_file p w = (Inr rd, w)"
    and m: "metadata_of p w = (Inr m, w)" "fst m" "snd m \<le> limit"
    and f: "fst (fill (limit + 1) [] rd) = Inr bs" and u: "utf8_valid bs" "length bs \<le> limit" "w' = w"
    using pure_ops(1) [of p w] pure_ops(2) [of p w]
    by (auto simp: read_limited_def res_elims)
  from m obtain cs where cs: "lookup w p = Some (Regular cs)"
    by (auto simp: metadata_of_def split: option.splits node.splits)
  with open_file_Inr [OF rd] have r: "r_data rd = cs" by simp
  obtain rd' where "fill (limit + 1) [] rd = (Inr bs, rd')"
    using f by (metis prod.collapse)
  from fill_Inr [OF this] r have "bs = take (limit + 1) cs" by simp
  moreover have "length cs \<le> limit"
    using m cs by (auto simp: metadata_of_def)
  ultimately show ?thesis using u cs by simp
qed

end
