(* ===== verification/Policy.thy ===== *)
theory Policy
  imports Envelope World
begin

text \<open>
  Capsule policies (policy.rs): the policy record, its files, and the linter that evaluates a
  policy on a public envelope. The linter is a sequence of independent rules, each pushing
  violations and warnings; the specification \<open>satisfies\<close> says what a policy demands, with the
  KDF levels as a linear order.
\<close>

section \<open>Data\<close>

datatype min_kdf_profile = Interactive | Moderate | Strong

datatype metadata_profile_policy = MpMinimal | MpBalanced | MpVerbose

datatype padding_policy = PadNone | PadBucket | PadFixed

record capsule_policy =
  require_signature :: bool
  require_recovery :: bool
  min_kdf :: "min_kdf_profile option"
  allowed_ciphers :: "string list option"
  allowed_kdfs :: "string list option"
  allow_lco :: bool
  allow_experimental :: bool
  require_metadata_profile :: "metadata_profile_policy option"
  require_padding :: "padding_policy option"
  require_recipient_count_min :: u32
  require_approval_signatures_min :: u32
  public_label_allowed :: bool
  created_by_required :: bool

definition default_policy :: capsule_policy where
  "default_policy = \<lparr>require_signature = False, require_recovery = False, min_kdf = None,
     allowed_ciphers = None, allowed_kdfs = None, allow_lco = True, allow_experimental = True,
     require_metadata_profile = None, require_padding = None, require_recipient_count_min = 0,
     require_approval_signatures_min = 0, public_label_allowed = True,
     created_by_required = False\<rparr>"

text \<open>\<open>PolicyViolation\<close> and \<open>PolicyWarning\<close> have the same two fields.\<close>

record lint_item =
  rule :: string
  message :: string

record policy_result =
  violations :: "lint_item list"
  warnings :: "lint_item list"

definition new_result :: policy_result where
  "new_result = \<lparr>violations = [], warnings = []\<rparr>"

definition is_valid :: "policy_result \<Rightarrow> bool" where
  "is_valid r \<longleftrightarrow> violations r = []"

definition violation :: "string \<Rightarrow> string \<Rightarrow> policy_result \<Rightarrow> policy_result" where
  "violation ru msg r = r\<lparr>violations := violations r @ [\<lparr>rule = ru, message = msg\<rparr>]\<rparr>"

definition warning :: "string \<Rightarrow> string \<Rightarrow> policy_result \<Rightarrow> policy_result" where
  "warning ru msg r = r\<lparr>warnings := warnings r @ [\<lparr>rule = ru, message = msg\<rparr>]\<rparr>"

section \<open>Policy files\<close>

definition MAX_POLICY_FILE_SIZE :: nat where "MAX_POLICY_FILE_SIZE = 1024 * 1024"

text \<open>
  The TOML crate and the texts of I/O errors are parameters. Errors are strings here.
\<close>

definition read_policy_file :: "(io_error \<Rightarrow> string) \<Rightarrow> path \<Rightarrow> (world, string, bytes) action" where
  "read_policy_file io_text p =
     read_limited MAX_POLICY_FILE_SIZE ''Policy file is invalid or too large'' io_text p"

definition policy_load_from_file ::
  "(io_error \<Rightarrow> string) \<Rightarrow> (bytes \<Rightarrow> string + capsule_policy) \<Rightarrow> path \<Rightarrow>
   (world, string, capsule_policy) action" where
  "policy_load_from_file io_text from_toml p =
     act (read_policy_file io_text p) (\<lambda>content. lift (from_toml content))"

definition policy_save_to_file ::
  "(io_error \<Rightarrow> string) \<Rightarrow> (capsule_policy \<Rightarrow> string + bytes) \<Rightarrow> capsule_policy \<Rightarrow> path \<Rightarrow>
   (world, string, unit) action" where
  "policy_save_to_file io_text to_toml pol p =
     act (lift (to_toml pol)) (\<lambda>content.
     act (lift (ensure (length content \<le> MAX_POLICY_FILE_SIZE) ''Policy file is too large'')) (\<lambda>_.
       act_map_err io_text (fs_write p content)))"

section \<open>The rules\<close>

definition lint_signature :: "envelope \<Rightarrow> capsule_policy \<Rightarrow> policy_result \<Rightarrow> policy_result" where
  "lint_signature e p r =
     (if require_signature p \<and> e_signature e = None
      then violation ''require_signature'' ''Policy requires a signature, but none was found.'' r
      else if require_signature p
      then warning ''require_signature'' ''A signature is present, but envelope linting cannot verify it; run verify-signature with a trusted key.'' r
      else r)"

definition lint_recovery :: "envelope \<Rightarrow> capsule_policy \<Rightarrow> policy_result \<Rightarrow> policy_result" where
  "lint_recovery e p r =
     (if require_recovery p \<and> recovery_metadata e = None
      then violation ''require_recovery'' ''Policy requires recovery metadata, but none was found.'' r
      else if require_recovery p
      then warning ''require_recovery'' ''Recovery metadata is present, but envelope linting cannot verify that its referenced shares are available or trusted.'' r
      else r)"

fun debug_kdf :: "min_kdf_profile \<Rightarrow> string" where
  "debug_kdf Interactive = ''Interactive''"
| "debug_kdf Moderate = ''Moderate''"
| "debug_kdf Strong = ''Strong''"

definition lint_min_kdf :: "envelope \<Rightarrow> capsule_policy \<Rightarrow> policy_result \<Rightarrow> policy_result" where
  "lint_min_kdf e p r =
     (case min_kdf p of
        None \<Rightarrow> r
      | Some lvl \<Rightarrow>
          (case h_kdf (header e) of
             None \<Rightarrow> r
           | Some (Argon2id m t pc _) \<Rightarrow>
               let is_interactive = 65536 \<le> m \<and> 2 \<le> t \<and> 1 \<le> pc;
                   is_moderate = 262144 \<le> m \<and> 3 \<le> t \<and> 2 \<le> pc;
                   is_strong = 1048576 \<le> m \<and> 4 \<le> t \<and> 4 \<le> pc;
                   actual_profile = (if is_strong then Strong else if is_moderate then Moderate
                     else Interactive);
                   fails = (case lvl of
                       Strong \<Rightarrow> actual_profile \<noteq> Strong
                     | Moderate \<Rightarrow> actual_profile = Interactive
                     | Interactive \<Rightarrow> \<not> is_interactive)
               in if fails
                  then violation ''min_kdf_profile''
                    (''Policy requires KDF profile '' @ debug_kdf lvl @ '', but the artifact's KDF is weaker.'') r
                  else r))"

fun algorithm_name :: "algorithm_id \<Rightarrow> string" where
  "algorithm_name XChaCha20Poly1305 = ''XChaCha20Poly1305''"
| "algorithm_name CascadeAesGcmXChaCha = ''CascadeAesGcmXChaCha''"
| "algorithm_name TripleCascadeAesXChaChaLco = ''TripleCascadeAesXChaChaLco''"
| "algorithm_name X25519 = ''X25519''"
| "algorithm_name Ed25519 = ''Ed25519''"
| "algorithm_name X25519MlkemHybrid = ''X25519MlkemHybrid''"
| "algorithm_name Ed25519MldsaHybrid = ''Ed25519MldsaHybrid''"

definition lint_ciphers :: "envelope \<Rightarrow> capsule_policy \<Rightarrow> policy_result \<Rightarrow> policy_result" where
  "lint_ciphers e p r =
     (case allowed_ciphers p of
        None \<Rightarrow> r
      | Some names \<Rightarrow>
          let alg_str = algorithm_name (h_algorithm (header e))
          in if list_ex (\<lambda>c. eq_ignore_ascii_case c alg_str) names then r
             else violation ''allowed_ciphers''
               (''Algorithm '' @ alg_str @ '' is not in the allowed ciphers list.'') r)"

definition kdf_name :: "kdf_params option \<Rightarrow> string" where
  "kdf_name k = (case k of Some (Argon2id _ _ _ _) \<Rightarrow> ''Argon2id'' | None \<Rightarrow> ''None'')"

definition lint_kdfs :: "envelope \<Rightarrow> capsule_policy \<Rightarrow> policy_result \<Rightarrow> policy_result" where
  "lint_kdfs e p r =
     (case allowed_kdfs p of
        None \<Rightarrow> r
      | Some names \<Rightarrow>
          let kdf_str = kdf_name (h_kdf (header e))
          in if list_ex (\<lambda>k. eq_ignore_ascii_case k kdf_str) names then r
             else violation ''allowed_kdfs''
               (''KDF '' @ kdf_str @ '' is not in the allowed KDFs list.'') r)"

definition lint_lco :: "envelope \<Rightarrow> capsule_policy \<Rightarrow> policy_result \<Rightarrow> policy_result" where
  "lint_lco e p r =
     (if \<not> allow_lco p \<and> h_algorithm (header e) = TripleCascadeAesXChaChaLco
      then violation ''allow_lco'' ''LCO obfuscation is disallowed by policy.'' r
      else r)"

definition is_hybrid :: "recipient \<Rightarrow> bool" where
  "is_hybrid r = (case r of RX25519MlkemHybrid _ _ _ \<Rightarrow> True | _ \<Rightarrow> False)"

definition lint_experimental :: "envelope \<Rightarrow> capsule_policy \<Rightarrow> policy_result \<Rightarrow> policy_result" where
  "lint_experimental e p r =
     (let has_experimental_recipient = list_ex is_hybrid (h_recipients (header e))
      in if \<not> allow_experimental p \<and>
            (h_profile (header e) = Extreme \<or> h_profile (header e) = Paranoid \<or>
             has_experimental_recipient)
         then violation ''allow_experimental''
           ''Experimental profiles or hybrid recipients are disallowed by policy.'' r
         else r)"

definition lint_hidden :: "envelope \<Rightarrow> capsule_policy \<Rightarrow> policy_result \<Rightarrow> policy_result" where
  "lint_hidden e p r =
     (let r1 = (if require_metadata_profile p \<noteq> None
           then violation ''require_metadata_profile'' ''The metadata profile is encrypted and cannot be verified by public-envelope policy linting.'' r
           else r)
      in if require_padding p \<noteq> None
         then violation ''require_padding'' ''The padding profile is not authenticated as a public envelope field and cannot be verified by policy linting.'' r1
         else r1)"

definition lint_public_label :: "envelope \<Rightarrow> capsule_policy \<Rightarrow> policy_result \<Rightarrow> policy_result" where
  "lint_public_label e p r =
     (if \<not> public_label_allowed p \<and> public_label e \<noteq> None
      then violation ''public_label_allowed'' ''Public labels are disallowed by policy.'' r
      else r)"

definition lint_created_by :: "envelope \<Rightarrow> capsule_policy \<Rightarrow> policy_result \<Rightarrow> policy_result" where
  "lint_created_by e p r =
     (if created_by_required p \<and>
         (case e_release e of None \<Rightarrow> True | Some rm \<Rightarrow> rel_project_name rm = None)
      then violation ''created_by_required'' ''Policy requires author/project metadata, but none was found.'' r
      else if created_by_required p
      then warning ''created_by_required'' ''Author/project metadata is present but is not an identity claim unless covered by a signature from a trusted key.'' r
      else r)"

definition lint_recipients :: "envelope \<Rightarrow> capsule_policy \<Rightarrow> policy_result \<Rightarrow> policy_result" where
  "lint_recipients e p r =
     (let count = of_nat (length (h_recipients (header e))) :: u32
      in if count < require_recipient_count_min p
         then violation ''require_recipient_count_min''
           (''Policy requires at least '' @ decimal (unat (require_recipient_count_min p)) @
            '' recipients, but found '' @ decimal (unat count) @ ''.'') r
         else r)"

text \<open>The fingerprints are collected into a \<open>HashSet\<close>: duplicates count once.\<close>

definition lint_approvals :: "envelope \<Rightarrow> capsule_policy \<Rightarrow> policy_result \<Rightarrow> policy_result" where
  "lint_approvals e p r =
     (let approvals_count = of_nat (length (remdups (map ap_fingerprint (approvals e)))) :: u32
      in if approvals_count < require_approval_signatures_min p
         then violation ''require_approval_signatures_min''
           (''Policy requires at least '' @ decimal (unat (require_approval_signatures_min p)) @
            '' distinct approval fingerprints, but found '' @ decimal (unat approvals_count) @ ''.'') r
         else if 0 < require_approval_signatures_min p
         then warning ''require_approval_signatures_min'' ''The required number of approval records is present, but policy linting cannot establish signer trust; verify each approval with trusted keys.'' r
         else r)"

definition lint_envelope :: "envelope \<Rightarrow> capsule_policy \<Rightarrow> policy_result" where
  "lint_envelope e p =
     fold (\<lambda>f r. f e p r)
       [lint_signature, lint_recovery, lint_min_kdf, lint_ciphers, lint_kdfs, lint_lco,
        lint_experimental, lint_hidden, lint_public_label, lint_created_by, lint_recipients,
        lint_approvals]
       new_result"

section \<open>What a policy demands\<close>

text \<open>The KDF levels are ordered by strength.\<close>

fun kdf_rank :: "min_kdf_profile \<Rightarrow> nat" where
  "kdf_rank Interactive = 0"
| "kdf_rank Moderate = 1"
| "kdf_rank Strong = 2"

instantiation min_kdf_profile :: linorder
begin

definition less_eq_min_kdf_profile :: "min_kdf_profile \<Rightarrow> min_kdf_profile \<Rightarrow> bool" where
  "less_eq_min_kdf_profile a b \<longleftrightarrow> kdf_rank a \<le> kdf_rank b"

definition less_min_kdf_profile :: "min_kdf_profile \<Rightarrow> min_kdf_profile \<Rightarrow> bool" where
  "less_min_kdf_profile a b \<longleftrightarrow> kdf_rank a < kdf_rank b"

instance
proof
  fix a b :: min_kdf_profile
  show "a \<le> b \<Longrightarrow> b \<le> a \<Longrightarrow> a = b"
    by (cases a; cases b) (simp_all add: less_eq_min_kdf_profile_def)
qed (auto simp: less_eq_min_kdf_profile_def less_min_kdf_profile_def)

end

text \<open>The costs a level stands for; they grow with the level.\<close>

fun level_costs :: "min_kdf_profile \<Rightarrow> nat \<times> nat \<times> nat" where
  "level_costs Interactive = (65536, 2, 1)"
| "level_costs Moderate = (262144, 3, 2)"
| "level_costs Strong = (1048576, 4, 4)"

definition reaches :: "kdf_params \<Rightarrow> min_kdf_profile \<Rightarrow> bool" where
  "reaches k l = (case level_costs l of (m, t, pc) \<Rightarrow>
     m \<le> unat (m_cost k) \<and> t \<le> unat (t_cost k) \<and> pc \<le> unat (p_cost k))"

lemma reaches_mono: "l \<le> l' \<Longrightarrow> reaches k l' \<Longrightarrow> reaches k l"
  by (cases l; cases l') (auto simp: reaches_def less_eq_min_kdf_profile_def)

definition names_ok :: "string list option \<Rightarrow> string \<Rightarrow> bool" where
  "names_ok allowed name \<longleftrightarrow>
     (\<forall>names. allowed = Some names \<longrightarrow> (\<exists>c \<in> set names. eq_ignore_ascii_case c name))"

definition satisfies :: "envelope \<Rightarrow> capsule_policy \<Rightarrow> bool" where
  "satisfies e p \<longleftrightarrow>
     (require_signature p \<longrightarrow> e_signature e \<noteq> None) \<and>
     (require_recovery p \<longrightarrow> recovery_metadata e \<noteq> None) \<and>
     (\<forall>l k. min_kdf p = Some l \<longrightarrow> h_kdf (header e) = Some k \<longrightarrow> reaches k l) \<and>
     names_ok (allowed_ciphers p) (algorithm_name (h_algorithm (header e))) \<and>
     names_ok (allowed_kdfs p) (kdf_name (h_kdf (header e))) \<and>
     (h_algorithm (header e) = TripleCascadeAesXChaChaLco \<longrightarrow> allow_lco p) \<and>
     (h_profile (header e) \<in> {Paranoid, Extreme} \<or> (\<exists>r \<in> set (h_recipients (header e)). is_hybrid r)
        \<longrightarrow> allow_experimental p) \<and>
     require_metadata_profile p = None \<and> require_padding p = None \<and>
     (public_label e \<noteq> None \<longrightarrow> public_label_allowed p) \<and>
     (created_by_required p \<longrightarrow> (\<exists>rm. e_release e = Some rm \<and> rel_project_name rm \<noteq> None)) \<and>
     require_recipient_count_min p \<le> of_nat (length (h_recipients (header e))) \<and>
     require_approval_signatures_min p \<le> of_nat (card (ap_fingerprint ` set (approvals e)))"

text \<open>\<open>q\<close> demands at most what \<open>p\<close> demands.\<close>

definition weaker_names :: "string list option \<Rightarrow> string list option \<Rightarrow> bool" where
  "weaker_names q p \<longleftrightarrow> q = None \<or> (\<exists>ps qs. p = Some ps \<and> q = Some qs \<and> set ps \<subseteq> set qs)"

definition weaker :: "capsule_policy \<Rightarrow> capsule_policy \<Rightarrow> bool" where
  "weaker q p \<longleftrightarrow>
     (require_signature q \<longrightarrow> require_signature p) \<and>
     (require_recovery q \<longrightarrow> require_recovery p) \<and>
     (\<forall>l. min_kdf q = Some l \<longrightarrow> (\<exists>l'. min_kdf p = Some l' \<and> l \<le> l')) \<and>
     weaker_names (allowed_ciphers q) (allowed_ciphers p) \<and>
     weaker_names (allowed_kdfs q) (allowed_kdfs p) \<and>
     (allow_lco p \<longrightarrow> allow_lco q) \<and>
     (allow_experimental p \<longrightarrow> allow_experimental q) \<and>
     (require_metadata_profile q \<noteq> None \<longrightarrow> require_metadata_profile p \<noteq> None) \<and>
     (require_padding q \<noteq> None \<longrightarrow> require_padding p \<noteq> None) \<and>
     require_recipient_count_min q \<le> require_recipient_count_min p \<and>
     require_approval_signatures_min q \<le> require_approval_signatures_min p \<and>
     (public_label_allowed p \<longrightarrow> public_label_allowed q) \<and>
     (created_by_required q \<longrightarrow> created_by_required p)"

section \<open>Lemmas\<close>

text \<open>
  A rule keeps the violations found before it and adds one exactly when its demand is not met.
\<close>

lemma is_valid_push [simp]:
  "\<not> is_valid (violation ru msg r)" "is_valid (warning ru msg r) \<longleftrightarrow> is_valid r"
  "is_valid new_result"
  by (simp_all add: is_valid_def violation_def warning_def new_result_def)

named_theorems rule_demands \<open>what each lint rule demands\<close>

lemma lint_signature_demand [rule_demands]:
  "is_valid (lint_signature e p r) \<longleftrightarrow> is_valid r \<and> (require_signature p \<longrightarrow> e_signature e \<noteq> None)"
  by (simp add: lint_signature_def)

lemma lint_recovery_demand [rule_demands]:
  "is_valid (lint_recovery e p r) \<longleftrightarrow> is_valid r \<and> (require_recovery p \<longrightarrow> recovery_metadata e \<noteq> None)"
  by (simp add: lint_recovery_def)

lemma lint_min_kdf_demand [rule_demands]:
  "is_valid (lint_min_kdf e p r) \<longleftrightarrow> is_valid r \<and>
     (\<forall>l k. min_kdf p = Some l \<longrightarrow> h_kdf (header e) = Some k \<longrightarrow> reaches k l)"
proof (cases "min_kdf p")
  case None
  then show ?thesis by (simp add: lint_min_kdf_def)
next
  case l: (Some l)
  show ?thesis
  proof (cases "h_kdf (header e)")
    case None
    with l show ?thesis by (simp add: lint_min_kdf_def)
  next
    case (Some k)
    with l show ?thesis
      by (cases k; cases l)
        (auto simp: lint_min_kdf_def Let_def reaches_def word_le_nat_alt split: if_splits)
  qed
qed

lemma lint_ciphers_demand [rule_demands]:
  "is_valid (lint_ciphers e p r) \<longleftrightarrow>
     is_valid r \<and> names_ok (allowed_ciphers p) (algorithm_name (h_algorithm (header e)))"
  by (auto simp: lint_ciphers_def names_ok_def Let_def list_ex_iff split: option.splits)

lemma lint_kdfs_demand [rule_demands]:
  "is_valid (lint_kdfs e p r) \<longleftrightarrow>
     is_valid r \<and> names_ok (allowed_kdfs p) (kdf_name (h_kdf (header e)))"
  by (auto simp: lint_kdfs_def names_ok_def Let_def list_ex_iff split: option.splits)

lemma lint_lco_demand [rule_demands]:
  "is_valid (lint_lco e p r) \<longleftrightarrow>
     is_valid r \<and> (h_algorithm (header e) = TripleCascadeAesXChaChaLco \<longrightarrow> allow_lco p)"
  by (auto simp: lint_lco_def)

lemma lint_experimental_demand [rule_demands]:
  "is_valid (lint_experimental e p r) \<longleftrightarrow> is_valid r \<and>
     (h_profile (header e) \<in> {Paranoid, Extreme} \<or> (\<exists>r \<in> set (h_recipients (header e)). is_hybrid r)
        \<longrightarrow> allow_experimental p)"
  by (auto simp: lint_experimental_def Let_def list_ex_iff)

lemma lint_hidden_demand [rule_demands]:
  "is_valid (lint_hidden e p r) \<longleftrightarrow>
     is_valid r \<and> require_metadata_profile p = None \<and> require_padding p = None"
  by (auto simp: lint_hidden_def Let_def)

lemma lint_public_label_demand [rule_demands]:
  "is_valid (lint_public_label e p r) \<longleftrightarrow>
     is_valid r \<and> (public_label e \<noteq> None \<longrightarrow> public_label_allowed p)"
  by (auto simp: lint_public_label_def)

lemma lint_created_by_demand [rule_demands]:
  "is_valid (lint_created_by e p r) \<longleftrightarrow> is_valid r \<and>
     (created_by_required p \<longrightarrow> (\<exists>rm. e_release e = Some rm \<and> rel_project_name rm \<noteq> None))"
  by (auto simp: lint_created_by_def split: option.splits)

lemma lint_recipients_demand [rule_demands]:
  "is_valid (lint_recipients e p r) \<longleftrightarrow>
     is_valid r \<and> require_recipient_count_min p \<le> of_nat (length (h_recipients (header e)))"
  by (auto simp: lint_recipients_def Let_def)

lemma lint_approvals_demand [rule_demands]:
  "is_valid (lint_approvals e p r) \<longleftrightarrow> is_valid r \<and>
     require_approval_signatures_min p \<le> of_nat (card (ap_fingerprint ` set (approvals e)))"
  by (auto simp: lint_approvals_def Let_def length_remdups_card_conv)

lemma lint_valid_iff: "is_valid (lint_envelope e p) \<longleftrightarrow> satisfies e p"
  by (simp add: lint_envelope_def rule_demands satisfies_def)

lemma names_ok_weaker: "weaker_names q p \<Longrightarrow> names_ok p s \<Longrightarrow> names_ok q s"
  by (auto simp: weaker_names_def names_ok_def)

lemma satisfies_weaker:
  assumes w: "weaker q p" and s: "satisfies e p"
  shows "satisfies e q"
  unfolding satisfies_def
proof (intro conjI)
  note w = w [unfolded weaker_def] and s = s [unfolded satisfies_def]
  show "require_signature q \<longrightarrow> e_signature e \<noteq> None"
    and "require_recovery q \<longrightarrow> recovery_metadata e \<noteq> None"
    and "h_algorithm (header e) = TripleCascadeAesXChaChaLco \<longrightarrow> allow_lco q"
    and "h_profile (header e) \<in> {Paranoid, Extreme} \<or> (\<exists>r \<in> set (h_recipients (header e)). is_hybrid r)
        \<longrightarrow> allow_experimental q"
    and "require_metadata_profile q = None" "require_padding q = None"
    and "public_label e \<noteq> None \<longrightarrow> public_label_allowed q"
    and "created_by_required q \<longrightarrow> (\<exists>rm. e_release e = Some rm \<and> rel_project_name rm \<noteq> None)"
    using w s by argo+
  show "\<forall>l k. min_kdf q = Some l \<longrightarrow> h_kdf (header e) = Some k \<longrightarrow> reaches k l"
  proof (intro allI impI)
    fix l k
    assume lk: "min_kdf q = Some l" "h_kdf (header e) = Some k"
    have "\<forall>l. min_kdf q = Some l \<longrightarrow> (\<exists>l'. min_kdf p = Some l' \<and> l \<le> l')" using w by argo
    with lk obtain l' where l': "min_kdf p = Some l'" "l \<le> l'" by blast
    have "\<forall>l k. min_kdf p = Some l \<longrightarrow> h_kdf (header e) = Some k \<longrightarrow> reaches k l" using s by argo
    with lk l' show "reaches k l" using reaches_mono by blast
  qed
  have names: "weaker_names (allowed_ciphers q) (allowed_ciphers p)"
    "weaker_names (allowed_kdfs q) (allowed_kdfs p)"
    "names_ok (allowed_ciphers p) (algorithm_name (h_algorithm (header e)))"
    "names_ok (allowed_kdfs p) (kdf_name (h_kdf (header e)))"
    using w s by argo+
  then show "names_ok (allowed_ciphers q) (algorithm_name (h_algorithm (header e)))"
    "names_ok (allowed_kdfs q) (kdf_name (h_kdf (header e)))"
    using names_ok_weaker by blast+
  have counts: "require_recipient_count_min q \<le> require_recipient_count_min p"
    "require_recipient_count_min p \<le> of_nat (length (h_recipients (header e)))"
    "require_approval_signatures_min q \<le> require_approval_signatures_min p"
    "require_approval_signatures_min p \<le> of_nat (card (ap_fingerprint ` set (approvals e)))"
    using w s by argo+
  then show "require_recipient_count_min q \<le> of_nat (length (h_recipients (header e)))"
    "require_approval_signatures_min q \<le> of_nat (card (ap_fingerprint ` set (approvals e)))"
    by (blast intro: order.trans)+
qed

section \<open>Properties\<close>

text \<open>
  C36: \<open>lint_envelope\<close> finds no violation exactly when the envelope meets every demand of the
  policy; in particular a demand that cannot be checked on the public envelope (metadata
  profile, padding) is never silently accepted.
\<close>

theorem lint_envelope_exact:
  "is_valid (lint_envelope e p) \<longleftrightarrow> satisfies e p"
  by (rule lint_valid_iff)

text \<open>
  Relaxing a policy never makes an accepted envelope rejected.
\<close>

theorem lint_envelope_monotone:
  assumes "weaker q p" "is_valid (lint_envelope e p)"
  shows "is_valid (lint_envelope e q)"
  using assms satisfies_weaker by (simp add: lint_valid_iff)

text \<open>An envelope for the witnesses.\<close>

definition sample_envelope :: envelope where
  "sample_envelope = \<lparr>header = \<lparr>h_magic = MAGIC_REAL, h_version = 2, h_profile = Archive,
     h_algorithm = XChaCha20Poly1305, h_kdf = Some (Argon2id 262144 3 2 (replicate 16 0)),
     h_recipients = [RPassword (replicate 24 0) (replicate 48 0)]\<rparr>, plaintext_len = 0,
     e_nonce = replicate 24 0, secondary_nonce = None, aad_hash = replicate 32 0, metadata = [],
     e_content_type = None, e_signature = None, public_label = None, approvals = [],
     e_release = None, policy_overridden = False, recovery_metadata = None\<rparr>"

theorem lint_envelope_monotone_witness:
  "is_valid (lint_envelope sample_envelope (default_policy\<lparr>min_kdf := Some Interactive\<rparr>))"
proof (rule lint_envelope_monotone)
  show "weaker (default_policy\<lparr>min_kdf := Some Interactive\<rparr>) (default_policy\<lparr>min_kdf := Some Moderate\<rparr>)"
    by (simp add: weaker_def weaker_names_def default_policy_def less_eq_min_kdf_profile_def)
  show "is_valid (lint_envelope sample_envelope (default_policy\<lparr>min_kdf := Some Moderate\<rparr>))"
    by (simp add: lint_valid_iff satisfies_def sample_envelope_def default_policy_def reaches_def
        names_ok_def is_hybrid_def)
qed

text \<open>
  A policy with \<open>allow_experimental = false\<close> looks at the profile and the recipients
  only: an envelope whose algorithm is one of the experimental cascades is accepted when it
  names a stable profile.
\<close>

theorem experimental_algorithm_passes_policy:
  "is_valid (lint_envelope
     (sample_envelope\<lparr>header := (header sample_envelope)\<lparr>h_algorithm := CascadeAesGcmXChaCha\<rparr>\<rparr>)
     (default_policy\<lparr>allow_experimental := False\<rparr>))"
  by (simp add: lint_valid_iff satisfies_def sample_envelope_def default_policy_def names_ok_def
      is_hybrid_def)

end
