(* ===== verification/Primitives.thy ===== *)
theory Primitives
  imports Ciphers Envelope
begin

text \<open>
  The other third-party code the crate calls, as records of functions that the model takes as
  parameters: Argon2, SHA-256, X25519 and ML-KEM-768, and the postcard serializer. The laws
  state documented behaviour; the last section has an instance that satisfies all of them.
\<close>

section \<open>Cryptographic primitives\<close>

record prims =
  cip :: ciphers
  argon2_params_ok :: "u32 \<Rightarrow> u32 \<Rightarrow> u32 \<Rightarrow> bool"
  argon2_secret_ok :: "bytes \<Rightarrow> bool"
  argon2_hash :: "bytes option \<Rightarrow> u32 \<times> u32 \<times> u32 \<Rightarrow> bytes \<Rightarrow> bytes \<Rightarrow> bytes option"
  sha256 :: "bytes \<Rightarrow> bytes"
  x25519_public :: "bytes \<Rightarrow> bytes"
  x25519_dh :: "bytes \<Rightarrow> bytes \<Rightarrow> bytes"
  was_contributory :: "bytes \<Rightarrow> bool"
  mlkem_encapsulate :: "bytes \<Rightarrow> bytes \<Rightarrow> bytes \<times> bytes"
  mlkem_decapsulate :: "bytes \<Rightarrow> bytes \<Rightarrow> bytes"

record hybrid_public_key =
  pub_x25519 :: bytes
  pub_mlkem :: bytes

record hybrid_private_key =
  priv_x25519 :: bytes
  priv_mlkem :: bytes

text \<open>The size of an ML-KEM-768 ciphertext, fixed by its type.\<close>

definition MLKEM_CT_LEN :: nat where "MLKEM_CT_LEN = 1088"

text \<open>
  Both sides of an exchange compute the same value, and the zero point contributes nothing.
\<close>

definition dh_laws :: "prims \<Rightarrow> bool" where
  "dh_laws P \<longleftrightarrow>
     (\<forall>a b. x25519_dh P a (x25519_public P b) = x25519_dh P b (x25519_public P a)) \<and>
     (\<forall>a b. list_all (\<lambda>x. x = 0) b \<longrightarrow> \<not> was_contributory P (x25519_dh P a b))"

text \<open>A private key and a public key that belong together.\<close>

definition key_pair :: "prims \<Rightarrow> hybrid_private_key \<Rightarrow> hybrid_public_key \<Rightarrow> bool" where
  "key_pair P sk pk \<longleftrightarrow> pub_x25519 pk = x25519_public P (priv_x25519 sk) \<and>
     (\<forall>r ct ss. mlkem_encapsulate P (pub_mlkem pk) r = (ct, ss) \<longrightarrow>
        length ct = MLKEM_CT_LEN \<and> mlkem_decapsulate P (priv_mlkem sk) ct = ss)"

section \<open>Serialization\<close>

record legacy_envelope =
  leg_header :: envelope_header
  leg_plaintext_len :: u64
  leg_nonce :: bytes
  leg_secondary_nonce :: "bytes option"
  leg_aad_hash :: bytes
  leg_metadata :: bytes

record payload_aad_v2 =
  pa_header :: envelope_header
  pa_plaintext_len :: u64
  pa_nonce :: bytes
  pa_secondary_nonce :: "bytes option"
  pa_metadata :: bytes
  pa_content_type :: "content_type option"
  pa_public_label :: "string option"
  pa_policy_overridden :: bool

text \<open>
  \<open>to_allocvec\<close> (failing on values the Rust types exclude) and \<open>take_from_bytes\<close>, for each
  type the module serializes.
\<close>

record postcard =
  pc_envelope :: "envelope \<Rightarrow> bytes option"
  pc_take_envelope :: "bytes \<Rightarrow> (envelope \<times> bytes) option"
  pc_take_legacy :: "bytes \<Rightarrow> (legacy_envelope \<times> bytes) option"
  pc_header :: "envelope_header \<Rightarrow> bytes option"
  pc_payload_aad :: "payload_aad_v2 \<Rightarrow> bytes option"
  pc_comment :: "string option \<Rightarrow> bytes option"

definition postcard_ok :: "postcard \<Rightarrow> bool" where
  "postcard_ok S \<longleftrightarrow>
     (\<forall>e b r. pc_envelope S e = Some b \<longrightarrow> pc_take_envelope S (b @ r) = Some (e, r))"

section \<open>An instance: a self-delimiting encoding\<close>

type_synonym 'a codec = "('a \<Rightarrow> bytes) \<times> (bytes \<Rightarrow> ('a \<times> bytes) option)"

definition codec_ok :: "'a codec \<Rightarrow> bool" where
  "codec_ok c \<longleftrightarrow> (\<forall>x r. snd c (fst c x @ r) = Some (x, r))"

lemma codec_okD: "codec_ok c \<Longrightarrow> snd c (fst c x @ r) = Some (x, r)"
  by (simp add: codec_ok_def)

fun take_unary :: "bytes \<Rightarrow> (nat \<times> bytes) option" where
  "take_unary [] = None"
| "take_unary (b # r) =
     (if b = 0 then Some (0, r) else map_option (\<lambda>(n, s). (Suc n, s)) (take_unary r))"

definition c_nat :: "nat codec" where
  "c_nat = (\<lambda>n. replicate n 1 @ [0], take_unary)"

definition c_iso :: "('a \<Rightarrow> 'b) \<Rightarrow> ('b \<Rightarrow> 'a) \<Rightarrow> 'b codec \<Rightarrow> 'a codec" where
  "c_iso f g c = (\<lambda>x. fst c (f x), \<lambda>b. map_option (\<lambda>(y, r). (g y, r)) (snd c b))"

definition c_pair :: "'a codec \<Rightarrow> 'b codec \<Rightarrow> ('a \<times> 'b) codec" where
  "c_pair c d = (\<lambda>(x, y). fst c x @ fst d y,
     \<lambda>b. case snd c b of None \<Rightarrow> None | Some (x, r) \<Rightarrow> map_option (\<lambda>(y, s). ((x, y), s)) (snd d r))"

definition c_option :: "'a codec \<Rightarrow> 'a option codec" where
  "c_option c = (\<lambda>x. case x of None \<Rightarrow> [0] | Some y \<Rightarrow> 1 # fst c y,
     \<lambda>b. case b of [] \<Rightarrow> None | t # r \<Rightarrow>
       if t = 0 then Some (None, r) else map_option (\<lambda>(y, s). (Some y, s)) (snd c r))"

fun take_times :: "nat \<Rightarrow> (bytes \<Rightarrow> ('a \<times> bytes) option) \<Rightarrow> bytes \<Rightarrow> ('a list \<times> bytes) option" where
  "take_times 0 d b = Some ([], b)"
| "take_times (Suc n) d b = (case d b of None \<Rightarrow> None
     | Some (x, r) \<Rightarrow> map_option (\<lambda>(xs, s). (x # xs, s)) (take_times n d r))"

definition c_list :: "'a codec \<Rightarrow> 'a list codec" where
  "c_list c = (\<lambda>xs. fst c_nat (length xs) @ concat (map (fst c) xs),
     \<lambda>b. case take_unary b of None \<Rightarrow> None | Some (n, r) \<Rightarrow> take_times n (snd c) r)"

definition c_byte :: "byte codec" where
  "c_byte = (\<lambda>x. [x], \<lambda>b. case b of [] \<Rightarrow> None | x # r \<Rightarrow> Some (x, r))"

lemma take_unary_append: "take_unary (replicate n 1 @ 0 # r) = Some (n, r)"
  by (induction n) auto

lemma c_nat_ok [simp]: "codec_ok c_nat"
  by (simp add: codec_ok_def c_nat_def take_unary_append)

lemma c_byte_ok [simp]: "codec_ok c_byte"
  by (simp add: codec_ok_def c_byte_def)

lemma c_iso_ok [simp]: "codec_ok c \<Longrightarrow> (\<And>x. g (f x) = x) \<Longrightarrow> codec_ok (c_iso f g c)"
  by (simp add: codec_ok_def c_iso_def)

lemma c_pair_ok [simp]: "codec_ok c \<Longrightarrow> codec_ok d \<Longrightarrow> codec_ok (c_pair c d)"
  by (auto simp: codec_ok_def c_pair_def)

lemma c_option_ok [simp]: "codec_ok c \<Longrightarrow> codec_ok (c_option c)"
  by (auto simp: codec_ok_def c_option_def split: option.splits)

lemma take_times_append:
  "codec_ok c \<Longrightarrow> take_times (length xs) (snd c) (concat (map (fst c) xs) @ r) = Some (xs, r)"
  by (induction xs) (auto simp: codec_okD)

lemma c_list_ok [simp]: "codec_ok c \<Longrightarrow> codec_ok (c_list c)"
  by (simp add: codec_ok_def c_list_def c_nat_def take_unary_append)
    (use take_times_append codec_ok_def in blast)

definition c_bytes :: "bytes codec" where "c_bytes = c_list c_byte"

definition c_string :: "string codec" where
  "c_string = c_iso ascii (map (\<lambda>b. char_of (unat b))) c_bytes"

definition c_u16 :: "u16 codec" where "c_u16 = c_iso unat of_nat c_nat"

definition c_u32 :: "u32 codec" where "c_u32 = c_iso u32_to_le_bytes u32_from_le_bytes c_bytes"

definition c_u64 :: "u64 codec" where "c_u64 = c_iso u64_to_le_bytes u64_from_le_bytes c_bytes"

definition c_bool :: "bool codec" where
  "c_bool = c_iso (\<lambda>b. if b then Some () else None) (\<lambda>x. x = Some ())
     (c_option (\<lambda>_. [], \<lambda>b. Some ((), b)))"

fun profile_nat :: "security_profile \<Rightarrow> nat" where
  "profile_nat Fast = 0" | "profile_nat Balanced = 1" | "profile_nat Archive = 2"
| "profile_nat Paranoid = 3" | "profile_nat Extreme = 4"

definition nat_profile :: "nat \<Rightarrow> security_profile" where
  "nat_profile n = (if n = 0 then Fast else if n = 1 then Balanced else if n = 2 then Archive
     else if n = 3 then Paranoid else Extreme)"

fun algorithm_nat :: "algorithm_id \<Rightarrow> nat" where
  "algorithm_nat XChaCha20Poly1305 = 0" | "algorithm_nat CascadeAesGcmXChaCha = 1"
| "algorithm_nat TripleCascadeAesXChaChaLco = 2" | "algorithm_nat X25519 = 3"
| "algorithm_nat Ed25519 = 4" | "algorithm_nat X25519MlkemHybrid = 5"
| "algorithm_nat Ed25519MldsaHybrid = 6"

definition nat_algorithm :: "nat \<Rightarrow> algorithm_id" where
  "nat_algorithm n = (if n = 0 then XChaCha20Poly1305 else if n = 1 then CascadeAesGcmXChaCha
     else if n = 2 then TripleCascadeAesXChaChaLco else if n = 3 then X25519
     else if n = 4 then Ed25519 else if n = 5 then X25519MlkemHybrid else Ed25519MldsaHybrid)"

definition c_kdf :: "kdf_params codec" where
  "c_kdf = c_iso (\<lambda>k. (m_cost k, t_cost k, p_cost k, kdf_salt k))
     (\<lambda>(m, t, p, s). Argon2id m t p s) (c_pair c_u32 (c_pair c_u32 (c_pair c_u32 c_bytes)))"

definition recipient_tuple :: "recipient \<Rightarrow> bytes option \<times> bytes \<times> bytes" where
  "recipient_tuple r = (case r of RPassword n k \<Rightarrow> (None, n, k)
     | RX25519MlkemHybrid pk ct k \<Rightarrow> (Some pk, ct, k))"

definition tuple_recipient :: "bytes option \<times> bytes \<times> bytes \<Rightarrow> recipient" where
  "tuple_recipient = (\<lambda>(pk, x, k). case pk of None \<Rightarrow> RPassword x k
     | Some p \<Rightarrow> RX25519MlkemHybrid p x k)"

definition c_recipient :: "recipient codec" where
  "c_recipient = c_iso recipient_tuple tuple_recipient (c_pair (c_option c_bytes) (c_pair c_bytes c_bytes))"

definition c_header :: "envelope_header codec" where
  "c_header = c_iso
     (\<lambda>h. (h_magic h, h_version h, profile_nat (h_profile h), algorithm_nat (h_algorithm h),
        h_kdf h, h_recipients h))
     (\<lambda>(m, v, p, a, k, rs). \<lparr>h_magic = m, h_version = v, h_profile = nat_profile p,
        h_algorithm = nat_algorithm a, h_kdf = k, h_recipients = rs\<rparr>)
     (c_pair c_bytes (c_pair c_u16 (c_pair c_nat (c_pair c_nat (c_pair (c_option c_kdf)
        (c_list c_recipient))))))"

definition c_content_type :: "content_type codec" where
  "c_content_type = c_iso (\<lambda>c. c = Bundle) (\<lambda>b. if b then Bundle else SingleFile) c_bool"

definition c_signature :: "envelope_signature codec" where
  "c_signature = c_iso (\<lambda>s. (sig_fingerprint s, sig_bytes s, sig_created_at s, sig_comment s))
     (\<lambda>(f, b, t, c). \<lparr>sig_fingerprint = f, sig_bytes = b, sig_created_at = t, sig_comment = c\<rparr>)
     (c_pair c_bytes (c_pair c_bytes (c_pair (c_option c_string) (c_option c_string))))"

definition c_approval :: "approval_signature codec" where
  "c_approval = c_iso (\<lambda>s. (ap_fingerprint s, ap_signature s, ap_comment s))
     (\<lambda>(f, b, c). \<lparr>ap_fingerprint = f, ap_signature = b, ap_comment = c\<rparr>)
     (c_pair c_bytes (c_pair c_bytes (c_option c_string)))"

definition c_release :: "release_metadata codec" where
  "c_release = c_iso (\<lambda>s. (rel_project_name s, rel_version s, rel_git_commit s, rel_build_timestamp s))
     (\<lambda>(p, v, g, b). \<lparr>rel_project_name = p, rel_version = v, rel_git_commit = g, rel_build_timestamp = b\<rparr>)
     (c_pair (c_option c_string) (c_pair (c_option c_string) (c_pair (c_option c_string)
       (c_option c_string))))"

definition c_envelope :: "envelope codec" where
  "c_envelope = c_iso
     (\<lambda>e. ((header e, plaintext_len e, e_nonce e, secondary_nonce e, aad_hash e, metadata e),
        (e_content_type e, e_signature e, public_label e, approvals e, e_release e,
         policy_overridden e, recovery_metadata e)))
     (\<lambda>((h, n, no, sn, ah, md), (ct, sg, pl, ap, rl, po, rm)).
        \<lparr>header = h, plaintext_len = n, e_nonce = no, secondary_nonce = sn, aad_hash = ah,
         metadata = md, e_content_type = ct, e_signature = sg, public_label = pl, approvals = ap,
         e_release = rl, policy_overridden = po, recovery_metadata = rm\<rparr>)
     (c_pair
       (c_pair c_header (c_pair c_u64 (c_pair c_bytes (c_pair (c_option c_bytes)
         (c_pair c_bytes c_bytes)))))
       (c_pair (c_option c_content_type) (c_pair (c_option c_signature)
         (c_pair (c_option c_string) (c_pair (c_list c_approval) (c_pair (c_option c_release)
           (c_pair c_bool (c_option c_bytes))))))))"

definition c_legacy :: "legacy_envelope codec" where
  "c_legacy = c_iso
     (\<lambda>e. (leg_header e, leg_plaintext_len e, leg_nonce e, leg_secondary_nonce e, leg_aad_hash e,
        leg_metadata e))
     (\<lambda>(h, n, no, sn, ah, md). \<lparr>leg_header = h, leg_plaintext_len = n, leg_nonce = no,
        leg_secondary_nonce = sn, leg_aad_hash = ah, leg_metadata = md\<rparr>)
     (c_pair c_header (c_pair c_u64 (c_pair c_bytes (c_pair (c_option c_bytes)
       (c_pair c_bytes c_bytes)))))"

lemma c_bool_ok [simp]: "codec_ok c_bool"
  unfolding c_bool_def by (rule c_iso_ok, rule c_option_ok) (simp_all add: codec_ok_def)

lemma nat_profile_code [simp]: "nat_profile (profile_nat p) = p"
  by (cases p) (simp_all add: nat_profile_def)

lemma nat_algorithm_code [simp]: "nat_algorithm (algorithm_nat a) = a"
  by (cases a) (simp_all add: nat_algorithm_def)

lemma tuple_recipient_code [simp]: "tuple_recipient (recipient_tuple r) = r"
  by (cases r) (simp_all add: recipient_tuple_def tuple_recipient_def)

lemma ascii_chars [simp]: "map (\<lambda>b. char_of (unat b)) (ascii s) = s"
  by (simp add: ascii_def comp_def unat_of_char_byte map_idI)

lemma base_codecs_ok [simp]:
  "codec_ok c_bytes" "codec_ok c_string" "codec_ok c_u16" "codec_ok c_u32" "codec_ok c_u64"
  by (simp_all add: c_bytes_def c_string_def c_u16_def c_u32_def c_u64_def)

lemma c_content_type_ok [simp]: "codec_ok c_content_type"
  unfolding c_content_type_def
proof (rule c_iso_ok)
  show "(if c = Bundle then Bundle else SingleFile) = c" for c by (cases c) simp_all
qed simp

lemma part_codecs_ok [simp]:
  "codec_ok c_kdf" "codec_ok c_recipient" "codec_ok c_signature" "codec_ok c_approval"
  "codec_ok c_release"
  by (simp_all add: c_kdf_def c_recipient_def c_signature_def c_approval_def c_release_def)

lemma c_header_ok [simp]: "codec_ok c_header"
  unfolding c_header_def by (rule c_iso_ok) simp_all

lemma c_envelope_ok [simp]: "codec_ok c_envelope"
  unfolding c_envelope_def by (rule c_iso_ok) simp_all

definition sample_postcard :: postcard where
  "sample_postcard = \<lparr>pc_envelope = (\<lambda>e. Some (fst c_envelope e)), pc_take_envelope = snd c_envelope,
     pc_take_legacy = snd c_legacy, pc_header = (\<lambda>h. Some (fst c_header h)),
     pc_payload_aad = (\<lambda>a. Some []), pc_comment = (\<lambda>c. Some (fst (c_option c_string) c))\<rparr>"

lemma sample_postcard_ok [simp]: "postcard_ok sample_postcard"
  by (simp add: postcard_ok_def sample_postcard_def codec_okD)

text \<open>
  An instance of the cryptographic primitives: multiplication of first bytes stands for the group.
\<close>

definition sample_prims :: prims where
  "sample_prims = \<lparr>cip = sample_ciphers, argon2_params_ok = (\<lambda>_ _ _. True),
     argon2_secret_ok = (\<lambda>_. True),
     argon2_hash = (\<lambda>s _ p salt. Some (replicate 32 (sum_list p + sum_list salt))),
     sha256 = (\<lambda>bs. replicate 32 (sum_list bs)),
     x25519_public = (\<lambda>a. replicate 32 (sum_list (take 1 a))),
     x25519_dh = (\<lambda>a b. replicate 32 (sum_list (take 1 a) * sum_list (take 1 b))),
     was_contributory = list_ex (\<lambda>x. x \<noteq> 0),
     mlkem_encapsulate = (\<lambda>pk r. (replicate 1088 (sum_list r), replicate 32 (sum_list r))),
     mlkem_decapsulate = (\<lambda>sk ct. replicate 32 (hd ct))\<rparr>"

lemma sample_prims_ok [simp]: "dh_laws sample_prims" "ciphers_ok (cip sample_prims)"
proof -
  have "sum_list (take 1 b) = 0" if "list_all (\<lambda>x. x = 0) b" for b :: bytes
    using that by (cases b) auto
  then show "dh_laws sample_prims" "ciphers_ok (cip sample_prims)"
    by (auto simp: dh_laws_def sample_prims_def list_ex_iff mult.commute)
qed

lemma sample_key_pair:
  "key_pair sample_prims \<lparr>priv_x25519 = a, priv_mlkem = []\<rparr>
     \<lparr>pub_x25519 = x25519_public sample_prims a, pub_mlkem = []\<rparr>"
  by (auto simp: key_pair_def sample_prims_def MLKEM_CT_LEN_def)

end
