(* ===== verification/Capsule.thy ===== *)
theory Capsule
  imports Payload_Correct Primitives Policy
begin

text \<open>
  Capsules: envelope plus payload (crypto/mod.rs). Creation for a password or for key pairs,
  the validation every reader of an envelope goes through, decryption, verification and the
  in-memory variants. The primitives \<open>P\<close> and the serializer \<open>S\<close> are parameters; the world is
  the state. Only the Unix branches of the platform-dependent code are modelled. Log output
  and the zeroing of secrets have no effect here; progress callbacks are recorded by the
  writer (theory Streams).
\<close>

section \<open>Key derivation from a password\<close>

definition derive_master_key ::
  "prims \<Rightarrow> bytes \<Rightarrow> bytes option \<Rightarrow> kdf_params \<Rightarrow> crypto_error + bytes" where
  "derive_master_key P password seed kdf =
     (case kdf of Argon2id m t p salt \<Rightarrow>
        rbind (ensure (argon2_params_ok P m t p) UnsupportedProfile) (\<lambda>_.
        rbind (case seed of None \<Rightarrow> Inr () | Some s \<Rightarrow> ensure (argon2_secret_ok P s) EncryptionFailed) (\<lambda>_.
          ok_or DecryptionFailed (argon2_hash P seed (m, t, p) password salt))))"

section \<open>The envelope\<close>

definition PAYLOAD_AAD_V2_DOMAIN :: bytes where
  "PAYLOAD_AAD_V2_DOMAIN = ascii ''Lvau payload AAD v2'' @ [0]"

definition MAX_ENVELOPE_SIZE :: nat where "MAX_ENVELOPE_SIZE = 1024 * 1024"

definition MAX_RECIPIENTS :: nat where "MAX_RECIPIENTS = 64"

text \<open>\<open>impl From<LegacyEnvelopeV1> for Envelope\<close>\<close>

definition legacy_into :: "legacy_envelope \<Rightarrow> envelope" where
  "legacy_into l = \<lparr>header = leg_header l, plaintext_len = leg_plaintext_len l,
     e_nonce = leg_nonce l, secondary_nonce = leg_secondary_nonce l, aad_hash = leg_aad_hash l,
     metadata = leg_metadata l, e_content_type = None, e_signature = None, public_label = None,
     approvals = [], e_release = None, policy_overridden = False, recovery_metadata = None\<rparr>"

definition payload_aad_of :: "envelope \<Rightarrow> payload_aad_v2" where
  "payload_aad_of e = \<lparr>pa_header = header e, pa_plaintext_len = plaintext_len e,
     pa_nonce = e_nonce e, pa_secondary_nonce = secondary_nonce e, pa_metadata = metadata e,
     pa_content_type = e_content_type e, pa_public_label = public_label e,
     pa_policy_overridden = policy_overridden e\<rparr>"

definition compute_aad_hash :: "prims \<Rightarrow> postcard \<Rightarrow> envelope \<Rightarrow> crypto_error + bytes" where
  "compute_aad_hash P S e =
     (if h_version (header e) = LEGACY_VERSION
      then rbind (ok_or Serialization (pc_header S (header e))) (\<lambda>b. Inr (sha256 P b))
      else if h_version (header e) = CURRENT_VERSION
      then rbind (ok_or Serialization (pc_payload_aad S (payload_aad_of e))) (\<lambda>b.
        Inr (sha256 P (PAYLOAD_AAD_V2_DOMAIN @ b)))
      else Inl (Validation ''Unsupported format version''))"

fun expected_argon2_costs :: "security_profile \<Rightarrow> u32 \<times> u32 \<times> u32" where
  "expected_argon2_costs Fast = (16384, 1, 1)"
| "expected_argon2_costs Balanced = (65536, 2, 1)"
| "expected_argon2_costs Archive = (262144, 3, 2)"
| "expected_argon2_costs Paranoid = (1048576, 4, 4)"
| "expected_argon2_costs Extreme = (1048576, 4, 4)"

definition is_password :: "recipient \<Rightarrow> bool" where
  "is_password r = (case r of RPassword _ _ \<Rightarrow> True | _ \<Rightarrow> False)"

definition needs_secondary_nonce :: "algorithm_id \<Rightarrow> bool" where
  "needs_secondary_nonce a \<longleftrightarrow> a = CascadeAesGcmXChaCha \<or> a = TripleCascadeAesXChaChaLco"

definition validate_envelope_resources :: "envelope \<Rightarrow> crypto_error + unit" where
  "validate_envelope_resources e =
     (let rs = h_recipients (header e);
          password_recipients = length (filter is_password rs);
          hybrid_recipients = length rs - password_recipients
      in if rs = [] then Inl (Validation ''Envelope has no recipients'')
         else if MAX_RECIPIENTS < length rs
         then Inl (Validation ''Envelope has too many recipients'')
         else if \<not> (case h_algorithm (header e) of
               XChaCha20Poly1305 \<Rightarrow> True | CascadeAesGcmXChaCha \<Rightarrow> True
             | TripleCascadeAesXChaChaLco \<Rightarrow> True | _ \<Rightarrow> False)
         then Inl (Validation ''Unsupported payload encryption algorithm'')
         else if password_recipients \<noteq> 0 \<and> hybrid_recipients \<noteq> 0
         then Inl (Validation ''Mixed password and key-pair recipients are unsupported'')
         else if list_ex (\<lambda>r. length (encrypted_file_key r) \<noteq> 48) rs
         then Inl (Validation ''Invalid wrapped file-key length'')
         else rbind
           (if 0 < password_recipients
            then (case h_kdf (header e) of
                None \<Rightarrow> Inl (Validation ''Password recipient is missing Argon2id parameters'')
              | Some (Argon2id m t p _) \<Rightarrow>
                  ensure ((m, t, p) = expected_argon2_costs (h_profile (header e)))
                    (Validation ''Argon2id parameters do not match the security profile''))
            else ensure (h_kdf (header e) = None)
              (Validation ''Key-pair envelope must not include password KDF parameters'')) (\<lambda>_.
           ensure (needs_secondary_nonce (h_algorithm (header e)) \<longleftrightarrow> secondary_nonce e \<noteq> None)
             (Validation ''Secondary nonce does not match the payload algorithm'')))"

definition verify_aad_hash :: "prims \<Rightarrow> postcard \<Rightarrow> envelope \<Rightarrow> crypto_error + unit" where
  "verify_aad_hash P S e =
     rbind (compute_aad_hash P S e) (\<lambda>computed_hash.
       ensure (computed_hash = aad_hash e)
         (Validation ''Envelope header authentication data mismatch''))"

section \<open>Wrapping the file key\<close>

definition wrap_key_xchacha :: "prims \<Rightarrow> bytes \<Rightarrow> bytes \<Rightarrow> bytes \<Rightarrow> crypto_error + bytes" where
  "wrap_key_xchacha P key_to_wrap wrapping_key nonce_bytes =
     ok_or EncryptionFailed (xchacha_encrypt (cip P) wrapping_key nonce_bytes [] key_to_wrap)"

definition unwrap_key_xchacha :: "prims \<Rightarrow> bytes \<Rightarrow> bytes \<Rightarrow> bytes \<Rightarrow> crypto_error + bytes" where
  "unwrap_key_xchacha P wrapped_key wrapping_key nonce_bytes =
     ok_or DecryptionFailed (xchacha_decrypt (cip P) wrapping_key nonce_bytes [] wrapped_key)"

section \<open>Writing a capsule\<close>

definition persist_temp_file :: "writer \<Rightarrow> path \<Rightarrow> (world, crypto_error, unit) action" where
  "persist_temp_file temp_file output_path =
     act (act_map_err Io (persist temp_file output_path)) (\<lambda>_.
       case parent output_path of
         None \<Rightarrow> ret ()
       | Some par \<Rightarrow> act_map_err Io (sync_path par))"

text \<open>What goes into the temporary file: length, envelope, encrypted payload.\<close>

definition write_capsule ::
  "prims \<Rightarrow> envelope \<Rightarrow> algorithm_id \<Rightarrow> bytes \<Rightarrow> bytes \<Rightarrow> reader \<Rightarrow> writer \<Rightarrow>
   crypto_error + writer" where
  "write_capsule P e algorithm hk encoded rd temp_file =
     (case write_chunks [u32_to_le_bytes (of_nat (length encoded)), encoded] temp_file of
        (Inl err, _) \<Rightarrow> Inl (Io err)
      | (Inr _, temp1) \<Rightarrow>
          (case stream_encrypt_payload (cip P) algorithm (h_version (header e)) hk (e_nonce e)
               (secondary_nonce e) (aad_hash e) (rd, temp1) of
             (Inl err, _) \<Rightarrow> Inl err
           | (Inr _, (_, temp2)) \<Rightarrow> Inr temp2))"

definition write_envelope_and_payload ::
  "prims \<Rightarrow> postcard \<Rightarrow> path \<Rightarrow> envelope \<Rightarrow> algorithm_id \<Rightarrow> bytes \<Rightarrow> reader \<Rightarrow>
   (world, crypto_error, unit) action" where
  "write_envelope_and_payload P S output_path e algorithm hk rd =
     act (lift (ok_or Serialization (pc_envelope S e))) (\<lambda>encoded.
     act (lift (ensure (encoded \<noteq> [] \<and> length encoded \<le> MAX_ENVELOPE_SIZE)
       (Validation ''Envelope size is invalid''))) (\<lambda>_.
     act (act_map_err Io (new_in (parent_or_dot output_path))) (\<lambda>temp_file.
     act (lift (write_capsule P e algorithm hk encoded rd temp_file)) (\<lambda>temp_file.
     act (act_map_err Io sync_temp) (\<lambda>_.
       persist_temp_file temp_file output_path)))))"

section \<open>Reading an envelope\<close>

definition decode_postcard_exact :: "(bytes \<Rightarrow> ('a \<times> bytes) option) \<Rightarrow> bytes \<Rightarrow> 'a option" where
  "decode_postcard_exact take_from_bytes bs =
     (case take_from_bytes bs of
        None \<Rightarrow> None
      | Some (v, remaining) \<Rightarrow> if remaining = [] then Some v else None)"

definition decode_envelope_bytes :: "prims \<Rightarrow> postcard \<Rightarrow> bytes \<Rightarrow> crypto_error + envelope" where
  "decode_envelope_bytes P S bs =
     rbind (case decode_postcard_exact (pc_take_envelope S) bs of
         Some e \<Rightarrow> Inr e
       | None \<Rightarrow> (case decode_postcard_exact (pc_take_legacy S) bs of
             Some l \<Rightarrow> Inr (legacy_into l)
           | None \<Rightarrow> Inl Serialization)) (\<lambda>e.
     rbind (map_err Validation (validate e)) (\<lambda>_.
     rbind (validate_envelope_resources e) (\<lambda>_.
     rbind (verify_aad_hash P S e) (\<lambda>_. Inr e))))"

text \<open>The reader is left behind the envelope; after an error it is dropped.\<close>

definition read_envelope :: "prims \<Rightarrow> postcard \<Rightarrow> reader \<Rightarrow> crypto_error + envelope \<times> reader" where
  "read_envelope P S rd =
     (case read_exact 4 rd of
        (Inl err, _) \<Rightarrow> Inl (Io err)
      | (Inr len_buf, rd1) \<Rightarrow>
          let env_len = unat (u32_from_le_bytes len_buf)
          in if env_len = 0 then Inl (Validation ''Envelope is empty'')
             else if MAX_ENVELOPE_SIZE < env_len then Inl (Validation ''Envelope too large'')
             else (case read_exact env_len rd1 of
                 (Inl err, _) \<Rightarrow> Inl (Io err)
               | (Inr env_bytes, rd2) \<Rightarrow>
                   rbind (decode_envelope_bytes P S env_bytes) (\<lambda>e. Inr (e, rd2))))"

definition read_envelope_from_path ::
  "prims \<Rightarrow> postcard \<Rightarrow> path \<Rightarrow> (world, crypto_error, envelope) action" where
  "read_envelope_from_path P S input_path =
     act (act_map_err Io (open_file input_path)) (\<lambda>rd.
     act (lift (read_envelope P S rd)) (\<lambda>(e, _). ret e))"

definition inspect_envelope ::
  "prims \<Rightarrow> postcard \<Rightarrow> path \<Rightarrow> (world, crypto_error, envelope_header) action" where
  "inspect_envelope P S input_path =
     act (act_map_err Io (open_file input_path)) (\<lambda>rd.
     act (lift (read_envelope P S rd)) (\<lambda>(e, _). ret (header e)))"

section \<open>Encryption for a password\<close>

fun profile_costs :: "security_profile \<Rightarrow> u32 \<times> u32 \<times> u32" where
  "profile_costs Fast = (16384, 1, 1)"
| "profile_costs Balanced = (65536, 2, 1)"
| "profile_costs Archive = (262144, 3, 2)"
| "profile_costs Paranoid = (1048576, 4, 4)"
| "profile_costs Extreme = (1048576, 4, 4)"

definition profile_algorithm :: "security_profile \<Rightarrow> algorithm_id" where
  "profile_algorithm profile =
     (case profile of Extreme \<Rightarrow> TripleCascadeAesXChaChaLco | Paranoid \<Rightarrow> CascadeAesGcmXChaCha
      | _ \<Rightarrow> XChaCha20Poly1305)"

definition draw_secondary_nonce :: "algorithm_id \<Rightarrow> (world, crypto_error, bytes option) action" where
  "draw_secondary_nonce algorithm =
     (if algorithm = CascadeAesGcmXChaCha \<or> algorithm = TripleCascadeAesXChaChaLco
      then act (fill_bytes 12) (\<lambda>sn. ret (Some sn))
      else ret None)"

text \<open>The envelope both encryption functions fill in, before its hash is known.\<close>

definition new_envelope ::
  "security_profile \<Rightarrow> algorithm_id \<Rightarrow> kdf_params option \<Rightarrow> recipient list \<Rightarrow> u64 \<Rightarrow> bytes \<Rightarrow>
   bytes option \<Rightarrow> content_type option \<Rightarrow> bool \<Rightarrow> envelope" where
  "new_envelope profile algorithm kdf recipients plen nonce sn ct allow_policy_override =
     \<lparr>header = \<lparr>h_magic = MAGIC_REAL, h_version = CURRENT_VERSION, h_profile = profile,
        h_algorithm = algorithm, h_kdf = kdf, h_recipients = recipients\<rparr>,
      plaintext_len = plen, e_nonce = nonce, secondary_nonce = sn, aad_hash = replicate 32 0,
      metadata = [], e_content_type = ct, e_signature = None, public_label = None,
      approvals = [], e_release = None, policy_overridden = allow_policy_override,
      recovery_metadata = None\<rparr>"

fun join_comma :: "string list \<Rightarrow> string" where
  "join_comma [] = []"
| "join_comma [s] = s"
| "join_comma (s # t # r) = s @ '', '' @ join_comma (t # r)"

text \<open>The common end of both functions: hash, validation, policy.\<close>

definition finish_envelope ::
  "prims \<Rightarrow> postcard \<Rightarrow> capsule_policy option \<Rightarrow> bool \<Rightarrow> envelope \<Rightarrow> crypto_error + envelope" where
  "finish_envelope P S policy allow_policy_override e0 =
     rbind (compute_aad_hash P S e0) (\<lambda>h.
     let e = e0\<lparr>aad_hash := h\<rparr> in
     rbind (validate_envelope_resources e) (\<lambda>_.
       case policy of
         None \<Rightarrow> Inr e
       | Some pol \<Rightarrow>
           let result = lint_envelope e pol
           in if \<not> is_valid result \<and> \<not> allow_policy_override
              then Inl (PolicyViolationErr (join_comma (map message (violations result))))
              else Inr e))"

definition encrypt_file_password_with_content_type ::
  "prims \<Rightarrow> postcard \<Rightarrow> path \<Rightarrow> path \<Rightarrow> bytes \<Rightarrow> bytes option \<Rightarrow> security_profile \<Rightarrow>
   capsule_policy option \<Rightarrow> bool \<Rightarrow> content_type option \<Rightarrow> (world, crypto_error, unit) action" where
  "encrypt_file_password_with_content_type P S input_path output_path password seed profile
       policy allow_policy_override ct =
     act (lift (ensure (password \<noteq> []) (Validation ''Password must not be empty''))) (\<lambda>_.
     act (lift (ensure (seed \<noteq> Some []) (Validation ''Seed must not be empty''))) (\<lambda>_.
     act (act_map_err Io (metadata_of input_path)) (\<lambda>md.
     act (act_map_err Io (open_file input_path)) (\<lambda>rd.
     case profile_costs profile of (m, t, p) \<Rightarrow>
     let algorithm = profile_algorithm profile in
     act (fill_bytes 16) (\<lambda>salt.
     let kdf = Argon2id m t p salt in
     act (lift (derive_master_key P password seed kdf)) (\<lambda>master_key.
     act (lift (derive_subkey (cip P) (hkdf_new (cip P) None master_key) KeyWrap)) (\<lambda>kwk.
     act (fill_bytes 32) (\<lambda>fek.
     act (fill_bytes 24) (\<lambda>wrap_nonce.
     act (lift (wrap_key_xchacha P fek kwk wrap_nonce)) (\<lambda>encrypted_file_key.
     act (fill_bytes 24) (\<lambda>nonce_bytes.
     act (draw_secondary_nonce algorithm) (\<lambda>sn.
     act (lift (finish_envelope P S policy allow_policy_override
       (new_envelope profile algorithm (Some kdf) [RPassword wrap_nonce encrypted_file_key]
          (of_nat (snd md)) nonce_bytes sn ct allow_policy_override))) (\<lambda>e.
       write_envelope_and_payload P S output_path e algorithm (hkdf_new (cip P) None fek) rd)))))))))))))"

definition encrypt_file_password ::
  "prims \<Rightarrow> postcard \<Rightarrow> path \<Rightarrow> path \<Rightarrow> bytes \<Rightarrow> bytes option \<Rightarrow> security_profile \<Rightarrow>
   capsule_policy option \<Rightarrow> bool \<Rightarrow> (world, crypto_error, unit) action" where
  "encrypt_file_password P S input_path output_path password seed profile policy
       allow_policy_override =
     encrypt_file_password_with_content_type P S input_path output_path password seed profile
       policy allow_policy_override None"

section \<open>Encryption for key pairs\<close>

definition derive_contributory_x25519 :: "prims \<Rightarrow> bytes \<Rightarrow> bytes \<Rightarrow> crypto_error + bytes" where
  "derive_contributory_x25519 P secret public =
     (if list_all (\<lambda>b. b = 0) public
      then Inl (Validation ''Recipient X25519 public key is non-contributory'')
      else let shared = x25519_dh P secret public
        in if \<not> was_contributory P shared
           then Inl (Validation ''Recipient X25519 public key is non-contributory'')
           else Inr shared)"

definition HYBRID_WRAP :: bytes where "HYBRID_WRAP = ascii ''Lvau-Hybrid-Wrap''"

text \<open>The body of the loop over the recipients, and the loop.\<close>

definition wrap_recipient ::
  "prims \<Rightarrow> bytes \<Rightarrow> hybrid_public_key \<Rightarrow> (world, crypto_error, recipient) action" where
  "wrap_recipient P fek pubkey =
     act (fill_bytes 32) (\<lambda>ephem_priv.
     let ephem_pub = x25519_public P ephem_priv in
     act (lift (derive_contributory_x25519 P ephem_priv (pub_x25519 pubkey))) (\<lambda>x25519_ss.
     act (fill_bytes 32) (\<lambda>randomness.
     case mlkem_encapsulate P (pub_mlkem pubkey) randomness of (mlkem_ct, mlkem_ss) \<Rightarrow>
     let kw_hk = hkdf_new (cip P) None (x25519_ss @ mlkem_ss) in
     act (lift (ok_or EncryptionFailed (hkdf_expand (cip P) kw_hk HYBRID_WRAP 32))) (\<lambda>kwk.
     act (lift (wrap_key_xchacha P fek kwk (replicate 24 0))) (\<lambda>encrypted_file_key.
       ret (RX25519MlkemHybrid ephem_pub mlkem_ct encrypted_file_key))))))"

fun wrap_recipients ::
  "prims \<Rightarrow> bytes \<Rightarrow> hybrid_public_key list \<Rightarrow> (world, crypto_error, recipient list) action" where
  "wrap_recipients P fek [] = ret []"
| "wrap_recipients P fek (pubkey # rest) =
     act (wrap_recipient P fek pubkey) (\<lambda>r.
     act (wrap_recipients P fek rest) (\<lambda>rs. ret (r # rs)))"

definition encrypt_file_keypairs_with_content_type ::
  "prims \<Rightarrow> postcard \<Rightarrow> path \<Rightarrow> path \<Rightarrow> hybrid_public_key list \<Rightarrow> security_profile \<Rightarrow>
   capsule_policy option \<Rightarrow> bool \<Rightarrow> content_type option \<Rightarrow> (world, crypto_error, unit) action" where
  "encrypt_file_keypairs_with_content_type P S in_path out_path recipient_pubs profile
       policy allow_policy_override ct =
     act (act_map_err Io (metadata_of in_path)) (\<lambda>md.
     act (act_map_err Io (open_file in_path)) (\<lambda>rd.
     let algorithm = profile_algorithm profile in
     act (fill_bytes 24) (\<lambda>nonce_bytes.
     act (draw_secondary_nonce algorithm) (\<lambda>sn.
     act (fill_bytes 32) (\<lambda>fek.
     act (wrap_recipients P fek recipient_pubs) (\<lambda>rs.
     act (lift (finish_envelope P S policy allow_policy_override
       (new_envelope profile algorithm None rs (of_nat (snd md)) nonce_bytes sn ct
          allow_policy_override))) (\<lambda>e.
       write_envelope_and_payload P S out_path e algorithm (hkdf_new (cip P) None fek) rd)))))))"

definition encrypt_file_keypairs ::
  "prims \<Rightarrow> postcard \<Rightarrow> path \<Rightarrow> path \<Rightarrow> hybrid_public_key list \<Rightarrow> security_profile \<Rightarrow>
   capsule_policy option \<Rightarrow> bool \<Rightarrow> (world, crypto_error, unit) action" where
  "encrypt_file_keypairs P S in_path out_path recipient_pubs profile policy allow_policy_override =
     encrypt_file_keypairs_with_content_type P S in_path out_path recipient_pubs profile policy
       allow_policy_override None"

section \<open>Unwrapping the file key\<close>

text \<open>One iteration over the recipients: \<open>None\<close> is \<open>continue\<close>.\<close>

definition unwrap_recipient :: "prims \<Rightarrow> hybrid_private_key \<Rightarrow> recipient \<Rightarrow> bytes option" where
  "unwrap_recipient P priv_key r =
     (case r of
        RPassword _ _ \<Rightarrow> None
      | RX25519MlkemHybrid ephem_pub mlkem_ct efk \<Rightarrow>
          (case derive_contributory_x25519 P (priv_x25519 priv_key) ephem_pub of
             Inl _ \<Rightarrow> None
           | Inr x25519_ss \<Rightarrow>
               if length mlkem_ct \<noteq> MLKEM_CT_LEN then None
               else
                 let mlkem_ss = mlkem_decapsulate P (priv_mlkem priv_key) mlkem_ct;
                     kw_hk = hkdf_new (cip P) None (x25519_ss @ mlkem_ss)
                 in (case hkdf_expand (cip P) kw_hk HYBRID_WRAP 32 of
                       None \<Rightarrow> None
                     | Some kwk \<Rightarrow>
                         (case unwrap_key_xchacha P efk kwk (replicate 24 0) of
                            Inl _ \<Rightarrow> None | Inr key \<Rightarrow> Some key))))"

fun first_unwrapped :: "prims \<Rightarrow> hybrid_private_key \<Rightarrow> recipient list \<Rightarrow> crypto_error + bytes" where
  "first_unwrapped P priv_key [] = Inl DecryptionFailed"
| "first_unwrapped P priv_key (r # rs) =
     (case unwrap_recipient P priv_key r of
        None \<Rightarrow> first_unwrapped P priv_key rs
      | Some key \<Rightarrow> Inr key)"

definition unwrap_keypair_file_key ::
  "prims \<Rightarrow> envelope \<Rightarrow> hybrid_private_key \<Rightarrow> crypto_error + bytes" where
  "unwrap_keypair_file_key P e priv_key = first_unwrapped P priv_key (h_recipients (header e))"

text \<open>The same steps stand in the three functions that take a password.\<close>

definition unwrap_password_file_key ::
  "prims \<Rightarrow> envelope \<Rightarrow> bytes \<Rightarrow> bytes option \<Rightarrow> crypto_error + bytes" where
  "unwrap_password_file_key P e password seed =
     rbind (ok_or MissingKdfParams (h_kdf (header e))) (\<lambda>kdf.
     rbind (derive_master_key P password seed kdf) (\<lambda>master_key.
     rbind (ok_or DecryptionFailed
       (hkdf_expand (cip P) (hkdf_new (cip P) None master_key) (ascii ''Lvau-Key-Wrap'') 32)) (\<lambda>kwk.
     rbind (ok_or DecryptionFailed (find is_password (h_recipients (header e)))) (\<lambda>r.
       case r of
         RPassword nonce efk \<Rightarrow> unwrap_key_xchacha P efk kwk nonce
       | RX25519MlkemHybrid _ _ _ \<Rightarrow> Inl DecryptionFailed))))"

section \<open>Decryption and verification\<close>

text \<open>The payload behind an envelope, decrypted into a writer.\<close>

definition decrypt_payload_into ::
  "prims \<Rightarrow> envelope \<Rightarrow> bytes \<Rightarrow> reader \<Rightarrow> writer \<Rightarrow> crypto_error + writer" where
  "decrypt_payload_into P e hk rd wr =
     (case stream_decrypt_payload (cip P) (h_algorithm (header e)) (h_version (header e)) hk
         (e_nonce e) (secondary_nonce e) (aad_hash e) (plaintext_len e) (rd, wr) of
        (Inl err, _) \<Rightarrow> Inl err
      | (Inr _, (_, wr')) \<Rightarrow> Inr wr')"

definition write_decrypted_payload_atomic ::
  "prims \<Rightarrow> path \<Rightarrow> envelope \<Rightarrow> bytes \<Rightarrow> reader \<Rightarrow> (world, crypto_error, unit) action" where
  "write_decrypted_payload_atomic P output_path e hk rd =
     act (act_map_err Io (new_in (parent_or_dot output_path))) (\<lambda>temp_file.
     act (lift (decrypt_payload_into P e hk rd temp_file)) (\<lambda>temp_file.
     act (act_map_err Io sync_temp) (\<lambda>_.
       persist_temp_file temp_file output_path)))"

definition decrypt_file_keypair ::
  "prims \<Rightarrow> postcard \<Rightarrow> path \<Rightarrow> path \<Rightarrow> hybrid_private_key \<Rightarrow> (world, crypto_error, unit) action" where
  "decrypt_file_keypair P S in_path out_path priv_key =
     act (act_map_err Io (open_file in_path)) (\<lambda>rd.
     act (lift (read_envelope P S rd)) (\<lambda>(e, rd).
     act (lift (unwrap_keypair_file_key P e priv_key)) (\<lambda>fek.
       write_decrypted_payload_atomic P out_path e (hkdf_new (cip P) None fek) rd)))"

definition decrypt_file_password ::
  "prims \<Rightarrow> postcard \<Rightarrow> path \<Rightarrow> path \<Rightarrow> bytes \<Rightarrow> bytes option \<Rightarrow> (world, crypto_error, unit) action" where
  "decrypt_file_password P S input_path output_path password seed =
     act (act_map_err Io (open_file input_path)) (\<lambda>rd.
     act (lift (read_envelope P S rd)) (\<lambda>(e, rd).
     act (lift (unwrap_password_file_key P e password seed)) (\<lambda>fek.
       write_decrypted_payload_atomic P output_path e (hkdf_new (cip P) None fek) rd)))"

text \<open>Verification decrypts into \<open>io::sink()\<close>.\<close>

definition verify_file_keypair ::
  "prims \<Rightarrow> postcard \<Rightarrow> path \<Rightarrow> hybrid_private_key \<Rightarrow> (world, crypto_error, unit) action" where
  "verify_file_keypair P S in_path priv_key =
     act (act_map_err Io (open_file in_path)) (\<lambda>rd.
     act (lift (read_envelope P S rd)) (\<lambda>(e, rd).
     act (lift (unwrap_keypair_file_key P e priv_key)) (\<lambda>fek.
     act (lift (decrypt_payload_into P e (hkdf_new (cip P) None fek) rd (fresh_writer None))) (\<lambda>_.
       ret ()))))"

definition verify_file_password ::
  "prims \<Rightarrow> postcard \<Rightarrow> path \<Rightarrow> bytes \<Rightarrow> bytes option \<Rightarrow> (world, crypto_error, unit) action" where
  "verify_file_password P S input_path password seed =
     act (act_map_err Io (open_file input_path)) (\<lambda>rd.
     act (lift (read_envelope P S rd)) (\<lambda>(e, rd).
     act (lift (unwrap_password_file_key P e password seed)) (\<lambda>fek.
     act (lift (decrypt_payload_into P e (hkdf_new (cip P) None fek) rd (fresh_writer None))) (\<lambda>_.
       ret ()))))"

text \<open>A \<open>Cursor\<close> delivers whatever is asked for.\<close>

definition cursor :: "bytes \<Rightarrow> reader" where
  "cursor bs = \<lparr>r_data = bs, r_events = []\<rparr>"

definition decrypt_memory_password ::
  "prims \<Rightarrow> postcard \<Rightarrow> bytes \<Rightarrow> bytes \<Rightarrow> bytes option \<Rightarrow> crypto_error + bytes" where
  "decrypt_memory_password P S encoded_envelope password seed =
     rbind (read_envelope P S (cursor encoded_envelope)) (\<lambda>(e, rd).
     rbind (unwrap_password_file_key P e password seed) (\<lambda>fek.
     rbind (decrypt_payload_into P e (hkdf_new (cip P) None fek) rd (fresh_writer None)) (\<lambda>output.
       Inr (w_data output))))"

definition decrypt_memory_keypair ::
  "prims \<Rightarrow> postcard \<Rightarrow> bytes \<Rightarrow> hybrid_private_key \<Rightarrow> crypto_error + bytes" where
  "decrypt_memory_keypair P S data priv_key =
     rbind (read_envelope P S (cursor data)) (\<lambda>(e, rd).
     rbind (unwrap_keypair_file_key P e priv_key) (\<lambda>fek.
     rbind (decrypt_payload_into P e (hkdf_new (cip P) None fek) rd (fresh_writer None)) (\<lambda>output.
       Inr (w_data output))))"

end
