(* ===== verification/Capsule_Correct.thy ===== *)
theory Capsule_Correct
  imports Capsule
begin

text \<open>
  Correctness of theory Capsule: an envelope that is written is read back, what decoding
  guarantees, what the writing functions leave behind, and the round trips of encryption and
  decryption through the file system. The locale \<open>atomic_commit\<close> is the contract of the
  functions that put a finished temporary file in place.
\<close>

section \<open>Reading an envelope back\<close>

definition capsule_bytes :: "bytes \<Rightarrow> bytes \<Rightarrow> bytes" where
  "capsule_bytes encoded ct = u32_to_le_bytes (of_nat (length encoded)) @ encoded @ ct"

lemma read_exact_quiet:
  assumes "quiet rd" "n \<le> length (r_data rd)"
  obtains rd' where "read_exact n rd = (Inr (take n (r_data rd)), rd')"
    "r_data rd' = drop n (r_data rd)" "quiet rd'"
proof -
  obtain rd' where "fill n [] rd = (Inr (take n (r_data rd)), rd')" "r_data rd' = drop n (r_data rd)" "quiet rd'"
    using fill_quiet_eq [OF assms(1)] by blast
  with assms(2) that show ?thesis by (simp add: read_exact_def)
qed

lemma read_exact_Inr:
  "read_exact n rd = (Inr bs, rd') \<Longrightarrow> r_data rd = bs @ r_data rd' \<and> length bs = n"
proof -
  assume "read_exact n rd = (Inr bs, rd')"
  then have f: "fill n [] rd = (Inr bs, rd')" and l: "length bs = n"
    by (auto simp: read_exact_def split: prod.splits sum.splits if_splits)
  from fill_Inr [OF f] have "bs = take n (r_data rd)" "r_data rd' = drop n (r_data rd)" by simp_all
  with l show ?thesis by (metis append_take_drop_id)
qed

lemma encoded_length: "length encoded \<le> MAX_ENVELOPE_SIZE \<Longrightarrow>
    unat (of_nat (length encoded) :: u32) = length encoded"
  by (simp add: MAX_ENVELOPE_SIZE_def unat_of_nat take_bit_nat_eq_self)

lemma read_envelope_capsule:
  assumes rd: "quiet rd" "r_data rd = capsule_bytes encoded rest"
    and enc: "encoded \<noteq> []" "length encoded \<le> MAX_ENVELOPE_SIZE"
  obtains rd' where "read_envelope P S rd = rbind (decode_envelope_bytes P S encoded) (\<lambda>e. Inr (e, rd'))"
    "quiet rd'" "r_data rd' = rest"
proof -
  have four: "4 \<le> length (r_data rd)" by (simp add: rd(2) capsule_bytes_def)
  obtain rd1 where rd1: "read_exact 4 rd = (Inr (take 4 (r_data rd)), rd1)"
      "r_data rd1 = drop 4 (r_data rd)" "quiet rd1"
    using read_exact_quiet [OF rd(1) four] .
  have d1: "take 4 (r_data rd) = u32_to_le_bytes (of_nat (length encoded))" "r_data rd1 = encoded @ rest"
    using rd1(2) by (simp_all add: rd(2) capsule_bytes_def)
  have "length encoded \<le> length (r_data rd1)" by (simp add: d1(2))
  from read_exact_quiet [OF rd1(3) this] obtain rd2 where rd2:
      "read_exact (length encoded) rd1 = (Inr encoded, rd2)" "r_data rd2 = rest" "quiet rd2"
    by (auto simp: d1(2))
  have "read_envelope P S rd = rbind (decode_envelope_bytes P S encoded) (\<lambda>e. Inr (e, rd2))"
    using enc by (simp add: read_envelope_def rd1(1) d1(1) rd2(1) encoded_length)
  with rd2 that show ?thesis by blast
qed

text \<open>Conversely, an envelope that is read consists of a length and that many bytes.\<close>

lemma read_envelope_Inr:
  assumes "read_envelope P S rd = Inr (e, rd')"
  obtains encoded where "r_data rd = capsule_bytes encoded (r_data rd')" "encoded \<noteq> []"
    "length encoded \<le> MAX_ENVELOPE_SIZE" "decode_envelope_bytes P S encoded = Inr e"
proof -
  obtain r rd1 where r1: "read_exact 4 rd = (r, rd1)" by fastforce
  with assms obtain buf where buf: "r = Inr buf" by (cases r) (auto simp: read_envelope_def)
  let ?n = "unat (u32_from_le_bytes buf)"
  have n: "0 < ?n" "?n \<le> MAX_ENVELOPE_SIZE"
    using assms r1 buf by (auto simp: read_envelope_def Let_def split: if_splits)
  obtain q rd2 where r2: "read_exact ?n rd1 = (q, rd2)" by fastforce
  with assms r1 buf n obtain encoded where encoded: "q = Inr encoded"
    by (cases q) (auto simp: read_envelope_def Let_def)
  have fin: "decode_envelope_bytes P S encoded = Inr e" "rd2 = rd'"
    using assms r1 buf n r2 encoded by (auto simp: read_envelope_def Let_def res_elims)
  from read_exact_Inr [OF r1 [unfolded buf]] read_exact_Inr [OF r2 [unfolded encoded]]
  have d: "r_data rd = buf @ encoded @ r_data rd'" "length buf = 4" "length encoded = ?n"
    using fin(2) by auto
  have "u32_to_le_bytes (of_nat (length encoded)) = buf"
    using d(2,3) u32_to_from_le_bytes by simp
  moreover have "encoded \<noteq> []" using d(3) n(1) by auto
  ultimately show ?thesis using d n fin that by (auto simp: capsule_bytes_def)
qed

section \<open>What decoding guarantees\<close>

lemma decode_envelope_Inr:
  "decode_envelope_bytes P S bs = Inr e \<Longrightarrow>
     validate e = Inr () \<and> validate_envelope_resources e = Inr () \<and> verify_aad_hash P S e = Inr ()"
  by (auto simp: decode_envelope_bytes_def res_elims)

lemma decode_encoded:
  assumes "postcard_ok S" "pc_envelope S e = Some bs"
    and "validate e = Inr ()" "validate_envelope_resources e = Inr ()" "verify_aad_hash P S e = Inr ()"
  shows "decode_envelope_bytes P S bs = Inr e"
proof -
  have "pc_take_envelope S (bs @ []) = Some (e, [])"
    using assms(1,2) unfolding postcard_ok_def by blast
  with assms(3-) show ?thesis by (simp add: decode_envelope_bytes_def decode_postcard_exact_def)
qed

lemma count_password: "length (filter is_password rs) \<le> length rs"
  by simp

lemma validate_resources_Inr:
  assumes "validate_envelope_resources e = Inr ()"
  shows "0 < length (h_recipients (header e)) \<and> length (h_recipients (header e)) \<le> 64 \<and>
    payload_algorithm (h_algorithm (header e)) \<and>
    (\<forall>r \<in> set (h_recipients (header e)). length (encrypted_file_key r) = 48) \<and>
    ((\<forall>r \<in> set (h_recipients (header e)). is_password r) \<and>
       (\<exists>k. h_kdf (header e) = Some k \<and>
          (m_cost k, t_cost k, p_cost k) = expected_argon2_costs (h_profile (header e))) \<or>
     (\<forall>r \<in> set (h_recipients (header e)). \<not> is_password r) \<and> h_kdf (header e) = None) \<and>
    (needs_secondary_nonce (h_algorithm (header e)) \<longleftrightarrow> secondary_nonce e \<noteq> None)"
proof -
  let ?rs = "h_recipients (header e)"
  let ?p = "length (filter is_password ?rs)"
  note v = assms [unfolded validate_envelope_resources_def Let_def MAX_RECIPIENTS_def]
  have basic: "?rs \<noteq> []" "length ?rs \<le> 64" "\<not> (?p \<noteq> 0 \<and> length ?rs - ?p \<noteq> 0)"
      "\<not> list_ex (\<lambda>r. length (encrypted_file_key r) \<noteq> 48) ?rs"
    using v by (auto split: if_splits)
  have alg: "payload_algorithm (h_algorithm (header e))"
    using v by (cases "h_algorithm (header e)") (auto simp: payload_algorithm_def split: if_splits)
  have nonce: "needs_secondary_nonce (h_algorithm (header e)) \<longleftrightarrow> secondary_nonce e \<noteq> None"
    using v by (auto simp: res_elims split: if_splits)
  have kdf: "if 0 < ?p
      then (\<exists>k. h_kdf (header e) = Some k \<and>
          (m_cost k, t_cost k, p_cost k) = expected_argon2_costs (h_profile (header e)))
      else h_kdf (header e) = None"
    using v by (auto simp: res_elims split: if_splits option.splits kdf_params.splits)
  have kinds: "(\<forall>r \<in> set ?rs. is_password r) \<and> 0 < ?p \<or> (\<forall>r \<in> set ?rs. \<not> is_password r) \<and> ?p = 0"
  proof (cases "?p = 0")
    case True
    then show ?thesis by (auto simp: filter_empty_conv)
  next
    case False
    then have "?p = length ?rs" using basic(3) count_password [of ?rs] by linarith
    then have "\<forall>r \<in> set ?rs. is_password r" by (metis length_filter_less less_irrefl)
    with False show ?thesis by simp
  qed
  have wrapped: "\<forall>r \<in> set ?rs. length (encrypted_file_key r) = 48"
    using basic(4) by (auto simp: list_ex_iff)
  show ?thesis
  proof (cases "0 < ?p")
    case True
    with kdf kinds have "\<forall>r \<in> set ?rs. is_password r" "\<exists>k. h_kdf (header e) = Some k \<and>
          (m_cost k, t_cost k, p_cost k) = expected_argon2_costs (h_profile (header e))" by auto
    with basic(1,2) alg nonce wrapped show ?thesis by blast
  next
    case False
    with kdf kinds have "\<forall>r \<in> set ?rs. \<not> is_password r" "h_kdf (header e) = None" by auto
    with basic(1,2) alg nonce wrapped show ?thesis by blast
  qed
qed

section \<open>Committing a temporary file\<close>

text \<open>
  The contract of the functions that commit a finished file: on success exactly the output
  holds the new contents; on an error either nothing changed or the output is complete (the
  error came after the rename).
\<close>

locale atomic_commit =
  fixes commit :: "writer \<Rightarrow> path \<Rightarrow> (world, 'e, unit) action"
  assumes commit_Inr: "commit tmp p w = (Inr u, w') \<Longrightarrow>
      w' = put_file w p (w_data tmp) \<and> p \<noteq> Path False [] \<and> w_fs w (resolve w p) \<noteq> Some Directory"
    and commit_Inl: "commit tmp p w = (Inl err, w') \<Longrightarrow> w' = w \<or> w' = put_file w p (w_data tmp)"
begin

lemma commit_others:
  "commit tmp p w = (r, w') \<Longrightarrow> k \<noteq> resolve w p \<Longrightarrow> w_fs w' k = w_fs w k"
  by (cases r) (auto dest: commit_Inr commit_Inl simp: w_fs_put_file)

lemma commit_never_partial:
  "commit tmp p w = (r, w') \<Longrightarrow>
     w_fs w' (resolve w p) \<in> {w_fs w (resolve w p), Some (Regular (w_data tmp))}"
  by (cases r) (auto dest: commit_Inr commit_Inl simp: w_fs_put_file)

lemma commit_visible:
  "commit tmp p w = (Inr u, w') \<Longrightarrow> lookup w' p = Some (Regular (w_data tmp))"
  using commit_Inr by (metis lookup_put_file)

end

lemma persist_Inr:
  "persist tmp p w = (Inr u, w') \<longleftrightarrow>
     comps p \<noteq> [] \<and> w_fs w (resolve w p) \<noteq> Some Directory \<and> w' = put_file w p (w_data tmp)"
  by (auto simp: persist_def)

lemma persist_Inl: "persist tmp p w = (Inl e, w') \<Longrightarrow> w' = w"
  by (auto simp: persist_def split: if_splits)

lemma persist_temp_file_cases:
  "persist_temp_file tmp p w =
     (case persist tmp p w of
        (Inl e, w') \<Rightarrow> (Inl (Io e), w')
      | (Inr _, w') \<Rightarrow> (case parent p of None \<Rightarrow> (Inr (), w')
          | Some q \<Rightarrow> (map_err Io (fst (sync_path q w')), w')))"
  using pure_ops(3)
  by (auto simp: persist_temp_file_def act_def act_map_err_def split: prod.splits sum.splits option.splits)
    (metis snd_conv)+

interpretation pt: atomic_commit persist_temp_file
proof unfold_locales
  fix tmp p w w' and u :: unit
  assume "persist_temp_file tmp p w = (Inr u, w')"
  then show "w' = put_file w p (w_data tmp) \<and> p \<noteq> Path False [] \<and> w_fs w (resolve w p) \<noteq> Some Directory"
    by (auto simp: persist_temp_file_cases persist_def split: if_splits option.splits)
next
  fix tmp p w w' e
  assume "persist_temp_file tmp p w = (Inl e, w')"
  then show "w' = w \<or> w' = put_file w p (w_data tmp)"
    by (auto simp: persist_temp_file_cases persist_def split: if_splits option.splits)
qed

section \<open>What the writer functions leave behind\<close>

definition seal_for :: "prims \<Rightarrow> envelope \<Rightarrow> bytes \<Rightarrow> bytes \<Rightarrow> crypto_error + bytes" where
  "seal_for P e hk xs = seal_payload (cip P) (h_algorithm (header e)) (h_version (header e)) hk
     (e_nonce e) (secondary_nonce e) (aad_hash e) xs"

lemma write_capsule_Inr:
  assumes "write_capsule P e (h_algorithm (header e)) hk encoded rd (fresh_writer room) = Inr tmp"
  obtains ct where "seal_for P e hk (r_data rd) = Inr ct" "w_data tmp = capsule_bytes encoded ct"
proof -
  obtain r wr1 where w1: "write_chunks [u32_to_le_bytes (of_nat (length encoded)), encoded] (fresh_writer room)
      = (r, wr1)" by fastforce
  obtain q rd2 wr2 where st: "stream_encrypt_payload (cip P) (h_algorithm (header e)) (h_version (header e)) hk
      (e_nonce e) (secondary_nonce e) (aad_hash e) (rd, wr1) = (q, (rd2, wr2))"
    by (metis prod.collapse)
  have r: "r = Inr ()" and q: "\<exists>n. q = Inr n" and tmp: "tmp = wr2"
    using assms w1 st by (auto simp: write_capsule_def split: sum.splits)
  then obtain n where n: "q = Inr n" by blast
  from stream_encrypt_sound [OF st [unfolded n]] write_chunks_Inr [OF w1 [unfolded r]] tmp that
  show ?thesis by (auto simp: seal_for_def capsule_bytes_def)
qed

lemma new_in_Inr: "new_in dir w = (Inr tmp, w') \<Longrightarrow> w' = w \<and> tmp = fresh_writer (w_disk w) \<and>
    w_fs w (resolve w dir) = Some Directory"
  by (auto simp: new_in_def split: if_splits)

lemma sync_temp_Inr: "sync_temp w = (Inr u, w') \<longleftrightarrow> w' = w \<and> w_sync w"
  by (auto simp: sync_temp_def)

lemma write_envelope_and_payload_Inr:
  assumes "write_envelope_and_payload P S out e (h_algorithm (header e)) hk rd w = (Inr (), w')"
  obtains encoded ct where "pc_envelope S e = Some encoded" "encoded \<noteq> []"
    "length encoded \<le> MAX_ENVELOPE_SIZE" "seal_for P e hk (r_data rd) = Inr ct"
    "w' = put_file w out (capsule_bytes encoded ct)" "out \<noteq> Path False []"
proof -
  from assms obtain encoded tmp0 w0 tmp w1 w2 where *:
      "pc_envelope S e = Some encoded" "encoded \<noteq> []" "length encoded \<le> MAX_ENVELOPE_SIZE"
      "new_in (parent_or_dot out) w = (Inr tmp0, w1)"
      "write_capsule P e (h_algorithm (header e)) hk encoded rd tmp0 = Inr tmp"
      "sync_temp w1 = (Inr (), w2)" "persist_temp_file tmp out w2 = (Inr (), w')"
    unfolding write_envelope_and_payload_def by (auto simp: res_elims)
  have w: "w1 = w" "w2 = w" "tmp0 = fresh_writer (w_disk w)"
    using new_in_Inr [OF *(4)] *(6) by (auto simp: sync_temp_Inr)
  obtain ct where "seal_for P e hk (r_data rd) = Inr ct" "w_data tmp = capsule_bytes encoded ct"
    using write_capsule_Inr *(5) w(3) by blast
  with * w pt.commit_Inr [OF *(7)] that show ?thesis by simp
qed

section \<open>What the encryption functions produce\<close>

lemma compute_aad_hash_ignores_hash [simp]:
  "compute_aad_hash P S (e\<lparr>aad_hash := h\<rparr>) = compute_aad_hash P S e"
  by (simp add: compute_aad_hash_def payload_aad_of_def)

lemma finish_envelope_Inr:
  assumes "finish_envelope P S pol override e0 = Inr e"
  shows "\<exists>h. e = e0\<lparr>aad_hash := h\<rparr> \<and> verify_aad_hash P S e = Inr () \<and>
    validate_envelope_resources e = Inr () \<and>
    (\<forall>p. pol = Some p \<longrightarrow> \<not> override \<longrightarrow> is_valid (lint_envelope e p))"
  using assms
  by (auto simp: finish_envelope_def res_elims Let_def verify_aad_hash_def ensure_def
      split: option.splits if_splits)

lemma validate_new_envelope [simp]:
  "validate (new_envelope profile alg kdf rs n nonce sn ct override\<lparr>aad_hash := h\<rparr>) = Inr ()"
  by (simp add: validate_Inr new_envelope_def)

text \<open>Only the position of the random generator differs.\<close>

definition same_but_rng :: "world \<Rightarrow> world \<Rightarrow> bool" where
  "same_but_rng w w' \<longleftrightarrow> w' = w\<lparr>w_rng_pos := w_rng_pos w'\<rparr>"

lemma same_but_rng_refl [simp]: "same_but_rng w w"
  by (simp add: same_but_rng_def)

lemma same_but_rng_trans: "same_but_rng u v \<Longrightarrow> same_but_rng v w \<Longrightarrow> same_but_rng u w"
  by (cases u; cases v; cases w) (auto simp: same_but_rng_def)

lemma same_but_rngD:
  assumes "same_but_rng w w'"
  shows "w_fs w' = w_fs w" "w_cwd w' = w_cwd w" "w_script w' = w_script w" "w_disk w' = w_disk w"
    "w_sync w' = w_sync w" "resolve w' p = resolve w p" "lookup w' p = lookup w p"
proof -
  from assms obtain n where "w' = w\<lparr>w_rng_pos := n\<rparr>" unfolding same_but_rng_def by blast
  then show "w_fs w' = w_fs w" "w_cwd w' = w_cwd w" "w_script w' = w_script w" "w_disk w' = w_disk w"
    "w_sync w' = w_sync w" "resolve w' p = resolve w p" "lookup w' p = lookup w p"
    by (simp_all add: resolve_def lookup_def)
qed

lemma fill_bytes_Inr:
  "fill_bytes n w = (Inr bs, w') \<Longrightarrow> length bs = n \<and> same_but_rng w w'"
  by (auto simp: fill_bytes_def same_but_rng_def)

lemma draw_secondary_nonce_Inr:
  "draw_secondary_nonce alg w = (Inr sn, w') \<Longrightarrow>
     same_but_rng w w' \<and> (sn \<noteq> None \<longleftrightarrow> needs_secondary_nonce alg)"
  by (auto simp: draw_secondary_nonce_def needs_secondary_nonce_def res_elims split: if_splits
      dest: fill_bytes_Inr)

lemma metadata_of_Inr:
  "metadata_of p w = (Inr m, w') \<Longrightarrow> w' = w \<and> (\<forall>bs. lookup w p = Some (Regular bs) \<longrightarrow> m = (True, length bs))"
  by (auto simp: metadata_of_def split: option.splits node.splits)

text \<open>
  A capsule for the payload \<open>bs\<close> with file key \<open>fek\<close>: what both encryption functions write.
\<close>

definition capsule_of :: "prims \<Rightarrow> postcard \<Rightarrow> envelope \<Rightarrow> bytes \<Rightarrow> bytes \<Rightarrow> bytes \<Rightarrow> bool" where
  "capsule_of P S e fek bs capsule \<longleftrightarrow>
     (\<exists>encoded ct. pc_envelope S e = Some encoded \<and> encoded \<noteq> [] \<and>
        length encoded \<le> MAX_ENVELOPE_SIZE \<and>
        validate e = Inr () \<and> validate_envelope_resources e = Inr () \<and> verify_aad_hash P S e = Inr () \<and>
        seal_for P e (hkdf_new (cip P) None fek) bs = Inr ct \<and> capsule = capsule_bytes encoded ct)"

text \<open>An envelope as encryption leaves it: whatever is attached to a capsule comes later.\<close>

definition unannotated :: "envelope \<Rightarrow> bool" where
  "unannotated e \<longleftrightarrow> h_version (header e) = CURRENT_VERSION \<and> e_signature e = None \<and> approvals e = [] \<and> e_release e = None \<and>
     recovery_metadata e = None \<and> public_label e = None"

lemma encrypt_file_password_Inr:
  assumes run: "encrypt_file_password_with_content_type P S inp out pw seed profile pol override ct w
      = (Inr (), w')"
    and C: "ciphers_ok (cip P)" and inp: "lookup w inp = Some (Regular bs)"
  obtains e fek capsule w0 where "same_but_rng w w0" "w' = put_file w0 out capsule"
    "out \<noteq> Path False []" "capsule_of P S e fek bs capsule"
    "unwrap_password_file_key P e pw seed = Inr fek" "plaintext_len e = of_nat (length bs)"
    "e_content_type e = ct" "policy_overridden e = override" "h_version (header e) = CURRENT_VERSION"
    "\<forall>p. pol = Some p \<longrightarrow> \<not> override \<longrightarrow> is_valid (lint_envelope e p)" "unannotated e"
proof -
  obtain m t p where costs: "profile_costs profile = (m, t, p)" by (cases "profile_costs profile")
  let ?alg = "profile_algorithm profile"
  from run [unfolded encrypt_file_password_with_content_type_def costs prod.case Let_def]
  obtain md w1 rd w2 salt w3 mk kwk fek w4 wn w5 efk nonce w6 sn w7 e where *:
    "metadata_of inp w = (Inr md, w1)" "open_file inp w1 = (Inr rd, w2)"
    "fill_bytes 16 w2 = (Inr salt, w3)"
    "derive_master_key P pw seed (Argon2id m t p salt) = Inr mk"
    "derive_subkey (cip P) (hkdf_new (cip P) None mk) KeyWrap = Inr kwk"
    "fill_bytes 32 w3 = (Inr fek, w4)" "fill_bytes 24 w4 = (Inr wn, w5)"
    "wrap_key_xchacha P fek kwk wn = Inr efk" "fill_bytes 24 w5 = (Inr nonce, w6)"
    "draw_secondary_nonce ?alg w6 = (Inr sn, w7)"
    "finish_envelope P S pol override (new_envelope profile ?alg (Some (Argon2id m t p salt))
       [RPassword wn efk] (of_nat (snd md)) nonce sn ct override) = Inr e"
    "write_envelope_and_payload P S out e ?alg (hkdf_new (cip P) None fek) rd w7 = (Inr (), w')"
    by (elim act_steps) (rule that, assumption+)
  have w1: "w1 = w" "snd md = length bs" using metadata_of_Inr [OF *(1)] inp by auto
  have rd: "r_data rd = bs" "w2 = w" using open_file_Inr [OF *(2)] inp w1 by auto
  have w07: "same_but_rng w w7"
    using fill_bytes_Inr [OF *(3)] fill_bytes_Inr [OF *(6)] fill_bytes_Inr [OF *(7)]
      fill_bytes_Inr [OF *(9)] draw_secondary_nonce_Inr [OF *(10)] rd(2)
    by (metis same_but_rng_trans)
  obtain h where e: "e = new_envelope profile ?alg (Some (Argon2id m t p salt))
       [RPassword wn efk] (of_nat (snd md)) nonce sn ct override\<lparr>aad_hash := h\<rparr>"
    and ok: "verify_aad_hash P S e = Inr ()" "validate_envelope_resources e = Inr ()"
      "\<forall>p. pol = Some p \<longrightarrow> \<not> override \<longrightarrow> is_valid (lint_envelope e p)"
    using finish_envelope_Inr [OF *(11)] by blast
  have alg: "h_algorithm (header e) = ?alg" by (simp add: e new_envelope_def)
  obtain encoded c where wr: "pc_envelope S e = Some encoded" "encoded \<noteq> []"
      "length encoded \<le> MAX_ENVELOPE_SIZE" "seal_for P e (hkdf_new (cip P) None fek) (r_data rd) = Inr c"
      "w' = put_file w7 out (capsule_bytes encoded c)" "out \<noteq> Path False []"
    using write_envelope_and_payload_Inr *(12) alg by metis
  have val: "validate e = Inr ()" by (simp add: e)
  have "xchacha_decrypt (cip P) kwk wn [] efk = Some fek"
    using *(8) ciphers_okD(1) [OF C] by (simp add: wrap_key_xchacha_def res_elims)
  then have "unwrap_password_file_key P e pw seed = Inr fek"
    using *(4,5)
    by (simp add: unwrap_password_file_key_def e new_envelope_def is_password_def derive_subkey_def
        unwrap_key_xchacha_def res_elims)
  moreover have "capsule_of P S e fek bs (capsule_bytes encoded c)"
    using wr val ok rd unfolding capsule_of_def by blast
  ultimately show ?thesis
    using that [OF w07 wr(5,6)] w1(2) ok(3) by (simp add: e new_envelope_def unannotated_def)
qed

lemma contributory_eq:
  assumes "dh_laws P" "derive_contributory_x25519 P a (x25519_public P b) = Inr ss"
  shows "derive_contributory_x25519 P b (x25519_public P a) = Inr ss"
proof -
  from assms(2) have s: "ss = x25519_dh P a (x25519_public P b)" "was_contributory P ss"
    by (auto simp: derive_contributory_x25519_def Let_def split: if_splits)
  with assms(1) have sym: "ss = x25519_dh P b (x25519_public P a)" unfolding dh_laws_def by metis
  with s(2) assms(1) have "\<not> list_all (\<lambda>x. x = 0) (x25519_public P a)" unfolding dh_laws_def by blast
  with s(2) sym show ?thesis by (simp add: derive_contributory_x25519_def)
qed

lemma wrap_recipient_Inr:
  assumes run: "wrap_recipient P fek pk w = (Inr r, w')"
  shows "same_but_rng w w'"
    and "ciphers_ok (cip P) \<Longrightarrow> dh_laws P \<Longrightarrow> key_pair P sk pk \<Longrightarrow> unwrap_recipient P sk r = Some fek"
proof -
  from run [unfolded wrap_recipient_def Let_def]
  obtain eph w1 ss rnd w2 where *: "fill_bytes 32 w = (Inr eph, w1)"
      "derive_contributory_x25519 P eph (pub_x25519 pk) = Inr ss" "fill_bytes 32 w1 = (Inr rnd, w2)"
      "(case mlkem_encapsulate P (pub_mlkem pk) rnd of (ct, ks) \<Rightarrow>
         act (lift (ok_or EncryptionFailed (hkdf_expand (cip P) (hkdf_new (cip P) None (ss @ ks)) HYBRID_WRAP 32)))
           (\<lambda>kwk. act (lift (wrap_key_xchacha P fek kwk (replicate 24 0)))
              (\<lambda>efk. ret (RX25519MlkemHybrid (x25519_public P eph) ct efk)))) w2 = (Inr r, w')"
    by (elim act_steps) (rule that, assumption+)
  obtain ct ks where enc: "mlkem_encapsulate P (pub_mlkem pk) rnd = (ct, ks)" by fastforce
  from *(4) enc obtain kwk efk where k: "hkdf_expand (cip P) (hkdf_new (cip P) None (ss @ ks)) HYBRID_WRAP 32 = Some kwk"
      "wrap_key_xchacha P fek kwk (replicate 24 0) = Inr efk"
      "r = RX25519MlkemHybrid (x25519_public P eph) ct efk" "w' = w2"
    by (auto simp: res_elims)
  show "same_but_rng w w'"
    using fill_bytes_Inr [OF *(1)] fill_bytes_Inr [OF *(3)] k(4) by (metis same_but_rng_trans)
  assume C: "ciphers_ok (cip P)" and dh: "dh_laws P" and kp: "key_pair P sk pk"
  have "derive_contributory_x25519 P (priv_x25519 sk) (x25519_public P eph) = Inr ss"
    using contributory_eq [OF dh] *(2) kp unfolding key_pair_def by metis
  moreover have "length ct = MLKEM_CT_LEN" "mlkem_decapsulate P (priv_mlkem sk) ct = ks"
    using kp enc unfolding key_pair_def by blast+
  moreover have "unwrap_key_xchacha P efk kwk (replicate 24 0) = Inr fek"
    using k(2) ciphers_okD(1) [OF C] by (simp add: wrap_key_xchacha_def unwrap_key_xchacha_def res_elims)
  ultimately show "unwrap_recipient P sk r = Some fek"
    by (simp add: unwrap_recipient_def k(1,3))
qed

lemma wrap_recipients_Inr:
  "wrap_recipients P fek pks w = (Inr rs, w') \<Longrightarrow>
     same_but_rng w w' \<and> length rs = length pks \<and>
     (\<forall>i sk. i < length pks \<longrightarrow> ciphers_ok (cip P) \<longrightarrow> dh_laws P \<longrightarrow> key_pair P sk (pks ! i) \<longrightarrow>
        unwrap_recipient P sk (rs ! i) = Some fek)"
proof (induction pks arbitrary: w rs)
  case Nil
  then show ?case by simp
next
  case (Cons pk pks)
  then obtain r w1 rs' where *: "wrap_recipient P fek pk w = (Inr r, w1)"
      "wrap_recipients P fek pks w1 = (Inr rs', w')" "rs = r # rs'"
    by (auto simp: res_elims)
  from Cons.IH [OF *(2)] wrap_recipient_Inr [OF *(1)] same_but_rng_trans *(3) show ?case
    by (auto simp: nth_Cons split: nat.split)
qed

lemma first_unwrapped_nth:
  "i < length rs \<Longrightarrow> unwrap_recipient P sk (rs ! i) = Some k \<Longrightarrow>
     (\<And>r. r \<in> set (take i rs) \<Longrightarrow> unwrap_recipient P sk r = None) \<Longrightarrow> first_unwrapped P sk rs = Inr k"
proof (induction rs arbitrary: i)
  case Nil
  then show ?case by simp
next
  case (Cons r rs)
  show ?case
  proof (cases i)
    case 0
    with Cons.prems show ?thesis by simp
  next
    case (Suc j)
    with Cons.prems(3) have "unwrap_recipient P sk r = None" by simp
    moreover have "first_unwrapped P sk rs = Inr k"
      using Cons.IH [of j] Cons.prems Suc by simp
    ultimately show ?thesis by simp
  qed
qed

lemma encrypt_file_keypairs_Inr:
  assumes run: "encrypt_file_keypairs_with_content_type P S inp out pks profile pol override ct w = (Inr (), w')"
    and inp: "lookup w inp = Some (Regular bs)"
  obtains e fek capsule w0 where "same_but_rng w w0" "w' = put_file w0 out capsule"
    "out \<noteq> Path False []" "capsule_of P S e fek bs capsule"
    "length (h_recipients (header e)) = length pks"
    "\<And>i sk. i < length pks \<Longrightarrow> ciphers_ok (cip P) \<Longrightarrow> dh_laws P \<Longrightarrow> key_pair P sk (pks ! i) \<Longrightarrow>
       unwrap_recipient P sk (h_recipients (header e) ! i) = Some fek"
    "plaintext_len e = of_nat (length bs)" "e_content_type e = ct" "h_kdf (header e) = None"
    "\<forall>p. pol = Some p \<longrightarrow> \<not> override \<longrightarrow> is_valid (lint_envelope e p)" "unannotated e" "policy_overridden e = override"
proof -
  let ?alg = "profile_algorithm profile"
  from run [unfolded encrypt_file_keypairs_with_content_type_def Let_def]
  obtain md w1 rd w2 nonce w3 sn w4 fek w5 rs w6 e where *:
    "metadata_of inp w = (Inr md, w1)" "open_file inp w1 = (Inr rd, w2)"
    "fill_bytes 24 w2 = (Inr nonce, w3)" "draw_secondary_nonce ?alg w3 = (Inr sn, w4)"
    "fill_bytes 32 w4 = (Inr fek, w5)" "wrap_recipients P fek pks w5 = (Inr rs, w6)"
    "finish_envelope P S pol override (new_envelope profile ?alg None rs (of_nat (snd md)) nonce sn
       ct override) = Inr e"
    "write_envelope_and_payload P S out e ?alg (hkdf_new (cip P) None fek) rd w6 = (Inr (), w')"
    by (elim act_steps) (rule that, assumption+)
  have w1: "w1 = w" "snd md = length bs" using metadata_of_Inr [OF *(1)] inp by auto
  have rd: "r_data rd = bs" "w2 = w" using open_file_Inr [OF *(2)] inp w1 by auto
  note wrs = wrap_recipients_Inr [OF *(6)]
  have w06: "same_but_rng w w6"
    using fill_bytes_Inr [OF *(3)] draw_secondary_nonce_Inr [OF *(4)] fill_bytes_Inr [OF *(5)] wrs rd(2)
    by (metis same_but_rng_trans)
  obtain h where e: "e = new_envelope profile ?alg None rs (of_nat (snd md)) nonce sn ct override\<lparr>aad_hash := h\<rparr>"
    and ok: "verify_aad_hash P S e = Inr ()" "validate_envelope_resources e = Inr ()"
      "\<forall>p. pol = Some p \<longrightarrow> \<not> override \<longrightarrow> is_valid (lint_envelope e p)"
    using finish_envelope_Inr [OF *(7)] by blast
  have alg: "h_algorithm (header e) = ?alg" and rs: "h_recipients (header e) = rs"
    by (simp_all add: e new_envelope_def)
  obtain encoded c where wr: "pc_envelope S e = Some encoded" "encoded \<noteq> []"
      "length encoded \<le> MAX_ENVELOPE_SIZE" "seal_for P e (hkdf_new (cip P) None fek) (r_data rd) = Inr c"
      "w' = put_file w6 out (capsule_bytes encoded c)" "out \<noteq> Path False []"
    using write_envelope_and_payload_Inr *(8) alg by metis
  have "validate e = Inr ()" by (simp add: e)
  then have "capsule_of P S e fek bs (capsule_bytes encoded c)"
    using wr ok rd unfolding capsule_of_def by blast
  with that [OF w06 wr(5,6)] wrs rs w1(2) ok(3) show ?thesis
    by (simp add: e new_envelope_def unannotated_def)
qed

section \<open>Opening a capsule\<close>

text \<open>The functions for a password and for a key pair differ in how they get the file key.\<close>

definition decrypt_file_with ::
  "prims \<Rightarrow> postcard \<Rightarrow> (envelope \<Rightarrow> crypto_error + bytes) \<Rightarrow> path \<Rightarrow> path \<Rightarrow>
   (world, crypto_error, unit) action" where
  "decrypt_file_with P S unlock in_path out_path =
     act (act_map_err Io (open_file in_path)) (\<lambda>rd.
     act (lift (read_envelope P S rd)) (\<lambda>(e, rd).
     act (lift (unlock e)) (\<lambda>fek.
       write_decrypted_payload_atomic P out_path e (hkdf_new (cip P) None fek) rd)))"

definition decrypt_memory_with ::
  "prims \<Rightarrow> postcard \<Rightarrow> (envelope \<Rightarrow> crypto_error + bytes) \<Rightarrow> reader \<Rightarrow> crypto_error + bytes" where
  "decrypt_memory_with P S unlock rd =
     rbind (read_envelope P S rd) (\<lambda>(e, rd).
     rbind (unlock e) (\<lambda>fek.
     rbind (decrypt_payload_into P e (hkdf_new (cip P) None fek) rd (fresh_writer None)) (\<lambda>output.
       Inr (w_data output))))"

lemma decrypt_with:
  "decrypt_file_password P S inp out pw seed =
     decrypt_file_with P S (\<lambda>e. unwrap_password_file_key P e pw seed) inp out"
  "decrypt_file_keypair P S inp out sk =
     decrypt_file_with P S (\<lambda>e. unwrap_keypair_file_key P e sk) inp out"
  "decrypt_memory_password P S bs pw seed =
     decrypt_memory_with P S (\<lambda>e. unwrap_password_file_key P e pw seed) (cursor bs)"
  "decrypt_memory_keypair P S bs sk =
     decrypt_memory_with P S (\<lambda>e. unwrap_keypair_file_key P e sk) (cursor bs)"
  by (simp_all add: decrypt_file_password_def decrypt_file_keypair_def decrypt_file_with_def
      decrypt_memory_password_def decrypt_memory_keypair_def decrypt_memory_with_def)

lemma decrypt_payload_accepts:
  assumes C: "ciphers_ok (cip P)" and env: "quiet rd" "w_room wr = None"
    and seal: "seal_for P e hk bs = Inr (r_data rd)" "plaintext_len e = of_nat (length bs)"
      "length bs < 2 ^ 64"
  shows "\<exists>wr'. decrypt_payload_into P e hk rd wr = Inr wr' \<and> w_data wr' = w_data wr @ bs"
proof -
  have "is_ok (derive_payload_keys (cip P) hk (h_algorithm (header e)))"
    using seal(1) by (auto simp: seal_for_def seal_payload_Inr)
  from decrypt_accepts [OF C this env, of "h_version (header e)" "e_nonce e" "secondary_nonce e"
      "aad_hash e" "plaintext_len e" bs] seal
  show ?thesis
    by (auto simp: decrypt_payload_into_def seal_for_def unat_of_nat take_bit_nat_eq_self)
qed

lemma open_capsule:
  assumes cap: "capsule_of P S e fek bs capsule" and S: "postcard_ok S"
    and rd: "quiet rd" "r_data rd = capsule"
  obtains rd' where "read_envelope P S rd = Inr (e, rd')" "quiet rd'"
    "seal_for P e (hkdf_new (cip P) None fek) bs = Inr (r_data rd')"
proof -
  from cap obtain encoded ct where *: "pc_envelope S e = Some encoded" "encoded \<noteq> []"
      "length encoded \<le> MAX_ENVELOPE_SIZE" "validate e = Inr ()" "validate_envelope_resources e = Inr ()"
      "verify_aad_hash P S e = Inr ()" "seal_for P e (hkdf_new (cip P) None fek) bs = Inr ct"
      "capsule = capsule_bytes encoded ct"
    unfolding capsule_of_def by blast
  obtain rd' where "read_envelope P S rd = rbind (decode_envelope_bytes P S encoded) (\<lambda>e. Inr (e, rd'))"
      "quiet rd'" "r_data rd' = ct"
    using read_envelope_capsule [OF rd(1) rd(2) [unfolded *(8)] *(2,3)] .
  with decode_encoded [OF S *(1,4,5,6)] *(7) that show ?thesis by simp
qed

lemma decrypt_memory_capsule:
  assumes "capsule_of P S e fek bs capsule" "postcard_ok S" "ciphers_ok (cip P)"
    and "quiet rd" "r_data rd = capsule" "unlock e = Inr fek"
    and "plaintext_len e = of_nat (length bs)" "length bs < 2 ^ 64"
  shows "decrypt_memory_with P S unlock rd = Inr bs"
proof -
  obtain rd' where rd': "read_envelope P S rd = Inr (e, rd')" "quiet rd'"
      "seal_for P e (hkdf_new (cip P) None fek) bs = Inr (r_data rd')"
    using open_capsule assms(1,2,4,5) by blast
  have "w_room (fresh_writer None) = None" by simp
  from decrypt_payload_accepts [OF assms(3) rd'(2) this rd'(3) assms(7,8)] rd'(1) assms(6)
  show ?thesis by (auto simp: decrypt_memory_with_def)
qed

text \<open>
  An environment in which a file can be written: space, a directory, a name that is free or
  names a file, and a parent that can be opened (so not a bare file name).
\<close>

definition output_ok :: "world \<Rightarrow> path \<Rightarrow> bool" where
  "output_ok w out \<longleftrightarrow> w_sync w \<and> w_disk w = None \<and> comps out \<noteq> [] \<and>
     w_fs w (resolve w (parent_or_dot out)) = Some Directory \<and>
     w_fs w (resolve w out) \<noteq> Some Directory \<and> parent out \<noteq> Some (Path False [])"

definition calm :: "world \<Rightarrow> path \<Rightarrow> bool" where
  "calm w p \<longleftrightarrow> (\<forall>e. Fault e \<notin> set (w_script w (resolve w p)))"

lemma persist_temp_file_ok:
  assumes "output_ok w out"
  shows "persist_temp_file tmp out w = (Inr (), put_file w out (w_data tmp))"
proof -
  obtain q where q: "parent out = Some q" using assms by (auto simp: output_ok_def parent_def)
  have dir: "w_fs w (resolve w q) = Some Directory" and free: "w_fs w (resolve w out) \<noteq> Some Directory"
    using assms q by (auto simp: output_ok_def parent_or_dot_def)
  then have "resolve w q \<noteq> resolve w out" by metis
  then have "lookup (put_file w out (w_data tmp)) q = Some Directory"
    using dir assms q by (auto simp: lookup_def w_fs_put_file output_ok_def)
  then show ?thesis
    using assms q by (simp add: persist_temp_file_cases persist_def output_ok_def sync_path_def)
qed

lemma decrypt_file_capsule:
  assumes cap: "capsule_of P S e fek bs capsule" "postcard_ok S" "ciphers_ok (cip P)"
    and inp: "lookup w inp = Some (Regular capsule)" "calm w inp" and key: "unlock e = Inr fek"
    and len: "plaintext_len e = of_nat (length bs)" "length bs < 2 ^ 64" and out: "output_ok w out"
  shows "decrypt_file_with P S unlock inp out w = (Inr (), put_file w out bs)"
proof -
  let ?rd = "\<lparr>r_data = capsule, r_events = w_script w (resolve w inp)\<rparr>"
  have rd: "quiet ?rd" "r_data ?rd = capsule"
    using inp(2) by (simp_all add: quiet_def calm_def)
  obtain rd' where rd': "read_envelope P S ?rd = Inr (e, rd')" "quiet rd'"
      "seal_for P e (hkdf_new (cip P) None fek) bs = Inr (r_data rd')"
    using open_capsule [OF cap(1,2) rd] .
  have room: "w_room (fresh_writer (w_disk w)) = None" using out by (simp add: output_ok_def)
  obtain tmp where tmp: "decrypt_payload_into P e (hkdf_new (cip P) None fek) rd' (fresh_writer (w_disk w)) = Inr tmp"
      "w_data tmp = bs"
    using decrypt_payload_accepts [OF cap(3) rd'(2) room rd'(3) len] by auto
  have "write_decrypted_payload_atomic P out e (hkdf_new (cip P) None fek) rd' w = (Inr (), put_file w out bs)"
    using out tmp persist_temp_file_ok [OF out, of tmp]
    by (simp add: write_decrypted_payload_atomic_def act_def act_map_err_def new_in_def sync_temp_def
        output_ok_def)
  with rd' key inp(1) show ?thesis
    by (simp add: decrypt_file_with_def act_def act_map_err_def)
qed

section \<open>Round trips\<close>

lemma password_restores:
  assumes P: "ciphers_ok (cip P)" and S: "postcard_ok S"
    and enc: "encrypt_file_password P S inp out pw seed profile pol override w = (Inr (), w1)"
    and inp: "lookup w inp = Some (Regular bs)" "length bs < 2 ^ 64"
    and env: "calm w1 out" "output_ok w1 out2"
  shows "decrypt_file_password P S out out2 pw seed w1 = (Inr (), put_file w1 out2 bs) \<and>
    (\<exists>capsule. lookup w1 out = Some (Regular capsule) \<and>
       decrypt_memory_password P S capsule pw seed = Inr bs)"
proof -
  obtain e fek capsule w0 where *: "w1 = put_file w0 out capsule" "out \<noteq> Path False []"
      "capsule_of P S e fek bs capsule" "unwrap_password_file_key P e pw seed = Inr fek"
      "plaintext_len e = of_nat (length bs)"
    using encrypt_file_password_Inr [OF enc [unfolded encrypt_file_password_def] P inp(1)] by metis
  have "lookup w1 out = Some (Regular capsule)" using *(1,2) lookup_put_file by simp
  moreover have "quiet (cursor capsule)" "r_data (cursor capsule) = capsule"
    by (simp_all add: quiet_def cursor_def)
  ultimately show ?thesis
    using decrypt_file_capsule [where unlock = "\<lambda>e. unwrap_password_file_key P e pw seed",
        OF *(3) S P _ env(1) *(4,5) inp(2) env(2)]
      decrypt_memory_capsule [where unlock = "\<lambda>e. unwrap_password_file_key P e pw seed",
        OF *(3) S P _ _ *(4,5) inp(2), of "cursor capsule"]
    by (simp add: decrypt_with)
qed

lemma keypair_restores:
  assumes P: "ciphers_ok (cip P)" "dh_laws P" and S: "postcard_ok S"
    and enc: "encrypt_file_keypairs P S inp out pks profile pol override w = (Inr (), w1)"
    and inp: "lookup w inp = Some (Regular bs)" "length bs < 2 ^ 64"
    and key: "i < length pks" "key_pair P sk (pks ! i)"
    and earlier: "\<forall>e. fst (read_envelope_from_path P S out w1) = Inr e \<longrightarrow>
      (\<forall>r \<in> set (take i (h_recipients (header e))). unwrap_recipient P sk r = None)"
    and env: "calm w1 out" "output_ok w1 out2"
  shows "decrypt_file_keypair P S out out2 sk w1 = (Inr (), put_file w1 out2 bs)"
proof -
  obtain e fek capsule w0 where *: "w1 = put_file w0 out capsule" "out \<noteq> Path False []"
      "capsule_of P S e fek bs capsule" "length (h_recipients (header e)) = length pks"
      "unwrap_recipient P sk (h_recipients (header e) ! i) = Some fek"
      "plaintext_len e = of_nat (length bs)"
    using encrypt_file_keypairs_Inr [OF enc [unfolded encrypt_file_keypairs_def] inp(1)] P key by metis
  have look: "lookup w1 out = Some (Regular capsule)" using *(1,2) lookup_put_file by simp
  let ?rd = "\<lparr>r_data = capsule, r_events = w_script w1 (resolve w1 out)\<rparr>"
  have "quiet ?rd" "r_data ?rd = capsule" using env(1) by (simp_all add: quiet_def calm_def)
  then obtain rd' where "read_envelope P S ?rd = Inr (e, rd')" using open_capsule [OF *(3) S] by blast
  with look have "fst (read_envelope_from_path P S out w1) = Inr e"
    by (simp add: read_envelope_from_path_def act_def act_map_err_def)
  with earlier have "\<forall>r \<in> set (take i (h_recipients (header e))). unwrap_recipient P sk r = None" by blast
  then have "unwrap_keypair_file_key P e sk = Inr fek"
    unfolding unwrap_keypair_file_key_def using first_unwrapped_nth *(4,5) key(1) by metis
  from decrypt_file_capsule [where unlock = "\<lambda>e. unwrap_keypair_file_key P e sk", OF *(3) S P(1) look env(1) this *(6) inp(2) env(2)]
  show ?thesis by (simp add: decrypt_with)
qed

text \<open>
  C1: What \<open>encrypt_file_password\<close> writes, \<open>decrypt_file_password\<close> with the same password and
  seed restores byte for byte, for every file, profile, policy and state of the random
  generator; \<open>decrypt_memory_password\<close> gives the same bytes.
\<close>

theorem password_round_trip:
  assumes P: "ciphers_ok (cip P)" and S: "postcard_ok S"
    and enc: "encrypt_file_password P S inp out pw seed profile pol override w = (Inr (), w1)"
    and inp: "lookup w inp = Some (Regular bs)" "length bs < 2 ^ 64"
    and env: "calm w1 out" "output_ok w1 out2"
  shows "decrypt_file_password P S out out2 pw seed w1 = (Inr (), put_file w1 out2 bs) \<and>
    (\<exists>capsule. lookup w1 out = Some (Regular capsule) \<and>
       decrypt_memory_password P S capsule pw seed = Inr bs)"
  by (rule password_restores [OF assms])

text \<open>
  C2: What \<open>encrypt_file_keypairs\<close> writes, each recipient restores with \<open>decrypt_file_keypair\<close>,
  provided no earlier entry opens under that recipient's key.
\<close>

theorem keypair_round_trip:
  assumes P: "ciphers_ok (cip P)" "dh_laws P" and S: "postcard_ok S"
    and enc: "encrypt_file_keypairs P S inp out pks profile pol override w = (Inr (), w1)"
    and inp: "lookup w inp = Some (Regular bs)" "length bs < 2 ^ 64"
    and key: "i < length pks" "key_pair P sk (pks ! i)"
    and earlier: "\<forall>e. fst (read_envelope_from_path P S out w1) = Inr e \<longrightarrow>
      (\<forall>r \<in> set (take i (h_recipients (header e))). unwrap_recipient P sk r = None)"
    and env: "calm w1 out" "output_ok w1 out2"
  shows "decrypt_file_keypair P S out out2 sk w1 = (Inr (), put_file w1 out2 bs)"
  by (rule keypair_restores [OF assms])

end
