(* ===== verification/Capsule_Safety.thy ===== *)
theory Capsule_Safety
  imports Capsule_Correct
begin

text \<open>
  Safety of theory Capsule: the limits every decoded envelope respects, outputs that are never
  partial, verification against decryption, and three places where the code falls short: a
  bare output file name, an input that changes its length, and the unauthenticated empty
  capsule.
\<close>

section \<open>What decoding guarantees\<close>

lemma decoded_envelope_facts:
  assumes "decode_envelope_bytes P S bs = Inr e"
  shows "h_magic (header e) = MAGIC_REAL \<and> h_version (header e) \<in> {LEGACY_VERSION, CURRENT_VERSION} \<and>
    0 < length (h_recipients (header e)) \<and> length (h_recipients (header e)) \<le> MAX_RECIPIENTS \<and>
    payload_algorithm (h_algorithm (header e)) \<and>
    (\<forall>r \<in> set (h_recipients (header e)). length (encrypted_file_key r) = 48) \<and>
    ((\<forall>r \<in> set (h_recipients (header e)). is_password r) \<and>
       (\<exists>k. h_kdf (header e) = Some k \<and>
          (m_cost k, t_cost k, p_cost k) = expected_argon2_costs (h_profile (header e))) \<or>
     (\<forall>r \<in> set (h_recipients (header e)). \<not> is_password r) \<and> h_kdf (header e) = None) \<and>
    (needs_secondary_nonce (h_algorithm (header e)) \<longleftrightarrow> secondary_nonce e \<noteq> None) \<and>
    compute_aad_hash P S e = Inr (aad_hash e)"
proof -
  note d = decode_envelope_Inr [OF assms]
  have "compute_aad_hash P S e = Inr (aad_hash e)"
    using d by (auto simp: verify_aad_hash_def res_elims)
  moreover have "h_magic (header e) = MAGIC_REAL" "h_version (header e) \<in> {LEGACY_VERSION, CURRENT_VERSION}"
    using d by (auto simp: validate_Inr)
  ultimately show ?thesis
    using validate_resources_Inr d unfolding MAX_RECIPIENTS_def by presburger
qed

text \<open>
  C6: Every envelope the code reads has the Lvau magic and a known version, between 1 and 64
  recipients, all of one kind, each with a 48-byte wrapped key, exactly the Argon2 costs of
  its profile when it has passwords and no KDF otherwise (so the costs of a hostile file are
  never used), a payload algorithm, a secondary nonce exactly when that algorithm needs one,
  and a matching hash of its public fields.
\<close>

theorem decoded_envelope_limits:
  assumes "decode_envelope_bytes P S bs = Inr e"
  shows "h_magic (header e) = MAGIC_REAL \<and> h_version (header e) \<in> {LEGACY_VERSION, CURRENT_VERSION} \<and>
    0 < length (h_recipients (header e)) \<and> length (h_recipients (header e)) \<le> MAX_RECIPIENTS \<and>
    payload_algorithm (h_algorithm (header e)) \<and>
    (\<forall>r \<in> set (h_recipients (header e)). length (encrypted_file_key r) = 48) \<and>
    ((\<forall>r \<in> set (h_recipients (header e)). is_password r) \<and>
       (\<exists>k. h_kdf (header e) = Some k \<and>
          (m_cost k, t_cost k, p_cost k) = expected_argon2_costs (h_profile (header e))) \<or>
     (\<forall>r \<in> set (h_recipients (header e)). \<not> is_password r) \<and> h_kdf (header e) = None) \<and>
    (needs_secondary_nonce (h_algorithm (header e)) \<longleftrightarrow> secondary_nonce e \<noteq> None) \<and>
    compute_aad_hash P S e = Inr (aad_hash e)"
  by (rule decoded_envelope_facts [OF assms])

section \<open>Outputs are never partial\<close>

lemma write_decrypted_cases:
  assumes run: "write_decrypted_payload_atomic P out e hk rd w = (r, w')"
  shows "w' = w \<or> (\<exists>tmp. decrypt_payload_into P e hk rd (fresh_writer (w_disk w)) = Inr tmp \<and>
      w' = put_file w out (w_data tmp))"
proof (cases "w_fs w (resolve w (parent_or_dot out)) = Some Directory")
  case False
  with run show ?thesis
    by (auto simp: write_decrypted_payload_atomic_def act_def act_map_err_def new_in_def)
next
  case True
  note run = run [unfolded write_decrypted_payload_atomic_def act_def act_map_err_def new_in_def
      if_P [OF True] lift_def prod.case map_err_simps sum.case]
  show ?thesis
  proof (cases "decrypt_payload_into P e hk rd (fresh_writer (w_disk w))")
    case (Inl err)
    with run show ?thesis by auto
  next
    case (Inr tmp)
    show ?thesis
    proof (cases "w_sync w")
      case False
      with run Inr show ?thesis by (auto simp: sync_temp_def)
    next
      case sync: True
      with run Inr have "persist_temp_file tmp out w = (r, w')" by (simp add: sync_temp_def)
      then have "w' = w \<or> w' = put_file w out (w_data tmp)"
        by (cases r) (auto dest: pt.commit_Inr pt.commit_Inl)
      with Inr show ?thesis by blast
    qed
  qed
qed

lemma decrypt_payload_into_sound:
  assumes "ciphers_ok (cip P)" "decrypt_payload_into P e hk rd wr = Inr wr'"
  shows "\<exists>out. w_data wr' = w_data wr @ out \<and> length out = unat (plaintext_len e) \<and>
    (seal_for P e hk out = Inr (r_data rd) \<or>
     CURRENT_VERSION \<le> h_version (header e) \<and> plaintext_len e = 0 \<and> r_data rd = [])"
proof -
  obtain q rd1 wr1 where st: "stream_decrypt_payload (cip P) (h_algorithm (header e)) (h_version (header e))
      hk (e_nonce e) (secondary_nonce e) (aad_hash e) (plaintext_len e) (rd, wr) = (q, (rd1, wr1))"
    by (metis prod.collapse)
  with assms(2) have "q = Inr ()" "wr' = wr1"
    by (auto simp: decrypt_payload_into_def split: sum.splits)
  with decrypt_sound [OF assms(1)] st show ?thesis
    unfolding seal_for_def by metis
qed

lemma open_file_data:
  "open_file p w = (Inr rd, w') \<Longrightarrow> r_data rd \<noteq> [] \<Longrightarrow> lookup w p = Some (Regular (r_data rd))"
  by (auto simp: open_file_def node_bytes_def split: option.splits node.splits)

lemma capsule_bytes_ne [simp]: "capsule_bytes encoded ct \<noteq> []"
  by (simp add: capsule_bytes_def u32_to_le_bytes_def le_bytes_numeral)

lemma decrypt_file_with_cases:
  assumes C: "ciphers_ok (cip P)" and run: "decrypt_file_with P S unlock inp out w = (r, w')"
  shows "w' = w \<or> (\<exists>encoded ct e fek bs. lookup w inp = Some (Regular (capsule_bytes encoded ct)) \<and>
      decode_envelope_bytes P S encoded = Inr e \<and> unlock e = Inr fek \<and>
      length bs = unat (plaintext_len e) \<and> w' = put_file w out bs \<and>
      (seal_for P e (hkdf_new (cip P) None fek) bs = Inr ct \<or>
       CURRENT_VERSION \<le> h_version (header e) \<and> plaintext_len e = 0 \<and> ct = []))"
proof -
  obtain q w1 where op: "open_file inp w = (q, w1)" by fastforce
  then have w1: "w1 = w" using pure_ops(1) [of inp w] by simp
  show ?thesis
  proof (cases q)
    case (Inl err)
    with run op w1 show ?thesis by (auto simp: decrypt_file_with_def act_def act_map_err_def)
  next
    case (Inr rd)
    note run1 = run [unfolded decrypt_file_with_def act_def act_map_err_def op Inr w1 prod.case
        map_err_simps sum.case lift_def]
    show ?thesis
    proof (cases "read_envelope P S rd")
      case (Inl err)
      with run1 show ?thesis by auto
    next
      case re: (Inr er)
      then obtain e rd1 where er: "read_envelope P S rd = Inr (e, rd1)" by (cases er) auto
      show ?thesis
      proof (cases "unlock e")
        case (Inl err)
        with run1 er show ?thesis by (auto simp: act_def lift_def)
      next
        case un: (Inr fek)
        let ?hk = "hkdf_new (cip P) None fek"
        from run1 er un have wd: "write_decrypted_payload_atomic P out e ?hk rd1 w = (r, w')"
          by (simp add: act_def lift_def)
        obtain encoded where enc: "r_data rd = capsule_bytes encoded (r_data rd1)"
            "decode_envelope_bytes P S encoded = Inr e"
          using read_envelope_Inr [OF er] by blast
        with open_file_data [OF op [unfolded Inr]]
        have look: "lookup w inp = Some (Regular (capsule_bytes encoded (r_data rd1)))" by simp
        from write_decrypted_cases [OF wd] show ?thesis
        proof
          assume "\<exists>tmp. decrypt_payload_into P e ?hk rd1 (fresh_writer (w_disk w)) = Inr tmp \<and>
            w' = put_file w out (w_data tmp)"
          then obtain tmp where tmp: "decrypt_payload_into P e ?hk rd1 (fresh_writer (w_disk w)) = Inr tmp"
              "w' = put_file w out (w_data tmp)" by blast
          from decrypt_payload_into_sound [OF C tmp(1)] obtain bs where bs: "w_data tmp = bs"
              "length bs = unat (plaintext_len e)" "seal_for P e ?hk bs = Inr (r_data rd1) \<or>
               CURRENT_VERSION \<le> h_version (header e) \<and> plaintext_len e = 0 \<and> r_data rd1 = []"
            by auto
          from tmp(2) bs(1) have "w' = put_file w out bs" by simp
          with look enc(2) un bs(2,3) show ?thesis by blast
        qed simp
      qed
    qed
  qed
qed

text \<open>
  C5: Whatever happens during \<open>decrypt_file_password\<close> (wrong password, damage, read faults, a
  full disk, a failing sync), the file system is either unchanged or the output holds the
  complete authenticated plaintext of the capsule; no unauthenticated or partial plaintext
  ever reaches the output, the single exception being the empty output of a version-2
  capsule with announced length 0 and no payload.
\<close>

theorem decrypt_output_all_or_nothing:
  assumes "ciphers_ok (cip P)" "decrypt_file_password P S inp out pw seed w = (r, w')"
  shows "w' = w \<or> (\<exists>encoded ct e fek bs. lookup w inp = Some (Regular (capsule_bytes encoded ct)) \<and>
      decode_envelope_bytes P S encoded = Inr e \<and> unwrap_password_file_key P e pw seed = Inr fek \<and>
      length bs = unat (plaintext_len e) \<and> w' = put_file w out bs \<and>
      (seal_for P e (hkdf_new (cip P) None fek) bs = Inr ct \<or>
       CURRENT_VERSION \<le> h_version (header e) \<and> plaintext_len e = 0 \<and> ct = []))"
  by (rule decrypt_file_with_cases [where unlock = "\<lambda>e. unwrap_password_file_key P e pw seed",
      OF assms(1) assms(2) [unfolded decrypt_with]])

section \<open>Verification\<close>

lemma verify_with:
  assumes "open_file inp w = (Inr rd, w)"
  shows "verify_file_password P S inp pw seed w =
      (case decrypt_memory_with P S (\<lambda>e. unwrap_password_file_key P e pw seed) rd of
         Inl err \<Rightarrow> (Inl err, w) | Inr _ \<Rightarrow> (Inr (), w))"
  using assms
  by (auto simp: verify_file_password_def decrypt_memory_with_def act_def act_map_err_def lift_def rbind_def
      split: sum.splits prod.splits)

lemma decrypt_memory_iff:
  assumes C: "ciphers_ok (cip P)" and rd: "quiet rd"
  shows "decrypt_memory_with P S unlock rd = Inr bs \<longleftrightarrow>
    (\<exists>encoded ct e fek. r_data rd = capsule_bytes encoded ct \<and> encoded \<noteq> [] \<and>
       length encoded \<le> MAX_ENVELOPE_SIZE \<and> decode_envelope_bytes P S encoded = Inr e \<and>
       unlock e = Inr fek \<and> is_ok (derive_payload_keys (cip P) (hkdf_new (cip P) None fek) (h_algorithm (header e))) \<and>
       length bs = unat (plaintext_len e) \<and>
       (seal_for P e (hkdf_new (cip P) None fek) bs = Inr ct \<or>
        CURRENT_VERSION \<le> h_version (header e) \<and> plaintext_len e = 0 \<and> ct = []))"
    (is "?run \<longleftrightarrow> ?spec")
proof
  assume ?run
  then obtain e rd1 fek tmp where *: "read_envelope P S rd = Inr (e, rd1)" "unlock e = Inr fek"
      "decrypt_payload_into P e (hkdf_new (cip P) None fek) rd1 (fresh_writer None) = Inr tmp" "w_data tmp = bs"
    by (auto simp: decrypt_memory_with_def res_elims)
  obtain encoded where enc: "r_data rd = capsule_bytes encoded (r_data rd1)" "encoded \<noteq> []"
      "length encoded \<le> MAX_ENVELOPE_SIZE" "decode_envelope_bytes P S encoded = Inr e"
    using read_envelope_Inr [OF *(1)] by blast
  have "is_ok (derive_payload_keys (cip P) (hkdf_new (cip P) None fek) (h_algorithm (header e)))"
    using *(3) by (auto simp: decrypt_payload_into_def stream_decrypt_payload_def split: sum.splits)
  with decrypt_payload_into_sound [OF C *(3)] enc *(2,4) show ?spec by auto
next
  assume ?spec
  then obtain encoded ct e fek where *: "r_data rd = capsule_bytes encoded ct" "encoded \<noteq> []"
      "length encoded \<le> MAX_ENVELOPE_SIZE" "decode_envelope_bytes P S encoded = Inr e" "unlock e = Inr fek"
      "is_ok (derive_payload_keys (cip P) (hkdf_new (cip P) None fek) (h_algorithm (header e)))"
      "length bs = unat (plaintext_len e)"
      "seal_for P e (hkdf_new (cip P) None fek) bs = Inr ct \<or>
        CURRENT_VERSION \<le> h_version (header e) \<and> plaintext_len e = 0 \<and> ct = []"
    by blast
  obtain rd1 where rd1: "read_envelope P S rd = rbind (decode_envelope_bytes P S encoded) (\<lambda>e. Inr (e, rd1))"
      "quiet rd1" "r_data rd1 = ct"
    using read_envelope_capsule [OF rd *(1,2,3)] .
  have "w_room (fresh_writer None) = None" by simp
  from decrypt_accepts [OF C *(6) rd1(2) this, of "h_version (header e)" "e_nonce e" "secondary_nonce e"
      "aad_hash e" "plaintext_len e" bs] *(7,8) rd1(3)
  obtain tmp where "decrypt_payload_into P e (hkdf_new (cip P) None fek) rd1 (fresh_writer None) = Inr tmp"
      "w_data tmp = bs"
    by (auto simp: decrypt_payload_into_def seal_for_def)
  with rd1 * show ?run by (simp add: decrypt_memory_with_def)
qed

lemma verify_exact:
  assumes C: "ciphers_ok (cip P)" and inp: "lookup w inp = Some (Regular capsule)" "calm w inp"
  shows "snd (verify_file_password P S inp pw seed w) = w \<and>
    (fst (verify_file_password P S inp pw seed w) = Inr () \<longleftrightarrow>
       is_ok (decrypt_memory_password P S capsule pw seed))"
proof -
  let ?rd = "\<lparr>r_data = capsule, r_events = w_script w (resolve w inp)\<rparr>"
  let ?unlock = "\<lambda>e. unwrap_password_file_key P e pw seed"
  have op: "open_file inp w = (Inr ?rd, w)" using inp(1) by simp
  have q: "quiet ?rd" "quiet (cursor capsule)" using inp(2) by (simp_all add: quiet_def calm_def cursor_def)
  have "decrypt_memory_with P S ?unlock ?rd = Inr bs \<longleftrightarrow> decrypt_memory_with P S ?unlock (cursor capsule) = Inr bs" for bs
    using decrypt_memory_iff [OF C q(1)] decrypt_memory_iff [OF C q(2)] by (simp add: cursor_def)
  then have "is_ok (decrypt_memory_with P S ?unlock ?rd) \<longleftrightarrow> is_ok (decrypt_memory_password P S capsule pw seed)"
    by (simp add: is_ok_iff decrypt_with)
  then show ?thesis
    by (auto simp: verify_with [OF op] is_ok_def split: sum.splits)
qed

lemma verify_keypair_with:
  assumes "open_file inp w = (Inr rd, w)"
  shows "verify_file_keypair P S inp sk w =
      (case decrypt_memory_with P S (\<lambda>e. unwrap_keypair_file_key P e sk) rd of
         Inl err \<Rightarrow> (Inl err, w) | Inr _ \<Rightarrow> (Inr (), w))"
  using assms
  by (auto simp: verify_file_keypair_def decrypt_memory_with_def act_def act_map_err_def lift_def rbind_def
      split: sum.splits prod.splits)

lemma verify_keypair_exact:
  assumes C: "ciphers_ok (cip P)" and inp: "lookup w inp = Some (Regular capsule)" "calm w inp"
  shows "snd (verify_file_keypair P S inp sk w) = w \<and>
    (fst (verify_file_keypair P S inp sk w) = Inr () \<longleftrightarrow> is_ok (decrypt_memory_keypair P S capsule sk))"
proof -
  let ?rd = "\<lparr>r_data = capsule, r_events = w_script w (resolve w inp)\<rparr>"
  let ?unlock = "\<lambda>e. unwrap_keypair_file_key P e sk"
  have op: "open_file inp w = (Inr ?rd, w)" using inp(1) by simp
  have q: "quiet ?rd" "quiet (cursor capsule)" using inp(2) by (simp_all add: quiet_def calm_def cursor_def)
  have "decrypt_memory_with P S ?unlock ?rd = Inr bs \<longleftrightarrow> decrypt_memory_with P S ?unlock (cursor capsule) = Inr bs" for bs
    using decrypt_memory_iff [OF C q(1)] decrypt_memory_iff [OF C q(2)] by (simp add: cursor_def)
  then have "is_ok (decrypt_memory_with P S ?unlock ?rd) \<longleftrightarrow> is_ok (decrypt_memory_keypair P S capsule sk)"
    by (simp add: is_ok_iff decrypt_with)
  then show ?thesis
    by (auto simp: verify_keypair_with [OF op] is_ok_def split: sum.splits)
qed

text \<open>
  C35: Verifying a file changes nothing and succeeds exactly when the contents of the file can be
  decrypted in memory: with the same password and seed, and with the same private key.
\<close>

theorem verify_agrees_with_decrypt:
  assumes C: "ciphers_ok (cip P)" and inp: "lookup w inp = Some (Regular capsule)" "calm w inp"
  shows "snd (verify_file_password P S inp pw seed w) = w \<and>
    (fst (verify_file_password P S inp pw seed w) = Inr () \<longleftrightarrow>
       is_ok (decrypt_memory_password P S capsule pw seed)) \<and>
    snd (verify_file_keypair P S inp sk w) = w \<and>
    (fst (verify_file_keypair P S inp sk w) = Inr () \<longleftrightarrow> is_ok (decrypt_memory_keypair P S capsule sk))"
  using verify_exact [OF assms] verify_keypair_exact [OF assms] by blast

section \<open>A bare output file name\<close>

text \<open>
  With a bare file name as output (\<open>lvau encrypt -o out.lvau\<close>), encryption and decryption
  never report success: the parent of a bare name is the empty path, which cannot be opened
  for the final sync. The failure comes after the rename, so the output file is complete.
\<close>

theorem bare_output_name_reports_error:
  assumes "w_fs w (resolve w (Path False [c])) \<noteq> Some Directory"
  shows "persist_temp_file tmp (Path False [c]) w =
      (Inl (Io NotFound), put_file w (Path False [c]) (w_data tmp)) \<and>
    fst (encrypt_file_password P S inp (Path False [c]) pw seed profile pol override v) \<noteq> Inr () \<and>
    fst (decrypt_file_password P S inp (Path False [c]) pw seed v) \<noteq> Inr ()"
proof -
  have never: "persist_temp_file tmp (Path False [c]) u \<noteq> (Inr (), u')" for tmp u u'
    by (auto simp: persist_temp_file_cases persist_def parent_def sync_path_def lookup_def)
  have "fst (encrypt_file_password P S inp (Path False [c]) pw seed profile pol override v) \<noteq> Inr ()"
  proof
    obtain m t p where costs: "profile_costs profile = (m, t, p)" by (cases "profile_costs profile")
    assume "fst (encrypt_file_password P S inp (Path False [c]) pw seed profile pol override v) = Inr ()"
    then obtain v' where "encrypt_file_password P S inp (Path False [c]) pw seed profile pol override v = (Inr (), v')"
      by (metis prod.collapse)
    then show False
      unfolding encrypt_file_password_def encrypt_file_password_with_content_type_def costs prod.case Let_def
        write_envelope_and_payload_def
      by (elim act_steps) (use never in blast)
  qed
  moreover have "fst (decrypt_file_password P S inp (Path False [c]) pw seed v) \<noteq> Inr ()"
  proof
    assume "fst (decrypt_file_password P S inp (Path False [c]) pw seed v) = Inr ()"
    then obtain v' where "decrypt_file_password P S inp (Path False [c]) pw seed v = (Inr (), v')"
      by (metis prod.collapse)
    then show False
      unfolding decrypt_file_password_def write_decrypted_payload_atomic_def case_prod_beta
      by (elim act_steps) (use never in blast)
  qed
  ultimately show ?thesis
    using assms by (simp add: persist_temp_file_cases persist_def parent_def sync_path_def lookup_def)
qed

section \<open>An input that changes its length\<close>

lemma stale_length:
  assumes C: "ciphers_ok (cip P)" and S: "postcard_ok S"
    and run: "write_envelope_and_payload P S out e (h_algorithm (header e)) (hkdf_new (cip P) None fek) rd w
      = (Inr (), w')"
    and e: "validate e = Inr ()" "validate_envelope_resources e = Inr ()" "verify_aad_hash P S e = Inr ()"
    and stale: "length (r_data rd) \<noteq> unat (plaintext_len e)"
  shows "\<exists>capsule. lookup w' out = Some (Regular capsule) \<and>
    (\<forall>unlock. unlock e = Inr fek \<longrightarrow> \<not> is_ok (decrypt_memory_with P S unlock (cursor capsule)))"
proof -
  let ?hk = "hkdf_new (cip P) None fek"
  obtain encoded ct where wr: "pc_envelope S e = Some encoded" "encoded \<noteq> []"
      "length encoded \<le> MAX_ENVELOPE_SIZE" "seal_for P e ?hk (r_data rd) = Inr ct"
      "w' = put_file w out (capsule_bytes encoded ct)" "out \<noteq> Path False []"
    using write_envelope_and_payload_Inr [OF run] by blast
  have dec: "decode_envelope_bytes P S encoded = Inr e" using decode_encoded S wr(1) e by blast
  have "\<not> is_ok (decrypt_memory_with P S unlock (cursor (capsule_bytes encoded ct)))"
    if un: "unlock e = Inr fek" for unlock
  proof
    assume "is_ok (decrypt_memory_with P S unlock (cursor (capsule_bytes encoded ct)))"
    then obtain bs where bs: "decrypt_memory_with P S unlock (cursor (capsule_bytes encoded ct)) = Inr bs"
      by (auto simp: is_ok_iff)
    have q: "quiet (cursor (capsule_bytes encoded ct))" "r_data (cursor (capsule_bytes encoded ct)) = capsule_bytes encoded ct"
      by (simp_all add: quiet_def cursor_def)
    obtain rd1 where rd1: "read_envelope P S (cursor (capsule_bytes encoded ct)) = Inr (e, rd1)" "r_data rd1 = ct"
      using read_envelope_capsule [OF q wr(2,3), of P S] dec by (metis rbind_simps(2))
    from bs rd1(1) un obtain tmp where tmp: "decrypt_payload_into P e ?hk rd1 (fresh_writer None) = Inr tmp"
      by (auto simp: decrypt_memory_with_def res_elims)
    from decrypt_payload_into_sound [OF C tmp] rd1(2) obtain ys where ys: "length ys = unat (plaintext_len e)"
        "seal_for P e ?hk ys = Inr ct \<or> CURRENT_VERSION \<le> h_version (header e) \<and> plaintext_len e = 0 \<and> ct = []"
      by blast
    from ys(2) show False
    proof
      assume "seal_for P e ?hk ys = Inr ct"
      then have "length ys = length (r_data rd)"
        using sealed_lengths_agree [OF C] wr(4) unfolding seal_for_def by blast
      with ys(1) stale show False by simp
    next
      assume empty: "CURRENT_VERSION \<le> h_version (header e) \<and> plaintext_len e = 0 \<and> ct = []"
      with seal_payload_length [OF C wr(4) [unfolded seal_for_def]] have "r_data rd = []" by simp
      with empty stale show False by simp
    qed
  qed
  moreover have "lookup w' out = Some (Regular (capsule_bytes encoded ct))"
    using wr(5,6) lookup_put_file by simp
  ultimately show ?thesis by blast
qed

text \<open>Writing succeeds in a good environment.\<close>

lemma output_ok_new_in: "output_ok w out \<Longrightarrow> new_in (parent_or_dot out) w = (Inr (fresh_writer None), w)"
  by (simp add: output_ok_def new_in_def)

lemma write_envelope_and_payload_ok:
  assumes enc: "pc_envelope S e = Some encoded" "encoded \<noteq> []" "length encoded \<le> MAX_ENVELOPE_SIZE"
    and seal: "seal_for P e hk (r_data rd) = Inr ct" and rd: "quiet rd" "length (r_data rd) + 1 < 2 ^ 64"
    and out: "output_ok w out" and alg: "h_algorithm (header e) = alg"
  shows "write_envelope_and_payload P S out e alg hk rd w = (Inr (), put_file w out (capsule_bytes encoded ct))"
proof -
  obtain wr1 where wr1: "write_chunks [u32_to_le_bytes (of_nat (length encoded)), encoded] (fresh_writer None) = (Inr (), wr1)"
      "w_room wr1 = None"
    by (metis fresh_writer_sel(2) write_chunks_unlimited)
  from encrypt_total [OF seal [unfolded seal_for_def] rd(1) wr1(2) rd(2)]
  obtain rd2 wr2 where wr2: "stream_encrypt_payload (cip P) (h_algorithm (header e)) (h_version (header e)) hk
      (e_nonce e) (secondary_nonce e) (aad_hash e) (rd, wr1) = (Inr (length (r_data rd)), (rd2, wr2))"
      "w_data wr2 = w_data wr1 @ ct" by blast
  have "write_capsule P e alg hk encoded rd (fresh_writer None) = Inr wr2"
    by (simp add: write_capsule_def wr1 wr2 alg [symmetric] del: write_chunks.simps)
  moreover have "w_data wr2 = capsule_bytes encoded ct"
    using wr2(2) write_chunks_Inr [OF wr1(1)] by (simp add: capsule_bytes_def)
  ultimately show ?thesis
    using enc output_ok_new_in [OF out] persist_temp_file_ok [OF out, of wr2] out
    by (simp add: write_envelope_and_payload_def act_def act_map_err_def lift_def sync_temp_def output_ok_def)
qed

text \<open>
  C39: When the input delivers another number of bytes than the length recorded in the envelope,
  \<open>write_envelope_and_payload\<close> succeeds all the same, wherever a capsule can be written at all, and
  the capsule it leaves behind can never be decrypted, even with the right file key.
\<close>

theorem stale_length_capsule_unreadable:
  assumes laws: "ciphers_ok (cip P)" "postcard_ok S"
    and e: "validate e = Inr ()" "validate_envelope_resources e = Inr ()" "verify_aad_hash P S e = Inr ()"
    and enc: "pc_envelope S e = Some encoded" "encoded \<noteq> []" "length encoded \<le> MAX_ENVELOPE_SIZE"
    and seal: "seal_for P e (hkdf_new (cip P) None fek) (r_data rd) = Inr ct"
    and rd: "quiet rd" "length (r_data rd) + 1 < 2 ^ 64" and out: "output_ok w out"
    and stale: "length (r_data rd) \<noteq> unat (plaintext_len e)"
  shows "\<exists>w' capsule. write_envelope_and_payload P S out e (h_algorithm (header e)) (hkdf_new (cip P) None fek) rd w
      = (Inr (), w') \<and> lookup w' out = Some (Regular capsule) \<and>
    (\<forall>unlock. unlock e = Inr fek \<longrightarrow> \<not> is_ok (decrypt_memory_with P S unlock (cursor capsule)))"
proof -
  note run = write_envelope_and_payload_ok [OF enc seal rd out refl]
  from stale_length [OF laws run e stale] run show ?thesis by blast
qed

section \<open>The forged empty capsule\<close>

lemma validate_resources_cong:
  "header e' = header e \<Longrightarrow> secondary_nonce e' = secondary_nonce e \<Longrightarrow>
     validate_envelope_resources e' = validate_envelope_resources e"
  by (simp only: validate_envelope_resources_def)

text \<open>
  C38: From any version-2 capsule that a password opens, an attacker without the password makes
  another one that \<open>verify\<close> and \<open>decrypt\<close> accept with that password: keep the envelope, set
  the length to 0, recompute the hash of the public fields (no key is involved) and drop the
  payload. It decrypts to an empty file.
\<close>

theorem forged_empty_capsule_accepted:
  assumes C: "ciphers_ok (cip P)" and S: "postcard_ok S"
    and e: "decode_envelope_bytes P S encoded = Inr e" "h_version (header e) = CURRENT_VERSION"
    and opens: "unwrap_password_file_key P e pw seed = Inr fek"
      "is_ok (derive_payload_keys (cip P) (hkdf_new (cip P) None fek) (h_algorithm (header e)))"
    and forged: "compute_aad_hash P S (e\<lparr>plaintext_len := 0\<rparr>) = Inr h"
      "pc_envelope S (e\<lparr>plaintext_len := 0, aad_hash := h\<rparr>) = Some encoded'"
      "encoded' \<noteq> []" "length encoded' \<le> MAX_ENVELOPE_SIZE"
  shows "decrypt_memory_password P S (capsule_bytes encoded' []) pw seed = Inr []"
proof -
  let ?f = "e\<lparr>plaintext_len := 0, aad_hash := h\<rparr>"
  have d: "validate e = Inr ()" "validate_envelope_resources e = Inr ()"
    using decode_envelope_Inr [OF e(1)] by simp_all
  have "validate ?f = validate e" by (simp add: validate_def)
  moreover have "validate_envelope_resources ?f = validate_envelope_resources e"
    by (rule validate_resources_cong) simp_all
  moreover have "compute_aad_hash P S ?f = Inr h"
    by (simp only: compute_aad_hash_ignores_hash forged(1))
  ultimately have "validate ?f = Inr ()" "validate_envelope_resources ?f = Inr ()" "verify_aad_hash P S ?f = Inr ()"
    using d by (simp_all add: verify_aad_hash_def)
  with decode_encoded [OF S forged(2)] have dec: "decode_envelope_bytes P S encoded' = Inr ?f" by blast
  have un: "unwrap_password_file_key P ?f pw seed = Inr fek"
    using opens(1) by (simp add: unwrap_password_file_key_def)
  have q: "quiet (cursor (capsule_bytes encoded' []))" by (simp add: quiet_def cursor_def)
  show ?thesis
    unfolding decrypt_with decrypt_memory_iff [OF C q]
    by (rule exI [of _ encoded'], rule exI [of _ "[]"], rule exI [of _ ?f], rule exI [of _ fek])
      (use forged(3,4) dec un opens(2) e(2) in \<open>simp add: cursor_def\<close>)
qed

end
