(* ===== verification/Capsule_Samples.thy ===== *)
theory Capsule_Samples
  imports Capsule_Safety
begin

text \<open>
  A concrete run for the witnesses of the capsule theories: a small file encrypted with the
  sample primitives, for a password and for a key pair.
\<close>

section \<open>Sizes of the sample encoding\<close>

lemma length_c_nat [len_simps]: "length (fst c_nat n) = n + 1"
  by (simp add: c_nat_def)

lemma length_c_iso [len_simps]: "length (fst (c_iso f g c) x) = length (fst c (f x))"
  by (simp add: c_iso_def)

lemma length_c_pair [len_simps]: "length (fst (c_pair c d) (x, y)) = length (fst c x) + length (fst d y)"
  by (simp add: c_pair_def)

lemma length_c_option [len_simps]:
  "length (fst (c_option c) None) = 1" "length (fst (c_option c) (Some x)) = length (fst c x) + 1"
  by (simp_all add: c_option_def)

lemma length_c_list [len_simps]:
  "length (fst (c_list c) xs) = length xs + 1 + sum_list (map (\<lambda>x. length (fst c x)) xs)"
  by (simp add: c_list_def length_c_nat length_concat comp_def)

lemma length_c_bytes [len_simps]: "length (fst c_bytes xs) = 2 * length xs + 1"
  by (simp add: c_bytes_def length_c_list c_byte_def sum_list_triv)

lemma length_c_words [len_simps]:
  "length (fst c_u32 a) = 9" "length (fst c_u64 b) = 17" "length (fst c_u16 v) = unat v + 1"
  "length (fst c_bool x) \<le> 2"
  by (simp_all add: c_u32_def c_u64_def c_u16_def c_bool_def length_c_iso length_c_bytes length_c_nat
      c_option_def split: option.splits)

section \<open>The sample run\<close>

definition sample_in :: path where "sample_in = Path True [''d'', ''in'']"

definition sample_out :: path where "sample_out = Path True [''d'', ''out'']"

definition sample_back :: path where "sample_back = Path True [''d'', ''back'']"

definition sample_world :: world where
  "sample_world = \<lparr>w_fs = [[] \<mapsto> Directory, [''d''] \<mapsto> Directory, [''d'', ''in''] \<mapsto> Regular [10, 20, 30]],
     w_cwd = [], w_script = (\<lambda>_. [Short 0]), w_disk = None, w_sync = True, w_dir_size = 0,
     w_rng = (\<lambda>_. 1), w_rng_pos = 0\<rparr>"

lemma sample_resolve [simp]:
  "resolve w sample_in = [''d'', ''in'']" "resolve w sample_out = [''d'', ''out'']"
  "resolve w sample_back = [''d'', ''back'']" "resolve w (Path True [''d'']) = [''d'']"
  "parent_or_dot sample_out = Path True [''d'']" "parent_or_dot sample_back = Path True [''d'']"
  "parent sample_out = Some (Path True [''d''])" "parent sample_back = Some (Path True [''d''])"
  "comps sample_out = [''d'', ''out'']" "comps sample_back = [''d'', ''back'']"
  "sample_out \<noteq> Path False []"
  by (simp_all add: resolve_def sample_in_def sample_out_def sample_back_def parent_or_dot_def parent_def)

lemma sample_world_sel [simp]:
  "w_fs sample_world [''d''] = Some Directory" "w_fs sample_world [''d'', ''in''] = Some (Regular [10, 20, 30])"
  "w_fs sample_world [''d'', ''out''] = None" "w_fs sample_world [''d'', ''back''] = None"
  "w_sync sample_world" "w_disk sample_world = None" "w_rng sample_world = (\<lambda>_. 1)"
  "w_script sample_world p = [Short 0]" "w_rng_pos sample_world = 0"
  by (simp_all add: sample_world_def)

lemma sample_lookup [simp]: "lookup sample_world sample_in = Some (Regular [10, 20, 30])"
  by (simp add: lookup_def) (simp add: sample_in_def)

lemma sample_outputs:
  "same_but_rng sample_world w \<Longrightarrow> output_ok w sample_out"
  "same_but_rng sample_world w \<Longrightarrow> output_ok (put_file w sample_out bs) sample_back"
  "same_but_rng sample_world w \<Longrightarrow> calm (put_file w sample_out bs) sample_out"
  by (simp_all add: output_ok_def calm_def same_but_rngD w_fs_put_file)

lemma sample_fill:
  "w_rng w = (\<lambda>_. 1) \<Longrightarrow> fill_bytes n w = (Inr (replicate n 1), w\<lparr>w_rng_pos := w_rng_pos w + n\<rparr>)"
  by (simp add: fill_bytes_def map_replicate_const)

lemma sample_master_key:
  "derive_master_key sample_prims pw seed (Argon2id m t p salt) = Inr (replicate 32 (sum_list pw + sum_list salt))"
  by (simp add: derive_master_key_def sample_prims_def split: option.splits)

lemma sample_subkey: "\<exists>k. derive_subkey (cip sample_prims) hk purpose = Inr k"
  by (simp add: derive_subkey_def sample_prims_def sample_ciphers_def)

lemma sample_wrap: "length fek = 32 \<Longrightarrow> \<exists>efk. wrap_key_xchacha sample_prims fek kwk n = Inr efk \<and> length efk = 48"
  by (simp add: wrap_key_xchacha_def sample_prims_def sample_ciphers_def tag_encrypt_def sum_tag_def)

lemma sample_finish:
  assumes "validate_envelope_resources (new_envelope profile alg kdf rs n nonce sn ct override) = Inr ()"
  shows "finish_envelope sample_prims sample_postcard None override (new_envelope profile alg kdf rs n nonce sn ct override) =
    Inr (new_envelope profile alg kdf rs n nonce sn ct override\<lparr>aad_hash := sha256 sample_prims PAYLOAD_AAD_V2_DOMAIN\<rparr>)"
proof -
  have "compute_aad_hash sample_prims sample_postcard (new_envelope profile alg kdf rs n nonce sn ct override) =
      Inr (sha256 sample_prims PAYLOAD_AAD_V2_DOMAIN)"
    by (simp add: compute_aad_hash_def new_envelope_def sample_postcard_def)
  moreover have "validate_envelope_resources (new_envelope profile alg kdf rs n nonce sn ct override\<lparr>aad_hash := h\<rparr>) = Inr ()" for h
    using assms validate_resources_cong [of "new_envelope profile alg kdf rs n nonce sn ct override\<lparr>aad_hash := h\<rparr>"
        "new_envelope profile alg kdf rs n nonce sn ct override"] by simp
  ultimately show ?thesis by (simp add: finish_envelope_def)
qed

lemma sample_sha_length [simp]: "length (sha256 sample_prims x) = 32"
  by (simp add: sample_prims_def)

definition sample_env_for ::
  "security_profile \<Rightarrow> u64 \<Rightarrow> content_type option \<Rightarrow> recipient \<Rightarrow> kdf_params option \<Rightarrow> envelope" where
  "sample_env_for prof n ct r kdf = new_envelope prof XChaCha20Poly1305 kdf [r] n (replicate 24 1) None ct False
     \<lparr>aad_hash := sha256 sample_prims PAYLOAD_AAD_V2_DOMAIN\<rparr>"

abbreviation sample_env_of :: "u64 \<Rightarrow> content_type option \<Rightarrow> recipient \<Rightarrow> kdf_params option \<Rightarrow> envelope" where
  "sample_env_of \<equiv> sample_env_for Fast"

abbreviation sample_env :: "recipient \<Rightarrow> kdf_params option \<Rightarrow> envelope" where
  "sample_env \<equiv> sample_env_of 3 None"

lemma length_c_content_type: "length (fst (c_option c_content_type) ct) \<le> 3"
  by (cases ct) (simp_all add: c_content_type_def len_simps)

lemma sample_env_size:
  assumes "length (fst c_recipient r) \<le> 3000" "length (fst (c_option c_kdf) kdf) \<le> 3000"
  shows "fst c_envelope (sample_env_for prof n ct r kdf) \<noteq> [] \<and>
    length (fst c_envelope (sample_env_for prof n ct r kdf)) \<le> MAX_ENVELOPE_SIZE"
proof -
  let ?e = "sample_env_for prof n ct r kdf"
  have h: "length (fst c_header (header ?e)) \<le> 7000"
    using assms by (cases prof) (simp_all add: sample_env_for_def new_envelope_def c_header_def len_simps MAGIC_REAL_def CURRENT_VERSION_def)
  have b: "length (fst c_bool x) \<le> 2" for x by (rule length_c_words)
  have "length (fst c_envelope ?e) \<le> length (fst c_header (header ?e)) + length (fst c_bool False) +
      length (fst (c_option c_content_type) ct) + 400" and "0 < length (fst c_envelope ?e)"
    by (simp_all add: c_envelope_def len_simps sample_env_for_def new_envelope_def)
  with h b [of False] length_c_content_type [of ct] have l: "length (fst c_envelope ?e) \<le> MAX_ENVELOPE_SIZE"
      "0 < length (fst c_envelope ?e)"
    by (simp_all add: MAX_ENVELOPE_SIZE_def)
  then show ?thesis by (metis length_greater_0_conv)
qed

lemma sample_seal_env:
  "xs \<noteq> [] \<Longrightarrow> length xs \<le> CHUNK_SIZE \<Longrightarrow> \<exists>c. seal_for sample_prims (sample_env_for prof n ct r kdf) hk xs = Inr c"
  using sample_sealed [of xs]
  by (simp add: seal_for_def sample_env_for_def new_envelope_def sample_prims_def CHUNK_SIZE_def)

text \<open>A payload of one chunk, as the sample primitives can seal it.\<close>

definition sample_payload :: "bytes \<Rightarrow> bool" where
  "sample_payload xs \<longleftrightarrow> xs \<noteq> [] \<and> length xs \<le> CHUNK_SIZE"

lemma sample_write:
  assumes r: "length (fst c_recipient r) \<le> 3000" "length (fst (c_option c_kdf) kdf) \<le> 3000"
    and rd: "quiet rd" "sample_payload (r_data rd)" and out: "output_ok w out"
  shows "\<exists>capsule. write_envelope_and_payload sample_prims sample_postcard out (sample_env_for prof n ct r kdf)
      XChaCha20Poly1305 hk rd w = (Inr (), put_file w out capsule)"
proof -
  obtain c where c: "seal_for sample_prims (sample_env_for prof n ct r kdf) hk (r_data rd) = Inr c"
    using sample_seal_env rd(2) unfolding sample_payload_def by blast
  have alg: "h_algorithm (header (sample_env_for prof n ct r kdf)) = XChaCha20Poly1305"
    by (simp add: sample_env_for_def new_envelope_def)
  have "length (r_data rd) + 1 < 2 ^ 64" using rd(2) by (simp add: sample_payload_def CHUNK_SIZE_def)
  then have "write_envelope_and_payload sample_prims sample_postcard out (sample_env_for prof n ct r kdf)
      XChaCha20Poly1305 hk rd w = (Inr (), put_file w out (capsule_bytes (fst c_envelope (sample_env_for prof n ct r kdf)) c))"
    using write_envelope_and_payload_ok [OF _ _ _ c rd(1) _ out alg] sample_env_size [OF r]
    by (simp add: sample_postcard_def)
  then show ?thesis by blast
qed

lemma same_but_rng_pos: "same_but_rng w (w\<lparr>w_rng_pos := n\<rparr>)"
  by (simp add: same_but_rng_def)

text \<open>Encrypting a small file in a good environment succeeds.\<close>

lemma sample_password_encrypts_with:
  assumes rng: "w_rng w = (\<lambda>_. 1)" and inp: "lookup w inp = Some (Regular bs)" "calm w inp" "sample_payload bs"
    and prof: "profile_costs prof = (m, t, p)" "profile_algorithm prof = XChaCha20Poly1305"
      "expected_argon2_costs prof = (m, t, p)"
    and out: "\<And>n. output_ok (w\<lparr>w_rng_pos := n\<rparr>) out"
  shows "\<exists>w0 capsule. same_but_rng w w0 \<and>
     encrypt_file_password_with_content_type sample_prims sample_postcard inp out [1] None prof None False ct w =
       (Inr (), put_file w0 out capsule)"
proof -
  let ?kdf = "Argon2id m t p (replicate 16 1)"
  let ?mk = "replicate 32 (sum_list [1] + sum_list (replicate 16 1)) :: bytes"
  let ?n = "of_nat (length bs) :: u64"
  let ?rd = "\<lparr>r_data = bs, r_events = w_script w (resolve w inp)\<rparr>"
  obtain kwk where kwk: "derive_subkey (cip sample_prims) (hkdf_new (cip sample_prims) None ?mk) KeyWrap = Inr kwk"
    using sample_subkey by blast
  obtain efk where efk: "wrap_key_xchacha sample_prims (replicate 32 1) kwk (replicate 24 1) = Inr efk" "length efk = 48"
    using sample_wrap [of "replicate 32 1"] by auto
  let ?r = "RPassword (replicate 24 1) efk"
  let ?w = "w\<lparr>w_rng_pos := 96 + w_rng_pos w\<rparr>"
  have "length (fst c_recipient ?r) \<le> 3000" "length (fst (c_option c_kdf) (Some ?kdf)) \<le> 3000"
    by (simp_all add: c_recipient_def c_kdf_def recipient_tuple_def len_simps efk)
  moreover have "quiet ?rd" using inp(2) by (simp add: quiet_def calm_def)
  moreover have "sample_payload (r_data ?rd)" using inp(3) by simp
  ultimately obtain capsule where
    wr: "write_envelope_and_payload sample_prims sample_postcard out (sample_env_for prof ?n ct ?r (Some ?kdf))
      XChaCha20Poly1305 (hkdf_new (cip sample_prims) None (replicate 32 1)) ?rd ?w = (Inr (), put_file ?w out capsule)"
    using sample_write out by blast
  have res: "validate_envelope_resources (new_envelope prof XChaCha20Poly1305 (Some ?kdf) [?r] ?n (replicate 24 1) None ct False) = Inr ()"
    using prof by (simp add: validate_envelope_resources_def new_envelope_def is_password_def efk MAX_RECIPIENTS_def
        needs_secondary_nonce_def)
  have fin: "finish_envelope sample_prims sample_postcard None False
      (new_envelope prof XChaCha20Poly1305 (Some ?kdf) [?r] ?n (replicate 24 1) None ct False) =
      Inr (sample_env_for prof ?n ct ?r (Some ?kdf))"
    unfolding sample_env_for_def by (rule sample_finish [OF res])
  have md: "metadata_of inp w = (Inr (True, length bs), w)" by (simp add: metadata_of_def inp(1))
  have op: "open_file inp w = (Inr ?rd, w)" using inp(1) by simp
  have "encrypt_file_password_with_content_type sample_prims sample_postcard inp out [1] None prof None False ct w =
      (Inr (), put_file ?w out capsule)"
    unfolding encrypt_file_password_with_content_type_def
    using kwk efk(1) fin wr
    by (simp add: act_apply act_map_err_def md op rng sample_fill sample_master_key prof
        draw_secondary_nonce_def Let_def)
  then show ?thesis using same_but_rng_pos by blast
qed

lemma sample_password_encrypts:
  assumes rng: "w_rng w = (\<lambda>_. 1)" and inp: "lookup w inp = Some (Regular bs)" "calm w inp" "sample_payload bs"
    and out: "\<And>n. output_ok (w\<lparr>w_rng_pos := n\<rparr>) out"
  shows "\<exists>w0 capsule. same_but_rng w w0 \<and>
     encrypt_file_password_with_content_type sample_prims sample_postcard inp out [1] None Fast None False ct w =
       (Inr (), put_file w0 out capsule)"
  by (rule sample_password_encrypts_with [OF rng inp _ _ _ out]) (simp_all add: profile_algorithm_def)

lemma sample_calm_in [simp]: "calm sample_world sample_in"
  by (simp add: calm_def)

lemma sample_password_run:
  "\<exists>w0 capsule. same_but_rng sample_world w0 \<and>
     encrypt_file_password sample_prims sample_postcard sample_in sample_out [1] None Fast None False sample_world =
       (Inr (), put_file w0 sample_out capsule)"
  unfolding encrypt_file_password_def
  by (rule sample_password_encrypts [OF sample_world_sel(7) sample_lookup sample_calm_in])
    (simp_all add: sample_payload_def CHUNK_SIZE_def sample_outputs(1) same_but_rng_pos)

text \<open>The same for one recipient with a key pair.\<close>

definition sample_sk :: hybrid_private_key where
  "sample_sk = \<lparr>priv_x25519 = [1], priv_mlkem = []\<rparr>"

definition sample_pk :: hybrid_public_key where
  "sample_pk = \<lparr>pub_x25519 = x25519_public sample_prims [1], pub_mlkem = []\<rparr>"

lemma sample_pair: "key_pair sample_prims sample_sk sample_pk"
  unfolding sample_sk_def sample_pk_def by (rule sample_key_pair)

lemma sample_wrap_recipient:
  assumes "w_rng w = (\<lambda>_. 1)" "length fek = 32"
  shows "\<exists>epk ct efk. wrap_recipient sample_prims fek sample_pk w =
      (Inr (RX25519MlkemHybrid epk ct efk), w\<lparr>w_rng_pos := w_rng_pos w + 32 + 32\<rparr>) \<and>
      length efk = 48 \<and> length epk = 32 \<and> length ct = 1088"
proof -
  have dh: "derive_contributory_x25519 sample_prims (replicate 32 1) (pub_x25519 sample_pk) = Inr (replicate 32 1)"
    by (simp add: derive_contributory_x25519_def sample_prims_def sample_pk_def list_ex_iff list_all_iff)
  obtain kwk where kwk: "hkdf_expand (cip sample_prims) (hkdf_new (cip sample_prims) None
      (replicate 32 1 @ replicate 32 (sum_list (replicate 32 1)))) HYBRID_WRAP 32 = Some kwk"
    by (simp add: sample_prims_def sample_ciphers_def)
  obtain efk where efk: "wrap_key_xchacha sample_prims fek kwk (replicate 24 0) = Inr efk" "length efk = 48"
    using sample_wrap assms(2) by blast
  have enc: "mlkem_encapsulate sample_prims (pub_mlkem sample_pk) (replicate 32 1) =
      (replicate 1088 (sum_list (replicate 32 1)), replicate 32 (sum_list (replicate 32 1)))"
    by (simp add: sample_prims_def)
  have pub: "length (x25519_public sample_prims x) = 32" for x by (simp add: sample_prims_def)
  show ?thesis
    using kwk efk pub by (simp add: wrap_recipient_def act_apply sample_fill assms(1) dh enc Let_def)
qed

lemma sample_keypair_encrypts:
  assumes rng: "w_rng w = (\<lambda>_. 1)" and inp: "lookup w inp = Some (Regular bs)" "calm w inp" "sample_payload bs"
    and out: "\<And>n. output_ok (w\<lparr>w_rng_pos := n\<rparr>) out"
  shows "\<exists>w0 capsule. same_but_rng w w0 \<and>
     encrypt_file_keypairs_with_content_type sample_prims sample_postcard inp out [sample_pk] Fast None False ct w =
       (Inr (), put_file w0 out capsule)"
proof -
  let ?w1 = "w\<lparr>w_rng_pos := 56 + w_rng_pos w\<rparr>" and ?w = "w\<lparr>w_rng_pos := 120 + w_rng_pos w\<rparr>"
  let ?n = "of_nat (length bs) :: u64"
  let ?rd = "\<lparr>r_data = bs, r_events = w_script w (resolve w inp)\<rparr>"
  obtain epk mct efk where wr: "wrap_recipient sample_prims (replicate 32 1) sample_pk ?w1 =
      (Inr (RX25519MlkemHybrid epk mct efk), ?w)" "length efk = 48" "length epk = 32" "length mct = 1088"
    using sample_wrap_recipient [of ?w1 "replicate 32 1"] rng by (auto simp: ac_simps)
  let ?r = "RX25519MlkemHybrid epk mct efk"
  have "length (fst c_recipient ?r) \<le> 3000" "length (fst (c_option c_kdf) None) \<le> 3000"
    by (simp_all add: c_recipient_def recipient_tuple_def len_simps wr)
  moreover have "quiet ?rd" using inp(2) by (simp add: quiet_def calm_def)
  moreover have "sample_payload (r_data ?rd)" using inp(3) by simp
  ultimately obtain capsule where
    wrote: "write_envelope_and_payload sample_prims sample_postcard out (sample_env_of ?n ct ?r None)
      XChaCha20Poly1305 (hkdf_new (cip sample_prims) None (replicate 32 1)) ?rd ?w = (Inr (), put_file ?w out capsule)"
    using sample_write out by blast
  have res: "validate_envelope_resources (new_envelope Fast XChaCha20Poly1305 None [?r] ?n (replicate 24 1) None ct False) = Inr ()"
    by (simp add: validate_envelope_resources_def new_envelope_def is_password_def wr MAX_RECIPIENTS_def
        needs_secondary_nonce_def)
  have fin: "finish_envelope sample_prims sample_postcard None False
      (new_envelope Fast XChaCha20Poly1305 None [?r] ?n (replicate 24 1) None ct False) = Inr (sample_env_of ?n ct ?r None)"
    unfolding sample_env_for_def by (rule sample_finish [OF res])
  have md: "metadata_of inp w = (Inr (True, length bs), w)" by (simp add: metadata_of_def inp(1))
  have op: "open_file inp w = (Inr ?rd, w)" using inp(1) by simp
  have "encrypt_file_keypairs_with_content_type sample_prims sample_postcard inp out [sample_pk] Fast None False ct w =
      (Inr (), put_file ?w out capsule)"
    unfolding encrypt_file_keypairs_with_content_type_def
    using fin wrote wr(1)
    by (simp add: act_apply act_map_err_def md op rng sample_fill profile_algorithm_def draw_secondary_nonce_def Let_def)
  then show ?thesis using same_but_rng_pos by blast
qed

lemma sample_keypair_run:
  "\<exists>w0 capsule. same_but_rng sample_world w0 \<and>
     encrypt_file_keypairs sample_prims sample_postcard sample_in sample_out [sample_pk] Fast None False sample_world =
       (Inr (), put_file w0 sample_out capsule)"
  unfolding encrypt_file_keypairs_def
  by (rule sample_keypair_encrypts [OF sample_world_sel(7) sample_lookup sample_calm_in])
    (simp_all add: sample_payload_def CHUNK_SIZE_def sample_outputs(1) same_but_rng_pos)

section \<open>Witnesses\<close>

theorem password_round_trip_witness:
  "\<exists>w1. encrypt_file_password sample_prims sample_postcard sample_in sample_out [1] None Fast None False
        sample_world = (Inr (), w1) \<and>
     decrypt_file_password sample_prims sample_postcard sample_out sample_back [1] None w1 =
        (Inr (), put_file w1 sample_back [10, 20, 30])"
proof -
  obtain w0 capsule where run: "same_but_rng sample_world w0"
      "encrypt_file_password sample_prims sample_postcard sample_in sample_out [1] None Fast None False
        sample_world = (Inr (), put_file w0 sample_out capsule)"
    using sample_password_run by blast
  from password_round_trip [OF _ _ run(2) sample_lookup _ sample_outputs(3) [OF run(1)] sample_outputs(2) [OF run(1)]]
    run(2)
  show ?thesis by auto
qed

theorem keypair_round_trip_witness:
  "\<exists>w1. encrypt_file_keypairs sample_prims sample_postcard sample_in sample_out [sample_pk] Fast None False
        sample_world = (Inr (), w1) \<and>
     decrypt_file_keypair sample_prims sample_postcard sample_out sample_back sample_sk w1 =
        (Inr (), put_file w1 sample_back [10, 20, 30])"
proof -
  obtain w0 capsule where run: "same_but_rng sample_world w0"
      "encrypt_file_keypairs sample_prims sample_postcard sample_in sample_out [sample_pk] Fast None False
        sample_world = (Inr (), put_file w0 sample_out capsule)"
    using sample_keypair_run by blast
  have "key_pair sample_prims sample_sk ([sample_pk] ! 0)" using sample_pair by simp
  from keypair_round_trip [OF _ _ _ run(2) sample_lookup _ _ this _ sample_outputs(3) [OF run(1)]
      sample_outputs(2) [OF run(1)]] run(2)
  show ?thesis by simp
qed

text \<open>The envelope and capsule of the password run.\<close>

lemma sample_capsule:
  obtains w1 e fek capsule where
    "encrypt_file_password sample_prims sample_postcard sample_in sample_out [1] None Fast None False
        sample_world = (Inr (), w1)"
    "lookup w1 sample_out = Some (Regular capsule)" "calm w1 sample_out" "output_ok w1 sample_back"
    "capsule_of sample_prims sample_postcard e fek [10, 20, 30] capsule"
    "unwrap_password_file_key sample_prims e [1] None = Inr fek" "plaintext_len e = 3"
    "h_version (header e) = CURRENT_VERSION"
proof -
  obtain w0 capsule where run: "same_but_rng sample_world w0"
      "encrypt_file_password sample_prims sample_postcard sample_in sample_out [1] None Fast None False
        sample_world = (Inr (), put_file w0 sample_out capsule)"
    using sample_password_run by blast
  from run(2) have run': "encrypt_file_password_with_content_type sample_prims sample_postcard sample_in
      sample_out [1] None Fast None False None sample_world = (Inr (), put_file w0 sample_out capsule)"
    by (simp add: encrypt_file_password_def)
  show ?thesis
  proof (rule encrypt_file_password_Inr [OF run' _ sample_lookup])
    fix e fek c v
    assume *: "same_but_rng sample_world v" "put_file w0 sample_out capsule = put_file v sample_out c"
      "capsule_of sample_prims sample_postcard e fek [10, 20, 30] c"
      "unwrap_password_file_key sample_prims e [1] None = Inr fek"
      "plaintext_len e = of_nat (length [10 :: byte, 20, 30])" "h_version (header e) = CURRENT_VERSION"
    have "lookup (put_file v sample_out c) sample_out = Some (Regular c)"
      by (rule lookup_put_file) simp
    then show thesis
      using that [OF run(2)] * sample_outputs(2,3) [OF *(1)] by simp
  qed simp
qed

lemma sample_is_ok_keys: "payload_algorithm alg \<Longrightarrow> is_ok (derive_payload_keys (cip sample_prims) hk alg)"
  by (auto simp: payload_algorithm_def derive_subkey_def sample_prims_def sample_ciphers_def)

theorem decoded_envelope_limits_witness:
  "\<exists>bs e. decode_envelope_bytes sample_prims sample_postcard bs = Inr e \<and>
     length (h_recipients (header e)) \<le> MAX_RECIPIENTS"
proof -
  obtain e fek capsule where "capsule_of sample_prims sample_postcard e fek [10, 20, 30] capsule"
    using sample_capsule by metis
  then obtain bs where "decode_envelope_bytes sample_prims sample_postcard bs = Inr e"
    unfolding capsule_of_def using decode_encoded sample_postcard_ok by metis
  with decoded_envelope_limits [OF this] show ?thesis by blast
qed

theorem decrypt_output_all_or_nothing_witness:
  "\<exists>w r w'. decrypt_file_password sample_prims sample_postcard sample_out sample_back [2] None w = (r, w') \<and>
     w' \<noteq> put_file w sample_back [1]"
proof -
  obtain r w' where run: "decrypt_file_password sample_prims sample_postcard sample_out sample_back [2] None
      sample_world = (r, w')" by fastforce
  have "lookup sample_world sample_out = None" by (simp add: lookup_def)
  with decrypt_output_all_or_nothing [OF _ run] have "w' = sample_world" by auto
  moreover have "sample_world \<noteq> put_file sample_world sample_back [1]"
  proof
    assume "sample_world = put_file sample_world sample_back [1]"
    then have "w_fs sample_world [''d'', ''back''] = w_fs (put_file sample_world sample_back [1]) [''d'', ''back'']"
      by simp
    then show False by (simp add: w_fs_put_file)
  qed
  ultimately show ?thesis using run by blast
qed

theorem verify_agrees_with_decrypt_witness:
  "\<exists>w. fst (verify_file_password sample_prims sample_postcard sample_out [1] None w) = Inr ()"
proof -
  obtain w1 e fek capsule where *: "lookup w1 sample_out = Some (Regular capsule)" "calm w1 sample_out"
      "capsule_of sample_prims sample_postcard e fek [10, 20, 30] capsule"
      "unwrap_password_file_key sample_prims e [1] None = Inr fek" "plaintext_len e = 3"
    using sample_capsule by metis
  have "decrypt_memory_password sample_prims sample_postcard capsule [1] None = Inr [10, 20, 30]"
    unfolding decrypt_with
    by (rule decrypt_memory_capsule [OF *(3)]) (use *(4,5) in \<open>simp_all add: quiet_def cursor_def\<close>)
  with verify_agrees_with_decrypt [OF _ *(1,2)] show ?thesis by (metis is_ok_simps(2) sample_prims_ok(2))
qed

theorem bare_output_name_reports_error_witness:
  "persist_temp_file (fresh_writer None) (Path False [''capsule.lvau'']) sample_world =
     (Inl (Io NotFound), put_file sample_world (Path False [''capsule.lvau'']) [])"
proof -
  have "w_fs sample_world (resolve sample_world (Path False [''capsule.lvau''])) \<noteq> Some Directory"
    by (simp add: resolve_def sample_world_def)
  from bare_output_name_reports_error [OF this, of "fresh_writer None"] show ?thesis by simp
qed

theorem forged_empty_capsule_accepted_witness:
  "\<exists>encoded. decrypt_memory_password sample_prims sample_postcard (capsule_bytes encoded []) [1] None = Inr []"
proof -
  obtain e fek capsule where *: "capsule_of sample_prims sample_postcard e fek [10, 20, 30] capsule"
      "unwrap_password_file_key sample_prims e [1] None = Inr fek" "h_version (header e) = CURRENT_VERSION"
    using sample_capsule by metis
  then obtain encoded where enc: "pc_envelope sample_postcard e = Some encoded" "encoded \<noteq> []"
      "length encoded \<le> MAX_ENVELOPE_SIZE" "validate e = Inr ()" "validate_envelope_resources e = Inr ()"
      "verify_aad_hash sample_prims sample_postcard e = Inr ()"
    unfolding capsule_of_def by blast
  have dec: "decode_envelope_bytes sample_prims sample_postcard encoded = Inr e"
    using decode_encoded [OF sample_postcard_ok] enc by blast
  have hash: "compute_aad_hash sample_prims sample_postcard (e\<lparr>plaintext_len := 0\<rparr>) =
      Inr (sha256 sample_prims PAYLOAD_AAD_V2_DOMAIN)"
    and "aad_hash e = sha256 sample_prims PAYLOAD_AAD_V2_DOMAIN"
    using *(3) enc(6) by (auto simp: compute_aad_hash_def sample_postcard_def verify_aad_hash_def res_elims)
  then have len: "length (aad_hash e) = 32" by simp
  let ?f = "e\<lparr>plaintext_len := 0, aad_hash := sha256 sample_prims PAYLOAD_AAD_V2_DOMAIN\<rparr>"
  have "length (fst c_envelope ?f) = length (fst c_envelope e)"
    using len by (simp add: c_envelope_def len_simps)
  with enc(1,2,3) have size: "fst c_envelope ?f \<noteq> []" "length (fst c_envelope ?f) \<le> MAX_ENVELOPE_SIZE"
    by (auto simp: sample_postcard_def)
  have keys: "is_ok (derive_payload_keys (cip sample_prims) (hkdf_new (cip sample_prims) None fek) (h_algorithm (header e)))"
    using decoded_envelope_facts [OF dec] by (intro sample_is_ok_keys) simp
  have pc: "pc_envelope sample_postcard ?f = Some (fst c_envelope ?f)"
    by (simp add: sample_postcard_def)
  from forged_empty_capsule_accepted [OF _ _ dec *(3,2) keys hash pc size] show ?thesis by auto
qed

theorem stale_length_capsule_unreadable_witness:
  "\<exists>e w w' capsule. write_envelope_and_payload sample_prims sample_postcard sample_out e XChaCha20Poly1305
      (hkdf_new (cip sample_prims) None [7]) (cursor [10, 20]) w = (Inr (), w') \<and> plaintext_len e = 3 \<and>
    lookup w' sample_out = Some (Regular capsule) \<and>
    \<not> is_ok (decrypt_memory_with sample_prims sample_postcard (\<lambda>_. Inr [7]) (cursor capsule))"
proof -
  let ?kdf = "Argon2id 16384 1 1 (replicate 16 1)"
  let ?r = "RPassword (replicate 24 1) (replicate 48 1)"
  let ?e = "sample_env ?r (Some ?kdf)"
  have hd: "h_algorithm (header ?e) = XChaCha20Poly1305" "plaintext_len ?e = 3" "h_version (header ?e) = CURRENT_VERSION"
    by (simp_all add: sample_env_for_def new_envelope_def)
  have size: "length (fst c_recipient ?r) \<le> 3000" "length (fst (c_option c_kdf) (Some ?kdf)) \<le> 3000"
    by (simp_all add: c_recipient_def c_kdf_def recipient_tuple_def len_simps)
  obtain ct where ct: "seal_for sample_prims ?e (hkdf_new (cip sample_prims) None [7]) [10, 20] = Inr ct"
    using sample_seal_env [of "[10, 20]" Fast 3 None ?r "Some ?kdf" "hkdf_new (cip sample_prims) None [7]"]
    by (auto simp: CHUNK_SIZE_def)
  have ct': "seal_for sample_prims ?e (hkdf_new (cip sample_prims) None [7]) (r_data (cursor [10, 20])) = Inr ct"
    using ct by (simp add: cursor_def)
  have enc: "pc_envelope sample_postcard ?e = Some (fst c_envelope ?e)" "fst c_envelope ?e \<noteq> []"
      "length (fst c_envelope ?e) \<le> MAX_ENVELOPE_SIZE"
    using sample_env_size [OF size] by (simp_all add: sample_postcard_def)
  have rd: "quiet (cursor [10, 20])" "length (r_data (cursor [10, 20])) + 1 < 2 ^ 64"
    by (simp_all add: quiet_def cursor_def)
  have res: "validate_envelope_resources ?e = Inr ()"
    by (simp add: sample_env_for_def validate_envelope_resources_def new_envelope_def is_password_def
        MAX_RECIPIENTS_def needs_secondary_nonce_def)
  have hash: "verify_aad_hash sample_prims sample_postcard ?e = Inr ()"
    by (simp add: verify_aad_hash_def sample_env_for_def)
      (simp add: compute_aad_hash_def new_envelope_def sample_postcard_def)
  have val: "validate ?e = Inr ()" by (simp add: sample_env_for_def)
  have stale: "length (r_data (cursor [10, 20])) \<noteq> unat (plaintext_len ?e)"
    by (simp add: hd cursor_def)
  from stale_length_capsule_unreadable [OF sample_prims_ok(2) sample_postcard_ok val res hash enc ct' rd
      sample_outputs(1) [OF same_but_rng_refl] stale] hd
  show ?thesis by metis
qed

end
