(* ===== verification/Containers.thy ===== *)
theory Containers
  imports Capsule_Safety
begin

text \<open>
  What the functions that annotate a finished capsule share: reading a whole file, the locale
  \<open>capsule_container\<close> for the functions that split a capsule into envelope and payload
  (signing.rs and release.rs each have one), and the locale \<open>annotation\<close> for changes of an
  envelope that leave everything the payload is bound to alone.
\<close>

section \<open>Whole files\<close>

text \<open>\<open>path.exists()\<close> and \<open>fs::read\<close>\<close>

definition path_exists :: "world \<Rightarrow> path \<Rightarrow> bool" where
  "path_exists w p \<longleftrightarrow> lookup w p \<noteq> None"

definition fs_read :: "path \<Rightarrow> (world, io_error, bytes) action" where
  "fs_read p = act (open_file p) (\<lambda>rd. lift (fst (fill (length (r_data rd) + 1) [] rd)))"

lemma fs_read_Inr:
  assumes "fs_read p w = (Inr bs, w')"
  shows "w' = w" "bs \<noteq> [] \<Longrightarrow> lookup w p = Some (Regular bs)"
proof -
  from assms obtain rd w1 where rd: "open_file p w = (Inr rd, w1)" "w' = w1"
      "fst (fill (length (r_data rd) + 1) [] rd) = Inr bs"
    by (auto simp: fs_read_def res_elims)
  from open_file_Inr [OF rd(1)] rd(2) show "w' = w" by simp
  obtain rd' where "fill (length (r_data rd) + 1) [] rd = (Inr bs, rd')"
    using rd(3) by (metis prod.collapse)
  from fill_Inr [OF this] have "bs = r_data rd" by simp
  then show "lookup w p = Some (Regular bs)" if "bs \<noteq> []"
    using open_file_data [OF rd(1)] that by simp
qed

lemma fs_read_world: "snd (fs_read p w) = w"
  using pure_ops(1) [of p w] by (auto simp: fs_read_def act_def split: prod.splits sum.splits)

lemma fs_read_calm:
  assumes "lookup w p = Some (Regular bs)" "calm w p"
  shows "fs_read p w = (Inr bs, w)"
proof -
  let ?rd = "\<lparr>r_data = bs, r_events = w_script w (resolve w p)\<rparr>"
  have "quiet ?rd" using assms(2) by (simp add: quiet_def calm_def)
  then obtain rd' where "fill (length bs + 1) [] ?rd = (Inr (take (length bs + 1) bs), rd')"
    using fill_quiet_eq [of ?rd "length bs + 1"] by auto
  then show ?thesis using assms(1) by (simp add: fs_read_def act_def)
qed

section \<open>Splitting a capsule\<close>

lemma read_exact_cursor:
  "n \<le> length bs \<Longrightarrow> read_exact n (cursor bs) = (Inr (take n bs), cursor (drop n bs))"
  by (cases "n = 0")
    (auto simp: read_exact_def cursor_def read_def fill.simps [of n "[]"] fill.simps [of n "take n bs"] fill.simps [of 0])

lemma read_envelope_cursor:
  assumes "encoded \<noteq> []" "length encoded \<le> MAX_ENVELOPE_SIZE"
  shows "read_envelope P S (cursor (capsule_bytes encoded rest)) =
    rbind (decode_envelope_bytes P S encoded) (\<lambda>e. Inr (e, cursor rest))"
  using assms
  by (simp add: read_envelope_def capsule_bytes_def read_exact_cursor encoded_length)

text \<open>
  The contract of a splitting function: it accepts exactly the capsules whose envelope the
  crypto module decodes, and returns what follows the envelope unchanged.
\<close>

locale capsule_container =
  fixes P :: prims and S :: postcard and split_capsule :: "bytes \<Rightarrow> 'e + envelope \<times> bytes"
  assumes split_iff: "split_capsule data = Inr (e, rest) \<longleftrightarrow>
    (\<exists>encoded. data = capsule_bytes encoded rest \<and> encoded \<noteq> [] \<and>
       length encoded \<le> MAX_ENVELOPE_SIZE \<and> decode_envelope_bytes P S encoded = Inr e)"
begin

lemma split_Inr:
  assumes "split_capsule data = Inr (e, rest)"
  obtains encoded where "data = capsule_bytes encoded rest" "encoded \<noteq> []"
    "length encoded \<le> MAX_ENVELOPE_SIZE" "decode_envelope_bytes P S encoded = Inr e"
  using assms split_iff by blast

lemma split_capsule_bytes:
  "encoded \<noteq> [] \<Longrightarrow> length encoded \<le> MAX_ENVELOPE_SIZE \<Longrightarrow>
     decode_envelope_bytes P S encoded = Inr e \<Longrightarrow> split_capsule (capsule_bytes encoded rest) = Inr (e, rest)"
  using split_iff by blast

lemma split_nonempty: "split_capsule data = Inr (e, rest) \<Longrightarrow> data \<noteq> []"
  by (elim split_Inr) simp

text \<open>It sees the same envelope and payload as \<open>read_envelope\<close>.\<close>

lemma split_reads:
  "split_capsule data = Inr (e, rest) \<Longrightarrow> read_envelope P S (cursor data) = Inr (e, cursor rest)"
  by (elim split_Inr) (simp add: read_envelope_cursor)

end

lemma u32_le_nat_of: "length b = 4 \<Longrightarrow> u32_to_le_bytes (of_nat (unat (u32_from_le_bytes b))) = b"
  using u32_to_from_le_bytes by simp

text \<open>
  Both implementations read the length with \<open>get(..4)\<close> and the envelope with \<open>get(4..end)\<close>.
\<close>

lemma container_layout:
  "(\<exists>len_bytes encoded. get_range 0 4 data = Some len_bytes \<and> n = unat (u32_from_le_bytes len_bytes) \<and>
      n \<noteq> 0 \<and> n \<le> MAX_ENVELOPE_SIZE \<and> get_range 4 (4 + n) data = Some encoded \<and>
      rest = drop (4 + n) data \<and> Q encoded) \<longleftrightarrow>
   (\<exists>encoded. n = length encoded \<and> data = capsule_bytes encoded rest \<and> encoded \<noteq> [] \<and>
      length encoded \<le> MAX_ENVELOPE_SIZE \<and> Q encoded)" (is "?l \<longleftrightarrow> ?r")
proof
  assume ?l
  then obtain encoded where *: "4 \<le> length data" "n = unat (u32_from_le_bytes (take 4 data))" "n \<noteq> 0"
      "n \<le> MAX_ENVELOPE_SIZE" "4 + n \<le> length data" "encoded = take n (drop 4 data)"
      "rest = drop (4 + n) data" "Q encoded"
    by (auto simp: get_range_def split: if_splits)
  then have n: "length encoded = n" by simp
  have "data = take 4 data @ encoded @ rest"
    using * by (metis append_take_drop_id drop_drop add.commute)
  moreover have "take 4 data = u32_to_le_bytes (of_nat n)"
    using u32_le_nat_of [of "take 4 data"] * by simp
  ultimately have "data = capsule_bytes encoded rest" by (simp add: capsule_bytes_def n)
  moreover have "encoded \<noteq> []" using n * by auto
  ultimately show ?r using n [symmetric] *(4,8) by (intro exI [of _ encoded]) simp
next
  assume ?r
  then obtain encoded where *: "n = length encoded" "data = capsule_bytes encoded rest" "encoded \<noteq> []"
      "length encoded \<le> MAX_ENVELOPE_SIZE" "Q encoded" by blast
  let ?len = "u32_to_le_bytes (of_nat n)"
  have d: "data = ?len @ encoded @ rest" using *(1,2) by (simp only: capsule_bytes_def)
  have "get_range 0 4 data = Some ?len" unfolding d by (rule get_range_prefix) simp
  moreover have "get_range 4 (4 + n) data = Some encoded"
    using get_range_append [of ?len encoded rest] by (simp only: d *(1) length_u32_to_le_bytes)
  moreover have "rest = drop (4 + n) data" by (simp add: d *(1))
  moreover have "n = unat (u32_from_le_bytes ?len)" using encoded_length [OF *(4)] by (simp add: *(1))
  ultimately show ?l using *(1,3-5) by blast
qed

section \<open>Annotations\<close>

text \<open>
  Signature, approvals, release and recovery metadata lie outside the hash of the payload's
  associated data. A function that changes only those keeps the capsule readable.
\<close>

locale annotation =
  fixes annotate :: "envelope \<Rightarrow> envelope"
  assumes keeps:
    "header (annotate e) = header e" "payload_aad_of (annotate e) = payload_aad_of e"
    "aad_hash (annotate e) = aad_hash e"
begin

lemma keeps_fields:
  "plaintext_len (annotate e) = plaintext_len e" "e_nonce (annotate e) = e_nonce e"
  "secondary_nonce (annotate e) = secondary_nonce e"
  using keeps(2) [of e] by (simp_all add: payload_aad_of_def)

lemma keeps_checks:
  "validate (annotate e) = validate e"
  "validate_envelope_resources (annotate e) = validate_envelope_resources e"
  "verify_aad_hash P S (annotate e) = verify_aad_hash P S e"
proof -
  show "validate (annotate e) = validate e" by (simp only: validate_def keeps)
  show "validate_envelope_resources (annotate e) = validate_envelope_resources e"
    by (rule validate_resources_cong [OF keeps(1) keeps_fields(3)])
  show "verify_aad_hash P S (annotate e) = verify_aad_hash P S e"
    by (simp only: verify_aad_hash_def compute_aad_hash_def keeps)
qed

lemma annotated_decodes:
  assumes "postcard_ok S" "decode_envelope_bytes P S encoded = Inr e"
    "pc_envelope S (annotate e) = Some encoded'"
  shows "decode_envelope_bytes P S encoded' = Inr (annotate e)"
  using decode_encoded [OF assms(1,3)] decode_envelope_Inr [OF assms(2)] by (simp only: keeps_checks)

lemma keeps_payload:
  "decrypt_payload_into P (annotate e) hk rd wr = decrypt_payload_into P e hk rd wr"
  by (simp only: decrypt_payload_into_def keeps keeps_fields)

lemma annotated_decrypts:
  assumes "decode_envelope_bytes P S encoded = Inr e" "encoded \<noteq> []" "length encoded \<le> MAX_ENVELOPE_SIZE"
    and "postcard_ok S" "pc_envelope S (annotate e) = Some encoded'" "encoded' \<noteq> []"
      "length encoded' \<le> MAX_ENVELOPE_SIZE" "unlock (annotate e) = unlock e"
  shows "decrypt_memory_with P S unlock (cursor (capsule_bytes encoded' rest)) =
    decrypt_memory_with P S unlock (cursor (capsule_bytes encoded rest))"
  using annotated_decodes [OF assms(4,1,5)] assms
  by (simp add: decrypt_memory_with_def read_envelope_cursor keeps_payload)

lemma keeps_unlock:
  "unwrap_password_file_key P (annotate e) pw seed = unwrap_password_file_key P e pw seed"
  "unwrap_keypair_file_key P (annotate e) sk = unwrap_keypair_file_key P e sk"
  by (simp_all only: unwrap_password_file_key_def unwrap_keypair_file_key_def keeps)

lemma annotated_decrypts_both:
  assumes "decode_envelope_bytes P S encoded = Inr e" "encoded \<noteq> []" "length encoded \<le> MAX_ENVELOPE_SIZE"
    and "postcard_ok S" "pc_envelope S (annotate e) = Some encoded'" "encoded' \<noteq> []"
      "length encoded' \<le> MAX_ENVELOPE_SIZE"
  shows "decrypt_memory_password P S (capsule_bytes encoded' rest) pw seed =
      decrypt_memory_password P S (capsule_bytes encoded rest) pw seed"
    "decrypt_memory_keypair P S (capsule_bytes encoded' rest) sk =
      decrypt_memory_keypair P S (capsule_bytes encoded rest) sk"
  unfolding decrypt_with by (rule annotated_decrypts [OF assms]; simp only: keeps_unlock)+

end

end
