(* ===== verification/Signing.thy ===== *)
theory Signing
  imports Containers
begin

text \<open>
  Ed25519 signatures and approval seals on capsules (signing.rs). Ed25519, base64 and JSON are
  third-party code and appear as the records \<open>ed25519\<close> and \<open>key_json\<close>; the reading of the
  clock is an argument. The world has no file modes: \<open>write_private_atomic\<close> sets 0600 on a
  temporary file that the tempfile crate creates with that mode, so on Unix it does what
  \<open>write_atomic\<close> does.
\<close>

section \<open>Third-party code\<close>

record ed25519 =
  ed_public :: "bytes \<Rightarrow> bytes"
  ed_sign :: "bytes \<Rightarrow> bytes \<Rightarrow> bytes"
  ed_verify :: "bytes \<Rightarrow> bytes \<Rightarrow> bytes \<Rightarrow> bool"
  ed_point_ok :: "bytes \<Rightarrow> bool"

text \<open>Signatures are 64 bytes and verify; public keys are 32 bytes that parse.\<close>

definition ed25519_ok :: "ed25519 \<Rightarrow> bool" where
  "ed25519_ok D \<longleftrightarrow> (\<forall>seed m. length (ed_sign D seed m) = 64 \<and>
     ed_verify D (ed_public D seed) m (ed_sign D seed m) \<and>
     length (ed_public D seed) = 32 \<and> ed_point_ok D (ed_public D seed))"

text \<open>The two key-file structures have one field, the base64 text.\<close>

record signing_key_file = ed25519_signing_key :: string

record verify_key_file = ed25519_verify_key :: string

record key_json =
  base64_encode :: "bytes \<Rightarrow> string"
  base64_decode :: "string \<Rightarrow> bytes option"
  js_signing_key :: "signing_key_file \<Rightarrow> bytes option"
  js_parse_signing_key :: "bytes \<Rightarrow> signing_key_file option"
  js_verify_key :: "verify_key_file \<Rightarrow> bytes option"
  js_parse_verify_key :: "bytes \<Rightarrow> verify_key_file option"

text \<open>Decoding undoes encoding, and JSON text is UTF-8.\<close>

definition key_json_ok :: "key_json \<Rightarrow> bool" where
  "key_json_ok J \<longleftrightarrow> (\<forall>b. base64_decode J (base64_encode J b) = Some b) \<and>
     (\<forall>k b. js_signing_key J k = Some b \<longrightarrow> js_parse_signing_key J b = Some k \<and> utf8_valid b) \<and>
     (\<forall>k b. js_verify_key J k = Some b \<longrightarrow> js_parse_verify_key J b = Some k \<and> utf8_valid b)"

section \<open>Errors and constants\<close>

datatype signing_error =
    SIo io_error
  | SSerialization
  | VerificationFailed
  | InvalidKey string
  | InvalidEnvelope
  | SOutputExists path
  | NotSigned

definition AUTHOR_SIGNATURE_V2_DOMAIN :: bytes where
  "AUTHOR_SIGNATURE_V2_DOMAIN = ascii ''Lvau author signature v2'' @ [0]"

definition APPROVAL_SIGNATURE_V2_DOMAIN :: bytes where
  "APPROVAL_SIGNATURE_V2_DOMAIN = ascii ''Lvau approval signature v2'' @ [0]"

definition APPROVAL_ARTIFACT_V2_DOMAIN :: bytes where
  "APPROVAL_ARTIFACT_V2_DOMAIN = ascii ''Lvau approval artifact v2'' @ [0]"

definition MAX_SIGNING_KEY_FILE_SIZE :: nat where "MAX_SIGNING_KEY_FILE_SIZE = 64 * 1024"

section \<open>Files\<close>

definition signing_read_key_file :: "path \<Rightarrow> (world, signing_error, bytes) action" where
  "signing_read_key_file =
     read_limited MAX_SIGNING_KEY_FILE_SIZE (InvalidKey ''Key file is invalid or too large'') SIo"

definition refuse_existing :: "path \<Rightarrow> bool \<Rightarrow> (world, signing_error, unit) action" where
  "refuse_existing p force w =
     (if path_exists w p \<and> \<not> force then (Inl (SOutputExists p), w) else (Inr (), w))"

text \<open>The part of \<open>write_atomic\<close> that names the finished temporary file.\<close>

definition signing_commit :: "bool \<Rightarrow> writer \<Rightarrow> path \<Rightarrow> (world, signing_error, unit) action" where
  "signing_commit force temp p =
     act (act_map_err SIo (if force then persist temp p else persist_noclobber temp p)) (\<lambda>_.
       act_map_err SIo (sync_path (parent_or_dot p)))"

definition signing_write_atomic :: "path \<Rightarrow> bytes \<Rightarrow> bool \<Rightarrow> (world, signing_error, unit) action" where
  "signing_write_atomic p bs force =
     act (refuse_existing p force) (\<lambda>_.
     act (act_map_err SIo (new_in (parent_or_dot p))) (\<lambda>temp.
     act (lift (case write_all bs temp of (Inl e, _) \<Rightarrow> Inl (SIo e) | (Inr _, t) \<Rightarrow> Inr t)) (\<lambda>temp.
     act (act_map_err SIo sync_temp) (\<lambda>_.
       signing_commit force temp p))))"

definition write_private_atomic :: "path \<Rightarrow> bytes \<Rightarrow> bool \<Rightarrow> (world, signing_error, unit) action" where
  "write_private_atomic p bs force = signing_write_atomic p bs force"

section \<open>Capsules\<close>

definition signing_encode_envelope :: "postcard \<Rightarrow> envelope \<Rightarrow> signing_error + bytes" where
  "signing_encode_envelope S e =
     rbind (ok_or SSerialization (pc_envelope S e)) (\<lambda>bs.
     rbind (ensure (bs \<noteq> [] \<and> length bs \<le> MAX_ENVELOPE_SIZE) InvalidEnvelope) (\<lambda>_. Inr bs))"

definition decode_capsule_parts :: "prims \<Rightarrow> postcard \<Rightarrow> bytes \<Rightarrow> signing_error + envelope \<times> bytes" where
  "decode_capsule_parts P S data =
     rbind (ok_or InvalidEnvelope (get_range 0 4 data)) (\<lambda>length_bytes.
     let envelope_len = unat (u32_from_le_bytes length_bytes) in
     rbind (ensure (envelope_len \<noteq> 0 \<and> envelope_len \<le> MAX_ENVELOPE_SIZE) InvalidEnvelope) (\<lambda>_.
     let envelope_end = 4 + envelope_len in
     rbind (ok_or InvalidEnvelope (get_range 4 envelope_end data)) (\<lambda>envelope_bytes.
     rbind (map_err (\<lambda>_. InvalidEnvelope) (decode_envelope_bytes P S envelope_bytes)) (\<lambda>e.
       Inr (e, drop envelope_end data)))))"

text \<open>The output both annotating functions assemble.\<close>

definition signing_output :: "bytes \<Rightarrow> bytes \<Rightarrow> signing_error + bytes" where
  "signing_output encoded ciphertext =
     rbind (ensure (length encoded < 2 ^ 32) InvalidEnvelope) (\<lambda>_.
       Inr (u32_to_le_bytes (of_nat (length encoded)) @ encoded @ ciphertext))"

section \<open>What is signed\<close>

definition key_fingerprint :: "prims \<Rightarrow> bytes \<Rightarrow> bytes" where
  "key_fingerprint P verify_key = sha256 P verify_key"

definition author_signature_message :: "postcard \<Rightarrow> envelope \<Rightarrow> bytes \<Rightarrow> signing_error + bytes" where
  "author_signature_message S e ciphertext =
     rbind (if CURRENT_VERSION \<le> h_version (header e)
         then rbind (ok_or NotSigned (e_signature e)) (\<lambda>sig.
           Inr (e\<lparr>e_signature := Some (sig\<lparr>sig_bytes := []\<rparr>), approvals := []\<rparr>, AUTHOR_SIGNATURE_V2_DOMAIN))
         else Inr (e\<lparr>e_signature := None\<rparr>, [])) (\<lambda>(statement, domain).
     rbind (ok_or SSerialization (pc_envelope S statement)) (\<lambda>envelope_bytes.
       Inr (domain @ envelope_bytes @ ciphertext)))"

definition approval_signature_message ::
  "prims \<Rightarrow> postcard \<Rightarrow> envelope \<Rightarrow> bytes \<Rightarrow> approval_signature \<Rightarrow> signing_error + bytes" where
  "approval_signature_message P S e ciphertext approval =
     (if h_version (header e) < CURRENT_VERSION then Inr (aad_hash e)
      else
        rbind (ok_or SSerialization (pc_envelope S (e\<lparr>approvals := []\<rparr>))) (\<lambda>artifact_bytes.
        let artifact_digest = sha256 P (APPROVAL_ARTIFACT_V2_DOMAIN @ artifact_bytes @ ciphertext) in
        rbind (ok_or SSerialization (pc_comment S (ap_comment approval))) (\<lambda>comment_bytes.
          Inr (APPROVAL_SIGNATURE_V2_DOMAIN @ artifact_digest @ ap_fingerprint approval @ comment_bytes))))"

section \<open>Key files\<close>

definition generate_signing_keypair :: "ed25519 \<Rightarrow> (world, crypto_error, bytes \<times> bytes) action" where
  "generate_signing_keypair D = act (fill_bytes 32) (\<lambda>signing_key. ret (signing_key, ed_public D signing_key))"

definition save_signing_key :: "key_json \<Rightarrow> bytes \<Rightarrow> path \<Rightarrow> bool \<Rightarrow> (world, signing_error, unit) action" where
  "save_signing_key J key p force =
     act (refuse_existing p force) (\<lambda>_.
     act (lift (ok_or (InvalidKey ''JSON serialization failed'')
       (js_signing_key J \<lparr>ed25519_signing_key = base64_encode J key\<rparr>))) (\<lambda>json.
       write_private_atomic p json force))"

definition load_signing_key :: "key_json \<Rightarrow> path \<Rightarrow> (world, signing_error, bytes) action" where
  "load_signing_key J p =
     act (signing_read_key_file p) (\<lambda>json.
     act (lift (ok_or (InvalidKey ''Invalid signing key JSON'') (js_parse_signing_key J json))) (\<lambda>file_data.
     act (lift (ok_or (InvalidKey ''Invalid base64 in signing key'')
       (base64_decode J (ed25519_signing_key file_data)))) (\<lambda>bs.
     act (lift (ensure (length bs = 32) (InvalidKey ''Signing key must be 32 bytes''))) (\<lambda>_. ret bs))))"

definition save_verify_key :: "key_json \<Rightarrow> bytes \<Rightarrow> path \<Rightarrow> bool \<Rightarrow> (world, signing_error, unit) action" where
  "save_verify_key J key p force =
     act (refuse_existing p force) (\<lambda>_.
     act (lift (ok_or (InvalidKey ''JSON serialization failed'')
       (js_verify_key J \<lparr>ed25519_verify_key = base64_encode J key\<rparr>))) (\<lambda>json.
       signing_write_atomic p json force))"

definition load_verify_key :: "ed25519 \<Rightarrow> key_json \<Rightarrow> path \<Rightarrow> (world, signing_error, bytes) action" where
  "load_verify_key D J p =
     act (signing_read_key_file p) (\<lambda>json.
     act (lift (ok_or (InvalidKey ''Invalid verify key JSON'') (js_parse_verify_key J json))) (\<lambda>file_data.
     act (lift (ok_or (InvalidKey ''Invalid base64 in verify key'')
       (base64_decode J (ed25519_verify_key file_data)))) (\<lambda>bs.
     act (lift (ensure (length bs = 32) (InvalidKey ''Verify key must be 32 bytes''))) (\<lambda>_.
     act (lift (ensure (ed_point_ok D bs) (InvalidKey ''Invalid Ed25519 verify key''))) (\<lambda>_. ret bs)))))"

section \<open>Signing and verifying\<close>

text \<open>\<open>now\<close> is the number of seconds since the epoch, \<open>None\<close> for a clock before it.\<close>

definition sign_envelope ::
  "prims \<Rightarrow> postcard \<Rightarrow> ed25519 \<Rightarrow> nat option \<Rightarrow> bytes \<Rightarrow> string option \<Rightarrow> envelope \<Rightarrow> bytes \<Rightarrow>
   signing_error + envelope" where
  "sign_envelope P S D now signing_key comment e0 ciphertext =
     (let e1 = e0\<lparr>e_signature := Some
            \<lparr>sig_fingerprint = key_fingerprint P (ed_public D signing_key), sig_bytes = [],
             sig_created_at = map_option (\<lambda>secs. decimal secs @ ''Z'') now, sig_comment = comment\<rparr>\<rparr>
      in rbind (author_signature_message S e1 ciphertext) (\<lambda>m.
           Inr (e1\<lparr>e_signature := map_option (\<lambda>s. s\<lparr>sig_bytes := ed_sign D signing_key m\<rparr>) (e_signature e1)\<rparr>)))"

definition sign_file ::
  "prims \<Rightarrow> postcard \<Rightarrow> ed25519 \<Rightarrow> nat option \<Rightarrow> path \<Rightarrow> path \<Rightarrow> bytes \<Rightarrow> string option \<Rightarrow> bool \<Rightarrow>
   (world, signing_error, unit) action" where
  "sign_file P S D now in_file out_file signing_key comment force =
     act (refuse_existing out_file force) (\<lambda>_.
     act (act_map_err SIo (fs_read in_file)) (\<lambda>data.
     act (lift (decode_capsule_parts P S data)) (\<lambda>(e0, ciphertext).
     act (lift (sign_envelope P S D now signing_key comment e0 ciphertext)) (\<lambda>e.
     act (lift (signing_encode_envelope S e)) (\<lambda>encoded.
     act (lift (signing_output encoded ciphertext)) (\<lambda>output.
       signing_write_atomic out_file output force))))))"

definition check_signature ::
  "prims \<Rightarrow> postcard \<Rightarrow> ed25519 \<Rightarrow> bytes \<Rightarrow> envelope \<Rightarrow> bytes \<Rightarrow> signing_error + bytes" where
  "check_signature P S D verify_key e ciphertext =
     rbind (ok_or NotSigned (e_signature e)) (\<lambda>sig_data.
     rbind (ensure (length (sig_bytes sig_data) = 64) VerificationFailed) (\<lambda>_.
     let actual_fingerprint = key_fingerprint P verify_key in
     rbind (ensure (sig_fingerprint sig_data = actual_fingerprint) VerificationFailed) (\<lambda>_.
     rbind (author_signature_message S e ciphertext) (\<lambda>m.
     rbind (ensure (ed_verify D verify_key m (sig_bytes sig_data)) VerificationFailed) (\<lambda>_.
       Inr actual_fingerprint)))))"

definition verify_signature ::
  "prims \<Rightarrow> postcard \<Rightarrow> ed25519 \<Rightarrow> path \<Rightarrow> bytes \<Rightarrow> (world, signing_error, bytes) action" where
  "verify_signature P S D in_file verify_key =
     act (act_map_err SIo (fs_read in_file)) (\<lambda>data.
     act (lift (decode_capsule_parts P S data)) (\<lambda>(e, ciphertext).
       lift (check_signature P S D verify_key e ciphertext)))"

definition has_signature :: "prims \<Rightarrow> postcard \<Rightarrow> path \<Rightarrow> (world, signing_error, bytes option) action" where
  "has_signature P S in_file =
     act (act_map_err SIo (fs_read in_file)) (\<lambda>data.
     act (lift (decode_capsule_parts P S data)) (\<lambda>(e, _).
       ret (map_option sig_fingerprint (e_signature e))))"

section \<open>Approval seals\<close>

definition seal_envelope ::
  "prims \<Rightarrow> postcard \<Rightarrow> ed25519 \<Rightarrow> bytes \<Rightarrow> string option \<Rightarrow> envelope \<Rightarrow> bytes \<Rightarrow> signing_error + envelope" where
  "seal_envelope P S D signing_key comment e ciphertext =
     (let approval = \<lparr>ap_fingerprint = key_fingerprint P (ed_public D signing_key), ap_signature = [],
            ap_comment = comment\<rparr>
      in rbind (approval_signature_message P S e ciphertext approval) (\<lambda>m.
           Inr (e\<lparr>approvals := approvals e @ [approval\<lparr>ap_signature := ed_sign D signing_key m\<rparr>]\<rparr>)))"

definition add_approval_seal ::
  "prims \<Rightarrow> postcard \<Rightarrow> ed25519 \<Rightarrow> path \<Rightarrow> path \<Rightarrow> bytes \<Rightarrow> string option \<Rightarrow> bool \<Rightarrow>
   (world, signing_error, unit) action" where
  "add_approval_seal P S D in_file out_file signing_key comment force =
     act (refuse_existing out_file force) (\<lambda>_.
     act (act_map_err SIo (fs_read in_file)) (\<lambda>data.
     act (lift (decode_capsule_parts P S data)) (\<lambda>(e0, ciphertext).
     act (lift (seal_envelope P S D signing_key comment e0 ciphertext)) (\<lambda>e.
     act (lift (signing_encode_envelope S e)) (\<lambda>encoded.
     act (lift (signing_output encoded ciphertext)) (\<lambda>output.
       signing_write_atomic out_file output force))))))"

text \<open>The loop goes on after a valid seal; an error of a later one is returned.\<close>

fun check_approvals ::
  "prims \<Rightarrow> postcard \<Rightarrow> ed25519 \<Rightarrow> bytes \<Rightarrow> envelope \<Rightarrow> bytes \<Rightarrow> bool \<Rightarrow> approval_signature list \<Rightarrow>
   signing_error + bool" where
  "check_approvals P S D verify_key e ciphertext found_valid [] = Inr found_valid"
| "check_approvals P S D verify_key e ciphertext found_valid (a # as) =
     (if ap_fingerprint a = key_fingerprint P verify_key \<and> length (ap_signature a) = 64
      then rbind (approval_signature_message P S e ciphertext a) (\<lambda>m.
        check_approvals P S D verify_key e ciphertext
          (if ed_verify D verify_key m (ap_signature a) then True else found_valid) as)
      else check_approvals P S D verify_key e ciphertext found_valid as)"

definition verify_approvals ::
  "prims \<Rightarrow> postcard \<Rightarrow> ed25519 \<Rightarrow> path \<Rightarrow> bytes \<Rightarrow> (world, signing_error, bool) action" where
  "verify_approvals P S D in_file verify_key =
     act (act_map_err SIo (fs_read in_file)) (\<lambda>data.
     act (lift (decode_capsule_parts P S data)) (\<lambda>(e, ciphertext).
       lift (check_approvals P S D verify_key e ciphertext False (approvals e))))"

end
