(* ===== verification/Release.thy ===== *)
theory Release
  imports Containers
begin

text \<open>
  Release and recovery metadata attached to a finished capsule (release.rs). The functions
  replace an existing output.
\<close>

datatype release_error = RIo io_error | RSerialization | EnvelopeError

definition release_encode_envelope :: "postcard \<Rightarrow> envelope \<Rightarrow> release_error + bytes" where
  "release_encode_envelope S e =
     rbind (ok_or RSerialization (pc_envelope S e)) (\<lambda>bs.
     rbind (ensure (bs \<noteq> [] \<and> length bs \<le> MAX_ENVELOPE_SIZE) EnvelopeError) (\<lambda>_. Inr bs))"

definition release_commit :: "writer \<Rightarrow> path \<Rightarrow> (world, release_error, unit) action" where
  "release_commit temp p =
     act (act_map_err RIo (persist temp p)) (\<lambda>_.
       act_map_err RIo (sync_path (parent_or_dot p)))"

definition release_write_atomic :: "path \<Rightarrow> bytes \<Rightarrow> (world, release_error, unit) action" where
  "release_write_atomic p bs =
     act (act_map_err RIo (new_in (parent_or_dot p))) (\<lambda>temp.
     act (lift (case write_all bs temp of (Inl e, _) \<Rightarrow> Inl (RIo e) | (Inr _, t) \<Rightarrow> Inr t)) (\<lambda>temp.
     act (act_map_err RIo sync_temp) (\<lambda>_.
       release_commit temp p)))"

definition decode_capsule_envelope :: "prims \<Rightarrow> postcard \<Rightarrow> bytes \<Rightarrow> release_error + envelope \<times> nat" where
  "decode_capsule_envelope P S data =
     rbind (ok_or EnvelopeError (get_range 0 4 data)) (\<lambda>length_bytes.
     let envelope_len = unat (u32_from_le_bytes length_bytes) in
     rbind (ensure (envelope_len \<noteq> 0 \<and> envelope_len \<le> MAX_ENVELOPE_SIZE) EnvelopeError) (\<lambda>_.
     let envelope_end = 4 + envelope_len in
     rbind (ok_or EnvelopeError (get_range 4 envelope_end data)) (\<lambda>envelope_bytes.
     rbind (map_err (\<lambda>_. EnvelopeError) (decode_envelope_bytes P S envelope_bytes)) (\<lambda>e.
       Inr (e, envelope_end)))))"

text \<open>Both functions differ only in the field they set.\<close>

definition attach_metadata ::
  "prims \<Rightarrow> postcard \<Rightarrow> (envelope \<Rightarrow> envelope) \<Rightarrow> path \<Rightarrow> path \<Rightarrow> (world, release_error, unit) action" where
  "attach_metadata P S set_field in_file out_file =
     act (act_map_err RIo (fs_read in_file)) (\<lambda>data.
     act (lift (decode_capsule_envelope P S data)) (\<lambda>(e, envelope_end).
     act (lift (release_encode_envelope S (set_field e))) (\<lambda>new_env_bytes.
     act (lift (ensure (length new_env_bytes < 2 ^ 32) EnvelopeError)) (\<lambda>_.
       release_write_atomic out_file
         (u32_to_le_bytes (of_nat (length new_env_bytes)) @ new_env_bytes @ drop envelope_end data)))))"

definition attach_release_metadata ::
  "prims \<Rightarrow> postcard \<Rightarrow> path \<Rightarrow> path \<Rightarrow> string option \<Rightarrow> string option \<Rightarrow> string option \<Rightarrow>
   string option \<Rightarrow> (world, release_error, unit) action" where
  "attach_release_metadata P S in_file out_file project_name version git_commit build_timestamp =
     attach_metadata P S (\<lambda>e. e\<lparr>e_release := Some
       \<lparr>rel_project_name = project_name, rel_version = version, rel_git_commit = git_commit,
        rel_build_timestamp = build_timestamp\<rparr>\<rparr>) in_file out_file"

definition attach_recovery_metadata ::
  "prims \<Rightarrow> postcard \<Rightarrow> path \<Rightarrow> path \<Rightarrow> bytes \<Rightarrow> (world, release_error, unit) action" where
  "attach_recovery_metadata P S in_file out_file recovery_data =
     attach_metadata P S (\<lambda>e. e\<lparr>recovery_metadata := Some recovery_data\<rparr>) in_file out_file"

end
