(* ===== verification/Signing_Correct.thy ===== *)
theory Signing_Correct
  imports Signing Release Capsule_Samples
begin

text \<open>
  Correctness of the annotating functions of theories Signing and Release: the locales of
  theory Containers interpreted on them, what a signature commits to, and workflows of several
  annotations, as reachability of a step relation.
\<close>

section \<open>The interfaces\<close>

interpretation sc: atomic_commit "signing_commit force" for force
proof unfold_locales
  fix tmp p w w' and u :: unit
  assume "signing_commit force tmp p w = (Inr u, w')"
  then show "w' = put_file w p (w_data tmp) \<and> p \<noteq> Path False [] \<and> w_fs w (resolve w p) \<noteq> Some Directory"
    using pure_ops(3)
    by (auto simp: signing_commit_def res_elims persist_def persist_noclobber_def sync_path_def
        split: if_splits option.splits)
next
  fix tmp p w w' err
  assume "signing_commit force tmp p w = (Inl err, w')"
  then show "w' = w \<or> w' = put_file w p (w_data tmp)"
    by (auto simp: signing_commit_def act_def act_map_err_def persist_def persist_noclobber_def
        sync_path_def split: if_splits option.splits)
qed

interpretation rc: atomic_commit release_commit
proof unfold_locales
  fix tmp p w w' and u :: unit
  assume "release_commit tmp p w = (Inr u, w')"
  then show "w' = put_file w p (w_data tmp) \<and> p \<noteq> Path False [] \<and> w_fs w (resolve w p) \<noteq> Some Directory"
    by (auto simp: release_commit_def res_elims persist_def sync_path_def split: if_splits option.splits)
next
  fix tmp p w w' err
  assume "release_commit tmp p w = (Inl err, w')"
  then show "w' = w \<or> w' = put_file w p (w_data tmp)"
    by (auto simp: release_commit_def act_def act_map_err_def persist_def sync_path_def
        split: if_splits option.splits)
qed

lemma decode_parts_iff:
  "decode_capsule_parts P S data = Inr (e, rest) \<longleftrightarrow>
    (\<exists>encoded. data = capsule_bytes encoded rest \<and> encoded \<noteq> [] \<and>
       length encoded \<le> MAX_ENVELOPE_SIZE \<and> decode_envelope_bytes P S encoded = Inr e)"
proof -
  have "decode_capsule_parts P S data = Inr (e, rest) \<longleftrightarrow>
     (\<exists>n len_bytes encoded. get_range 0 4 data = Some len_bytes \<and> n = unat (u32_from_le_bytes len_bytes) \<and>
        n \<noteq> 0 \<and> n \<le> MAX_ENVELOPE_SIZE \<and> get_range 4 (4 + n) data = Some encoded \<and>
        rest = drop (4 + n) data \<and> decode_envelope_bytes P S encoded = Inr e)"
    by (auto simp: decode_capsule_parts_def Let_def res_elims)
  then show ?thesis by (simp only: container_layout) blast
qed

lemma decode_capsule_envelope_iff:
  "decode_capsule_envelope P S data = Inr (e, n) \<and> rest = drop n data \<longleftrightarrow>
    (\<exists>encoded. n = 4 + length encoded \<and> data = capsule_bytes encoded rest \<and> encoded \<noteq> [] \<and>
       length encoded \<le> MAX_ENVELOPE_SIZE \<and> decode_envelope_bytes P S encoded = Inr e)"
proof -
  have "decode_capsule_envelope P S data = Inr (e, n) \<and> rest = drop n data \<longleftrightarrow>
     (\<exists>k. n = 4 + k \<and> (\<exists>len_bytes encoded. get_range 0 4 data = Some len_bytes \<and> k = unat (u32_from_le_bytes len_bytes) \<and>
        k \<noteq> 0 \<and> k \<le> MAX_ENVELOPE_SIZE \<and> get_range 4 (4 + k) data = Some encoded \<and>
        rest = drop (4 + k) data \<and> decode_envelope_bytes P S encoded = Inr e))"
    by (auto simp: decode_capsule_envelope_def Let_def res_elims)
  then show ?thesis by (simp only: container_layout) blast
qed

text \<open>The envelope and the payload, from the position \<open>decode_capsule_envelope\<close> returns.\<close>

definition release_split :: "prims \<Rightarrow> postcard \<Rightarrow> bytes \<Rightarrow> release_error + envelope \<times> bytes" where
  "release_split P S data = rbind (decode_capsule_envelope P S data) (\<lambda>(e, n). Inr (e, drop n data))"

interpretation sp: capsule_container P S "decode_capsule_parts P S" for P S
  by unfold_locales (rule decode_parts_iff)

interpretation rp: capsule_container P S "release_split P S" for P S
proof unfold_locales
  fix data e rest
  have "release_split P S data = Inr (e, rest) \<longleftrightarrow>
      (\<exists>n. decode_capsule_envelope P S data = Inr (e, n) \<and> rest = drop n data)"
    by (auto simp: release_split_def res_elims)
  then show "release_split P S data = Inr (e, rest) \<longleftrightarrow>
    (\<exists>encoded. data = capsule_bytes encoded rest \<and> encoded \<noteq> [] \<and>
       length encoded \<le> MAX_ENVELOPE_SIZE \<and> decode_envelope_bytes P S encoded = Inr e)"
    by (simp only: decode_capsule_envelope_iff) blast
qed

text \<open>The four annotations.\<close>

interpretation sa: annotation "\<lambda>e. e\<lparr>e_signature := s\<rparr>" for s
  by unfold_locales (simp_all add: payload_aad_of_def)

interpretation aa: annotation "\<lambda>e. e\<lparr>approvals := approvals e @ [a]\<rparr>" for a
  by unfold_locales (simp_all add: payload_aad_of_def)

interpretation ra: annotation "\<lambda>e. e\<lparr>e_release := m\<rparr>" for m
  by unfold_locales (simp_all add: payload_aad_of_def)

interpretation ca: annotation "\<lambda>e. e\<lparr>recovery_metadata := m\<rparr>" for m
  by unfold_locales (simp_all add: payload_aad_of_def)

section \<open>Writing\<close>

lemma refuse_existing_Inr:
  "refuse_existing p force w = (Inr u, w') \<longleftrightarrow> w' = w \<and> (path_exists w p \<longrightarrow> force)"
  by (auto simp: refuse_existing_def)

lemma write_temp_Inr:
  "(case write_all bs (fresh_writer room) of (Inl e, _) \<Rightarrow> Inl (g e) | (Inr _, t) \<Rightarrow> Inr t) = Inr tmp \<Longrightarrow>
     w_data tmp = bs"
  using write_all_Inr [of bs "fresh_writer room"] by (auto split: prod.splits sum.splits)

lemma signing_write_atomic_Inr:
  assumes "signing_write_atomic p bs force w = (Inr u, w')"
  shows "w' = put_file w p bs \<and> p \<noteq> Path False []"
proof -
  from assms obtain tmp0 w1 tmp w2 where *: "new_in (parent_or_dot p) w = (Inr tmp0, w1)"
      "(case write_all bs tmp0 of (Inl e, _) \<Rightarrow> Inl (SIo e) | (Inr _, t) \<Rightarrow> Inr t) = Inr tmp"
      "sync_temp w1 = (Inr (), w2)" "signing_commit force tmp p w2 = (Inr (), w')"
    unfolding signing_write_atomic_def by (elim act_steps) (auto simp: refuse_existing_Inr)
  have w: "w1 = w" "w2 = w" "tmp0 = fresh_writer (w_disk w)"
    using new_in_Inr [OF *(1)] *(3) by (auto simp: sync_temp_Inr)
  from write_temp_Inr *(2) w(3) have "w_data tmp = bs" by metis
  with sc.commit_Inr [OF *(4)] w(2) show ?thesis by simp
qed

lemma release_write_atomic_Inr:
  assumes "release_write_atomic p bs w = (Inr u, w')"
  shows "w' = put_file w p bs \<and> p \<noteq> Path False []"
proof -
  from assms obtain tmp0 w1 tmp w2 where *: "new_in (parent_or_dot p) w = (Inr tmp0, w1)"
      "(case write_all bs tmp0 of (Inl e, _) \<Rightarrow> Inl (RIo e) | (Inr _, t) \<Rightarrow> Inr t) = Inr tmp"
      "sync_temp w1 = (Inr (), w2)" "release_commit tmp p w2 = (Inr (), w')"
    unfolding release_write_atomic_def by (elim act_steps) auto
  have w: "w1 = w" "w2 = w" "tmp0 = fresh_writer (w_disk w)"
    using new_in_Inr [OF *(1)] *(3) by (auto simp: sync_temp_Inr)
  from write_temp_Inr *(2) w(3) have "w_data tmp = bs" by metis
  with rc.commit_Inr [OF *(4)] w(2) show ?thesis by simp
qed

text \<open>Without \<open>force\<close> no entry of the file system changes, whatever the outcome.\<close>

definition keeps_entries :: "world \<Rightarrow> world \<Rightarrow> bool" where
  "keeps_entries w w' \<longleftrightarrow> (\<forall>k n. w_fs w k = Some n \<longrightarrow> w_fs w' k = Some n)"

lemma keeps_entries_refl [simp]: "keeps_entries w w"
  by (simp add: keeps_entries_def)

lemma persist_noclobber_keeps: "persist_noclobber tmp p w = (r, w') \<Longrightarrow> keeps_entries w w'"
  by (auto simp: persist_noclobber_def keeps_entries_def w_fs_put_file split: if_splits)

lemma signing_commit_keeps: "signing_commit False tmp p w = (r, w') \<Longrightarrow> keeps_entries w w'"
  using persist_noclobber_keeps pure_ops(3)
  by (fastforce simp: signing_commit_def act_def act_map_err_def sync_path_def
      split: prod.splits sum.splits option.splits)

lemma signing_write_keeps: "signing_write_atomic p bs False w = (r, w') \<Longrightarrow> keeps_entries w w'"
proof -
  assume "signing_write_atomic p bs False w = (r, w')"
  then show ?thesis
    using signing_commit_keeps [of _ p w]
    by (auto simp: signing_write_atomic_def act_def act_map_err_def refuse_existing_def new_in_def
        sync_temp_def split: prod.splits sum.splits if_splits)
qed

section \<open>What the annotating functions do\<close>

text \<open>
  The common shape: the input holds a capsule that decodes, the output the same payload behind
  an envelope in relation \<open>R\<close> to the old one.
\<close>

definition annotates ::
  "prims \<Rightarrow> postcard \<Rightarrow> (envelope \<Rightarrow> bytes \<Rightarrow> envelope \<Rightarrow> bool) \<Rightarrow> path \<Rightarrow> path \<Rightarrow> world \<Rightarrow> world \<Rightarrow> bool" where
  "annotates P S R inp out w w' \<longleftrightarrow>
     (\<exists>encoded0 e0 ct e encoded. lookup w inp = Some (Regular (capsule_bytes encoded0 ct)) \<and>
        encoded0 \<noteq> [] \<and> length encoded0 \<le> MAX_ENVELOPE_SIZE \<and>
        decode_envelope_bytes P S encoded0 = Inr e0 \<and> R e0 ct e \<and>
        pc_envelope S e = Some encoded \<and> encoded \<noteq> [] \<and> length encoded \<le> MAX_ENVELOPE_SIZE \<and>
        w' = put_file w out (capsule_bytes encoded ct) \<and> out \<noteq> Path False [])"

lemma annotatesE:
  assumes "annotates P S R inp out w w'"
  obtains encoded0 e0 ct e encoded where "lookup w inp = Some (Regular (capsule_bytes encoded0 ct))"
    "encoded0 \<noteq> []" "length encoded0 \<le> MAX_ENVELOPE_SIZE" "decode_envelope_bytes P S encoded0 = Inr e0"
    "R e0 ct e" "pc_envelope S e = Some encoded" "encoded \<noteq> []" "length encoded \<le> MAX_ENVELOPE_SIZE"
    "w' = put_file w out (capsule_bytes encoded ct)" "out \<noteq> Path False []"
  using assms unfolding annotates_def by blast

lemma signing_encode_Inr:
  "signing_encode_envelope S e = Inr encoded \<longleftrightarrow>
     pc_envelope S e = Some encoded \<and> encoded \<noteq> [] \<and> length encoded \<le> MAX_ENVELOPE_SIZE"
  by (auto simp: signing_encode_envelope_def res_elims)

lemma signing_output_Inr: "signing_output encoded ct = Inr bs \<Longrightarrow> bs = capsule_bytes encoded ct"
  by (auto simp: signing_output_def capsule_bytes_def res_elims)

lemma signing_annotates:
  assumes "fs_read inp w = (Inr data, w1)" "decode_capsule_parts P S data = Inr (e0, ct)"
    and "R e0 ct e" "signing_encode_envelope S e = Inr encoded" "signing_output encoded ct = Inr outp"
    and "signing_write_atomic out outp force w1 = (Inr u, w')"
  shows "annotates P S R inp out w w'"
proof -
  obtain encoded0 where *: "data = capsule_bytes encoded0 ct" "encoded0 \<noteq> []"
      "length encoded0 \<le> MAX_ENVELOPE_SIZE" "decode_envelope_bytes P S encoded0 = Inr e0"
    using sp.split_Inr [OF assms(2)] .
  have "w1 = w" "lookup w inp = Some (Regular data)" using fs_read_Inr [OF assms(1)] * by simp_all
  with * assms(3,4) signing_output_Inr [OF assms(5)] signing_write_atomic_Inr [OF assms(6)]
  show ?thesis unfolding annotates_def signing_encode_Inr by blast
qed

lemma sign_file_annotates:
  assumes "sign_file P S D now inp out key comment force w = (Inr (), w')"
  shows "annotates P S (\<lambda>e0 ct e. sign_envelope P S D now key comment e0 ct = Inr e) inp out w w'"
proof -
  from assms obtain w0 data w1 e0 ct e encoded outp where
      "refuse_existing out force w = (Inr (), w0)" "fs_read inp w0 = (Inr data, w1)"
      "decode_capsule_parts P S data = Inr (e0, ct)" "sign_envelope P S D now key comment e0 ct = Inr e"
      "signing_encode_envelope S e = Inr encoded" "signing_output encoded ct = Inr outp"
      "signing_write_atomic out outp force w1 = (Inr (), w')"
    unfolding sign_file_def by (auto simp: res_elims split: prod.splits)
  then show ?thesis by (auto simp: refuse_existing_Inr intro: signing_annotates)
qed

lemma add_approval_seal_annotates:
  assumes "add_approval_seal P S D inp out key comment force w = (Inr (), w')"
  shows "annotates P S (\<lambda>e0 ct e. seal_envelope P S D key comment e0 ct = Inr e) inp out w w'"
proof -
  from assms obtain w0 data w1 e0 ct e encoded outp where
      "refuse_existing out force w = (Inr (), w0)" "fs_read inp w0 = (Inr data, w1)"
      "decode_capsule_parts P S data = Inr (e0, ct)" "seal_envelope P S D key comment e0 ct = Inr e"
      "signing_encode_envelope S e = Inr encoded" "signing_output encoded ct = Inr outp"
      "signing_write_atomic out outp force w1 = (Inr (), w')"
    unfolding add_approval_seal_def by (auto simp: res_elims split: prod.splits)
  then show ?thesis by (auto simp: refuse_existing_Inr intro: signing_annotates)
qed

lemma attach_metadata_annotates:
  assumes "attach_metadata P S f inp out w = (Inr (), w')"
  shows "annotates P S (\<lambda>e0 ct e. e = f e0) inp out w w'"
proof -
  from assms obtain data w1 e0 n encoded where *:
      "fs_read inp w = (Inr data, w1)" "decode_capsule_envelope P S data = Inr (e0, n)"
      "release_encode_envelope S (f e0) = Inr encoded"
      "release_write_atomic out (capsule_bytes encoded (drop n data)) w1 = (Inr (), w')"
    unfolding attach_metadata_def by (auto simp: res_elims capsule_bytes_def split: prod.splits)
  from *(2) have split: "release_split P S data = Inr (e0, drop n data)" by (simp add: release_split_def)
  obtain encoded0 where 2: "data = capsule_bytes encoded0 (drop n data)" "encoded0 \<noteq> []"
      "length encoded0 \<le> MAX_ENVELOPE_SIZE" "decode_envelope_bytes P S encoded0 = Inr e0"
    using rp.split_Inr [OF split] .
  have w: "w1 = w" "lookup w inp = Some (Regular data)"
    using fs_read_Inr [OF *(1)] rp.split_nonempty [OF split] by simp_all
  have enc: "pc_envelope S (f e0) = Some encoded" "encoded \<noteq> []" "length encoded \<le> MAX_ENVELOPE_SIZE"
    using *(3) by (auto simp: release_encode_envelope_def res_elims)
  have look: "lookup w inp = Some (Regular (capsule_bytes encoded0 (drop n data)))"
    using w(2) 2(1) by simp
  from release_write_atomic_Inr [OF *(4)] w(1)
  have "w' = put_file w out (capsule_bytes encoded (drop n data))" "out \<noteq> Path False []" by simp_all
  with look 2(2-4) enc show ?thesis unfolding annotates_def by blast
qed

text \<open>Reading the output of an annotation back.\<close>

lemma annotated_parts:
  assumes "lookup w p = Some (Regular (capsule_bytes encoded ct))" "calm w p" "encoded \<noteq> []"
    "length encoded \<le> MAX_ENVELOPE_SIZE" "decode_envelope_bytes P S encoded = Inr e"
  shows "verify_signature P S D p vk w = (check_signature P S D vk e ct, w)"
    "verify_approvals P S D p vk w = (check_approvals P S D vk e ct False (approvals e), w)"
  using fs_read_calm [OF assms(1,2)] sp.split_capsule_bytes [OF assms(3-5)]
  by (simp_all add: verify_signature_def verify_approvals_def act_def act_map_err_def)

section \<open>Signing and verifying\<close>

text \<open>The signature bytes are not part of the signed statement.\<close>

lemma author_message_ignores_bytes:
  "e_signature e = Some s \<Longrightarrow>
     author_signature_message S (e\<lparr>e_signature := Some (s\<lparr>sig_bytes := b\<rparr>)\<rparr>) ct = author_signature_message S e ct"
  by (simp add: author_signature_message_def)

lemma author_message_ignores_approvals:
  "CURRENT_VERSION \<le> h_version (header e) \<Longrightarrow>
     author_signature_message S (e\<lparr>approvals := as\<rparr>) ct = author_signature_message S e ct"
  by (simp add: author_signature_message_def)

lemma sign_envelope_Inr:
  assumes "sign_envelope P S D now key comment e0 ct = Inr e"
  obtains s m where "e = e0\<lparr>e_signature := Some s\<rparr>" "author_signature_message S e ct = Inr m"
    "sig_bytes s = ed_sign D key m" "sig_fingerprint s = key_fingerprint P (ed_public D key)"
    "sig_comment s = comment"
proof -
  let ?s0 = "\<lparr>sig_fingerprint = key_fingerprint P (ed_public D key), sig_bytes = [],
             sig_created_at = map_option (\<lambda>secs. decimal secs @ ''Z'') now, sig_comment = comment\<rparr>"
  from assms obtain m where m: "author_signature_message S (e0\<lparr>e_signature := Some ?s0\<rparr>) ct = Inr m"
      "e = e0\<lparr>e_signature := Some (?s0\<lparr>sig_bytes := ed_sign D key m\<rparr>)\<rparr>"
    by (auto simp: sign_envelope_def Let_def res_elims)
  have "author_signature_message S e ct = Inr m"
    using author_message_ignores_bytes [of "e0\<lparr>e_signature := Some ?s0\<rparr>" ?s0 S "ed_sign D key m" ct] m by simp
  with m(2) that show ?thesis by simp
qed

lemma signed_checks:
  assumes "ed25519_ok D" "sign_envelope P S D now key comment e0 ct = Inr e"
  shows "check_signature P S D (ed_public D key) e ct = Inr (key_fingerprint P (ed_public D key))"
proof -
  obtain s m where "e = e0\<lparr>e_signature := Some s\<rparr>" "author_signature_message S e ct = Inr m"
      "sig_bytes s = ed_sign D key m" "sig_fingerprint s = key_fingerprint P (ed_public D key)"
    using sign_envelope_Inr [OF assms(2)] by metis
  with assms(1) show ?thesis by (simp add: check_signature_def ed25519_ok_def)
qed

lemma sign_envelope_is_annotation:
  "sign_envelope P S D now key comment e0 ct = Inr e \<Longrightarrow> \<exists>s. e = e0\<lparr>e_signature := s\<rparr>"
  by (elim sign_envelope_Inr) blast

lemma approval_message_ignores_signature:
  "approval_signature_message P S e ct (a\<lparr>ap_signature := b\<rparr>) = approval_signature_message P S e ct a"
  by (simp add: approval_signature_message_def)

lemma approval_message_ignores_approvals:
  "approval_signature_message P S (e\<lparr>approvals := as\<rparr>) ct a = approval_signature_message P S e ct a"
  by (simp add: approval_signature_message_def)

lemma seal_envelope_Inr:
  assumes "seal_envelope P S D key comment e0 ct = Inr e"
  obtains a m where "e = e0\<lparr>approvals := approvals e0 @ [a]\<rparr>"
    "approval_signature_message P S e0 ct a = Inr m" "ap_signature a = ed_sign D key m"
    "ap_fingerprint a = key_fingerprint P (ed_public D key)" "ap_comment a = comment"
proof -
  let ?a0 = "\<lparr>ap_fingerprint = key_fingerprint P (ed_public D key), ap_signature = [], ap_comment = comment\<rparr>"
  from assms obtain m where m: "approval_signature_message P S e0 ct ?a0 = Inr m"
      "e = e0\<lparr>approvals := approvals e0 @ [?a0\<lparr>ap_signature := ed_sign D key m\<rparr>]\<rparr>"
    by (auto simp: seal_envelope_def Let_def res_elims)
  have "approval_signature_message P S e0 ct (?a0\<lparr>ap_signature := ed_sign D key m\<rparr>) = Inr m"
    using m(1) by (simp only: approval_message_ignores_signature)
  with m(2) that show ?thesis by simp
qed

text \<open>
  C22: What \<open>sign_file\<close> signs, \<open>verify_signature\<close> accepts under the public key of the signer,
  whose fingerprint it returns, for every capsule of both format versions.
\<close>

theorem sign_then_verify:
  assumes S: "postcard_ok S" and D: "ed25519_ok D"
    and run: "sign_file P S D now inp out key comment force w = (Inr (), w')" and "calm w' out"
  shows "verify_signature P S D out (ed_public D key) w' = (Inr (key_fingerprint P (ed_public D key)), w')"
proof -
  obtain encoded0 e0 ct e encoded where *: "decode_envelope_bytes P S encoded0 = Inr e0"
      "sign_envelope P S D now key comment e0 ct = Inr e" "pc_envelope S e = Some encoded" "encoded \<noteq> []"
      "length encoded \<le> MAX_ENVELOPE_SIZE" "w' = put_file w out (capsule_bytes encoded ct)" "out \<noteq> Path False []"
    using annotatesE [OF sign_file_annotates [OF run]] by metis
  obtain s where "e = e0\<lparr>e_signature := s\<rparr>" using sign_envelope_is_annotation [OF *(2)] by blast
  with sa.annotated_decodes [OF S *(1)] *(3) have "decode_envelope_bytes P S encoded = Inr e" by simp
  moreover have "lookup w' out = Some (Regular (capsule_bytes encoded ct))"
    using *(6,7) lookup_put_file by simp
  ultimately show ?thesis
    using annotated_parts(1) assms(4) *(4,5) signed_checks [OF D *(2)] by simp
qed

section \<open>Nothing is overwritten without force\<close>

lemma fs_read_fails: "fs_read p w = (Inl e, w') \<Longrightarrow> w' = w"
  using fs_read_world by (metis snd_conv)

lemma annotating_keeps:
  assumes "act (refuse_existing out False) (\<lambda>_. act (act_map_err SIo (fs_read inp)) (\<lambda>data.
      act (lift (f data)) (\<lambda>(e0, ct). act (lift (g e0 ct)) (\<lambda>e. act (lift (h e)) (\<lambda>encoded.
      act (lift (k encoded ct)) (\<lambda>bs. signing_write_atomic out bs False)))))) w = (r, w')"
  shows "keeps_entries w w'"
proof -
  obtain q w1 where rd: "fs_read inp w = (q, w1)" by fastforce
  then have w1: "w1 = w" using fs_read_world by (metis snd_conv)
  show ?thesis
    using assms rd w1 signing_write_keeps [of out _ w]
    by (cases q) (auto simp: act_def act_map_err_def refuse_existing_def lift_def
        split: sum.splits prod.splits if_splits)
qed

text \<open>
  Without \<open>force\<close> none of the functions that sign, approve or save keys changes or removes an
  existing entry of the file system, on success or on any error, even when the output appears
  between the first check and the commit.
\<close>

theorem no_overwrite_without_force:
  "keeps_entries w (snd (sign_file P S D now inp out key comment False w)) \<and>
   keeps_entries w (snd (add_approval_seal P S D inp out key comment False w)) \<and>
   keeps_entries w (snd (save_signing_key J key out False w)) \<and>
   keeps_entries w (snd (save_verify_key J key out False w))"
proof (intro conjI)
  show "keeps_entries w (snd (sign_file P S D now inp out key comment False w))"
    unfolding sign_file_def by (rule annotating_keeps) (rule prod.collapse [symmetric])
  show "keeps_entries w (snd (add_approval_seal P S D inp out key comment False w))"
    unfolding add_approval_seal_def by (rule annotating_keeps) (rule prod.collapse [symmetric])
  show "keeps_entries w (snd (save_signing_key J key out False w))"
    using signing_write_keeps [of out _ w]
    by (auto simp: save_signing_key_def write_private_atomic_def act_def lift_def refuse_existing_def
        split: sum.splits prod.splits if_splits) (metis prod.collapse)
  show "keeps_entries w (snd (save_verify_key J key out False w))"
    using signing_write_keeps [of out _ w]
    by (auto simp: save_verify_key_def act_def lift_def refuse_existing_def
        split: sum.splits prod.splits if_splits) (metis prod.collapse)
qed

section \<open>What a signature commits to\<close>

definition signed_view :: "envelope \<Rightarrow> envelope" where
  "signed_view e = e\<lparr>e_signature := map_option (\<lambda>s. s\<lparr>sig_bytes := []\<rparr>) (e_signature e), approvals := []\<rparr>"

lemma author_message_v2:
  assumes "CURRENT_VERSION \<le> h_version (header e)"
  shows "author_signature_message S e ct = Inr m \<longleftrightarrow>
    (\<exists>b. e_signature e \<noteq> None \<and> pc_envelope S (signed_view e) = Some b \<and>
       m = AUTHOR_SIGNATURE_V2_DOMAIN @ b @ ct)"
  using assms by (cases "e_signature e") (auto simp: author_signature_message_def signed_view_def res_elims)

lemma signed_view_binding:
  assumes S: "postcard_ok S"
    and "CURRENT_VERSION \<le> h_version (header e)" "author_signature_message S e ct = Inr m"
    and "CURRENT_VERSION \<le> h_version (header e')" "author_signature_message S e' ct' = Inr m"
  shows "signed_view e' = signed_view e \<and> ct' = ct"
proof -
  obtain b b' where *: "pc_envelope S (signed_view e) = Some b" "pc_envelope S (signed_view e') = Some b'"
      "b @ ct = b' @ ct'"
    using assms(3,5) author_message_v2 [OF assms(2)] author_message_v2 [OF assms(4)] by auto
  have "pc_take_envelope S (b @ ct) = Some (signed_view e, ct)" "pc_take_envelope S (b' @ ct') = Some (signed_view e', ct')"
    using S *(1,2) unfolding postcard_ok_def by blast+
  with *(3) show ?thesis by simp
qed

text \<open>
  C19: An author signature of version 2 commits to everything: two capsules with the same signed
  statement have the same payload bytes and the same envelope up to the approvals and the
  signature bytes themselves; header, lengths, nonces, label, signer, comment, release and
  recovery metadata included.
\<close>

theorem author_signature_binding:
  assumes "postcard_ok S"
    and "CURRENT_VERSION \<le> h_version (header e)" "author_signature_message S e ct = Inr m"
    and "CURRENT_VERSION \<le> h_version (header e')" "author_signature_message S e' ct' = Inr m"
  shows "signed_view e' = signed_view e \<and> ct' = ct"
  by (rule signed_view_binding [OF assms])

section \<open>Approvals\<close>

lemma check_approvals_true:
  assumes "\<forall>c. pc_comment S c \<noteq> None"
    and "CURRENT_VERSION \<le> h_version (header e) \<longrightarrow> pc_envelope S (e\<lparr>approvals := []\<rparr>) \<noteq> None"
    and "found \<or> (\<exists>a \<in> set as. ap_fingerprint a = key_fingerprint P vk \<and> length (ap_signature a) = 64 \<and>
        (\<exists>m. approval_signature_message P S e ct a = Inr m \<and> ed_verify D vk m (ap_signature a)))"
  shows "check_approvals P S D vk e ct found as = Inr True"
  using assms(3)
proof (induction as arbitrary: found)
  case Nil
  then show ?case by simp
next
  case (Cons a as)
  obtain m where m: "approval_signature_message P S e ct a = Inr m"
  proof -
    obtain c where "pc_comment S (ap_comment a) = Some c" using assms(1) by auto
    with assms(2) that show ?thesis
      by (cases "h_version (header e) < CURRENT_VERSION") (auto simp: approval_signature_message_def)
  qed
  let ?ok = "ap_fingerprint a = key_fingerprint P vk \<and> length (ap_signature a) = 64 \<and>
      ed_verify D vk m (ap_signature a)"
  have "check_approvals P S D vk e ct found (a # as) = check_approvals P S D vk e ct (found \<or> ?ok) as"
    by (cases "ap_fingerprint a = key_fingerprint P vk \<and> length (ap_signature a) = 64") (auto simp: m)
  moreover have "found \<or> ?ok \<or> (\<exists>a \<in> set as. ap_fingerprint a = key_fingerprint P vk \<and>
      length (ap_signature a) = 64 \<and>
      (\<exists>m. approval_signature_message P S e ct a = Inr m \<and> ed_verify D vk m (ap_signature a)))"
    using Cons.prems m by auto
  ultimately show ?case using Cons.IH [of "found \<or> ?ok"] by argo
qed

lemma check_signature_ignores_approvals:
  "CURRENT_VERSION \<le> h_version (header e) \<Longrightarrow>
     check_signature P S D vk (e\<lparr>approvals := as\<rparr>) ct = check_signature P S D vk e ct"
  by (simp add: check_signature_def author_message_ignores_approvals)

lemma check_signature_iff:
  "check_signature P S D vk e ct = Inr fp \<longleftrightarrow>
     (\<exists>s m. e_signature e = Some s \<and> length (sig_bytes s) = 64 \<and> sig_fingerprint s = fp \<and>
        fp = key_fingerprint P vk \<and> author_signature_message S e ct = Inr m \<and> ed_verify D vk m (sig_bytes s))"
  by (auto simp: check_signature_def Let_def res_elims)

lemma verify_signature_Inr:
  assumes "verify_signature P S D p vk w = (Inr fp, w')"
  obtains e ct encoded where "w' = w" "lookup w p = Some (Regular (capsule_bytes encoded ct))"
    "encoded \<noteq> []" "length encoded \<le> MAX_ENVELOPE_SIZE"
    "decode_envelope_bytes P S encoded = Inr e" "check_signature P S D vk e ct = Inr fp"
proof -
  from assms obtain data e ct where *: "fs_read p w = (Inr data, w')" "decode_capsule_parts P S data = Inr (e, ct)"
      "check_signature P S D vk e ct = Inr fp"
    by (auto simp: verify_signature_def res_elims split: prod.splits)
  obtain encoded where d: "data = capsule_bytes encoded ct" "encoded \<noteq> []"
      "length encoded \<le> MAX_ENVELOPE_SIZE" "decode_envelope_bytes P S encoded = Inr e"
    using sp.split_Inr [OF *(2)] .
  with fs_read_Inr [OF *(1)] have "w' = w" "lookup w p = Some (Regular (capsule_bytes encoded ct))" by simp_all
  with d *(3) that show ?thesis by blast
qed

lemma read_envelope_at:
  assumes "lookup w p = Some (Regular (capsule_bytes encoded ct))" "calm w p" "encoded \<noteq> []"
    "length encoded \<le> MAX_ENVELOPE_SIZE" "decode_envelope_bytes P S encoded = Inr e"
  shows "fst (read_envelope_from_path P S p w) = Inr e"
proof -
  let ?rd = "\<lparr>r_data = capsule_bytes encoded ct, r_events = w_script w (resolve w p)\<rparr>"
  have "quiet ?rd" "r_data ?rd = capsule_bytes encoded ct"
    using assms(2) by (simp_all add: quiet_def calm_def)
  from read_envelope_capsule [OF this assms(3,4), of P S] obtain rd' where
    "read_envelope P S ?rd = rbind (decode_envelope_bytes P S encoded) (\<lambda>e. Inr (e, rd'))" by metis
  with assms(1,5) show ?thesis by (simp add: read_envelope_from_path_def act_def act_map_err_def)
qed

lemma capsule_bytes_eq:
  assumes "capsule_bytes a x = capsule_bytes b y" "length a \<le> MAX_ENVELOPE_SIZE" "length b \<le> MAX_ENVELOPE_SIZE"
  shows "a = b \<and> x = y"
proof -
  have "u32_to_le_bytes (of_nat (length a)) = u32_to_le_bytes (of_nat (length b))" and r: "a @ x = b @ y"
    using assms(1) by (auto simp: capsule_bytes_def append_eq_append_conv)
  then have "length a = length b"
    using encoded_length [OF assms(2)] encoded_length [OF assms(3)] by (metis u32_to_le_bytes_inj)
  with r show ?thesis by simp
qed

text \<open>
  C23: In format version 2 an approval seal can be added after signing: the author signature of the
  input stays valid in the output, and the new seal verifies under the approver's key.
\<close>

theorem approval_keeps_signature:
  assumes S: "postcard_ok S" "\<forall>c. pc_comment S c \<noteq> None" and D: "ed25519_ok D"
    and signed: "verify_signature P S D inp vk w = (Inr fp, w)"
    and run: "add_approval_seal P S D inp out key comment force w = (Inr (), w')" and env: "calm w' out"
    and v2: "fst (read_envelope_from_path P S out w') = Inr e" "h_version (header e) = CURRENT_VERSION"
  shows "verify_signature P S D out vk w' = (Inr fp, w') \<and>
    verify_approvals P S D out (ed_public D key) w' = (Inr True, w')"
proof -
  obtain encoded0 e0 ct e1 encoded where *: "lookup w inp = Some (Regular (capsule_bytes encoded0 ct))"
      "length encoded0 \<le> MAX_ENVELOPE_SIZE" "decode_envelope_bytes P S encoded0 = Inr e0"
      "seal_envelope P S D key comment e0 ct = Inr e1" "pc_envelope S e1 = Some encoded" "encoded \<noteq> []"
      "length encoded \<le> MAX_ENVELOPE_SIZE" "w' = put_file w out (capsule_bytes encoded ct)" "out \<noteq> Path False []"
    using annotatesE [OF add_approval_seal_annotates [OF run]] by metis
  obtain a m where a: "e1 = e0\<lparr>approvals := approvals e0 @ [a]\<rparr>"
      "approval_signature_message P S e0 ct a = Inr m" "ap_signature a = ed_sign D key m"
      "ap_fingerprint a = key_fingerprint P (ed_public D key)"
    using seal_envelope_Inr [OF *(4)] by metis
  have dec: "decode_envelope_bytes P S encoded = Inr e1"
    using aa.annotated_decodes [OF S(1) *(3)] *(5) a(1) by simp
  have look: "lookup w' out = Some (Regular (capsule_bytes encoded ct))"
    using *(8,9) lookup_put_file by simp
  have "e = e1" using read_envelope_at [OF look env *(6,7) dec] v2(1) by simp
  then have v: "CURRENT_VERSION \<le> h_version (header e0)" using v2(2) a(1) by simp
  obtain e0' ct' encoded0' where o: "lookup w inp = Some (Regular (capsule_bytes encoded0' ct'))"
      "decode_envelope_bytes P S encoded0' = Inr e0'" "check_signature P S D vk e0' ct' = Inr fp"
      "length encoded0' \<le> MAX_ENVELOPE_SIZE"
    using signed by (elim verify_signature_Inr) blast
  have "check_signature P S D vk e0 ct = Inr fp"
    using capsule_bytes_eq [of encoded0 ct encoded0' ct'] *(1-3) o by auto
  then have sig: "check_signature P S D vk e1 ct = Inr fp"
    by (simp only: a(1) check_signature_ignores_approvals [OF v])
  have m1: "approval_signature_message P S e1 ct a = Inr m"
    using a(2) by (simp only: a(1) approval_message_ignores_approvals)
  have "pc_envelope S (e1\<lparr>approvals := []\<rparr>) \<noteq> None"
    using a(2) by (cases "pc_envelope S (e0\<lparr>approvals := []\<rparr>)")
      (auto simp: a(1) approval_signature_message_def leD [OF v])
  moreover have "\<exists>x \<in> set (approvals e1). ap_fingerprint x = key_fingerprint P (ed_public D key) \<and>
      length (ap_signature x) = 64 \<and> (\<exists>m. approval_signature_message P S e1 ct x = Inr m \<and>
      ed_verify D (ed_public D key) m (ap_signature x))"
    using a(1,3,4) m1 D unfolding ed25519_ok_def by (intro bexI [of _ a]) auto
  ultimately have app: "check_approvals P S D (ed_public D key) e1 ct False (approvals e1) = Inr True"
    using check_approvals_true [OF S(2), of e1 False "approvals e1"] by blast
  show ?thesis
    using annotated_parts [OF look env *(6,7) dec] sig app by simp
qed

section \<open>Workflows\<close>

text \<open>
  One annotation of a capsule: where the capsule is before and after, and the state of the world.
\<close>

inductive workflow_step ::
  "prims \<Rightarrow> postcard \<Rightarrow> ed25519 \<Rightarrow> world \<times> path \<Rightarrow> world \<times> path \<Rightarrow> bool" for P S D where
  wf_sign: "sign_file P S D now inp out key comment force w = (Inr (), w') \<Longrightarrow>
     workflow_step P S D (w, inp) (w', out)"
| wf_approve: "add_approval_seal P S D inp out key comment force w = (Inr (), w') \<Longrightarrow>
     workflow_step P S D (w, inp) (w', out)"
| wf_release: "attach_release_metadata P S inp out name version commit stamp w = (Inr (), w') \<Longrightarrow>
     workflow_step P S D (w, inp) (w', out)"
| wf_recovery: "attach_recovery_metadata P S inp out recovery_data w = (Inr (), w') \<Longrightarrow>
     workflow_step P S D (w, inp) (w', out)"

inductive_cases workflow_stepE: "workflow_step P S D a b"

lemma workflow_step_annotates:
  assumes "workflow_step P S D (w, p) (w', q)"
  shows "annotates P S (\<lambda>e0 ct e. (\<exists>s. e = e0\<lparr>e_signature := s\<rparr>) \<or>
      (\<exists>a. e = e0\<lparr>approvals := approvals e0 @ [a]\<rparr>) \<or> (\<exists>m. e = e0\<lparr>e_release := m\<rparr>) \<or>
      (\<exists>m. e = e0\<lparr>recovery_metadata := m\<rparr>)) p q w w'"
  using assms
proof cases
  case wf_sign
  from annotatesE [OF sign_file_annotates [OF this]] sign_envelope_is_annotation
  show ?thesis unfolding annotates_def by metis
next
  case wf_approve
  from annotatesE [OF add_approval_seal_annotates [OF this]] seal_envelope_Inr
  show ?thesis unfolding annotates_def by metis
next
  case wf_release
  from annotatesE [OF attach_metadata_annotates [OF this [unfolded attach_release_metadata_def]]]
  show ?thesis unfolding annotates_def by metis
next
  case wf_recovery
  from annotatesE [OF attach_metadata_annotates [OF this [unfolded attach_recovery_metadata_def]]]
  show ?thesis unfolding annotates_def by metis
qed

lemma workflow_step_payload:
  assumes S: "postcard_ok S" and st: "workflow_step P S D (w, p) (w', q)"
    and look: "lookup w p = Some (Regular data)"
  shows "\<exists>data'. lookup w' q = Some (Regular data') \<and>
    decrypt_memory_password P S data' pw seed = decrypt_memory_password P S data pw seed \<and>
    decrypt_memory_keypair P S data' sk = decrypt_memory_keypair P S data sk"
proof -
  obtain encoded0 e0 ct e encoded where *: "lookup w p = Some (Regular (capsule_bytes encoded0 ct))"
    "encoded0 \<noteq> []" "length encoded0 \<le> MAX_ENVELOPE_SIZE" "decode_envelope_bytes P S encoded0 = Inr e0"
    and R: "(\<exists>s. e = e0\<lparr>e_signature := s\<rparr>) \<or> (\<exists>a. e = e0\<lparr>approvals := approvals e0 @ [a]\<rparr>) \<or>
      (\<exists>m. e = e0\<lparr>e_release := m\<rparr>) \<or> (\<exists>m. e = e0\<lparr>recovery_metadata := m\<rparr>)"
    and o: "pc_envelope S e = Some encoded" "encoded \<noteq> []" "length encoded \<le> MAX_ENVELOPE_SIZE"
      "w' = put_file w q (capsule_bytes encoded ct)" "q \<noteq> Path False []"
    by (rule annotatesE [OF workflow_step_annotates [OF st]])
  have data: "data = capsule_bytes encoded0 ct" using * look by simp
  have "decrypt_memory_password P S (capsule_bytes encoded ct) pw seed = decrypt_memory_password P S data pw seed \<and>
    decrypt_memory_keypair P S (capsule_bytes encoded ct) sk = decrypt_memory_keypair P S data sk"
    using R
  proof (elim disjE exE)
    fix s assume "e = e0\<lparr>e_signature := s\<rparr>"
    then show ?thesis using sa.annotated_decrypts_both [OF *(4,2,3) S _ o(2,3)] o(1) data by simp
  next
    fix a assume "e = e0\<lparr>approvals := approvals e0 @ [a]\<rparr>"
    then show ?thesis using aa.annotated_decrypts_both [OF *(4,2,3) S _ o(2,3)] o(1) data by simp
  next
    fix m assume "e = e0\<lparr>e_release := m\<rparr>"
    then show ?thesis using ra.annotated_decrypts_both [OF *(4,2,3) S _ o(2,3)] o(1) data by simp
  next
    fix m assume "e = e0\<lparr>recovery_metadata := m\<rparr>"
    then show ?thesis using ca.annotated_decrypts_both [OF *(4,2,3) S _ o(2,3)] o(1) data by simp
  qed
  with o(4,5) lookup_put_file show ?thesis by blast
qed

text \<open>
  C18: However often a capsule is signed, approved and given release or recovery metadata, and
  through whatever files, the last one decrypts, or fails to, exactly as the first one, for every
  password, seed and private key.
\<close>

theorem workflow_preserves_payload:
  assumes S: "postcard_ok S" and steps: "(workflow_step P S D)\<^sup>*\<^sup>* (w, p) (w', q)"
    and "lookup w p = Some (Regular data)"
  shows "\<exists>data'. lookup w' q = Some (Regular data') \<and>
    decrypt_memory_password P S data' pw seed = decrypt_memory_password P S data pw seed \<and>
    decrypt_memory_keypair P S data' sk = decrypt_memory_keypair P S data sk"
  using steps
proof (induction rule: rtranclp_induct2)
  case refl
  with assms(3) show ?case by blast
next
  case (step w1 p1 w2 p2)
  then show ?case using workflow_step_payload [OF S step.hyps(2)] by metis
qed

section \<open>Metadata after signing\<close>

text \<open>
  Release metadata attached to a signed version-2 capsule is part of the signed statement:
  when the signature still verifies afterwards, the key accepts that signature for two different
  messages, unless the metadata were the same before.
\<close>

theorem release_after_signing:
  assumes S: "postcard_ok S" and signed: "verify_signature P S D inp vk w = (Inr fp, w)"
    and run: "attach_release_metadata P S inp out name version commit stamp w = (Inr (), w')"
    and still: "verify_signature P S D out vk w' = (Inr fp', w')"
    and old: "calm w inp" "fst (read_envelope_from_path P S inp w) = Inr e"
      "h_version (header e) = CURRENT_VERSION"
      "e_release e \<noteq> Some \<lparr>rel_project_name = name, rel_version = version, rel_git_commit = commit,
        rel_build_timestamp = stamp\<rparr>"
  shows "\<exists>m m' s. m \<noteq> m' \<and> ed_verify D vk m s \<and> ed_verify D vk m' s"
proof -
  let ?md = "\<lparr>rel_project_name = name, rel_version = version, rel_git_commit = commit, rel_build_timestamp = stamp\<rparr>"
  obtain encoded0 e0 ct encoded where *: "lookup w inp = Some (Regular (capsule_bytes encoded0 ct))"
      "encoded0 \<noteq> []" "length encoded0 \<le> MAX_ENVELOPE_SIZE" "decode_envelope_bytes P S encoded0 = Inr e0"
      "pc_envelope S (e0\<lparr>e_release := Some ?md\<rparr>) = Some encoded" "encoded \<noteq> []"
      "length encoded \<le> MAX_ENVELOPE_SIZE" "w' = put_file w out (capsule_bytes encoded ct)" "out \<noteq> Path False []"
    using annotatesE [OF attach_metadata_annotates [OF run [unfolded attach_release_metadata_def]]] by metis
  let ?e1 = "e0\<lparr>e_release := Some ?md\<rparr>"
  have e: "e0 = e" using read_envelope_at [OF *(1) old(1) *(2-4)] old(2) by simp
  have dec: "decode_envelope_bytes P S encoded = Inr ?e1" by (rule ra.annotated_decodes [OF S *(4,5)])
  have look: "lookup w' out = Some (Regular (capsule_bytes encoded ct))" using *(8,9) lookup_put_file by simp
  obtain e0' ct' encoded0' where o: "lookup w inp = Some (Regular (capsule_bytes encoded0' ct'))"
      "length encoded0' \<le> MAX_ENVELOPE_SIZE" "decode_envelope_bytes P S encoded0' = Inr e0'"
      "check_signature P S D vk e0' ct' = Inr fp"
    using signed by (elim verify_signature_Inr) blast
  then have before: "check_signature P S D vk e0 ct = Inr fp"
    using capsule_bytes_eq [of encoded0 ct encoded0' ct'] *(1,3,4) by auto
  obtain e1' ct1 encoded1 where o1: "lookup w' out = Some (Regular (capsule_bytes encoded1 ct1))"
      "length encoded1 \<le> MAX_ENVELOPE_SIZE" "decode_envelope_bytes P S encoded1 = Inr e1'"
      "check_signature P S D vk e1' ct1 = Inr fp'"
    using still by (elim verify_signature_Inr) blast
  then have after: "check_signature P S D vk ?e1 ct = Inr fp'"
    using capsule_bytes_eq [of encoded ct encoded1 ct1] look *(7) dec by auto
  from before obtain s m where m: "e_signature e0 = Some s" "author_signature_message S e0 ct = Inr m"
      "ed_verify D vk m (sig_bytes s)" unfolding check_signature_iff by blast
  from after m(1) obtain m' where m': "author_signature_message S ?e1 ct = Inr m'"
      "ed_verify D vk m' (sig_bytes s)" unfolding check_signature_iff by auto
  have v: "CURRENT_VERSION \<le> h_version (header e0)" "CURRENT_VERSION \<le> h_version (header ?e1)"
    using old(3) by (simp_all add: e)
  have "m \<noteq> m'"
  proof
    assume "m = m'"
    with signed_view_binding [OF S v(1) m(2) v(2)] m'(1) have "signed_view ?e1 = signed_view e0" by blast
    then have "e_release (signed_view ?e1) = e_release (signed_view e0)" by simp
    then show False using old(4) by (simp add: signed_view_def e)
  qed
  with m(3) m'(2) show ?thesis by blast
qed

end
