(* ===== verification/Signing_Samples.thy ===== *)
theory Signing_Samples
  imports Signing_Correct
begin

text \<open>
  A concrete capsule that is signed, approved and annotated, for the witnesses of theory
  Signing_Correct.
\<close>

section \<open>The annotating functions succeed in a good environment\<close>

definition free_name :: "world \<Rightarrow> path \<Rightarrow> bool" where
  "free_name w p \<longleftrightarrow> w_fs w (resolve w p) = None"

lemma signing_write_atomic_ok:
  assumes out: "output_ok w out" "free_name w out"
  shows "signing_write_atomic out bs force w = (Inr (), put_file w out bs)"
proof -
  obtain q where q: "parent out = Some q" using out by (auto simp: output_ok_def parent_def)
  have dir: "w_fs w (resolve w q) = Some Directory"
    using out q by (auto simp: output_ok_def parent_or_dot_def)
  then have ne: "resolve w q \<noteq> resolve w out" using out by (auto simp: free_name_def)
  then have "lookup (put_file w out bs) q = Some Directory"
    using dir out q by (auto simp: lookup_def w_fs_put_file output_ok_def)
  then have sync: "sync_path (parent_or_dot out) (put_file w out bs) = (Inr (), put_file w out bs)"
    using out q by (simp add: sync_path_def parent_or_dot_def output_ok_def)
  have ref: "refuse_existing out force w = (Inr (), w)"
    using out by (simp add: refuse_existing_def path_exists_def lookup_def free_name_def)
  obtain tmp where tmp: "write_all bs (fresh_writer None) = (Inr (), tmp)" "w_data tmp = bs"
    by (simp add: write_all_def)
  have com: "signing_commit force tmp out w = (Inr (), put_file w out bs)"
    using out sync tmp(2)
    by (simp add: signing_commit_def act_apply act_map_err_def persist_def persist_noclobber_def
        free_name_def output_ok_def)
  have st: "sync_temp w = (Inr (), w)" using out by (simp add: sync_temp_def output_ok_def)
  show ?thesis
    unfolding signing_write_atomic_def
    by (simp add: act_apply act_map_err_def ref output_ok_new_in [OF out(1)] tmp(1) st com)
qed

lemma release_write_atomic_ok:
  assumes out: "output_ok w out" "free_name w out"
  shows "release_write_atomic out bs w = (Inr (), put_file w out bs)"
proof -
  obtain q where q: "parent out = Some q" using out by (auto simp: output_ok_def parent_def)
  have dir: "w_fs w (resolve w q) = Some Directory"
    using out q by (auto simp: output_ok_def parent_or_dot_def)
  then have ne: "resolve w q \<noteq> resolve w out" using out by (auto simp: free_name_def)
  then have "lookup (put_file w out bs) q = Some Directory"
    using dir out q by (auto simp: lookup_def w_fs_put_file output_ok_def)
  then have sync: "sync_path (parent_or_dot out) (put_file w out bs) = (Inr (), put_file w out bs)"
    using out q by (simp add: sync_path_def parent_or_dot_def output_ok_def)
  obtain tmp where tmp: "write_all bs (fresh_writer None) = (Inr (), tmp)" "w_data tmp = bs"
    by (simp add: write_all_def)
  have com: "release_commit tmp out w = (Inr (), put_file w out bs)"
    using out sync tmp(2)
    by (simp add: release_commit_def act_apply act_map_err_def persist_def free_name_def output_ok_def)
  have st: "sync_temp w = (Inr (), w)" using out by (simp add: sync_temp_def output_ok_def)
  show ?thesis
    unfolding release_write_atomic_def
    by (simp add: act_apply act_map_err_def output_ok_new_in [OF out(1)] tmp(1) st com)
qed

text \<open>A capsule in the file \<open>p\<close> of world \<open>w\<close>.\<close>

definition capsule_at :: "prims \<Rightarrow> postcard \<Rightarrow> world \<Rightarrow> path \<Rightarrow> envelope \<Rightarrow> bytes \<Rightarrow> bool" where
  "capsule_at P S w p e ct \<longleftrightarrow> calm w p \<and> (\<exists>encoded. lookup w p = Some (Regular (capsule_bytes encoded ct)) \<and>
     encoded \<noteq> [] \<and> length encoded \<le> MAX_ENVELOPE_SIZE \<and> decode_envelope_bytes P S encoded = Inr e)"

lemma small_output:
  "length encoded \<le> MAX_ENVELOPE_SIZE \<Longrightarrow> signing_output encoded ct = Inr (capsule_bytes encoded ct)"
  by (simp add: signing_output_def capsule_bytes_def MAX_ENVELOPE_SIZE_def)

lemma sign_file_ok:
  assumes "capsule_at P S w inp e0 ct" "sign_envelope P S D now key comment e0 ct = Inr e"
    and "signing_encode_envelope S e = Inr encoded" "output_ok w out" "free_name w out"
  shows "sign_file P S D now inp out key comment force w = (Inr (), put_file w out (capsule_bytes encoded ct))"
proof -
  obtain encoded0 where *: "lookup w inp = Some (Regular (capsule_bytes encoded0 ct))" "calm w inp"
      "decode_capsule_parts P S (capsule_bytes encoded0 ct) = Inr (e0, ct)"
    using assms(1) sp.split_capsule_bytes unfolding capsule_at_def by metis
  have ref: "refuse_existing out force w = (Inr (), w)"
    using assms(5) by (simp add: refuse_existing_def path_exists_def lookup_def free_name_def)
  have "length encoded \<le> MAX_ENVELOPE_SIZE" using assms(3) by (simp add: signing_encode_Inr)
  then show ?thesis
    unfolding sign_file_def
    by (simp add: act_apply act_map_err_def ref fs_read_calm [OF *(1,2)] *(3) assms(2,3) small_output
        signing_write_atomic_ok [OF assms(4,5)])
qed

lemma add_approval_seal_ok:
  assumes "capsule_at P S w inp e0 ct" "seal_envelope P S D key comment e0 ct = Inr e"
    and "signing_encode_envelope S e = Inr encoded" "output_ok w out" "free_name w out"
  shows "add_approval_seal P S D inp out key comment force w = (Inr (), put_file w out (capsule_bytes encoded ct))"
proof -
  obtain encoded0 where *: "lookup w inp = Some (Regular (capsule_bytes encoded0 ct))" "calm w inp"
      "decode_capsule_parts P S (capsule_bytes encoded0 ct) = Inr (e0, ct)"
    using assms(1) sp.split_capsule_bytes unfolding capsule_at_def by metis
  have ref: "refuse_existing out force w = (Inr (), w)"
    using assms(5) by (simp add: refuse_existing_def path_exists_def lookup_def free_name_def)
  have "length encoded \<le> MAX_ENVELOPE_SIZE" using assms(3) by (simp add: signing_encode_Inr)
  then show ?thesis
    unfolding add_approval_seal_def
    by (simp add: act_apply act_map_err_def ref fs_read_calm [OF *(1,2)] *(3) assms(2,3) small_output
        signing_write_atomic_ok [OF assms(4,5)])
qed

lemma attach_metadata_ok:
  assumes "capsule_at P S w inp e0 ct" "signing_encode_envelope S (f e0) = Inr encoded"
    and "output_ok w out" "free_name w out"
  shows "attach_metadata P S f inp out w = (Inr (), put_file w out (capsule_bytes encoded ct))"
proof -
  obtain encoded0 where *: "lookup w inp = Some (Regular (capsule_bytes encoded0 ct))" "calm w inp"
      "encoded0 \<noteq> []" "length encoded0 \<le> MAX_ENVELOPE_SIZE" "decode_envelope_bytes P S encoded0 = Inr e0"
    using assms(1) unfolding capsule_at_def by blast
  then obtain n where n: "decode_capsule_envelope P S (capsule_bytes encoded0 ct) = Inr (e0, n)"
      "drop n (capsule_bytes encoded0 ct) = ct"
    using decode_capsule_envelope_iff [of P S "capsule_bytes encoded0 ct" e0 _ ct] by metis
  have enc: "release_encode_envelope S (f e0) = Inr encoded" "length encoded < 2 ^ 32"
    using assms(2) by (auto simp: release_encode_envelope_def signing_encode_Inr MAX_ENVELOPE_SIZE_def)
  have "release_write_atomic out (u32_to_le_bytes (of_nat (length encoded)) @ encoded @ ct) w =
      (Inr (), put_file w out (capsule_bytes encoded ct))"
    unfolding capsule_bytes_def by (rule release_write_atomic_ok [OF assms(3,4)])
  then show ?thesis
    unfolding attach_metadata_def
    using enc by (simp add: act_apply act_map_err_def fs_read_calm [OF *(1,2)] n)
qed

text \<open>The result is again a capsule.\<close>

lemma capsule_at_put:
  assumes "signing_encode_envelope S e = Inr encoded" "decode_envelope_bytes P S encoded = Inr e"
    "calm w p" "p \<noteq> Path False []"
  shows "capsule_at P S (put_file w p (capsule_bytes encoded ct)) p e ct"
  using assms lookup_put_file by (auto simp: capsule_at_def calm_def signing_encode_Inr)

section \<open>The sample\<close>

definition sample_ed :: ed25519 where
  "sample_ed = \<lparr>ed_public = (\<lambda>seed. replicate 32 (sum_list seed)),
     ed_sign = (\<lambda>seed m. replicate 64 (sum_list seed + sum_list m)),
     ed_verify = (\<lambda>pk m s. s = replicate 64 (hd pk + sum_list m)), ed_point_ok = (\<lambda>_. True)\<rparr>"

lemma sample_ed_ok [simp]: "ed25519_ok sample_ed"
  by (simp add: ed25519_ok_def sample_ed_def)

definition sample_cap :: envelope where
  "sample_cap = sample_env (RPassword (replicate 24 1) (replicate 48 1)) (Some (Argon2id 16384 1 1 (replicate 16 1)))"

lemma sample_cap_fields:
  "h_version (header sample_cap) = CURRENT_VERSION" "e_signature sample_cap = None"
  "approvals sample_cap = []" "e_release sample_cap = None" "recovery_metadata sample_cap = None"
  by (simp_all add: sample_cap_def sample_env_for_def new_envelope_def)

lemma sample_cap_decodes:
  "decode_envelope_bytes sample_prims sample_postcard (fst c_envelope sample_cap) = Inr sample_cap"
proof (rule decode_encoded)
  show "validate_envelope_resources sample_cap = Inr ()"
    by (simp add: sample_cap_def sample_env_for_def validate_envelope_resources_def new_envelope_def is_password_def
        MAX_RECIPIENTS_def needs_secondary_nonce_def)
  show "verify_aad_hash sample_prims sample_postcard sample_cap = Inr ()"
    by (simp add: verify_aad_hash_def sample_cap_def sample_env_for_def)
      (simp add: compute_aad_hash_def new_envelope_def sample_postcard_def)
  show "validate sample_cap = Inr ()" by (simp add: sample_cap_def sample_env_for_def)
  show "postcard_ok sample_postcard" by (rule sample_postcard_ok)
qed (simp add: sample_postcard_def)

text \<open>An annotated envelope stays small.\<close>

lemma length_c_string [len_simps]: "length (fst c_string s) = 2 * length s + 1"
  by (simp add: c_string_def len_simps)

lemma sample_size:
  assumes "h = header sample_cap" "length (fst (c_option c_signature) sg) \<le> 1000"
    "length (fst (c_list c_approval) ap) \<le> 1000" "length (fst (c_option c_release) rl) \<le> 1000"
    "length (fst (c_option c_bytes) rm) \<le> 1000"
  shows "signing_encode_envelope sample_postcard (sample_cap\<lparr>e_signature := sg, approvals := ap, e_release := rl,
      recovery_metadata := rm\<rparr>) = Inr (fst c_envelope (sample_cap\<lparr>e_signature := sg, approvals := ap,
      e_release := rl, recovery_metadata := rm\<rparr>))"
proof -
  let ?e = "sample_cap\<lparr>e_signature := sg, approvals := ap, e_release := rl, recovery_metadata := rm\<rparr>"
  have b: "length (fst c_bool x) \<le> 2" for x by (rule length_c_words)
  have hd: "length (fst c_header (header sample_cap)) \<le> 7000"
    by (simp add: sample_cap_def sample_env_for_def new_envelope_def c_header_def len_simps MAGIC_REAL_def
        CURRENT_VERSION_def c_kdf_def c_recipient_def recipient_tuple_def)
  have "length (fst c_envelope ?e) \<le> length (fst c_header (header sample_cap)) + length (fst c_bool False) + 400 +
      length (fst (c_option c_signature) sg) + length (fst (c_list c_approval) ap) +
      length (fst (c_option c_release) rl) + length (fst (c_option c_bytes) rm)"
    and "0 < length (fst c_envelope ?e)"
    by (simp_all add: c_envelope_def len_simps sample_cap_def sample_env_for_def new_envelope_def)
  then have "length (fst c_envelope ?e) \<le> MAX_ENVELOPE_SIZE" "fst c_envelope ?e \<noteq> []"
    using hd b [of False] assms unfolding MAX_ENVELOPE_SIZE_def length_greater_0_conv by linarith+
  then show ?thesis by (simp add: signing_encode_Inr) (simp add: sample_postcard_def)
qed

text \<open>The world that holds the capsule, signed in a second file.\<close>

definition capsule_world :: world where
  "capsule_world = put_file sample_world sample_in (capsule_bytes (fst c_envelope sample_cap) [1, 2, 3])"

lemma capsule_world_sel [simp]:
  "output_ok capsule_world sample_out" "free_name capsule_world sample_out" "calm capsule_world p"
  "output_ok (put_file capsule_world sample_out bs) sample_back"
  "free_name (put_file capsule_world sample_out bs) sample_back"
  "calm (put_file w q bs) p \<longleftrightarrow> calm w p"
  by (simp_all add: output_ok_def free_name_def calm_def capsule_world_def w_fs_put_file)

lemma sample_capsule_at: "capsule_at sample_prims sample_postcard capsule_world sample_in sample_cap [1, 2, 3]"
proof -
  have e: "sample_cap\<lparr>e_signature := None, approvals := [], e_release := None, recovery_metadata := None\<rparr> = sample_cap"
    by (rule envelope.equality) (simp_all add: sample_cap_fields)
  have "signing_encode_envelope sample_postcard sample_cap = Inr (fst c_envelope sample_cap)"
    using sample_size [OF refl, of None "[]" None None] by (simp add: len_simps e)
  then have "fst c_envelope sample_cap \<noteq> []" "length (fst c_envelope sample_cap) \<le> MAX_ENVELOPE_SIZE"
    by (auto simp: signing_encode_Inr)
  then show ?thesis
    using sample_cap_decodes lookup_put_file [of sample_in sample_world]
    by (auto simp: capsule_at_def) (auto simp: capsule_world_def sample_in_def)
qed

definition sample_sig :: "bytes \<Rightarrow> envelope_signature" where
  "sample_sig m = \<lparr>sig_fingerprint = key_fingerprint sample_prims (ed_public sample_ed [7]),
     sig_bytes = ed_sign sample_ed [7] m, sig_created_at = None, sig_comment = None\<rparr>"

text \<open>A signature scheme that accepts everything, for the property about broken signatures.\<close>

definition sample_lax_ed :: ed25519 where
  "sample_lax_ed = sample_ed\<lparr>ed_verify := \<lambda>_ _ _. True\<rparr>"

lemma sample_lax_ed_ok [simp]: "ed25519_ok sample_lax_ed"
  by (simp add: ed25519_ok_def sample_lax_ed_def sample_ed_def)

lemma sample_ed_sel [simp]:
  "ed_public sample_lax_ed = ed_public sample_ed" "ed_sign sample_lax_ed = ed_sign sample_ed"
  "ed_verify sample_lax_ed pk m s" "length (ed_sign sample_ed k m) = 64"
  by (simp_all add: sample_lax_ed_def sample_ed_def)

lemma sample_signed:
  assumes D: "D \<in> {sample_ed, sample_lax_ed}"
  obtains m where "sign_envelope sample_prims sample_postcard D None [7] None sample_cap [1, 2, 3] =
      Inr (sample_cap\<lparr>e_signature := Some (sample_sig m)\<rparr>)"
  using that D
  by (auto simp: sign_envelope_def author_signature_message_def Let_def sample_cap_fields sample_sig_def)
    (auto simp: sample_postcard_def)

lemma sample_encodes:
  "\<exists>encoded. signing_encode_envelope sample_postcard (sample_cap\<lparr>e_signature := Some (sample_sig m)\<rparr>) = Inr encoded"
  "length (fst c_approval a) \<le> 900 \<Longrightarrow> \<exists>encoded. signing_encode_envelope sample_postcard
     (sample_cap\<lparr>e_signature := Some (sample_sig m), approvals := [a]\<rparr>) = Inr encoded"
  "\<exists>encoded. signing_encode_envelope sample_postcard (sample_cap\<lparr>e_signature := Some (sample_sig m),
     e_release := Some \<lparr>rel_project_name = Some ''lvau'', rel_version = None, rel_git_commit = None,
       rel_build_timestamp = None\<rparr>\<rparr>) = Inr encoded"
proof -
  have sig: "length (fst (c_option c_signature) (Some (sample_sig m))) \<le> 1000"
    by (simp add: c_signature_def len_simps sample_sig_def key_fingerprint_def)
  have rel: "length (fst (c_option c_release) (Some \<lparr>rel_project_name = Some ''lvau'', rel_version = None,
      rel_git_commit = None, rel_build_timestamp = None\<rparr>)) \<le> 1000"
    by (simp add: c_release_def len_simps)
  have none: "length (fst (c_option c_release) None) \<le> 1000" "length (fst (c_option c_bytes) None) \<le> 1000"
      "length (fst (c_list c_approval) []) \<le> 1000" by (simp_all add: len_simps)
  have e: "sample_cap\<lparr>e_signature := sg, approvals := [], e_release := None, recovery_metadata := None\<rparr> =
        sample_cap\<lparr>e_signature := sg\<rparr>"
      "sample_cap\<lparr>e_signature := sg, approvals := ap, e_release := None, recovery_metadata := None\<rparr> =
        sample_cap\<lparr>e_signature := sg, approvals := ap\<rparr>"
      "sample_cap\<lparr>e_signature := sg, approvals := [], e_release := rl, recovery_metadata := None\<rparr> =
        sample_cap\<lparr>e_signature := sg, e_release := rl\<rparr>" for sg ap rl
    by (rule envelope.equality; simp add: sample_cap_fields)+
  show "\<exists>encoded. signing_encode_envelope sample_postcard (sample_cap\<lparr>e_signature := Some (sample_sig m)\<rparr>) = Inr encoded"
    using sample_size [OF refl sig none(3,1,2)] by (simp add: e)
  show "\<exists>encoded. signing_encode_envelope sample_postcard (sample_cap\<lparr>e_signature := Some (sample_sig m),
     e_release := Some \<lparr>rel_project_name = Some ''lvau'', rel_version = None, rel_git_commit = None,
       rel_build_timestamp = None\<rparr>\<rparr>) = Inr encoded"
    using sample_size [OF refl sig none(3) rel none(2)] by (simp add: e)
  assume "length (fst c_approval a) \<le> 900"
  then have "length (fst (c_list c_approval) [a]) \<le> 1000" by (simp add: len_simps)
  then show "\<exists>encoded. signing_encode_envelope sample_postcard
     (sample_cap\<lparr>e_signature := Some (sample_sig m), approvals := [a]\<rparr>) = Inr encoded"
    using sample_size [OF refl sig _ none(1,2)] by (simp add: e)
qed

lemma signed_verifies:
  assumes "capsule_at sample_prims sample_postcard w p (sample_cap\<lparr>e_signature := Some (sample_sig m)\<rparr>) [1, 2, 3]"
    "check_signature sample_prims sample_postcard D vk (sample_cap\<lparr>e_signature := Some (sample_sig m)\<rparr>) [1, 2, 3] = Inr fp"
  shows "verify_signature sample_prims sample_postcard D p vk w = (Inr fp, w)"
  using assms annotated_parts(1) unfolding capsule_at_def by metis

text \<open>The signing run.\<close>

lemma sample_sign_run:
  assumes D: "D \<in> {sample_ed, sample_lax_ed}"
  obtains w m where "sign_file sample_prims sample_postcard D None sample_in sample_out [7] None False
      capsule_world = (Inr (), w)"
    "capsule_at sample_prims sample_postcard w sample_out (sample_cap\<lparr>e_signature := Some (sample_sig m)\<rparr>) [1, 2, 3]"
    "output_ok w sample_back" "free_name w sample_back" "\<And>p. calm w p"
    "verify_signature sample_prims sample_postcard D sample_out (ed_public sample_ed [7]) w =
      (Inr (key_fingerprint sample_prims (ed_public sample_ed [7])), w)"
proof -
  obtain m where m: "sign_envelope sample_prims sample_postcard D None [7] None sample_cap [1, 2, 3] =
      Inr (sample_cap\<lparr>e_signature := Some (sample_sig m)\<rparr>)"
    using sample_signed [OF D] .
  obtain encoded where enc: "signing_encode_envelope sample_postcard (sample_cap\<lparr>e_signature := Some (sample_sig m)\<rparr>) = Inr encoded"
    using sample_encodes(1) by blast
  have dec: "decode_envelope_bytes sample_prims sample_postcard encoded = Inr (sample_cap\<lparr>e_signature := Some (sample_sig m)\<rparr>)"
    using enc sa.annotated_decodes [OF sample_postcard_ok sample_cap_decodes] by (simp add: signing_encode_Inr)
  have ok: "ed25519_ok D" "ed_public D = ed_public sample_ed" using D by auto
  let ?w = "put_file capsule_world sample_out (capsule_bytes encoded [1, 2, 3])"
  have cap: "capsule_at sample_prims sample_postcard ?w sample_out (sample_cap\<lparr>e_signature := Some (sample_sig m)\<rparr>) [1, 2, 3]"
    by (rule capsule_at_put [OF enc dec]) simp_all
  have sig: "verify_signature sample_prims sample_postcard D sample_out (ed_public sample_ed [7]) ?w =
      (Inr (key_fingerprint sample_prims (ed_public sample_ed [7])), ?w)"
    using signed_verifies [OF cap signed_checks [OF ok(1) m]] ok(2) by simp
  show ?thesis
    by (rule that [OF _ cap _ _ _ sig], rule sign_file_ok [OF sample_capsule_at m enc]) simp_all
qed

section \<open>Witnesses\<close>

theorem sign_then_verify_witness:
  "\<exists>w. sign_file sample_prims sample_postcard sample_ed None sample_in sample_out [7] None False
        capsule_world = (Inr (), w) \<and>
     verify_signature sample_prims sample_postcard sample_ed sample_out (ed_public sample_ed [7]) w =
        (Inr (key_fingerprint sample_prims (ed_public sample_ed [7])), w)"
proof (rule sample_sign_run [of sample_ed])
  fix w
  assume run: "sign_file sample_prims sample_postcard sample_ed None sample_in sample_out [7] None False
      capsule_world = (Inr (), w)" "\<And>p. calm w p"
  from sign_then_verify [OF _ _ run] run(1) show ?thesis by auto
qed simp

theorem author_signature_binding_witness:
  "\<exists>e m. author_signature_message sample_postcard e [1] = Inr m \<and>
     \<not> author_signature_message sample_postcard e [2] = Inr m"
proof -
  let ?e = "sample_cap\<lparr>e_signature := Some (sample_sig [])\<rparr>"
  have v: "CURRENT_VERSION \<le> h_version (header ?e)" by (simp add: sample_cap_fields)
  have "pc_envelope sample_postcard (signed_view ?e) \<noteq> None" by (simp add: sample_postcard_def)
  then obtain m where m: "author_signature_message sample_postcard ?e [1] = Inr m"
    using author_message_v2 [OF v] by fastforce
  have "author_signature_message sample_postcard ?e [2] \<noteq> Inr m"
  proof
    assume "author_signature_message sample_postcard ?e [2] = Inr m"
    from author_signature_binding [OF sample_postcard_ok v m v this] show False by simp
  qed
  with m show ?thesis by blast
qed

theorem approval_keeps_signature_witness:
  "\<exists>w w'. add_approval_seal sample_prims sample_postcard sample_ed sample_out sample_back [9] None False w = (Inr (), w') \<and>
     verify_approvals sample_prims sample_postcard sample_ed sample_back (ed_public sample_ed [9]) w' = (Inr True, w')"
proof (rule sample_sign_run [of sample_ed])
  fix w m
  assume *: "sign_file sample_prims sample_postcard sample_ed None sample_in sample_out [7] None False
      capsule_world = (Inr (), w)"
    "capsule_at sample_prims sample_postcard w sample_out (sample_cap\<lparr>e_signature := Some (sample_sig m)\<rparr>) [1, 2, 3]"
    "output_ok w sample_back" "free_name w sample_back" "\<And>p. calm w p"
    and sig: "verify_signature sample_prims sample_postcard sample_ed sample_out (ed_public sample_ed [7]) w =
      (Inr (key_fingerprint sample_prims (ed_public sample_ed [7])), w)"
  let ?e = "sample_cap\<lparr>e_signature := Some (sample_sig m)\<rparr>"
  let ?a0 = "\<lparr>ap_fingerprint = key_fingerprint sample_prims (ed_public sample_ed [9]), ap_signature = [],
      ap_comment = None\<rparr>"
  have "approval_signature_message sample_prims sample_postcard ?e [1, 2, 3] ?a0 \<noteq> Inl err" for err
    by (simp add: approval_signature_message_def sample_cap_fields) (simp add: sample_postcard_def)
  then obtain m2 where m2: "approval_signature_message sample_prims sample_postcard ?e [1, 2, 3] ?a0 = Inr m2"
    by (meson sum.exhaust)
  define a where "a = ?a0\<lparr>ap_signature := ed_sign sample_ed [9] m2\<rparr>"
  have a: "seal_envelope sample_prims sample_postcard sample_ed [9] None ?e [1, 2, 3] = Inr (?e\<lparr>approvals := [a]\<rparr>)"
    using m2 by (simp add: seal_envelope_def Let_def sample_cap_fields a_def)
  have small: "length (fst c_approval a) \<le> 900"
    by (simp add: c_approval_def len_simps key_fingerprint_def a_def)
  obtain encoded where enc: "signing_encode_envelope sample_postcard (?e\<lparr>approvals := [a]\<rparr>) = Inr encoded"
    using sample_encodes(2) [OF small] by blast
  note run = add_approval_seal_ok [OF *(2) a enc *(3,4), of False]
  let ?w = "put_file w sample_back (capsule_bytes encoded [1, 2, 3])"
  have dec: "decode_envelope_bytes sample_prims sample_postcard encoded = Inr (?e\<lparr>approvals := [a]\<rparr>)"
  proof -
    have e: "?e\<lparr>approvals := [a]\<rparr> = ?e\<lparr>approvals := approvals ?e @ [a]\<rparr>" by (simp add: sample_cap_fields)
    have "decode_envelope_bytes sample_prims sample_postcard (fst c_envelope ?e) = Inr ?e"
      by (rule sa.annotated_decodes [OF sample_postcard_ok sample_cap_decodes]) (simp add: sample_postcard_def)
    from aa.annotated_decodes [OF sample_postcard_ok this] enc show ?thesis
      unfolding e by (simp add: signing_encode_Inr)
  qed
  have "capsule_at sample_prims sample_postcard ?w sample_back (?e\<lparr>approvals := [a]\<rparr>) [1, 2, 3]"
    by (rule capsule_at_put [OF enc dec *(5)]) (simp add: sample_back_def)
  then have "fst (read_envelope_from_path sample_prims sample_postcard sample_back ?w) = Inr (?e\<lparr>approvals := [a]\<rparr>)"
    using read_envelope_at unfolding capsule_at_def by blast
  from approval_keeps_signature [OF sample_postcard_ok _ _ sig run _ this] run *(5)
  show ?thesis by (auto simp: sample_cap_fields) (auto simp: sample_postcard_def)
qed simp

theorem workflow_preserves_payload_witness:
  "\<exists>w'. workflow_step sample_prims sample_postcard sample_ed (capsule_world, sample_in) (w', sample_out) \<and>
     (\<exists>data'. lookup w' sample_out = Some (Regular data') \<and>
        decrypt_memory_password sample_prims sample_postcard data' [1] None =
        decrypt_memory_password sample_prims sample_postcard
          (capsule_bytes (fst c_envelope sample_cap) [1, 2, 3]) [1] None)"
proof (rule sample_sign_run [of sample_ed])
  fix w
  assume "sign_file sample_prims sample_postcard sample_ed None sample_in sample_out [7] None False
      capsule_world = (Inr (), w)"
  then have step: "workflow_step sample_prims sample_postcard sample_ed (capsule_world, sample_in) (w, sample_out)"
    by (rule wf_sign)
  have look: "lookup capsule_world sample_in = Some (Regular (capsule_bytes (fst c_envelope sample_cap) [1, 2, 3]))"
    unfolding capsule_world_def by (rule lookup_put_file) (simp add: sample_in_def)
  from workflow_preserves_payload [OF sample_postcard_ok r_into_rtranclp, OF step look] step
  show ?thesis by blast
qed simp

theorem release_after_signing_witness:
  "\<exists>w w'. attach_release_metadata sample_prims sample_postcard sample_out sample_back (Some ''lvau'') None None None w =
        (Inr (), w') \<and>
     (\<exists>m m' s. m \<noteq> m' \<and> ed_verify sample_lax_ed (ed_public sample_ed [7]) m s \<and>
        ed_verify sample_lax_ed (ed_public sample_ed [7]) m' s)"
proof (rule sample_sign_run [of sample_lax_ed])
  fix w m
  assume *: "sign_file sample_prims sample_postcard sample_lax_ed None sample_in sample_out [7] None False
      capsule_world = (Inr (), w)"
    "capsule_at sample_prims sample_postcard w sample_out (sample_cap\<lparr>e_signature := Some (sample_sig m)\<rparr>) [1, 2, 3]"
    "output_ok w sample_back" "free_name w sample_back" "\<And>p. calm w p"
    and sig: "verify_signature sample_prims sample_postcard sample_lax_ed sample_out (ed_public sample_ed [7]) w =
      (Inr (key_fingerprint sample_prims (ed_public sample_ed [7])), w)"
  let ?e = "sample_cap\<lparr>e_signature := Some (sample_sig m)\<rparr>"
  let ?md = "\<lparr>rel_project_name = Some ''lvau'', rel_version = None, rel_git_commit = None, rel_build_timestamp = None\<rparr>"
  obtain encoded where enc: "signing_encode_envelope sample_postcard (?e\<lparr>e_release := Some ?md\<rparr>) = Inr encoded"
    using sample_encodes(3) by blast
  let ?w = "put_file w sample_back (capsule_bytes encoded [1, 2, 3])"
  have run: "attach_release_metadata sample_prims sample_postcard sample_out sample_back (Some ''lvau'') None None None w =
      (Inr (), ?w)"
    unfolding attach_release_metadata_def
    by (rule attach_metadata_ok [OF *(2) _ *(3,4)]) (rule enc)
  have dec: "decode_envelope_bytes sample_prims sample_postcard encoded = Inr (?e\<lparr>e_release := Some ?md\<rparr>)"
  proof -
    have "decode_envelope_bytes sample_prims sample_postcard (fst c_envelope ?e) = Inr ?e"
      by (rule sa.annotated_decodes [OF sample_postcard_ok sample_cap_decodes]) (simp add: sample_postcard_def)
    from ra.annotated_decodes [OF sample_postcard_ok this] enc show ?thesis by (simp add: signing_encode_Inr)
  qed
  have cap: "capsule_at sample_prims sample_postcard ?w sample_back (?e\<lparr>e_release := Some ?md\<rparr>) [1, 2, 3]"
    by (rule capsule_at_put [OF enc dec *(5)]) (simp add: sample_back_def)
  have "author_signature_message sample_postcard (?e\<lparr>e_release := Some ?md\<rparr>) [1, 2, 3] \<noteq> Inl err" for err
    by (simp add: author_signature_message_def sample_cap_fields) (simp add: sample_postcard_def)
  then obtain m' where "author_signature_message sample_postcard (?e\<lparr>e_release := Some ?md\<rparr>) [1, 2, 3] = Inr m'"
    by (meson sum.exhaust)
  then have "check_signature sample_prims sample_postcard sample_lax_ed (ed_public sample_ed [7])
      (?e\<lparr>e_release := Some ?md\<rparr>) [1, 2, 3] = Inr (key_fingerprint sample_prims (ed_public sample_ed [7]))"
    unfolding check_signature_iff by (simp add: sample_sig_def)
  with cap have still: "verify_signature sample_prims sample_postcard sample_lax_ed sample_back (ed_public sample_ed [7]) ?w =
      (Inr (key_fingerprint sample_prims (ed_public sample_ed [7])), ?w)"
    using annotated_parts(1) unfolding capsule_at_def by metis
  have "fst (read_envelope_from_path sample_prims sample_postcard sample_out w) = Inr ?e"
    using *(2) read_envelope_at unfolding capsule_at_def by blast
  from release_after_signing [OF sample_postcard_ok sig run still *(5) this] run
  show ?thesis by (auto simp: sample_cap_fields)
qed simp

end
