(* ===== verification/Preflight.thy ===== *)
theory Preflight
  imports Signing_Correct
begin

text \<open>
  Inspection of a capsule before it is opened (preflight.rs), with exact characterisations of
  its three statuses. The display texts of errors are a parameter.
\<close>

section \<open>Data\<close>

datatype preflight_status = PfOk | PfWarn | PfFail

record preflight_result =
  pf_status :: preflight_status
  parse_ok :: bool
  parse_error :: "string option"
  pf_version :: u16
  pf_content_type :: string
  pf_profile :: string
  pf_algorithm :: string
  public_hash_ok :: bool
  signature_present :: bool
  signature_valid :: "bool option"
  pf_signer_fingerprint :: "string option"
  policy_ok :: "bool option"
  policy_violations :: "string list"
  policy_warnings :: "string list"
  pf_policy_overridden :: bool
  pf_approvals :: "string list"
  recipient_count :: nat
  has_recovery_metadata :: bool
  has_release_metadata :: bool
  experimental_flags :: "string list"
  file_size_ok :: bool
  pf_errors :: "string list"
  pf_warnings :: "string list"

definition empty_preflight :: preflight_result where
  "empty_preflight = \<lparr>pf_status = PfOk, parse_ok = False, parse_error = None, pf_version = 0,
     pf_content_type = ''Unknown'', pf_profile = ''Unknown'', pf_algorithm = ''Unknown'',
     public_hash_ok = False, signature_present = False, signature_valid = None,
     pf_signer_fingerprint = None, policy_ok = None, policy_violations = [], policy_warnings = [],
     pf_policy_overridden = False, pf_approvals = [], recipient_count = 0,
     has_recovery_metadata = False, has_release_metadata = False, experimental_flags = [],
     file_size_ok = False, pf_errors = [], pf_warnings = []\<rparr>"

definition push_error :: "string \<Rightarrow> preflight_result \<Rightarrow> preflight_result" where
  "push_error m r = r\<lparr>pf_errors := pf_errors r @ [m]\<rparr>"

definition push_warning :: "string \<Rightarrow> preflight_result \<Rightarrow> preflight_result" where
  "push_warning m r = r\<lparr>pf_warnings := pf_warnings r @ [m]\<rparr>"

definition push_flag :: "string \<Rightarrow> preflight_result \<Rightarrow> preflight_result" where
  "push_flag m r = r\<lparr>experimental_flags := experimental_flags r @ [m]\<rparr>"

section \<open>Formatting\<close>

text \<open>\<open>format!("{:02x}", b)\<close> and the derived \<open>Debug\<close> names of profiles.\<close>

definition hex_digit :: "nat \<Rightarrow> char" where
  "hex_digit n = ''0123456789abcdef'' ! n"

definition hex_bytes :: "bytes \<Rightarrow> string" where
  "hex_bytes bs = concat (map (\<lambda>b. [hex_digit (unat b div 16), hex_digit (unat b mod 16)]) bs)"

fun profile_name :: "security_profile \<Rightarrow> string" where
  "profile_name Fast = ''Fast''"
| "profile_name Balanced = ''Balanced''"
| "profile_name Archive = ''Archive''"
| "profile_name Paranoid = ''Paranoid''"
| "profile_name Extreme = ''Extreme''"

section \<open>The steps\<close>

definition preflight_envelope :: "envelope \<Rightarrow> preflight_result \<Rightarrow> preflight_result" where
  "preflight_envelope e r = r\<lparr>file_size_ok := True, parse_ok := True, pf_version := h_version (header e),
     pf_content_type := (case effective_content_type e of SingleFile \<Rightarrow> ''SingleFile'' | Bundle \<Rightarrow> ''Bundle''),
     pf_profile := profile_name (h_profile (header e)),
     pf_algorithm := algorithm_name (h_algorithm (header e)),
     recipient_count := length (h_recipients (header e)),
     has_recovery_metadata := recovery_metadata e \<noteq> None,
     has_release_metadata := e_release e \<noteq> None,
     pf_policy_overridden := policy_overridden e,
     pf_approvals := pf_approvals r @ map (\<lambda>a. hex_bytes (ap_fingerprint a)) (approvals e),
     public_hash_ok := True\<rparr>"

definition preflight_legacy :: "envelope \<Rightarrow> preflight_result \<Rightarrow> preflight_result" where
  "preflight_legacy e r =
     (if h_version (header e) = LEGACY_VERSION
      then push_warning ''Legacy format v1: plaintext length and public metadata are not payload-authenticated; migrate by decrypting and re-encrypting with Lvau 0.4.0 or later'' r
      else r)"

definition preflight_experimental :: "envelope \<Rightarrow> preflight_result \<Rightarrow> preflight_result" where
  "preflight_experimental e r =
     (let r1 = (if h_profile (header e) = Extreme \<or> h_profile (header e) = Paranoid
           then push_flag ''Cascade Cipher'' r else r)
      in if h_algorithm (header e) = TripleCascadeAesXChaChaLco
         then push_flag ''LCO Obfuscation'' r1 else r1)"

text \<open>\<open>verified\<close> is the outcome of \<open>verify_signature\<close>, \<open>None\<close> without a key.\<close>

definition preflight_signature ::
  "(signing_error + bytes) option \<Rightarrow> envelope \<Rightarrow> preflight_result \<Rightarrow> preflight_result" where
  "preflight_signature verified e r =
     (case e_signature e of
        None \<Rightarrow> push_warning ''No author signature present'' r
      | Some sig \<Rightarrow>
          let r1 = r\<lparr>signature_present := True,
                pf_signer_fingerprint := Some (hex_bytes (sig_fingerprint sig))\<rparr>
          in (case verified of
                Some (Inr _) \<Rightarrow> r1\<lparr>signature_valid := Some True\<rparr>
              | Some (Inl _) \<Rightarrow> push_error ''Signature verification failed'' (r1\<lparr>signature_valid := Some False\<rparr>)
              | None \<Rightarrow> push_warning ''Author signature is present but was not cryptographically verified (no verify key supplied)'' r1))"

definition preflight_policy :: "capsule_policy option \<Rightarrow> envelope \<Rightarrow> preflight_result \<Rightarrow> preflight_result" where
  "preflight_policy policy e r =
     (case policy of
        None \<Rightarrow> r
      | Some pol \<Rightarrow>
          let policy_res = lint_envelope e pol;
              r1 = r\<lparr>policy_ok := Some (is_valid policy_res),
                policy_violations := policy_violations r @ map message (violations policy_res),
                policy_warnings := policy_warnings r @ map message (warnings policy_res)\<rparr>
          in if \<not> is_valid policy_res
             then if policy_overridden e \<and> h_version (header e) \<noteq> LEGACY_VERSION
                  then push_warning ''Artifact violates policy and carries an authenticated override flag'' r1
                  else push_error ''Artifact violates local policy'' r1
             else r1)"

definition compute_status :: "preflight_result \<Rightarrow> preflight_result" where
  "compute_status r =
     r\<lparr>pf_status :=
        (if pf_errors r \<noteq> [] then PfFail
         else if pf_warnings r \<noteq> [] \<or> policy_warnings r \<noteq> [] \<or> experimental_flags r \<noteq> [] then PfWarn
         else PfOk)\<rparr>"

text \<open>
  The signature is only verified when the envelope has one and a key is given; the file is then
  read a second time.
\<close>

definition run_preflight ::
  "(crypto_error \<Rightarrow> string) \<Rightarrow> prims \<Rightarrow> postcard \<Rightarrow> ed25519 \<Rightarrow> path \<Rightarrow> bytes option \<Rightarrow>
   capsule_policy option \<Rightarrow> world \<Rightarrow> preflight_result \<times> world" where
  "run_preflight crypto_text P S D in_file verify_key policy w =
     (case read_envelope_from_path P S in_file w of
        (Inl err, w1) \<Rightarrow>
          (push_error (''Failed to parse or validate envelope: '' @ crypto_text err)
             (empty_preflight\<lparr>pf_status := PfFail, parse_error := Some (crypto_text err)\<rparr>), w1)
      | (Inr e, w1) \<Rightarrow>
          let r1 = preflight_experimental e (preflight_legacy e (preflight_envelope e empty_preflight));
              (verified, w2) = (case (e_signature e, verify_key) of
                 (Some _, Some key) \<Rightarrow> (case verify_signature P S D in_file key w1 of (v, w2) \<Rightarrow> (Some v, w2))
               | _ \<Rightarrow> (None, w1))
          in (compute_status (preflight_policy policy e (preflight_signature verified e r1)), w2))"

section \<open>Severity\<close>

text \<open>The statuses are ordered by severity.\<close>

fun severity :: "preflight_status \<Rightarrow> nat" where
  "severity PfOk = 0" | "severity PfWarn = 1" | "severity PfFail = 2"

instantiation preflight_status :: linorder
begin

definition less_eq_preflight_status :: "preflight_status \<Rightarrow> preflight_status \<Rightarrow> bool" where
  "less_eq_preflight_status a b \<longleftrightarrow> severity a \<le> severity b"

definition less_preflight_status :: "preflight_status \<Rightarrow> preflight_status \<Rightarrow> bool" where
  "less_preflight_status a b \<longleftrightarrow> severity a < severity b"

instance
proof
  fix a b :: preflight_status
  show "a \<le> b \<Longrightarrow> b \<le> a \<Longrightarrow> a = b"
    by (cases a; cases b) (simp_all add: less_eq_preflight_status_def)
qed (auto simp: less_eq_preflight_status_def less_preflight_status_def)

end

text \<open>What makes a result fail, and what makes it warn.\<close>

definition bad :: "preflight_result \<Rightarrow> bool" where
  "bad r \<longleftrightarrow> pf_errors r \<noteq> []"

definition noted :: "preflight_result \<Rightarrow> bool" where
  "noted r \<longleftrightarrow> pf_warnings r \<noteq> [] \<or> policy_warnings r \<noteq> [] \<or> experimental_flags r \<noteq> []"

lemma compute_status_cases:
  "pf_status (compute_status r) = (if bad r then PfFail else if noted r then PfWarn else PfOk)"
  by (simp add: compute_status_def bad_def noted_def)

lemma push_bad [simp]:
  "bad (push_error m r)" "bad (push_warning m r) = bad r" "bad (push_flag m r) = bad r"
  "noted (push_error m r) = noted r" "noted (push_warning m r)" "noted (push_flag m r)"
  by (simp_all add: bad_def noted_def push_error_def push_warning_def push_flag_def)

lemma steps_bad:
  "\<not> bad (preflight_experimental e (preflight_legacy e (preflight_envelope e empty_preflight)))"
  "noted (preflight_experimental e (preflight_legacy e (preflight_envelope e empty_preflight))) \<longleftrightarrow>
     h_version (header e) = LEGACY_VERSION \<or> h_profile (header e) \<in> {Paranoid, Extreme} \<or>
     h_algorithm (header e) = TripleCascadeAesXChaChaLco"
proof -
  have "\<not> bad (preflight_envelope e empty_preflight)" "\<not> noted (preflight_envelope e empty_preflight)"
    by (simp_all add: bad_def noted_def preflight_envelope_def empty_preflight_def)
  then show "\<not> bad (preflight_experimental e (preflight_legacy e (preflight_envelope e empty_preflight)))"
    "noted (preflight_experimental e (preflight_legacy e (preflight_envelope e empty_preflight))) \<longleftrightarrow>
     h_version (header e) = LEGACY_VERSION \<or> h_profile (header e) \<in> {Paranoid, Extreme} \<or>
     h_algorithm (header e) = TripleCascadeAesXChaChaLco"
    by (auto simp: preflight_experimental_def preflight_legacy_def Let_def)
qed

lemma signature_bad:
  "bad (preflight_signature v e r) \<longleftrightarrow> bad r \<or> e_signature e \<noteq> None \<and> (\<exists>err. v = Some (Inl err))"
  "noted (preflight_signature v e r) \<longleftrightarrow> noted r \<or> e_signature e = None \<or> v = None"
proof -
  have [simp]: "bad (r\<lparr>signature_present := b, pf_signer_fingerprint := f\<rparr>) = bad r"
    "noted (r\<lparr>signature_present := b, pf_signer_fingerprint := f\<rparr>) = noted r"
    "bad (r\<lparr>signature_present := b, pf_signer_fingerprint := f, signature_valid := x\<rparr>) = bad r"
    "noted (r\<lparr>signature_present := b, pf_signer_fingerprint := f, signature_valid := x\<rparr>) = noted r" for b f x
    by (simp_all add: bad_def noted_def)
  show "bad (preflight_signature v e r) \<longleftrightarrow> bad r \<or> e_signature e \<noteq> None \<and> (\<exists>err. v = Some (Inl err))"
    "noted (preflight_signature v e r) \<longleftrightarrow> noted r \<or> e_signature e = None \<or> v = None"
    by (auto simp: preflight_signature_def Let_def split: option.splits sum.splits)
qed

lemma policy_bad:
  "bad (preflight_policy policy e r) \<longleftrightarrow> bad r \<or>
     (\<exists>pol. policy = Some pol \<and> \<not> is_valid (lint_envelope e pol) \<and>
        \<not> (policy_overridden e \<and> h_version (header e) \<noteq> LEGACY_VERSION))"
  "noted (preflight_policy policy e r) \<longleftrightarrow> noted r \<or>
     (\<exists>pol. policy = Some pol \<and> (warnings (lint_envelope e pol) \<noteq> [] \<or>
        \<not> is_valid (lint_envelope e pol) \<and> policy_overridden e \<and> h_version (header e) \<noteq> LEGACY_VERSION))"
proof -
  have [simp]: "bad (r\<lparr>policy_ok := b, policy_violations := v, policy_warnings := x\<rparr>) = bad r"
    "noted (r\<lparr>policy_ok := b, policy_violations := v, policy_warnings := policy_warnings r @ x\<rparr>) \<longleftrightarrow>
      noted r \<or> x \<noteq> []" for b v x
    by (auto simp: bad_def noted_def)
  show "bad (preflight_policy policy e r) \<longleftrightarrow> bad r \<or>
     (\<exists>pol. policy = Some pol \<and> \<not> is_valid (lint_envelope e pol) \<and>
        \<not> (policy_overridden e \<and> h_version (header e) \<noteq> LEGACY_VERSION))"
    "noted (preflight_policy policy e r) \<longleftrightarrow> noted r \<or>
     (\<exists>pol. policy = Some pol \<and> (warnings (lint_envelope e pol) \<noteq> [] \<or>
        \<not> is_valid (lint_envelope e pol) \<and> policy_overridden e \<and> h_version (header e) \<noteq> LEGACY_VERSION))"
    by (auto simp: preflight_policy_def Let_def split: option.splits)
qed

section \<open>When preflight fails, and when it is content\<close>

lemma decoded_version:
  "fst (read_envelope_from_path P S p w) = Inr e \<Longrightarrow> h_version (header e) \<in> {LEGACY_VERSION, CURRENT_VERSION}"
proof -
  assume "fst (read_envelope_from_path P S p w) = Inr e"
  then have "read_envelope_from_path P S p w = (Inr e, snd (read_envelope_from_path P S p w))"
    by (metis prod.collapse)
  then obtain rd rd' where "read_envelope P S rd = Inr (e, rd')"
    unfolding read_envelope_from_path_def by (auto simp: res_elims split: prod.splits)
  then obtain encoded where "decode_envelope_bytes P S encoded = Inr e" by (elim read_envelope_Inr)
  then show ?thesis using decoded_envelope_facts by blast
qed

lemma read_from_path_world: "snd (read_envelope_from_path P S p w) = w"
  using pure_ops(1) [of p w]
  by (auto simp: read_envelope_from_path_def act_def act_map_err_def lift_def split: prod.splits sum.splits)

text \<open>What the signature step is told.\<close>

definition signature_check ::
  "prims \<Rightarrow> postcard \<Rightarrow> ed25519 \<Rightarrow> path \<Rightarrow> bytes option \<Rightarrow> envelope \<Rightarrow> world \<Rightarrow> (signing_error + bytes) option" where
  "signature_check P S D p key e w =
     (case (e_signature e, key) of (Some _, Some k) \<Rightarrow> Some (fst (verify_signature P S D p k w)) | _ \<Rightarrow> None)"

lemma run_preflight_read:
  assumes "fst (read_envelope_from_path P S p w) = Inr e"
  shows "fst (run_preflight ct P S D p key policy w) =
    compute_status (preflight_policy policy e (preflight_signature (signature_check P S D p key e w) e
      (preflight_experimental e (preflight_legacy e (preflight_envelope e empty_preflight)))))"
proof -
  have "read_envelope_from_path P S p w = (Inr e, w)"
    using assms read_from_path_world by (metis prod.collapse)
  then show ?thesis
    by (auto simp: run_preflight_def signature_check_def split: option.splits prod.splits)
qed

lemma run_preflight_unread:
  assumes "fst (read_envelope_from_path P S p w) = Inl err"
  shows "pf_status (fst (run_preflight ct P S D p key policy w)) = PfFail"
proof -
  have "read_envelope_from_path P S p w = (Inl err, w)"
    using assms read_from_path_world by (metis prod.collapse)
  then show ?thesis by (simp add: run_preflight_def push_error_def)
qed

lemma preflight_status:
  assumes e: "fst (read_envelope_from_path P S p w) = Inr e"
  shows "pf_status (fst (run_preflight ct P S D p key policy w)) =
    (if (e_signature e \<noteq> None \<and> (\<exists>k err. key = Some k \<and> fst (verify_signature P S D p k w) = Inl err)) \<or>
        (\<exists>pol. policy = Some pol \<and> \<not> satisfies e pol \<and>
           \<not> (policy_overridden e \<and> h_version (header e) = CURRENT_VERSION))
     then PfFail
     else if h_version (header e) = LEGACY_VERSION \<or> h_profile (header e) \<in> {Paranoid, Extreme} \<or>
        h_algorithm (header e) = TripleCascadeAesXChaChaLco \<or> e_signature e = None \<or> key = None \<or>
        (\<exists>pol. policy = Some pol \<and> (\<not> satisfies e pol \<or> warnings (lint_envelope e pol) \<noteq> []))
     then PfWarn else PfOk)"
    (is "_ = (if ?fail then PfFail else if ?warn then PfWarn else PfOk)")
proof -
  let ?r = "preflight_policy policy e (preflight_signature (signature_check P S D p key e w) e
      (preflight_experimental e (preflight_legacy e (preflight_envelope e empty_preflight))))"
  have v: "h_version (header e) \<noteq> LEGACY_VERSION \<longleftrightarrow> h_version (header e) = CURRENT_VERSION"
    using decoded_version [OF e] by auto
  have none: "signature_check P S D p key e w = None \<longleftrightarrow> e_signature e = None \<or> key = None"
    by (auto simp: signature_check_def split: option.splits)
  have "e_signature e \<noteq> None \<and> (\<exists>err. signature_check P S D p key e w = Some (Inl err)) \<longleftrightarrow>
     e_signature e \<noteq> None \<and> (\<exists>k err. key = Some k \<and> fst (verify_signature P S D p k w) = Inl err)"
    by (auto simp: signature_check_def split: option.splits)
  then have fail: "bad ?r \<longleftrightarrow> ?fail"
    unfolding policy_bad signature_bad lint_valid_iff v using steps_bad(1) by blast
  have "noted ?r \<longleftrightarrow> ?warn" if "\<not> ?fail"
    unfolding policy_bad signature_bad lint_valid_iff v none steps_bad(2) using that v by blast
  with fail show ?thesis
    unfolding run_preflight_read [OF e] compute_status_cases by (cases ?fail; cases ?warn) (simp_all only: if_True if_False simp_thms)
qed

text \<open>
  C37: \<open>preflight\<close> fails exactly when the envelope cannot be read, or a signature is present that
  does not verify under the given key, or the given policy is not met and the envelope has no
  version-2 override flag. In particular an unsigned capsule never fails, key or not.
\<close>

theorem preflight_fails_exactly:
  "pf_status (fst (run_preflight ct P S D p key policy w)) = PfFail \<longleftrightarrow>
    (case fst (read_envelope_from_path P S p w) of
       Inl _ \<Rightarrow> True
     | Inr e \<Rightarrow>
         (e_signature e \<noteq> None \<and> (\<exists>k err. key = Some k \<and> fst (verify_signature P S D p k w) = Inl err)) \<or>
         (\<exists>pol. policy = Some pol \<and> \<not> satisfies e pol \<and>
            \<not> (policy_overridden e \<and> h_version (header e) = CURRENT_VERSION)))"
proof (cases "fst (read_envelope_from_path P S p w)")
  case (Inl err)
  then show ?thesis by (simp add: run_preflight_unread)
next
  case (Inr e)
  then show ?thesis by (auto simp: preflight_status)
qed

text \<open>
  \<open>preflight\<close> is content exactly with a readable version-2 envelope of a stable profile and
  algorithm whose signature verifies under the given key and, when a policy is given, that meets
  it without a warning.
\<close>

theorem preflight_ok_exactly:
  "pf_status (fst (run_preflight ct P S D p key policy w)) = PfOk \<longleftrightarrow>
    (\<exists>e k fp. fst (read_envelope_from_path P S p w) = Inr e \<and> h_version (header e) = CURRENT_VERSION \<and>
       h_profile (header e) \<in> {Fast, Balanced, Archive} \<and>
       h_algorithm (header e) \<noteq> TripleCascadeAesXChaChaLco \<and>
       e_signature e \<noteq> None \<and> key = Some k \<and> fst (verify_signature P S D p k w) = Inr fp \<and>
       (policy = None \<or> (\<exists>pol. policy = Some pol \<and> satisfies e pol \<and> warnings (lint_envelope e pol) = [])))"
proof (cases "fst (read_envelope_from_path P S p w)")
  case (Inl err)
  then show ?thesis by (simp add: run_preflight_unread)
next
  case (Inr e)
  have v: "h_version (header e) \<noteq> LEGACY_VERSION \<longleftrightarrow> h_version (header e) = CURRENT_VERSION"
    using decoded_version [OF Inr] by auto
  have stable: "h_profile (header e) \<notin> {Paranoid, Extreme} \<longleftrightarrow> h_profile (header e) \<in> {Fast, Balanced, Archive}"
    by (cases "h_profile (header e)") simp_all
  have sig: "(\<exists>k err. key = Some k \<and> fst (verify_signature P S D p k w) = Inl err) \<longleftrightarrow>
      key \<noteq> None \<and> \<not> (\<exists>k fp. key = Some k \<and> fst (verify_signature P S D p k w) = Inr fp)"
    by (cases key; cases "fst (verify_signature P S D p (the key) w)") auto
  have "pf_status (fst (run_preflight ct P S D p key policy w)) = PfOk \<longleftrightarrow>
      h_version (header e) = CURRENT_VERSION \<and> h_profile (header e) \<in> {Fast, Balanced, Archive} \<and>
      h_algorithm (header e) \<noteq> TripleCascadeAesXChaChaLco \<and> e_signature e \<noteq> None \<and>
      (\<exists>k fp. key = Some k \<and> fst (verify_signature P S D p k w) = Inr fp) \<and>
      (\<forall>pol. policy = Some pol \<longrightarrow> satisfies e pol \<and> warnings (lint_envelope e pol) = [])"
    unfolding preflight_status [OF Inr] sig stable [symmetric] v [symmetric]
    by (cases key; cases "e_signature e") auto
  with Inr show ?thesis by (cases policy) auto
qed

text \<open>
  Giving a policy never makes the status better.
\<close>

theorem preflight_policy_monotone:
  "pf_status (fst (run_preflight ct P S D p key None w)) \<le>
     pf_status (fst (run_preflight ct P S D p key (Some pol) w))"
proof (cases "fst (read_envelope_from_path P S p w)")
  case (Inl err)
  then show ?thesis by (simp add: run_preflight_unread)
next
  case (Inr e)
  then show ?thesis by (auto simp: preflight_status less_eq_preflight_status_def)
qed

section \<open>A forged override flag\<close>

lemma satisfies_ignores_override:
  "satisfies (e\<lparr>policy_overridden := b, aad_hash := h\<rparr>) pol \<longleftrightarrow> satisfies e pol"
  by (simp add: satisfies_def)

text \<open>
  The override flag that \<open>preflight\<close> calls authenticated is covered there only by the
  unkeyed public hash: for every unsigned version-2 capsule that fails a policy, setting the
  flag and recomputing the hash, with no key at all, gives a capsule that only warns.
\<close>

theorem forged_override_only_warns:
  assumes S: "postcard_ok S" and cap: "lookup w p = Some (Regular (capsule_bytes encoded ct))" "calm w p"
      "encoded \<noteq> []" "length encoded \<le> MAX_ENVELOPE_SIZE" "decode_envelope_bytes P S encoded = Inr e"
    and unsigned: "e_signature e = None" and v2: "h_version (header e) = CURRENT_VERSION"
    and fails: "pf_status (fst (run_preflight txt P S D p key policy w)) = PfFail"
    and forged: "compute_aad_hash P S (e\<lparr>policy_overridden := True\<rparr>) = Inr h"
      "pc_envelope S (e\<lparr>policy_overridden := True, aad_hash := h\<rparr>) = Some encoded'"
      "encoded' \<noteq> []" "length encoded' \<le> MAX_ENVELOPE_SIZE" "p \<noteq> Path False []"
  shows "pf_status (fst (run_preflight txt P S D p key policy
    (put_file w p (capsule_bytes encoded' ct)))) = PfWarn"
proof -
  let ?f = "e\<lparr>policy_overridden := True, aad_hash := h\<rparr>" and ?w = "put_file w p (capsule_bytes encoded' ct)"
  have rd: "fst (read_envelope_from_path P S p w) = Inr e" by (rule read_envelope_at [OF cap])
  have d: "validate e = Inr ()" "validate_envelope_resources e = Inr ()"
    using decode_envelope_Inr [OF cap(5)] by simp_all
  have "validate ?f = validate e" by (simp add: validate_def)
  moreover have "validate_envelope_resources ?f = validate_envelope_resources e"
    by (rule validate_resources_cong) simp_all
  moreover have "compute_aad_hash P S ?f = Inr h"
    by (simp only: compute_aad_hash_ignores_hash forged(1))
  ultimately have "validate ?f = Inr ()" "validate_envelope_resources ?f = Inr ()" "verify_aad_hash P S ?f = Inr ()"
    using d by (simp_all add: verify_aad_hash_def)
  with decode_encoded [OF S forged(2)] have "decode_envelope_bytes P S encoded' = Inr ?f" by blast
  then have rd': "fst (read_envelope_from_path P S p ?w) = Inr ?f"
    using read_envelope_at [OF lookup_put_file [OF forged(5)] _ forged(3,4)] cap(2) by (simp add: calm_def)
  from fails unsigned v2 obtain pol where "policy = Some pol" "\<not> satisfies e pol"
    by (auto simp: preflight_status [OF rd] split: if_splits)
  with unsigned v2 show ?thesis
    by (auto simp: preflight_status [OF rd'] satisfies_ignores_override)
qed

end
