(* ===== verification/Preflight_Samples.thy ===== *)
theory Preflight_Samples
  imports Preflight Signing_Samples
begin

text \<open>The witness of the property about forged override flags.\<close>

lemma sample_override_size:
  assumes "length h = 32"
  shows "fst c_envelope (sample_cap\<lparr>policy_overridden := True, aad_hash := h\<rparr>) \<noteq> [] \<and>
    length (fst c_envelope (sample_cap\<lparr>policy_overridden := True, aad_hash := h\<rparr>)) \<le> MAX_ENVELOPE_SIZE"
proof -
  let ?e = "sample_cap\<lparr>policy_overridden := True, aad_hash := h\<rparr>"
  have b: "length (fst c_bool True) \<le> 2" by (rule length_c_words)
  have hd: "length (fst c_header (header sample_cap)) \<le> 7000"
    by (simp add: sample_cap_def sample_env_for_def new_envelope_def c_header_def len_simps MAGIC_REAL_def
        CURRENT_VERSION_def c_kdf_def c_recipient_def recipient_tuple_def)
  have "length (fst c_envelope ?e) \<le> length (fst c_header (header sample_cap)) + length (fst c_bool True) + 500"
    and "0 < length (fst c_envelope ?e)"
    by (simp_all add: c_envelope_def len_simps sample_cap_def sample_env_for_def new_envelope_def assms)
  then show ?thesis using hd b unfolding MAX_ENVELOPE_SIZE_def length_greater_0_conv by linarith
qed

theorem forged_override_only_warns_witness:
  "\<exists>w w' pol. pf_status (fst (run_preflight (\<lambda>_. '''') sample_prims sample_postcard sample_ed sample_in None (Some pol) w)) = PfFail \<and>
     pf_status (fst (run_preflight (\<lambda>_. '''') sample_prims sample_postcard sample_ed sample_in None (Some pol) w')) = PfWarn"
proof -
  let ?pol = "default_policy\<lparr>require_signature := True\<rparr>"
  obtain encoded where cap: "lookup capsule_world sample_in = Some (Regular (capsule_bytes encoded [1, 2, 3]))"
      "encoded \<noteq> []" "length encoded \<le> MAX_ENVELOPE_SIZE"
      "decode_envelope_bytes sample_prims sample_postcard encoded = Inr sample_cap"
    using sample_capsule_at unfolding capsule_at_def by blast
  have calm: "calm capsule_world sample_in" by simp
  have rd: "fst (read_envelope_from_path sample_prims sample_postcard sample_in capsule_world) = Inr sample_cap"
    by (rule read_envelope_at [OF cap(1) calm cap(2-4)])
  have "policy_overridden sample_cap = False" by (simp add: sample_cap_def sample_env_for_def new_envelope_def)
  then have fails: "pf_status (fst (run_preflight (\<lambda>_. '''') sample_prims sample_postcard sample_ed sample_in None (Some ?pol) capsule_world)) = PfFail"
    by (simp add: preflight_status [OF rd] satisfies_def sample_cap_fields)
  have hash: "compute_aad_hash sample_prims sample_postcard (sample_cap\<lparr>policy_overridden := True\<rparr>) =
      Inr (sha256 sample_prims PAYLOAD_AAD_V2_DOMAIN)"
    by (simp add: compute_aad_hash_def sample_cap_fields) (simp add: sample_postcard_def)
  have pc: "pc_envelope sample_postcard (sample_cap\<lparr>policy_overridden := True,
      aad_hash := sha256 sample_prims PAYLOAD_AAD_V2_DOMAIN\<rparr>) = Some (fst c_envelope (sample_cap\<lparr>policy_overridden := True,
      aad_hash := sha256 sample_prims PAYLOAD_AAD_V2_DOMAIN\<rparr>))"
    by (simp add: sample_postcard_def)
  have ne: "sample_in \<noteq> Path False []" by (simp add: sample_in_def)
  note size = sample_override_size [OF sample_sha_length]
  from forged_override_only_warns [OF sample_postcard_ok cap(1) calm cap(2-4) sample_cap_fields(2,1) fails hash pc
      conjunct1 [OF size] conjunct2 [OF size] ne] fails
  show ?thesis by blast
qed

end
