(* ===== verification/Diff.thy ===== *)
theory Diff
  imports Envelope "HOL-Library.Char_ord" "HOL-Library.List_Lexorder"
begin

text \<open>
  Comparison of two bundle manifests (diff.rs). Paths are compared as byte strings; \<open>sort_by\<close>
  is a stable sort.
\<close>

section \<open>The comparison\<close>

datatype diff_status = Added | Removed | Modified | Unchanged

record file_diff =
  fd_path :: string
  fd_status :: diff_status
  old_size :: "u64 option"
  new_size :: "u64 option"

record diff_report =
  diff_files :: "file_diff list"
  added_count :: nat
  removed_count :: nat
  modified_count :: nat
  unchanged_count :: nat

text \<open>The maps are filled entry by entry: of two entries with one path the later counts.\<close>

definition entry_map :: "bundle_entry list \<Rightarrow> string \<rightharpoonup> bundle_entry" where
  "entry_map es = fold (\<lambda>en m. m(relative_path en \<mapsto> en)) es Map.empty"

definition push_file :: "file_diff \<Rightarrow> diff_report \<Rightarrow> diff_report" where
  "push_file f r = r\<lparr>diff_files := diff_files r @ [f]\<rparr>"

fun diff_old_entries :: "(string \<rightharpoonup> bundle_entry) \<Rightarrow> bundle_entry list \<Rightarrow> diff_report \<Rightarrow> diff_report" where
  "diff_old_entries new_map [] r = r"
| "diff_old_entries new_map (en # es) r =
     diff_old_entries new_map es
       (case new_map (relative_path en) of
          Some new_entry \<Rightarrow>
            if blake3_hash en \<noteq> blake3_hash new_entry
            then push_file \<lparr>fd_path = relative_path en, fd_status = Modified, old_size = Some (be_size en),
                   new_size = Some (be_size new_entry)\<rparr> (r\<lparr>modified_count := modified_count r + 1\<rparr>)
            else push_file \<lparr>fd_path = relative_path en, fd_status = Unchanged, old_size = Some (be_size en),
                   new_size = Some (be_size new_entry)\<rparr> (r\<lparr>unchanged_count := unchanged_count r + 1\<rparr>)
        | None \<Rightarrow>
            push_file \<lparr>fd_path = relative_path en, fd_status = Removed, old_size = Some (be_size en),
              new_size = None\<rparr> (r\<lparr>removed_count := removed_count r + 1\<rparr>))"

fun diff_new_entries :: "(string \<rightharpoonup> bundle_entry) \<Rightarrow> bundle_entry list \<Rightarrow> diff_report \<Rightarrow> diff_report" where
  "diff_new_entries old_map [] r = r"
| "diff_new_entries old_map (en # es) r =
     diff_new_entries old_map es
       (if old_map (relative_path en) = None
        then push_file \<lparr>fd_path = relative_path en, fd_status = Added, old_size = None,
               new_size = Some (be_size en)\<rparr> (r\<lparr>added_count := added_count r + 1\<rparr>)
        else r)"

definition diff_manifests :: "bundle_manifest \<Rightarrow> bundle_manifest \<Rightarrow> diff_report" where
  "diff_manifests old_manifest new_manifest =
     (let old_map = entry_map (entries old_manifest);
          new_map = entry_map (entries new_manifest);
          r0 = \<lparr>diff_files = [], added_count = 0, removed_count = 0, modified_count = 0,
            unchanged_count = 0\<rparr>;
          r = diff_new_entries old_map (entries new_manifest)
            (diff_old_entries new_map (entries old_manifest) r0)
      in r\<lparr>diff_files := sort_key fd_path (diff_files r)\<rparr>)"

section \<open>What a comparison should say\<close>

text \<open>The verdict on one path, from the entry of either side.\<close>

definition verdict :: "bundle_entry option \<Rightarrow> bundle_entry option \<Rightarrow> diff_status option" where
  "verdict a b = (case (a, b) of
       (None, None) \<Rightarrow> None
     | (Some _, None) \<Rightarrow> Some Removed
     | (None, Some _) \<Rightarrow> Some Added
     | (Some x, Some y) \<Rightarrow> Some (if blake3_hash x = blake3_hash y then Unchanged else Modified))"

definition old_file :: "(string \<rightharpoonup> bundle_entry) \<Rightarrow> bundle_entry \<Rightarrow> file_diff" where
  "old_file m en = \<lparr>fd_path = relative_path en, fd_status = the (verdict (Some en) (m (relative_path en))),
     old_size = Some (be_size en), new_size = map_option be_size (m (relative_path en))\<rparr>"

definition new_file :: "bundle_entry \<Rightarrow> file_diff" where
  "new_file en = \<lparr>fd_path = relative_path en, fd_status = Added, old_size = None,
     new_size = Some (be_size en)\<rparr>"

definition count_status :: "diff_status \<Rightarrow> file_diff list \<Rightarrow> nat" where
  "count_status s fs = length (filter (\<lambda>f. fd_status f = s) fs)"

definition counts_match :: "diff_report \<Rightarrow> bool" where
  "counts_match r \<longleftrightarrow> added_count r = count_status Added (diff_files r) \<and>
     removed_count r = count_status Removed (diff_files r) \<and>
     modified_count r = count_status Modified (diff_files r) \<and>
     unchanged_count r = count_status Unchanged (diff_files r)"

lemma count_status_simps [simp]:
  "count_status s [] = 0"
  "count_status s (xs @ ys) = count_status s xs + count_status s ys"
  "count_status s [f] = (if fd_status f = s then 1 else 0)"
  by (simp_all add: count_status_def)

lemma push_file_sel [simp]:
  "diff_files (push_file f r) = diff_files r @ [f]" "added_count (push_file f r) = added_count r"
  "removed_count (push_file f r) = removed_count r" "modified_count (push_file f r) = modified_count r"
  "unchanged_count (push_file f r) = unchanged_count r"
  by (simp_all add: push_file_def)

lemma diff_old_files: "diff_files (diff_old_entries m es r) = diff_files r @ map (old_file m) es"
  by (induction m es r rule: diff_old_entries.induct) (auto simp: old_file_def verdict_def split: option.splits)

lemma diff_new_files:
  "diff_files (diff_new_entries m es r) =
     diff_files r @ map new_file (filter (\<lambda>en. m (relative_path en) = None) es)"
  by (induction m es r rule: diff_new_entries.induct) (auto simp: new_file_def)

lemma diff_old_counts: "counts_match r \<Longrightarrow> counts_match (diff_old_entries m es r)"
  by (induction m es r rule: diff_old_entries.induct) (auto simp: counts_match_def split: option.splits)

lemma diff_new_counts: "counts_match r \<Longrightarrow> counts_match (diff_new_entries m es r)"
  by (induction m es r rule: diff_new_entries.induct) (auto simp: counts_match_def)

lemma count_status_sort: "count_status s (sort_key k fs) = count_status s fs"
  by (simp add: count_status_def filter_sort)

lemma entry_map_eq: "entry_map es = map_of (rev (map (\<lambda>en. (relative_path en, en)) es))"
proof -
  have "fold (\<lambda>en m. m(relative_path en \<mapsto> en)) es m = m ++ map_of (rev (map (\<lambda>en. (relative_path en, en)) es))" for m
    by (induction es arbitrary: m) auto
  then show ?thesis by (simp add: entry_map_def)
qed

lemma entry_map_None: "entry_map es p = None \<longleftrightarrow> p \<notin> relative_path ` set es"
  by (force simp: entry_map_eq map_of_eq_None_iff)

lemma entry_map_distinct:
  "distinct (map relative_path es) \<Longrightarrow> entry_map es p = Some en \<longleftrightarrow> en \<in> set es \<and> relative_path en = p"
  unfolding entry_map_eq
  by (subst map_of_eq_Some_iff) (auto simp: rev_map [symmetric] comp_def)

lemma diff_manifests_files:
  "diff_files (diff_manifests old new) = sort_key fd_path
     (map (old_file (entry_map (entries new))) (entries old) @
      map new_file (filter (\<lambda>en. entry_map (entries old) (relative_path en) = None) (entries new)))"
  by (simp add: diff_manifests_def Let_def diff_old_files diff_new_files)

lemma diff_manifests_counts: "counts_match (diff_manifests old new)"
proof -
  have "counts_match \<lparr>diff_files = [], added_count = 0, removed_count = 0, modified_count = 0, unchanged_count = 0\<rparr>"
    by (simp add: counts_match_def)
  from diff_new_counts [OF diff_old_counts [OF this]] show ?thesis
    by (simp add: diff_manifests_def Let_def counts_match_def count_status_sort)
qed

lemma old_file_sel [simp]: "fd_path (old_file m en) = relative_path en"
  by (simp add: old_file_def)

lemma new_file_sel [simp]: "fd_path (new_file en) = relative_path en"
  by (simp add: new_file_def)

definition expected_file ::
  "(string \<rightharpoonup> bundle_entry) \<Rightarrow> (string \<rightharpoonup> bundle_entry) \<Rightarrow> string \<Rightarrow> file_diff set" where
  "expected_file old new p = (case verdict (old p) (new p) of None \<Rightarrow> {}
     | Some s \<Rightarrow> {\<lparr>fd_path = p, fd_status = s, old_size = map_option be_size (old p),
         new_size = map_option be_size (new p)\<rparr>})"

lemma diff_files_at:
  assumes d: "distinct (map relative_path (entries old))" "distinct (map relative_path (entries new))"
  shows "{f \<in> set (diff_files (diff_manifests old new)). fd_path f = p} =
    expected_file (entry_map (entries old)) (entry_map (entries new)) p"
proof -
  let ?o = "entry_map (entries old)" and ?n = "entry_map (entries new)"
  have o: "en \<in> set (entries old) \<and> relative_path en = p \<longleftrightarrow> ?o p = Some en" for en
    using entry_map_distinct [OF d(1)] by simp
  have n: "en \<in> set (entries new) \<and> relative_path en = p \<longleftrightarrow> ?n p = Some en" for en
    using entry_map_distinct [OF d(2)] by simp
  have "{f \<in> set (diff_files (diff_manifests old new)). fd_path f = p} =
      {old_file ?n en |en. en \<in> set (entries old) \<and> relative_path en = p} \<union>
      {new_file en |en. en \<in> set (entries new) \<and> relative_path en = p \<and> ?o p = None}"
    by (auto simp: diff_manifests_files)
  also have "\<dots> = {old_file ?n en |en. ?o p = Some en} \<union> {new_file en |en. ?n p = Some en \<and> ?o p = None}"
    using o n by blast
  also have "\<dots> = expected_file ?o ?n p"
  proof (cases "?o p")
    case None
    then show ?thesis
      using n by (cases "?n p") (auto simp: expected_file_def verdict_def new_file_def)
  next
    case (Some x)
    then have "relative_path x = p" using o by blast
    with Some show ?thesis
      by (cases "?n p") (auto simp: expected_file_def verdict_def old_file_def)
  qed
  finally show ?thesis .
qed

text \<open>
  For manifests without repeated paths the report has exactly one line for every path of
  either manifest and none besides, with the right verdict and sizes; the lines are sorted by
  path without repetition and the four counters count them.
\<close>

theorem diff_manifests_exact:
  assumes "distinct (map relative_path (entries old))" "distinct (map relative_path (entries new))"
  shows "{f \<in> set (diff_files (diff_manifests old new)). fd_path f = p} =
      expected_file (entry_map (entries old)) (entry_map (entries new)) p \<and>
    sorted_wrt (<) (map fd_path (diff_files (diff_manifests old new))) \<and>
    counts_match (diff_manifests old new)"
proof -
  let ?new = "filter (\<lambda>en. entry_map (entries old) (relative_path en) = None) (entries new)"
  have "relative_path en \<notin> relative_path ` set (entries old)" if "en \<in> set ?new" for en
    using that by (simp only: set_filter mem_Collect_eq entry_map_None simp_thms)
  then have "relative_path ` set (entries old) \<inter> relative_path ` set ?new = {}"
    by (simp only: disjoint_iff image_iff) metis
  then have "distinct (map relative_path (entries old) @ map relative_path ?new)"
    using assms by (simp add: distinct_map_filter)
  moreover have "map fd_path (map (old_file (entry_map (entries new))) (entries old) @ map new_file ?new) =
      map relative_path (entries old) @ map relative_path ?new"
    by (simp add: comp_def)
  ultimately have "distinct (map fd_path (map (old_file (entry_map (entries new))) (entries old) @ map new_file ?new))"
    by (simp only:)
  then have "distinct (map fd_path (diff_files (diff_manifests old new)))"
    by (simp only: diff_manifests_files distinct_map distinct_sort set_sort)
  moreover have "sorted (map fd_path (diff_files (diff_manifests old new)))"
    by (simp add: diff_manifests_files)
  ultimately show ?thesis
    using diff_files_at [OF assms] diff_manifests_counts by (simp add: strict_sorted_iff)
qed

theorem diff_manifests_exact_witness:
  "let f = (\<lambda>p h n. \<lparr>relative_path = p, be_size = n, blake3_hash = [h], be_offset = 0\<rparr>);
       m = (\<lambda>es. \<lparr>entries = es, bm_created_at = None, bm_tool_version = None\<rparr>)
   in {x \<in> set (diff_files (diff_manifests (m [f ''a'' 1 5, f ''b'' 2 6]) (m [f ''b'' 3 7]))). fd_path x = ''b''} =
     {\<lparr>fd_path = ''b'', fd_status = Modified, old_size = Some 6, new_size = Some 7\<rparr>}"
proof -
  let ?old = "\<lparr>entries = [\<lparr>relative_path = ''a'', be_size = 5, blake3_hash = [1], be_offset = 0\<rparr>,
      \<lparr>relative_path = ''b'', be_size = 6, blake3_hash = [2], be_offset = 0\<rparr>],
      bm_created_at = None, bm_tool_version = None\<rparr>"
  let ?new = "\<lparr>entries = [\<lparr>relative_path = ''b'', be_size = 7, blake3_hash = [3], be_offset = 0\<rparr>],
      bm_created_at = None, bm_tool_version = None\<rparr>"
  have "distinct (map relative_path (entries ?old))" "distinct (map relative_path (entries ?new))" by simp_all
  from conjunct1 [OF diff_manifests_exact [OF this, of "''b''"]] show ?thesis
    by (simp add: Let_def expected_file_def verdict_def entry_map_def)
qed

end
