(* ===== verification/Bundle_Layout.thy ===== *)
theory Bundle_Layout
  imports Capsule
begin

text \<open>
  The layout of bundle payloads (bundle.rs and the pure part of bundle_stream.rs): relative
  paths, manifests, padding and the checks on a decoded manifest. BLAKE3, the serialized
  manifest and Unicode case folding are parameters. Error texts that name a path keep it.
\<close>

section \<open>Third-party code\<close>

record bundle_prims =
  blake3 :: "bytes \<Rightarrow> bytes"
  pc_manifest :: "bundle_manifest \<Rightarrow> bytes option"
  pc_take_manifest :: "bytes \<Rightarrow> (bundle_manifest \<times> bytes) option"
  to_lowercase :: "string \<Rightarrow> string"

definition manifest_codec_ok :: "bundle_prims \<Rightarrow> bool" where
  "manifest_codec_ok B \<longleftrightarrow> (\<forall>m b r. pc_manifest B m = Some b \<longrightarrow> pc_take_manifest B (b @ r) = Some (m, r))"

section \<open>Errors and constants\<close>

datatype bundle_error =
    BIo io_error
  | BCrypto crypto_error
  | BSerialization
  | PathTraversal string
  | SymlinkRejected string
  | HardlinkRejected string
  | SpecialFileRejected string
  | BOutputExists string
  | ManifestError string
  | WalkError string
  | InputDirNotFound string

datatype padding_profile = NoPadding | Bucket | Fixed u64

definition BUNDLE_COPY_BUFFER_SIZE :: nat where "BUNDLE_COPY_BUFFER_SIZE = 64 * 1024"

definition MAX_BUNDLE_MANIFEST_SIZE :: nat where "MAX_BUNDLE_MANIFEST_SIZE = 16 * 1024 * 1024"

section \<open>Relative paths\<close>

text \<open>
  \<open>Path::components\<close> on Unix: empty parts and \<open>.\<close> parts are dropped, except a leading \<open>.\<close>,
  and a leading separator is the root.
\<close>

datatype path_component = RootDir | CurDir | ParentDir | Normal string

fun split_slash :: "string \<Rightarrow> string list" where
  "split_slash [] = [[]]"
| "split_slash (c # s) =
     (if c = CHR ''/'' then [] # split_slash s
      else (case split_slash s of [] \<Rightarrow> [[c]] | p # ps \<Rightarrow> (c # p) # ps))"

definition part_component :: "string \<Rightarrow> path_component option" where
  "part_component p = (if p = '''' \<or> p = ''.'' then None else if p = ''..'' then Some ParentDir
     else Some (Normal p))"

definition path_components :: "string \<Rightarrow> path_component list" where
  "path_components s =
     (let parts = split_slash s;
          front = (if s \<noteq> [] \<and> hd s = CHR ''/'' then [RootDir] else if hd parts = ''.'' then [CurDir] else [])
      in front @ List.map_filter part_component parts)"

definition component_name :: "path_component \<Rightarrow> string" where
  "component_name c = (case c of Normal n \<Rightarrow> n | RootDir \<Rightarrow> ''/'' | CurDir \<Rightarrow> ''.'' | ParentDir \<Rightarrow> ''..'')"

definition is_normal :: "path_component \<Rightarrow> bool" where
  "is_normal c = (case c of Normal _ \<Rightarrow> True | _ \<Rightarrow> False)"

text \<open>
  The accepted path, as the list of its components. The code accepts a separator at the end of a
  path and keeps it; here the name is the one before the separator.
\<close>

definition validate_relative_path :: "string \<Rightarrow> bundle_error + string list" where
  "validate_relative_path p =
     (if p = [] \<or> CHR 0x5C \<in> set p
      then Inl (PathTraversal (''Empty or non-canonical path rejected: '' @ p))
      else if hd p = CHR ''/''
      then Inl (PathTraversal (''Absolute or leading-separator path rejected: '' @ p))
      else if 2 \<le> length p \<and> p ! 1 = CHR '':''
      then Inl (PathTraversal (''Windows drive path rejected: '' @ p))
      else if \<not> list_all is_normal (path_components p)
      then Inl (PathTraversal (''Non-canonical path component rejected: '' @ p))
      else Inr (map component_name (path_components p)))"

section \<open>Manifests\<close>

record source_file =
  src_relative_path :: string
  src_path :: path
  src_size :: u64
  src_hash :: bytes

fun build_entries :: "u64 \<Rightarrow> source_file list \<Rightarrow> bundle_error + bundle_entry list" where
  "build_entries off [] = Inr []"
| "build_entries off (s # rest) =
     rbind (ok_or (ManifestError ''Bundle size overflow'') (checked_add_u64 off (src_size s))) (\<lambda>off'.
     rbind (build_entries off' rest) (\<lambda>es.
       Inr (\<lparr>relative_path = src_relative_path s, be_size = src_size s, blake3_hash = src_hash s,
         be_offset = off\<rparr> # es)))"

definition timestamp :: "nat option \<Rightarrow> string" where
  "timestamp now = (case now of Some secs \<Rightarrow> decimal secs @ ''Z'' | None \<Rightarrow> ''0Z'')"

text \<open>\<open>version\<close> is \<open>env!("CARGO_PKG_VERSION")\<close>.\<close>

definition build_manifest :: "string \<Rightarrow> nat option \<Rightarrow> source_file list \<Rightarrow> bundle_error + bundle_manifest" where
  "build_manifest version now sources =
     rbind (build_entries 0 sources) (\<lambda>es.
       Inr \<lparr>entries = es, bm_created_at = Some (timestamp now), bm_tool_version = Some (''lvau '' @ version)\<rparr>)"

definition decode_manifest :: "bundle_prims \<Rightarrow> bytes \<Rightarrow> bundle_error + bundle_manifest" where
  "decode_manifest B bs =
     rbind (ok_or BSerialization (pc_take_manifest B bs)) (\<lambda>(manifest, remaining).
     rbind (ensure (remaining = []) (ManifestError ''Manifest contains trailing non-canonical bytes'')) (\<lambda>_.
       Inr manifest))"

section \<open>Padding\<close>

function next_power_from :: "nat \<Rightarrow> nat \<Rightarrow> nat" where
  "next_power_from p n = (if 0 < p \<and> p < n then next_power_from (2 * p) n else p)"
  by pat_completeness auto
termination
  by (relation "measure (\<lambda>(p, n). n - p)") auto

declare next_power_from.simps [simp del]

text \<open>\<open>checked_next_power_of_two\<close>; of 0 it is 1.\<close>

definition checked_next_power_of_two :: "u64 \<Rightarrow> u64 option" where
  "checked_next_power_of_two n =
     (let p = next_power_from 1 (unat n) in if p < 2 ^ 64 then Some (of_nat p) else None)"

definition padding_target :: "u64 \<Rightarrow> padding_profile \<Rightarrow> bundle_error + u64" where
  "padding_target current_len padding =
     (case padding of
        NoPadding \<Rightarrow> Inr current_len
      | Bucket \<Rightarrow> ok_or (ManifestError ''Padding size overflow'') (checked_next_power_of_two current_len)
      | Fixed n \<Rightarrow> Inr (max current_len n))"

function write_zero_padding :: "nat \<Rightarrow> writer \<Rightarrow> (bundle_error + unit) \<times> writer" where
  "write_zero_padding n wr =
     (if 0 < n
      then let count = min n BUNDLE_COPY_BUFFER_SIZE
        in (case write_all (replicate count 0) wr of
              (Inl e, wr') \<Rightarrow> (Inl (BIo e), wr')
            | (Inr _, wr') \<Rightarrow> write_zero_padding (n - count) wr')
      else (Inr (), wr))"
  by pat_completeness auto
termination
  by (relation "measure fst") (auto simp: BUNDLE_COPY_BUFFER_SIZE_def)

declare write_zero_padding.simps [simp del]

section \<open>The checks on a manifest\<close>

text \<open>The loop over the entries: the folded paths seen so far and the non-empty ranges.\<close>

fun check_entries ::
  "bundle_prims \<Rightarrow> u64 \<Rightarrow> u64 \<Rightarrow> string set \<Rightarrow> (u64 \<times> u64) list \<Rightarrow> bundle_entry list \<Rightarrow>
   bundle_error + (u64 \<times> u64) list" where
  "check_entries B data_start payload_len paths ranges [] = Inr ranges"
| "check_entries B data_start payload_len paths ranges (en # es) =
     rbind (validate_relative_path (relative_path en)) (\<lambda>_.
     let key = to_lowercase B (relative_path en) in
     rbind (ensure (key \<notin> paths)
       (ManifestError (''Duplicate or cross-platform-colliding path: '' @ relative_path en))) (\<lambda>_.
     rbind (ok_or (ManifestError ''File offset overflow'') (checked_add_u64 data_start (be_offset en))) (\<lambda>start.
     rbind (ok_or (ManifestError ''File size overflow'') (checked_add_u64 start (be_size en))) (\<lambda>fin.
     rbind (ensure (fin \<le> payload_len)
       (ManifestError (''File data truncated for: '' @ relative_path en))) (\<lambda>_.
       check_entries B data_start payload_len (insert key paths)
         (if start \<noteq> fin then ranges @ [(start, fin)] else ranges) es)))))"

text \<open>\<open>ranges.windows(2)\<close>\<close>

fun windows_disjoint :: "(u64 \<times> u64) list \<Rightarrow> bool" where
  "windows_disjoint (a # b # rest) \<longleftrightarrow> snd a \<le> fst b \<and> windows_disjoint (b # rest)"
| "windows_disjoint _ \<longleftrightarrow> True"

definition validate_layout :: "bundle_prims \<Rightarrow> bundle_manifest \<Rightarrow> u64 \<Rightarrow> u64 \<Rightarrow> bundle_error + unit" where
  "validate_layout B manifest data_start payload_len =
     rbind (check_entries B data_start payload_len {} [] (entries manifest)) (\<lambda>ranges.
       ensure (windows_disjoint (sort_key fst ranges)) (ManifestError ''Overlapping file ranges''))"

section \<open>What the checks establish\<close>

text \<open>The payload positions of an entry, and the abstract demand: each belongs to at most one file.\<close>

definition entry_range :: "bundle_entry \<Rightarrow> nat set" where
  "entry_range en = {unat (be_offset en) ..< unat (be_offset en) + unat (be_size en)}"

definition good_layout :: "bundle_prims \<Rightarrow> bundle_manifest \<Rightarrow> nat \<Rightarrow> nat \<Rightarrow> bool" where
  "good_layout B m data_start payload_len \<longleftrightarrow>
     (\<forall>en \<in> set (entries m). is_ok (validate_relative_path (relative_path en)) \<and>
        data_start + unat (be_offset en) + unat (be_size en) \<le> payload_len) \<and>
     distinct (map (\<lambda>en. to_lowercase B (relative_path en)) (entries m)) \<and>
     (\<forall>k. length (filter (\<lambda>en. k \<in> entry_range en) (entries m)) \<le> 1)"

definition range_of :: "u64 \<Rightarrow> bundle_entry \<Rightarrow> u64 \<times> u64" where
  "range_of ds en = (ds + be_offset en, ds + be_offset en + be_size en)"

definition entry_fits :: "nat \<Rightarrow> nat \<Rightarrow> bundle_entry \<Rightarrow> bool" where
  "entry_fits ds pl en \<longleftrightarrow> ds + unat (be_offset en) + unat (be_size en) \<le> pl"

lemma checked_range:
  assumes "entry_fits (unat ds) (unat (pl :: u64)) en"
  shows "checked_add_u64 ds (be_offset en) = Some (ds + be_offset en)"
    "checked_add_u64 (ds + be_offset en) (be_size en) = Some (ds + be_offset en + be_size en)"
    "unat (ds + be_offset en) = unat ds + unat (be_offset en)"
    "unat (ds + be_offset en + be_size en) = unat ds + unat (be_offset en) + unat (be_size en)"
proof -
  have b: "unat ds + unat (be_offset en) + unat (be_size en) < 2 ^ 64"
    using assms unat_bound [of pl] by (simp add: entry_fits_def)
  then show 1: "checked_add_u64 ds (be_offset en) = Some (ds + be_offset en)"
    by (simp add: checked_add_u64_def)
  show 2: "unat (ds + be_offset en) = unat ds + unat (be_offset en)"
    by (rule checked_add_u64_Some [OF 1])
  show 3: "checked_add_u64 (ds + be_offset en) (be_size en) = Some (ds + be_offset en + be_size en)"
    using b by (simp add: checked_add_u64_def 2)
  show "unat (ds + be_offset en + be_size en) = unat ds + unat (be_offset en) + unat (be_size en)"
    using checked_add_u64_Some [OF 3] 2 by simp
qed

lemma entry_checks:
  "(\<exists>start fin. checked_add_u64 ds (be_offset en) = Some start \<and> checked_add_u64 start (be_size en) = Some fin \<and>
     fin \<le> pl \<and> Q start fin) \<longleftrightarrow> entry_fits (unat ds) (unat pl) en \<and> Q (fst (range_of ds en)) (snd (range_of ds en))"
proof
  assume "\<exists>start fin. checked_add_u64 ds (be_offset en) = Some start \<and> checked_add_u64 start (be_size en) = Some fin \<and>
     fin \<le> pl \<and> Q start fin"
  then obtain start fin where *: "checked_add_u64 ds (be_offset en) = Some start"
      "checked_add_u64 start (be_size en) = Some fin" "fin \<le> pl" "Q start fin" by blast
  have "entry_fits (unat ds) (unat pl) en"
    using checked_add_u64_Some [OF *(1)] checked_add_u64_Some [OF *(2)] *(3)
    by (simp add: entry_fits_def word_le_nat_alt)
  with * checked_range [OF this] show "entry_fits (unat ds) (unat pl) en \<and> Q (fst (range_of ds en)) (snd (range_of ds en))"
    by (simp add: range_of_def)
next
  assume *: "entry_fits (unat ds) (unat pl) en \<and> Q (fst (range_of ds en)) (snd (range_of ds en))"
  with checked_range [of ds pl en] show "\<exists>start fin. checked_add_u64 ds (be_offset en) = Some start \<and>
      checked_add_u64 start (be_size en) = Some fin \<and> fin \<le> pl \<and> Q start fin"
    by (auto simp: range_of_def entry_fits_def word_le_nat_alt)
qed

lemma check_entries_Inr:
  "check_entries B ds pl paths ranges es = Inr rs \<longleftrightarrow>
     (\<forall>en \<in> set es. is_ok (validate_relative_path (relative_path en)) \<and> entry_fits (unat ds) (unat pl) en) \<and>
     distinct (map (\<lambda>en. to_lowercase B (relative_path en)) es) \<and>
     (\<forall>en \<in> set es. to_lowercase B (relative_path en) \<notin> paths) \<and>
     rs = ranges @ map (range_of ds) (filter (\<lambda>en. be_size en \<noteq> 0) es)"
proof (induction es arbitrary: paths ranges)
  case Nil
  then show ?case by auto
next
  case (Cons en es)
  let ?key = "to_lowercase B (relative_path en)"
  let ?r = "\<lambda>start fin. if start \<noteq> fin then ranges @ [(start, fin)] else ranges"
  have "check_entries B ds pl paths ranges (en # es) = Inr rs \<longleftrightarrow>
     is_ok (validate_relative_path (relative_path en)) \<and> ?key \<notin> paths \<and>
     (\<exists>start fin. checked_add_u64 ds (be_offset en) = Some start \<and> checked_add_u64 start (be_size en) = Some fin \<and>
       fin \<le> pl \<and> check_entries B ds pl (insert ?key paths) (?r start fin) es = Inr rs)"
    by (auto simp: res_elims Let_def is_ok_iff)
  also have "\<dots> \<longleftrightarrow> is_ok (validate_relative_path (relative_path en)) \<and> ?key \<notin> paths \<and>
     entry_fits (unat ds) (unat pl) en \<and>
     check_entries B ds pl (insert ?key paths) (?r (fst (range_of ds en)) (snd (range_of ds en))) es = Inr rs"
    unfolding entry_checks ..
  also have "?r (fst (range_of ds en)) (snd (range_of ds en)) =
      ranges @ map (range_of ds) (filter (\<lambda>en. be_size en \<noteq> 0) [en])"
    by (simp add: range_of_def)
  finally have step: "check_entries B ds pl paths ranges (en # es) = Inr rs \<longleftrightarrow>
     is_ok (validate_relative_path (relative_path en)) \<and> ?key \<notin> paths \<and> entry_fits (unat ds) (unat pl) en \<and>
     check_entries B ds pl (insert ?key paths)
       (ranges @ map (range_of ds) (filter (\<lambda>en. be_size en \<noteq> 0) [en])) es = Inr rs" .
  have keys: "(\<forall>x \<in> set es. to_lowercase B (relative_path x) \<notin> insert ?key paths) \<longleftrightarrow>
      (\<forall>x \<in> set es. to_lowercase B (relative_path x) \<notin> paths) \<and>
      ?key \<notin> (\<lambda>x. to_lowercase B (relative_path x)) ` set es"
    unfolding insert_iff image_iff by metis
  have app: "(ranges @ map (range_of ds) (filter (\<lambda>en. be_size en \<noteq> 0) [en])) @
      map (range_of ds) (filter (\<lambda>en. be_size en \<noteq> 0) es) =
      ranges @ map (range_of ds) (filter (\<lambda>en. be_size en \<noteq> 0) (en # es))" by simp
  show ?case
    unfolding step Cons.IH keys app list.set list.map distinct.simps set_map ball_simps by argo
qed

text \<open>Neighbours in start order do not overlap exactly when no position lies in two ranges.\<close>

definition inside :: "nat \<Rightarrow> u64 \<times> u64 \<Rightarrow> bool" where
  "inside k r \<longleftrightarrow> unat (fst r) \<le> k \<and> k < unat (snd r)"

lemma windows_disjoint_after:
  "sorted (map fst rs) \<Longrightarrow> windows_disjoint (a # rs) \<Longrightarrow> r \<in> set rs \<Longrightarrow> snd a \<le> fst r"
  by (cases rs) auto

lemma windows_disjoint_iff:
  assumes "sorted (map fst rs)" "\<forall>r \<in> set rs. fst r < snd r"
  shows "windows_disjoint rs \<longleftrightarrow> (\<forall>k. length (filter (inside k) rs) \<le> 1)"
  using assms
proof (induction rs)
  case Nil
  then show ?case by simp
next
  case (Cons a rs)
  have IH: "windows_disjoint rs \<longleftrightarrow> (\<forall>k. length (filter (inside k) rs) \<le> 1)"
    using Cons by simp
  show ?case
  proof
    assume w: "windows_disjoint (a # rs)"
    then have "windows_disjoint rs" by (cases rs) auto
    then have rest: "length (filter (inside k) rs) \<le> 1" for k using IH by blast
    show "\<forall>k. length (filter (inside k) (a # rs)) \<le> 1"
    proof
      fix k
      show "length (filter (inside k) (a # rs)) \<le> 1"
      proof (cases "inside k a")
        case True
        have "\<not> inside k r" if "r \<in> set rs" for r
        proof -
          have "sorted (map fst rs)" using Cons.prems(1) by simp
          from windows_disjoint_after [OF this w that] True show ?thesis
            by (simp add: inside_def word_le_nat_alt)
        qed
        then have "filter (inside k) rs = []" by (simp add: filter_empty_conv)
        then show ?thesis by simp
      next
        case False
        with rest show ?thesis by simp
      qed
    qed
  next
    assume all: "\<forall>k. length (filter (inside k) (a # rs)) \<le> 1"
    have "length (filter (inside k) rs) \<le> 1" for k
      using all [rule_format, of k] by (simp split: if_splits)
    with IH have w: "windows_disjoint rs" by blast
    show "windows_disjoint (a # rs)"
    proof (cases rs)
      case Nil
      then show ?thesis by simp
    next
      case (Cons b bs)
      have "snd a \<le> fst b"
      proof (rule ccontr)
        assume "\<not> snd a \<le> fst b"
        moreover have "fst a \<le> fst b" "fst b < snd b" using Cons.prems Cons by auto
        ultimately have "inside (unat (fst b)) a" "inside (unat (fst b)) b"
          by (simp_all add: inside_def word_le_nat_alt word_less_nat_alt)
        then have "2 \<le> length (filter (inside (unat (fst b))) (a # rs))" by (simp add: Cons)
        with all [rule_format, of "unat (fst b)"] show False by linarith
      qed
      with w Cons show ?thesis by simp
    qed
  qed
qed

lemma filter_inside_sort: "length (filter (inside k) (sort_key fst rs)) = length (filter (inside k) rs)"
  by (simp add: filter_sort)

lemma validate_layout_iff:
  "validate_layout B m ds pl = Inr () \<longleftrightarrow> good_layout B m (unat ds) (unat pl)"
proof -
  let ?es = "filter (\<lambda>en. be_size en \<noteq> 0) (entries m)"
  let ?ok = "(\<forall>en \<in> set (entries m). is_ok (validate_relative_path (relative_path en)) \<and>
      entry_fits (unat ds) (unat pl) en) \<and> distinct (map (\<lambda>en. to_lowercase B (relative_path en)) (entries m))"
  let ?rs = "map (range_of ds) ?es"
  have "validate_layout B m ds pl = Inr () \<longleftrightarrow> ?ok \<and> windows_disjoint (sort_key fst ?rs)"
    by (auto simp: validate_layout_def res_elims check_entries_Inr)
  also have "\<dots> \<longleftrightarrow> good_layout B m (unat ds) (unat pl)"
  proof (cases ?ok)
    case False
    then show ?thesis by (auto simp: good_layout_def entry_fits_def)
  next
    case True
    have range: "unat (fst (range_of ds en)) = unat ds + unat (be_offset en)"
      "unat (snd (range_of ds en)) = unat ds + unat (be_offset en) + unat (be_size en)"
      if "en \<in> set (entries m)" for en
      using checked_range [of ds pl en] True that by (simp_all add: range_of_def)
    have pos: "0 < unat (be_size en)" if "be_size en \<noteq> 0" for en
      using that by (simp add: unat_gt_0)
    have pos': "\<forall>r \<in> set (sort_key fst ?rs). fst r < snd r"
      using range pos by (auto simp: word_less_nat_alt)
    have sorted: "sorted (map fst (sort_key fst ?rs))" by simp
    have count: "length (filter (inside k) ?rs) =
        (if k < unat ds then 0 else length (filter (\<lambda>en. k - unat ds \<in> entry_range en) (entries m)))" for k
    proof -
      have "inside k (range_of ds en) \<and> be_size en \<noteq> 0 \<longleftrightarrow> \<not> k < unat ds \<and> k - unat ds \<in> entry_range en"
        if "en \<in> set (entries m)" for en
        using range [OF that] pos [of en] by (auto simp: inside_def entry_range_def)
      then have "filter (\<lambda>en. inside k (range_of ds en) \<and> be_size en \<noteq> 0) (entries m) =
          filter (\<lambda>en. \<not> k < unat ds \<and> k - unat ds \<in> entry_range en) (entries m)"
        by (rule filter_cong [OF refl])
      moreover have "length (filter (inside k) ?rs) =
          length (filter (\<lambda>en. inside k (range_of ds en) \<and> be_size en \<noteq> 0) (entries m))"
        by (simp add: filter_map comp_def conj_commute)
      ultimately show ?thesis by simp
    qed
    have "windows_disjoint (sort_key fst ?rs) \<longleftrightarrow> (\<forall>k. length (filter (inside k) ?rs) \<le> 1)"
      by (simp only: windows_disjoint_iff [OF sorted pos'] filter_inside_sort)
    also have "\<dots> \<longleftrightarrow> (\<forall>k. length (filter (\<lambda>en. k \<in> entry_range en) (entries m)) \<le> 1)"
    proof
      assume *: "\<forall>k. length (filter (inside k) ?rs) \<le> 1"
      show "\<forall>k. length (filter (\<lambda>en. k \<in> entry_range en) (entries m)) \<le> 1"
        using * [unfolded count, rule_format, of "unat ds + _"] by simp
    next
      assume "\<forall>k. length (filter (\<lambda>en. k \<in> entry_range en) (entries m)) \<le> 1"
      then show "\<forall>k. length (filter (inside k) ?rs) \<le> 1" unfolding count by simp
    qed
    finally show ?thesis using True by (auto simp: good_layout_def entry_fits_def)
  qed
  finally show ?thesis .
qed

section \<open>Accepted paths\<close>

definition safe_name :: "string \<Rightarrow> bool" where
  "safe_name n \<longleftrightarrow> n \<notin> {'''', ''.'', ''..''} \<and> CHR ''/'' \<notin> set n \<and> CHR 0x5C \<notin> set n"

lemma split_slash_ne [simp]: "split_slash s \<noteq> []"
  by (induction s) (auto split: list.splits)

lemma split_slash_chars: "p \<in> set (split_slash s) \<Longrightarrow> CHR ''/'' \<notin> set p \<and> set p \<subseteq> set s"
proof (induction s arbitrary: p)
  case Nil
  then show ?case by simp
next
  case (Cons c s)
  obtain q qs where q: "split_slash s = q # qs" by (cases "split_slash s") auto
  with Cons.IH [of q] Cons.IH [of p] Cons.prems show ?case by (auto split: if_splits)
qed

lemma split_slash_hd: "s \<noteq> [] \<Longrightarrow> hd s \<noteq> CHR ''/'' \<Longrightarrow> hd (split_slash s) \<noteq> []"
  by (cases s) (auto split: list.splits)

lemma validate_relative_path_Inr:
  assumes "validate_relative_path p = Inr cs"
  shows "cs \<noteq> [] \<and> list_all safe_name cs"
proof -
  have p: "p \<noteq> []" "CHR 0x5C \<notin> set p" "hd p \<noteq> CHR ''/''"
    and n: "list_all is_normal (path_components p)" and cs: "cs = map component_name (path_components p)"
    using assms by (auto simp: validate_relative_path_def split: if_splits)
  have comps: "path_components p = List.map_filter part_component (split_slash p)"
    and dot: "hd (split_slash p) \<noteq> ''.''"
    using n p by (auto simp: path_components_def Let_def is_normal_def split: if_splits)
  obtain q qs where q: "split_slash p = q # qs" by (cases "split_slash p") auto
  have "q \<noteq> []" "q \<noteq> ''.''" using split_slash_hd [OF p(1,3)] dot q by auto
  then have "cs \<noteq> []"
    by (simp add: cs comps q List.map_filter_simps part_component_def)
  moreover have "safe_name x" if "x \<in> set cs" for x
  proof -
    from that obtain c part where c: "part \<in> set (split_slash p)" "part_component part = Some c" "x = component_name c"
      by (auto simp: cs comps List.map_filter_def)
    moreover have "c \<in> set (path_components p)" using c by (force simp: comps List.map_filter_def)
    then have "is_normal c" using n by (simp add: list_all_iff)
    ultimately show ?thesis
      using split_slash_chars [OF c(1)] p(2)
      by (auto simp: part_component_def is_normal_def component_name_def safe_name_def split: if_splits path_component.splits)
  qed
  ultimately show ?thesis by (simp add: list_all_iff)
qed

section \<open>Properties\<close>

text \<open>
  C17: \<open>validate_layout\<close> accepts a manifest exactly when every path is a safe relative path, no two
  paths are equal up to case, every file lies inside the payload, computed without overflow, and
  every byte of the payload belongs to at most one file; comparing neighbours in start order
  is enough.
\<close>

theorem validate_layout_exact:
  "validate_layout B m data_start payload_len = Inr () \<longleftrightarrow>
     good_layout B m (unat data_start) (unat payload_len)"
  by (rule validate_layout_iff)

text \<open>
  A path the bundle code accepts has at least one component, and every component is a
  non-empty name other than \<open>.\<close> and \<open>..\<close> without separators of either system.
\<close>

theorem accepted_paths_are_safe:
  assumes "validate_relative_path p = Inr cs"
  shows "cs \<noteq> [] \<and> list_all safe_name cs"
  by (rule validate_relative_path_Inr [OF assms])

theorem accepted_paths_are_safe_witness:
  "validate_relative_path ''a/b.txt'' = Inr [''a'', ''b.txt''] \<and> list_all safe_name [''a'', ''b.txt'']"
proof -
  have v: "validate_relative_path ''a/b.txt'' = Inr [''a'', ''b.txt'']"
    by (simp add: validate_relative_path_def path_components_def List.map_filter_simps part_component_def
        is_normal_def component_name_def)
  with accepted_paths_are_safe [OF v] show ?thesis by simp
qed

text \<open>
  The check for colliding paths compares the text of the paths, not their components:
  \<open>a/b\<close> and \<open>a//b\<close> name the same file and are accepted together.
\<close>

theorem aliased_paths_accepted:
  "let f = (\<lambda>p off. \<lparr>relative_path = p, be_size = 1, blake3_hash = [], be_offset = off\<rparr>);
       m = \<lparr>entries = [f ''a/b'' 0, f ''a//b'' 1], bm_created_at = None, bm_tool_version = None\<rparr>
   in validate_layout (B\<lparr>to_lowercase := map to_ascii_lowercase\<rparr>) m 10 12 = Inr () \<and>
     validate_relative_path ''a/b'' = validate_relative_path ''a//b''"
proof -
  have v: "validate_relative_path ''a/b'' = Inr [''a'', ''b'']" "validate_relative_path ''a//b'' = Inr [''a'', ''b'']"
    by (simp_all add: validate_relative_path_def path_components_def List.map_filter_simps part_component_def
        is_normal_def component_name_def)
  have low: "map to_ascii_lowercase ''a/b'' \<noteq> map to_ascii_lowercase ''a//b''"
    by (simp add: to_ascii_lowercase_def)
  let ?f = "\<lambda>p off. \<lparr>relative_path = p, be_size = 1, blake3_hash = [], be_offset = off\<rparr>"
  have "good_layout (B\<lparr>to_lowercase := map to_ascii_lowercase\<rparr>)
      \<lparr>entries = [?f ''a/b'' 0, ?f ''a//b'' 1], bm_created_at = None, bm_tool_version = None\<rparr> 10 12"
    using low by (simp add: good_layout_def v entry_range_def)
  then show ?thesis by (simp add: Let_def validate_layout_iff v)
qed

section \<open>Packing\<close>

lemma build_entries_Inr:
  "build_entries off srcs = Inr es \<Longrightarrow>
     map relative_path es = map src_relative_path srcs \<and> map be_size es = map src_size srcs \<and>
     map blake3_hash es = map src_hash srcs \<and>
     unat off + (\<Sum>s \<leftarrow> srcs. unat (src_size s)) < 2 ^ 64 \<and>
     (\<forall>i < length es. unat (be_offset (es ! i)) = unat off + (\<Sum>s \<leftarrow> take i srcs. unat (src_size s)))"
proof (induction srcs arbitrary: off es)
  case Nil
  then show ?case using unat_bound [of off] by simp
next
  case (Cons s srcs)
  then obtain off' es' where *: "checked_add_u64 off (src_size s) = Some off'" "build_entries off' srcs = Inr es'"
      "es = \<lparr>relative_path = src_relative_path s, be_size = src_size s, blake3_hash = src_hash s, be_offset = off\<rparr> # es'"
    by (auto simp: res_elims)
  from Cons.IH [OF *(2)] checked_add_u64_Some [OF *(1)] *(3) show ?case
    by (auto simp: nth_Cons less_Suc_eq_0_disj split: nat.split)
qed

end
