(* ===== verification/Bundle_Stream.thy ===== *)
theory Bundle_Stream
  imports Bundle_Layout Capsule_Correct Containers "HOL-Library.Char_ord" "HOL-Library.List_Lexorder"
begin

text \<open>
  Packing, listing and verifying bundles (bundle_stream.rs). What WalkDir yields is a parameter,
  with the attributes the code asks of an entry. A \<open>NamedTempFile\<close> and a \<open>TempDir\<close> are given the
  fresh name \<open>tmp\<close> while another function reads them by path, and are removed afterwards; the
  file of an opened bundle stays readable, so the removal is modelled at the end of
  \<open>decrypt_and_open\<close>.
\<close>

section \<open>Copying and hashing\<close>

text \<open>
  The loop \<open>while remaining > 0\<close> of \<open>hash_reader\<close>, \<open>copy_source_checked\<close> and \<open>copy_entry\<close>: every
  chunk goes to a writer, which for the hasher is unlimited.
\<close>

function pump :: "bundle_error \<Rightarrow> nat \<Rightarrow> reader \<Rightarrow> writer \<Rightarrow> (bundle_error + unit) \<times> reader \<times> writer" where
  "pump truncated remaining rd wr =
     (if 0 < remaining
      then (case read (min remaining BUNDLE_COPY_BUFFER_SIZE) rd of
              (Inl e, rd') \<Rightarrow> (Inl (BIo e), rd', wr)
            | (Inr got, rd') \<Rightarrow>
                if got = [] then (Inl truncated, rd', wr)
                else (case write_all got wr of
                    (Inl e, wr') \<Rightarrow> (Inl (BIo e), rd', wr')
                  | (Inr _, wr') \<Rightarrow> pump truncated (remaining - length got) rd' wr'))
      else (Inr (), rd, wr))"
  by pat_completeness auto
termination
  by (relation "measure (\<lambda>(_, n, _). n)") auto

declare pump.simps [simp del]

definition hash_reader :: "bundle_prims \<Rightarrow> nat \<Rightarrow> reader \<Rightarrow> (bundle_error + bytes) \<times> reader" where
  "hash_reader B expected_len rd =
     (case pump (ManifestError ''Bundle file data is truncated'') expected_len rd (fresh_writer None) of
        (Inl e, rd', _) \<Rightarrow> (Inl e, rd')
      | (Inr _, rd', hasher) \<Rightarrow> (Inr (blake3 B (w_data hasher)), rd'))"

fun join_slash :: "string list \<Rightarrow> string" where
  "join_slash [] = []"
| "join_slash [s] = s"
| "join_slash (s # t # r) = s @ ''/'' @ join_slash (t # r)"

definition display :: "path \<Rightarrow> string" where
  "display p = (if absolute p then ''/'' else '''') @ join_slash (comps p)"

text \<open>\<open>file.read(&mut [0u8; 1])? != 0\<close>\<close>

definition trailing :: "reader \<Rightarrow> bundle_error + bool" where
  "trailing rd = (case fst (read 1 rd) of Inl e \<Rightarrow> Inl (BIo e) | Inr got \<Rightarrow> Inr (got \<noteq> []))"

definition hash_file :: "bundle_prims \<Rightarrow> path \<Rightarrow> (world, bundle_error, u64 \<times> bytes) action" where
  "hash_file B p =
     act (act_map_err BIo (open_file p)) (\<lambda>rd.
     act (act_map_err BIo (metadata_of p)) (\<lambda>md.
     let size = of_nat (snd md) :: u64 in
     case hash_reader B (unat size) rd of
       (Inl e, _) \<Rightarrow> fail e
     | (Inr h, rd1) \<Rightarrow>
         act (lift (trailing rd1)) (\<lambda>more.
         act (lift (ensure (\<not> more) (ManifestError (''Input changed while hashing: '' @ display p)))) (\<lambda>_.
           ret (size, h)))))"

section \<open>Sources\<close>

record walk_entry =
  we_names :: "string list"
  we_is_dir :: bool
  we_is_symlink :: bool
  we_is_file :: bool
  we_metadata :: "io_error + bool"

definition below :: "path \<Rightarrow> string list \<Rightarrow> path" where
  "below dir names = Path (absolute dir) (comps dir @ names)"

fun collect_paths ::
  "path \<Rightarrow> bool \<Rightarrow> (string + walk_entry) list \<Rightarrow> bundle_error + (string \<times> path) list" where
  "collect_paths in_dir allow_symlinks [] = Inr []"
| "collect_paths in_dir allow_symlinks (Inl err # rest) = Inl (WalkError err)"
| "collect_paths in_dir allow_symlinks (Inr en # rest) =
     (let p = below in_dir (we_names en) in
      if we_names en = [] \<or> we_is_dir en then collect_paths in_dir allow_symlinks rest
      else if we_is_symlink en \<and> \<not> allow_symlinks then Inl (SymlinkRejected (display p))
      else
        rbind (if we_is_symlink en
            then rbind (map_err BIo (we_metadata en)) (\<lambda>is_file. ensure is_file (SpecialFileRejected (display p)))
            else ensure (we_is_file en) (SpecialFileRejected (display p))) (\<lambda>_.
        let relative = join_slash (we_names en) in
        rbind (validate_relative_path relative) (\<lambda>_.
        rbind (collect_paths in_dir allow_symlinks rest) (\<lambda>ps. Inr ((relative, p) # ps)))))"

fun hash_sources :: "bundle_prims \<Rightarrow> (string \<times> path) list \<Rightarrow> (world, bundle_error, source_file list) action" where
  "hash_sources B [] = ret []"
| "hash_sources B ((relative, p) # rest) =
     act (hash_file B p) (\<lambda>(size, h).
     act (hash_sources B rest) (\<lambda>ss.
       ret (\<lparr>src_relative_path = relative, src_path = p, src_size = size, src_hash = h\<rparr> # ss)))"

definition collect_sources ::
  "bundle_prims \<Rightarrow> (string + walk_entry) list \<Rightarrow> path \<Rightarrow> bool \<Rightarrow> (world, bundle_error, source_file list) action" where
  "collect_sources B walk in_dir allow_symlinks w =
     (if lookup w in_dir \<noteq> Some Directory then (Inl (InputDirNotFound (display in_dir)), w)
      else act (lift (collect_paths in_dir allow_symlinks walk)) (\<lambda>paths.
        hash_sources B (sort_key fst paths)) w)"

section \<open>Packing\<close>

definition copy_source_checked ::
  "bundle_prims \<Rightarrow> source_file \<Rightarrow> writer \<Rightarrow> (world, bundle_error, writer) action" where
  "copy_source_checked B source wr =
     act (act_map_err BIo (open_file (src_path source))) (\<lambda>rd.
     act (act_map_err BIo (metadata_of (src_path source))) (\<lambda>md.
     act (lift (ensure ((of_nat (snd md) :: u64) = src_size source)
       (ManifestError (''Input size changed during packing: '' @ display (src_path source))))) (\<lambda>_.
     case pump (ManifestError (''Input truncated during packing: '' @ display (src_path source)))
         (unat (src_size source)) rd wr of
       (Inl e, _, _) \<Rightarrow> fail e
     | (Inr _, rd1, wr1) \<Rightarrow>
         act (lift (trailing rd1)) (\<lambda>more.
         act (lift (ensure (\<not> more \<and> blake3 B (drop (length (w_data wr)) (w_data wr1)) = src_hash source)
           (ManifestError (''Input changed during packing: '' @ display (src_path source))))) (\<lambda>_.
           ret wr1)))))"

fun copy_sources :: "bundle_prims \<Rightarrow> source_file list \<Rightarrow> writer \<Rightarrow> (world, bundle_error, writer) action" where
  "copy_sources B [] wr = ret wr"
| "copy_sources B (s # rest) wr = act (copy_source_checked B s wr) (\<lambda>wr1. copy_sources B rest wr1)"

text \<open>A temporary object under the name \<open>tmp\<close> during an action.\<close>

definition remove_below :: "path \<Rightarrow> world \<Rightarrow> world" where
  "remove_below p w =
     w\<lparr>w_fs := (\<lambda>k. if take (length (resolve w p)) k = resolve w p then None else w_fs w k)\<rparr>"

definition with_temp_file ::
  "path \<Rightarrow> bytes \<Rightarrow> (world, 'e, 'a) action \<Rightarrow> (world, 'e, 'a) action" where
  "with_temp_file tmp bs m w = (case m (put_file w tmp bs) of (r, w1) \<Rightarrow> (r, remove_below tmp w1))"

definition with_temp_dir :: "path \<Rightarrow> (world, 'e, 'a) action \<Rightarrow> (world, 'e, 'a) action" where
  "with_temp_dir tmp m w =
     (case m (w\<lparr>w_fs := (w_fs w)(resolve w tmp \<mapsto> Directory)\<rparr>) of (r, w1) \<Rightarrow> (r, remove_below tmp w1))"

datatype encrypt_credential =
    CredPassword bytes "bytes option"
  | CredKeypairs "hybrid_public_key list"

definition bundle_encrypt ::
  "prims \<Rightarrow> postcard \<Rightarrow> path \<Rightarrow> path \<Rightarrow> encrypt_credential \<Rightarrow> security_profile \<Rightarrow> capsule_policy option \<Rightarrow>
   bool \<Rightarrow> (world, crypto_error, unit) action" where
  "bundle_encrypt P S plaintext out_file credential profile policy allow_policy_override =
     (case credential of
        CredPassword password seed \<Rightarrow>
          encrypt_file_password_with_content_type P S plaintext out_file password seed profile policy
            allow_policy_override (Some Bundle)
      | CredKeypairs recipients \<Rightarrow>
          encrypt_file_keypairs_with_content_type P S plaintext out_file recipients profile policy
            allow_policy_override (Some Bundle))"

definition write_bytes :: "bytes \<Rightarrow> writer \<Rightarrow> bundle_error + writer" where
  "write_bytes bs wr = (case write_all bs wr of (Inl e, _) \<Rightarrow> Inl (BIo e) | (Inr _, wr1) \<Rightarrow> Inr wr1)"

definition pack_directory ::
  "prims \<Rightarrow> postcard \<Rightarrow> bundle_prims \<Rightarrow> string \<Rightarrow> nat option \<Rightarrow> (string + walk_entry) list \<Rightarrow> path \<Rightarrow>
   path \<Rightarrow> path \<Rightarrow> encrypt_credential \<Rightarrow> security_profile \<Rightarrow> bool \<Rightarrow> padding_profile \<Rightarrow> bool \<Rightarrow>
   capsule_policy option \<Rightarrow> bool \<Rightarrow> (world, bundle_error, bundle_manifest) action" where
  "pack_directory P S B version now walk tmp in_dir out_file credential profile allow_symlinks padding
       force policy allow_policy_override w0 =
     (if path_exists w0 out_file \<and> \<not> force then (Inl (BOutputExists (display out_file)), w0)
      else
       (act (collect_sources B walk in_dir allow_symlinks) (\<lambda>sources.
        act (lift (build_manifest version now sources)) (\<lambda>manifest.
        act (lift (ok_or BSerialization (pc_manifest B manifest))) (\<lambda>manifest_bytes.
        act (lift (ensure (manifest_bytes \<noteq> [] \<and> length manifest_bytes \<le> MAX_BUNDLE_MANIFEST_SIZE)
          (ManifestError ''Bundle manifest exceeds the supported limit''))) (\<lambda>_.
        act (lift (ensure (length manifest_bytes < 2 ^ 32) (ManifestError ''Manifest size overflow''))) (\<lambda>_.
        act (act_map_err BIo (new_in (parent_or_dot out_file))) (\<lambda>plaintext.
        act (lift (write_bytes (u32_to_le_bytes (of_nat (length manifest_bytes))) plaintext)) (\<lambda>plaintext.
        act (lift (write_bytes manifest_bytes plaintext)) (\<lambda>plaintext.
        act (copy_sources B sources plaintext) (\<lambda>plaintext.
        let current_len = of_nat (length (w_data plaintext)) :: u64 in
        act (lift (padding_target current_len padding)) (\<lambda>target_len.
        act (lift (case write_zero_padding (unat (target_len - current_len)) plaintext of
            (Inl e, _) \<Rightarrow> Inl e | (Inr _, wr) \<Rightarrow> Inr wr)) (\<lambda>plaintext.
        act (act_map_err BIo sync_temp) (\<lambda>_.
        act (act_map_err BCrypto (with_temp_file tmp (w_data plaintext)
          (bundle_encrypt P S tmp out_file credential profile policy allow_policy_override))) (\<lambda>_.
          ret manifest))))))))))))))
        w0)"

section \<open>Opening a bundle\<close>

text \<open>\<open>db_all\<close> are the contents of the decrypted file, for \<open>seek\<close>.\<close>

record decrypted_bundle =
  db_all :: bytes
  db_file :: reader
  db_manifest :: bundle_manifest
  db_data_start :: u64
  db_payload_len :: u64

definition payload_name :: "path \<Rightarrow> path" where
  "payload_name tmp = below tmp [''bundle.payload'']"

definition open_payload :: "bundle_prims \<Rightarrow> path \<Rightarrow> (world, bundle_error, decrypted_bundle) action" where
  "open_payload B p =
     act (act_map_err BIo (open_file p)) (\<lambda>rd.
     act (act_map_err BIo (metadata_of p)) (\<lambda>md.
     let payload_len = of_nat (snd md) :: u64 in
     act (lift (ensure (4 \<le> payload_len) (ManifestError ''Bundle payload is too small''))) (\<lambda>_.
     case read_exact 4 rd of
       (Inl e, _) \<Rightarrow> fail (BIo e)
     | (Inr len_bytes, rd1) \<Rightarrow>
         let manifest_len = unat (u32_from_le_bytes len_bytes) in
         act (lift (ensure (manifest_len \<noteq> 0 \<and> manifest_len \<le> MAX_BUNDLE_MANIFEST_SIZE)
           (ManifestError ''Bundle manifest size is invalid''))) (\<lambda>_.
         act (lift (ok_or (ManifestError ''Manifest length overflow'') (checked_add_u64 4 (of_nat manifest_len)))) (\<lambda>data_start.
         act (lift (ensure (data_start \<le> payload_len)
           (ManifestError ''Bundle payload is truncated before the manifest ends''))) (\<lambda>_.
         case read_exact manifest_len rd1 of
           (Inl e, _) \<Rightarrow> fail (BIo e)
         | (Inr bs, rd2) \<Rightarrow>
             act (lift (decode_manifest B bs)) (\<lambda>manifest.
             act (lift (validate_layout B manifest data_start payload_len)) (\<lambda>_.
               ret \<lparr>db_all = r_data rd, db_file = rd2, db_manifest = manifest, db_data_start = data_start,
                 db_payload_len = payload_len\<rparr>))))))))"

definition decrypt_and_open ::
  "prims \<Rightarrow> postcard \<Rightarrow> bundle_prims \<Rightarrow> path \<Rightarrow> path \<Rightarrow> bytes \<Rightarrow> (world, bundle_error, decrypted_bundle) action" where
  "decrypt_and_open P S B tmp in_file password =
     with_temp_dir tmp
       (act (act_map_err BCrypto (decrypt_file_password P S in_file (payload_name tmp) password None)) (\<lambda>_.
          open_payload B (payload_name tmp)))"

section \<open>Verifying entries\<close>

definition seek_start :: "bytes \<Rightarrow> u64 \<Rightarrow> reader \<Rightarrow> reader" where
  "seek_start all pos rd = rd\<lparr>r_data := drop (unat pos) all\<rparr>"

definition verify_entry ::
  "bundle_prims \<Rightarrow> bytes \<Rightarrow> u64 \<Rightarrow> bundle_entry \<Rightarrow> reader \<Rightarrow> (bundle_error + unit) \<times> reader" where
  "verify_entry B all data_start en rd =
     (case checked_add_u64 data_start (be_offset en) of
        None \<Rightarrow> (Inl (ManifestError ''File offset overflow''), rd)
      | Some start \<Rightarrow>
          (case hash_reader B (unat (be_size en)) (seek_start all start rd) of
             (Inl e, rd1) \<Rightarrow> (Inl e, rd1)
           | (Inr actual, rd1) \<Rightarrow>
               (ensure (actual = blake3_hash en) (ManifestError (''BLAKE3 hash mismatch for: '' @ relative_path en)), rd1)))"

fun verify_entries ::
  "bundle_prims \<Rightarrow> bytes \<Rightarrow> u64 \<Rightarrow> bundle_entry list \<Rightarrow> reader \<Rightarrow> (bundle_error + unit) \<times> reader" where
  "verify_entries B all data_start [] rd = (Inr (), rd)"
| "verify_entries B all data_start (en # es) rd =
     (case verify_entry B all data_start en rd of
        (Inl e, rd1) \<Rightarrow> (Inl e, rd1)
      | (Inr _, rd1) \<Rightarrow> verify_entries B all data_start es rd1)"

definition verify_all :: "bundle_prims \<Rightarrow> decrypted_bundle \<Rightarrow> bundle_error + decrypted_bundle" where
  "verify_all B b =
     rbind (validate_layout B (db_manifest b) (db_data_start b) (db_payload_len b)) (\<lambda>_.
       case verify_entries B (db_all b) (db_data_start b) (entries (db_manifest b)) (db_file b) of
         (Inl e, _) \<Rightarrow> Inl e
       | (Inr _, rd) \<Rightarrow> Inr (b\<lparr>db_file := rd\<rparr>))"

definition list_bundle ::
  "prims \<Rightarrow> postcard \<Rightarrow> bundle_prims \<Rightarrow> path \<Rightarrow> path \<Rightarrow> bytes \<Rightarrow> (world, bundle_error, bundle_manifest) action" where
  "list_bundle P S B tmp in_file password =
     act (decrypt_and_open P S B tmp in_file password) (\<lambda>b.
     act (lift (verify_all B b)) (\<lambda>b. ret (db_manifest b)))"

definition verify_bundle ::
  "prims \<Rightarrow> postcard \<Rightarrow> bundle_prims \<Rightarrow> path \<Rightarrow> path \<Rightarrow> bytes \<Rightarrow> (world, bundle_error, bundle_manifest) action" where
  "verify_bundle P S B tmp in_file password =
     act (decrypt_and_open P S B tmp in_file password) (\<lambda>b.
     act (lift (verify_all B b)) (\<lambda>b. ret (db_manifest b)))"

definition inspect_bundle ::
  "prims \<Rightarrow> postcard \<Rightarrow> path \<Rightarrow> (world, bundle_error, envelope_header \<times> content_type option \<times> string option) action" where
  "inspect_bundle P S in_file =
     act (act_map_err BCrypto (read_envelope_from_path P S in_file)) (\<lambda>e.
       ret (header e, e_content_type e, public_label e))"

end
