(* ===== verification/Bundle_Correct.thy ===== *)
theory Bundle_Correct
  imports Bundle_Stream Capsule_Safety
begin

text \<open>
  Correctness of theory Bundle_Stream: what a packed payload consists of, that a packed bundle
  is listed again, and what a successful listing has authenticated.
\<close>

section \<open>Copying and hashing\<close>

lemma pump_Inr:
  "pump e n rd wr = (Inr u, rd', wr') \<Longrightarrow>
     n \<le> length (r_data rd) \<and> w_data wr' = w_data wr @ take n (r_data rd) \<and> r_data rd' = drop n (r_data rd) \<and>
     (w_room wr = None \<longrightarrow> w_room wr' = None)"
proof (induction e n rd wr rule: pump.induct)
  case (1 e n rd wr)
  show ?case
  proof (cases "0 < n")
    case False
    with "1.prems" show ?thesis by (simp add: pump.simps [of e n])
  next
    case True
    obtain q rd1 where rd1: "read (min n BUNDLE_COPY_BUFFER_SIZE) rd = (q, rd1)" by fastforce
    from "1.prems" True rd1 obtain got where q: "q = Inr got" "got \<noteq> []"
      by (cases q) (auto simp: pump.simps [of e n] split: if_splits)
    obtain s wr1 where wr1: "write_all got wr = (s, wr1)" by fastforce
    from "1.prems" True rd1 q wr1 have s: "s = Inr ()" and rest: "pump e (n - length got) rd1 wr1 = (Inr u, rd', wr')"
      by (auto simp: pump.simps [of e n] split: sum.splits)
    have pos: "0 < min n BUNDLE_COPY_BUFFER_SIZE" using True by (simp add: BUNDLE_COPY_BUFFER_SIZE_def)
    note got = read_Inr [OF rd1 [unfolded q(1)] pos]
    note wr = write_all_Inr [OF wr1 [unfolded s]]
    have IH: "n - length got \<le> length (r_data rd1) \<and> w_data wr' = w_data wr1 @ take (n - length got) (r_data rd1) \<and>
        r_data rd' = drop (n - length got) (r_data rd1) \<and> (w_room wr1 = None \<longrightarrow> w_room wr' = None)"
      using "1.IH" [OF True rd1 [symmetric] q(1) _ wr1 [symmetric], of "()"] q(2) s rest by simp
    have "length got \<le> n" using got(2) by simp
    with IH got(1) wr show ?thesis by auto
  qed
qed

lemma pump_quiet:
  "quiet rd \<Longrightarrow> w_room wr = None \<Longrightarrow> n \<le> length (r_data rd) \<Longrightarrow>
     \<exists>rd' wr'. pump e n rd wr = (Inr (), rd', wr') \<and> quiet rd' \<and> w_room wr' = None"
proof (induction e n rd wr rule: pump.induct)
  case (1 e n rd wr)
  show ?case
  proof (cases "0 < n")
    case False
    with "1.prems" show ?thesis by (simp add: pump.simps [of e 0])
  next
    case True
    obtain got rd1 where rd1: "read (min n BUNDLE_COPY_BUFFER_SIZE) rd = (Inr got, rd1)" "quiet rd1"
      using read_quiet [OF "1.prems"(1)] .
    have pos: "0 < min n BUNDLE_COPY_BUFFER_SIZE" using True by (simp add: BUNDLE_COPY_BUFFER_SIZE_def)
    note got = read_Inr [OF rd1(1) pos]
    have ne: "got \<noteq> []" using got(3) "1.prems"(3) True by auto
    obtain wr1 where wr1: "write_all got wr = (Inr (), wr1)" "w_room wr1 = None"
      using "1.prems"(2) by (simp add: write_all_def)
    have "n - length got \<le> length (r_data rd1)" using got(1) "1.prems"(3) by simp
    with "1.IH" [OF True rd1(1) [symmetric] refl ne wr1(1) [symmetric], of "()"] rd1(2) wr1(2) obtain rd' wr' where
      "pump e (n - length got) rd1 wr1 = (Inr (), rd', wr') \<and> quiet rd' \<and> w_room wr' = None" by auto
    with True rd1 ne wr1 show ?thesis by (simp add: pump.simps [of e n])
  qed
qed

lemma hash_reader_Inr:
  "hash_reader B n rd = (Inr h, rd') \<Longrightarrow>
     n \<le> length (r_data rd) \<and> h = blake3 B (take n (r_data rd)) \<and> r_data rd' = drop n (r_data rd)"
  by (auto simp: hash_reader_def split: prod.splits sum.splits dest!: pump_Inr)

lemma hash_reader_quiet:
  assumes "quiet rd" "n \<le> length (r_data rd)"
  obtains rd' where "hash_reader B n rd = (Inr (blake3 B (take n (r_data rd))), rd')" "quiet rd'"
proof -
  obtain rd' wr' where p: "pump (ManifestError ''Bundle file data is truncated'') n rd (fresh_writer None) = (Inr (), rd', wr')"
      "quiet rd'"
    using pump_quiet [OF assms(1) _ assms(2), where wr = "fresh_writer None"] by fastforce
  with pump_Inr [OF p(1)] that show ?thesis by (simp add: hash_reader_def)
qed

section \<open>Entries of a payload\<close>

definition entry_bytes :: "bytes \<Rightarrow> u64 \<Rightarrow> bundle_entry \<Rightarrow> bytes" where
  "entry_bytes all ds en = take (unat (be_size en)) (drop (unat ds + unat (be_offset en)) all)"

text \<open>Every entry lies inside the payload and has the recorded hash.\<close>

definition verified :: "bundle_prims \<Rightarrow> bytes \<Rightarrow> u64 \<Rightarrow> bundle_manifest \<Rightarrow> bool" where
  "verified B all ds m \<longleftrightarrow> (\<forall>en \<in> set (entries m).
     unat ds + unat (be_offset en) + unat (be_size en) \<le> length all \<and>
     blake3 B (entry_bytes all ds en) = blake3_hash en)"

lemma verify_entry_Inr:
  assumes "verify_entry B all ds en rd = (Inr u, rd')"
  shows "blake3 B (entry_bytes all ds en) = blake3_hash en"
proof -
  from assms obtain start h where s: "checked_add_u64 ds (be_offset en) = Some start"
      and h: "hash_reader B (unat (be_size en)) (seek_start all start rd) = (Inr h, rd')" "h = blake3_hash en"
    by (auto simp: verify_entry_def res_elims split: option.splits prod.splits sum.splits)
  from hash_reader_Inr [OF h(1)] h(2) checked_add_u64_Some [OF s] show ?thesis
    by (simp add: entry_bytes_def seek_start_def)
qed

lemma verify_entries_Inr:
  "verify_entries B all ds es rd = (Inr u, rd') \<Longrightarrow> \<forall>en \<in> set es. blake3 B (entry_bytes all ds en) = blake3_hash en"
  by (induction es arbitrary: rd) (auto split: prod.splits sum.splits dest: verify_entry_Inr)

lemma verify_entry_quiet:
  assumes "quiet rd" "entry_fits (unat ds) (length all) en" "length all < 2 ^ 64"
    "blake3 B (entry_bytes all ds en) = blake3_hash en"
  shows "\<exists>rd'. verify_entry B all ds en rd = (Inr (), rd') \<and> quiet rd'"
proof -
  have "unat (of_nat (length all) :: u64) = length all"
    using assms(3) by (simp add: unat_of_nat take_bit_nat_eq_self)
  with checked_range [of ds "of_nat (length all)" en] assms(2)
  have c: "checked_add_u64 ds (be_offset en) = Some (ds + be_offset en)"
      "unat (ds + be_offset en) = unat ds + unat (be_offset en)" by simp_all
  let ?rd = "seek_start all (ds + be_offset en) rd"
  have "quiet ?rd" using assms(1) by (simp add: quiet_def seek_start_def)
  moreover have "unat (be_size en) \<le> length (r_data ?rd)"
    using assms(2) c(2) by (simp add: seek_start_def entry_fits_def)
  ultimately obtain rd' where "hash_reader B (unat (be_size en)) ?rd = (Inr (blake3 B (take (unat (be_size en)) (r_data ?rd))), rd')"
      "quiet rd'" using hash_reader_quiet by blast
  with c assms(4) show ?thesis by (simp add: verify_entry_def entry_bytes_def seek_start_def)
qed

lemma verify_entries_quiet:
  assumes "length all < 2 ^ 64"
  shows "quiet rd \<Longrightarrow> \<forall>en \<in> set es. entry_fits (unat ds) (length all) en \<and> blake3 B (entry_bytes all ds en) = blake3_hash en \<Longrightarrow>
     \<exists>rd'. verify_entries B all ds es rd = (Inr (), rd') \<and> quiet rd'"
proof (induction es arbitrary: rd)
  case Nil
  then show ?case by simp
next
  case (Cons en es)
  obtain rd1 where "verify_entry B all ds en rd = (Inr (), rd1)" "quiet rd1"
    using verify_entry_quiet [OF Cons.prems(1) _ assms, of ds en B] Cons.prems(2) by auto
  with Cons show ?case by simp
qed

section \<open>Opening a payload\<close>

text \<open>The decrypted payload of a bundle: the bytes of its manifest, then the files and the padding.\<close>

definition payload_of :: "bundle_prims \<Rightarrow> bytes \<Rightarrow> bundle_manifest \<Rightarrow> nat \<Rightarrow> bool" where
  "payload_of B all m ds \<longleftrightarrow>
     (\<exists>mb rest. all = capsule_bytes mb rest \<and> mb \<noteq> [] \<and> length mb \<le> MAX_BUNDLE_MANIFEST_SIZE \<and>
        pc_take_manifest B mb = Some (m, []) \<and> ds = 4 + length mb) \<and>
     good_layout B m ds (length all)"

lemma payload_of_ne: "payload_of B all m ds \<Longrightarrow> all \<noteq> []"
  unfolding payload_of_def by (metis capsule_bytes_ne)

lemma decode_manifest_Inr: "decode_manifest B bs = Inr m \<longleftrightarrow> pc_take_manifest B bs = Some (m, [])"
  by (auto simp: decode_manifest_def res_elims)

lemma unat_of_nat_u64: "n < 2 ^ 64 \<Longrightarrow> unat (of_nat n :: u64) = n"
  by (simp add: unat_of_nat take_bit_nat_eq_self)

lemma open_payload_Inr:
  assumes run: "open_payload B p w = (Inr b, w')" and p: "lookup w p = Some (Regular all)" "length all < 2 ^ 64"
  shows "w' = w" "db_all b = all" "payload_of B all (db_manifest b) (unat (db_data_start b))"
    "unat (db_payload_len b) = length all"
proof -
  let ?rd = "\<lparr>r_data = all, r_events = w_script w (resolve w p)\<rparr>"
  let ?pl = "of_nat (length all) :: u64"
  have md: "metadata_of p w = (Inr (True, length all), w)" by (simp add: metadata_of_def p)
  from run p(1) md obtain lb rd1 where lb: "read_exact 4 ?rd = (Inr lb, rd1)"
    by (auto simp: open_payload_def act_def act_map_err_def Let_def lift_def ensure_def fail_def
        split: if_splits sum.splits prod.splits)
  define n where "n = unat (u32_from_le_bytes lb)"
  from run p(1) md lb obtain ds mb rd2 where *: "n \<noteq> 0" "n \<le> MAX_BUNDLE_MANIFEST_SIZE"
      "checked_add_u64 4 (of_nat n) = Some ds" "ds \<le> ?pl" "read_exact n rd1 = (Inr mb, rd2)"
      "decode_manifest B mb = Inr (db_manifest b)" "validate_layout B (db_manifest b) ds ?pl = Inr ()"
      "w' = w" "db_all b = all" "db_data_start b = ds" "db_payload_len b = ?pl"
    by (auto simp: open_payload_def act_def act_map_err_def Let_def lift_def ensure_def ok_or_def n_def
        fail_def ret_def split: if_splits sum.splits prod.splits option.splits)
  note l = read_exact_Inr [OF lb] and m = read_exact_Inr [OF *(5)]
  have lb4: "length lb = 4" using l by simp
  have "all = lb @ mb @ r_data rd2" using l m by simp
  moreover have "lb = u32_to_le_bytes (of_nat (length mb))"
    using m u32_le_nat_of [OF lb4] by (simp add: n_def)
  ultimately have all: "all = capsule_bytes mb (r_data rd2)" by (simp add: capsule_bytes_def)
  have nlt: "n < 2 ^ 32" using unat_bound [of "u32_from_le_bytes lb"] by (simp add: n_def)
  have "unat ds = 4 + length mb"
    using checked_add_u64_Some [OF *(3)] m unat_of_nat_u64 [of n] nlt by simp
  with all * m show "payload_of B all (db_manifest b) (unat (db_data_start b))"
    using validate_layout_iff unat_of_nat_u64 [OF p(2)]
    unfolding payload_of_def decode_manifest_Inr by (metis length_0_conv)
  show "w' = w" "db_all b = all" "unat (db_payload_len b) = length all"
    using * unat_of_nat_u64 [OF p(2)] by simp_all
qed

lemma open_payload_calm:
  assumes p: "lookup w p = Some (Regular all)" "length all < 2 ^ 64" "calm w p"
    and pay: "all = capsule_bytes mb rest" "mb \<noteq> []" "length mb \<le> MAX_BUNDLE_MANIFEST_SIZE"
      "pc_take_manifest B mb = Some (m, [])"
  obtains rd where "quiet rd" "open_payload B p w =
    act (lift (validate_layout B m (of_nat (4 + length mb)) (of_nat (length all)))) (\<lambda>_.
      ret \<lparr>db_all = all, db_file = rd, db_manifest = m, db_data_start = of_nat (4 + length mb),
        db_payload_len = of_nat (length all)\<rparr>) w"
proof -
  let ?rd = "\<lparr>r_data = all, r_events = w_script w (resolve w p)\<rparr>"
  let ?lb = "u32_to_le_bytes (of_nat (length mb))"
  have "quiet ?rd" using p(3) by (simp add: calm_def quiet_def)
  moreover have "r_data ?rd = ?lb @ mb @ rest" by (simp add: pay(1) capsule_bytes_def)
  ultimately obtain rd1 where rd1: "read_exact 4 ?rd = (Inr ?lb, rd1)" "quiet rd1" "r_data rd1 = mb @ rest"
    using read_exact_quiet [of ?rd 4] by auto
  then obtain rd2 where rd2: "read_exact (length mb) rd1 = (Inr mb, rd2)" "quiet rd2"
    using read_exact_quiet [of rd1 "length mb"] by auto
  have n: "unat (of_nat (length mb) :: u32) = length mb"
    using pay(3) by (simp add: unat_of_nat take_bit_nat_eq_self MAX_BUNDLE_MANIFEST_SIZE_def)
  have al: "length all = 4 + length mb + length rest" by (simp add: pay(1) capsule_bytes_def)
  have ds: "checked_add_u64 4 (of_nat (length mb)) = Some (of_nat (4 + length mb))"
    using checked_add_u64_of_nat [of 4 "length mb"] p(2) al by simp
  have le: "(of_nat (4 + length mb) :: u64) \<le> of_nat (length all)" "(4 :: u64) \<le> of_nat (length all)"
    using p(2) al by (simp_all add: word_le_nat_alt unat_of_nat_u64 del: of_nat_add)
  have "open_payload B p w =
    act (lift (validate_layout B m (of_nat (4 + length mb)) (of_nat (length all)))) (\<lambda>_.
      ret \<lparr>db_all = all, db_file = rd2, db_manifest = m, db_data_start = of_nat (4 + length mb),
        db_payload_len = of_nat (length all)\<rparr>) w"
    using p(1) rd1(1) rd2(1) n ds le pay(2,3,4)
    by (simp add: open_payload_def act_def act_map_err_def Let_def lift_def metadata_of_def decode_manifest_def
        ret_def del: of_nat_add)
  with rd2(2) that show ?thesis by blast
qed

section \<open>Temporary names\<close>

definition under :: "world \<Rightarrow> path \<Rightarrow> string list \<Rightarrow> bool" where
  "under w p k \<longleftrightarrow> take (length (resolve w p)) k = resolve w p"

definition fresh_name :: "world \<Rightarrow> path \<Rightarrow> bool" where
  "fresh_name w tmp \<longleftrightarrow> comps tmp \<noteq> [] \<and> (\<forall>k. under w tmp k \<longrightarrow> w_fs w k = None)"

lemma under_self [simp]: "under w p (resolve w p)"
  by (simp add: under_def)

lemma resolve_fs [simp]: "resolve (w\<lparr>w_fs := f\<rparr>) p = resolve w p"
  by (simp add: resolve_def)

lemma remove_below_restores:
  assumes "fresh_name w tmp" "\<forall>k. \<not> under w tmp k \<longrightarrow> f k = w_fs w k"
  shows "remove_below tmp (w\<lparr>w_fs := f\<rparr>) = w"
proof -
  have "(\<lambda>k. if under w tmp k then None else f k) = w_fs w"
    using assms by (auto simp: fresh_name_def)
  then have "remove_below tmp (w\<lparr>w_fs := f\<rparr>) = w\<lparr>w_fs := w_fs w\<rparr>"
    by (simp add: remove_below_def under_def cong: if_cong)
  then show ?thesis by simp
qed

definition with_dir :: "path \<Rightarrow> world \<Rightarrow> world" where
  "with_dir tmp w = w\<lparr>w_fs := (w_fs w)(resolve w tmp \<mapsto> Directory)\<rparr>"

lemma resolve_payload: "resolve w (payload_name tmp) = resolve w tmp @ [''bundle.payload'']"
  by (simp add: payload_name_def below_def resolve_def)

lemma resolve_with_dir [simp]: "resolve (with_dir tmp w) p = resolve w p"
  by (simp add: with_dir_def)

lemma with_dir_restored:
  assumes "fresh_name w tmp"
  shows "remove_below tmp (with_dir tmp w) = w"
    "remove_below tmp (put_file (with_dir tmp w) (payload_name tmp) bs) = w"
proof -
  show "remove_below tmp (with_dir tmp w) = w"
    unfolding with_dir_def by (rule remove_below_restores [OF assms]) (auto simp: under_def)
  have "put_file (with_dir tmp w) (payload_name tmp) bs =
      w\<lparr>w_fs := (w_fs w)(resolve w tmp \<mapsto> Directory, resolve w tmp @ [''bundle.payload''] \<mapsto> Regular bs)\<rparr>"
    by (simp add: put_file_def resolve_payload) (simp add: with_dir_def)
  moreover have "remove_below tmp \<dots> = w"
    by (rule remove_below_restores [OF assms]) (auto simp: under_def)
  ultimately show "remove_below tmp (put_file (with_dir tmp w) (payload_name tmp) bs) = w" by simp
qed

lemma lookup_with_dir:
  assumes "fresh_name w tmp" "w_fs w (resolve w p) \<noteq> None"
  shows "lookup (with_dir tmp w) p = lookup w p"
  using assms by (auto simp: fresh_name_def lookup_def with_dir_def)

lemma lookup_with_dir_Regular:
  "fresh_name w tmp \<Longrightarrow> lookup (with_dir tmp w) p = Some (Regular bs) \<Longrightarrow> lookup w p = Some (Regular bs)"
  by (auto simp: lookup_def with_dir_def split: if_splits)

lemma open_payload_world: "snd (open_payload B p w) = w"
proof -
  have o: "snd (open_file p w) = w" "snd (metadata_of p w) = w" by (rule pure_ops)+
  show ?thesis
    using o by (auto simp: open_payload_def act_def act_map_err_def Let_def lift_def fail_def ret_def ensure_def
        split: sum.splits prod.splits)
qed

text \<open>What a successful opening has read, and that every outcome leaves the files as they were.\<close>

lemma decrypt_and_open_Inr:
  assumes C: "ciphers_ok (cip P)" and fr: "fresh_name w tmp"
    and run: "decrypt_and_open P S B tmp inp pw w = (r, w')"
  shows "w' = w"
    and "r = Inr b \<Longrightarrow> \<exists>encoded ct e fek. lookup w inp = Some (Regular (capsule_bytes encoded ct)) \<and>
      decode_envelope_bytes P S encoded = Inr e \<and> unwrap_password_file_key P e pw None = Inr fek \<and>
      seal_for P e (hkdf_new (cip P) None fek) (db_all b) = Inr ct \<and>
      payload_of B (db_all b) (db_manifest b) (unat (db_data_start b)) \<and>
      unat (db_payload_len b) = length (db_all b) \<and> length (db_all b) < 2 ^ 64"
proof -
  let ?wd = "with_dir tmp w"
  obtain q w1 where dec: "decrypt_file_password P S inp (payload_name tmp) pw None ?wd = (q, w1)" by fastforce
  obtain q2 w2 where op: "open_payload B (payload_name tmp) w1 = (q2, w2)" by fastforce
  have w2: "w2 = w1" using open_payload_world [of B "payload_name tmp" w1] op by simp
  have rw: "w' = remove_below tmp w1" "r = (case q of Inl e \<Rightarrow> Inl (BCrypto e) | Inr _ \<Rightarrow> q2)"
    using run dec op w2
    by (auto simp: decrypt_and_open_def with_temp_dir_def with_dir_def [symmetric] act_def act_map_err_def
        split: sum.splits)
  note cases = decrypt_file_with_cases [where unlock = "\<lambda>e. unwrap_password_file_key P e pw None",
      OF C dec [unfolded decrypt_with]]
  from cases have "w1 = ?wd \<or> (\<exists>bs. w1 = put_file ?wd (payload_name tmp) bs)" by blast
  then show "w' = w" using rw(1) with_dir_restored [OF fr] by auto
  assume r: "r = Inr b"
  with rw(2) have q: "q2 = Inr b" by (cases q) auto
  have "lookup ?wd (payload_name tmp) = None"
    using fr by (simp add: lookup_def with_dir_def resolve_payload fresh_name_def under_def)
  then have "w1 \<noteq> ?wd"
    using op q by (auto simp: open_payload_def act_def act_map_err_def open_file_def)
  with cases obtain encoded ct e fek bs where *: "lookup ?wd inp = Some (Regular (capsule_bytes encoded ct))"
      "decode_envelope_bytes P S encoded = Inr e" "unwrap_password_file_key P e pw None = Inr fek"
      "length bs = unat (plaintext_len e)" "w1 = put_file ?wd (payload_name tmp) bs"
      "seal_for P e (hkdf_new (cip P) None fek) bs = Inr ct \<or> plaintext_len e = 0"
    by blast
  have len: "length bs < 2 ^ 64" using *(4) unat_bound [of "plaintext_len e"] by simp
  have "lookup w1 (payload_name tmp) = Some (Regular bs)"
    unfolding *(5) by (rule lookup_put_file) (simp add: payload_name_def below_def)
  note opened = open_payload_Inr [OF op [unfolded q] this len]
  have "bs \<noteq> []" using opened(2,3) payload_of_ne by blast
  then have "plaintext_len e \<noteq> 0" using *(4) by auto
  with * opened len lookup_with_dir_Regular [OF fr *(1)] show "\<exists>encoded ct e fek.
      lookup w inp = Some (Regular (capsule_bytes encoded ct)) \<and>
      decode_envelope_bytes P S encoded = Inr e \<and> unwrap_password_file_key P e pw None = Inr fek \<and>
      seal_for P e (hkdf_new (cip P) None fek) (db_all b) = Inr ct \<and>
      payload_of B (db_all b) (db_manifest b) (unat (db_data_start b)) \<and>
      unat (db_payload_len b) = length (db_all b) \<and> length (db_all b) < 2 ^ 64"
    by blast
qed

lemma verify_all_Inr:
  assumes "verify_all B b = Inr b'" "payload_of B (db_all b) (db_manifest b) (unat (db_data_start b))"
  shows "db_manifest b' = db_manifest b" "verified B (db_all b) (db_data_start b) (db_manifest b)"
    "\<exists>rd. b' = b\<lparr>db_file := rd\<rparr>"
proof -
  from assms(1) obtain rd where v: "verify_entries B (db_all b) (db_data_start b) (entries (db_manifest b)) (db_file b) = (Inr (), rd)"
      "b' = b\<lparr>db_file := rd\<rparr>"
    by (auto simp: verify_all_def res_elims split: sum.splits prod.splits)
  show "db_manifest b' = db_manifest b" "\<exists>rd. b' = b\<lparr>db_file := rd\<rparr>" using v(2) by auto
  show "verified B (db_all b) (db_data_start b) (db_manifest b)"
    using verify_entries_Inr [OF v(1)] assms(2) by (auto simp: verified_def payload_of_def good_layout_def)
qed

section \<open>Listing\<close>

text \<open>
  C16: \<open>list_bundle\<close> changes no file, whatever its outcome. When it succeeds the file is a capsule
  that opens under the password, its authenticated payload starts with the returned manifest,
  whose paths are safe and whose entries do not overlap, and every entry has the recorded hash.
\<close>

theorem list_bundle_sound:
  assumes "ciphers_ok (cip P)" "fresh_name w tmp" "list_bundle P S B tmp inp pw w = (r, w')"
  shows "w' = w \<and> (\<forall>m. r = Inr m \<longrightarrow> (\<exists>encoded ct e fek payload start.
    lookup w inp = Some (Regular (capsule_bytes encoded ct)) \<and>
    decode_envelope_bytes P S encoded = Inr e \<and> unwrap_password_file_key P e pw None = Inr fek \<and>
    seal_for P e (hkdf_new (cip P) None fek) payload = Inr ct \<and>
    payload_of B payload m (unat start) \<and> verified B payload start m))"
proof -
  obtain q w1 where d: "decrypt_and_open P S B tmp inp pw w = (q, w1)" by fastforce
  note opened = decrypt_and_open_Inr [OF assms(1,2) d]
  show ?thesis
  proof (cases q)
    case (Inl e)
    with assms(3) d opened(1) show ?thesis by (auto simp: list_bundle_def act_def)
  next
    case (Inr b)
    have "\<exists>encoded ct e fek payload start.
      lookup w inp = Some (Regular (capsule_bytes encoded ct)) \<and>
      decode_envelope_bytes P S encoded = Inr e \<and> unwrap_password_file_key P e pw None = Inr fek \<and>
      seal_for P e (hkdf_new (cip P) None fek) payload = Inr ct \<and>
      payload_of B payload m (unat start) \<and> verified B payload start m" if "r = Inr m" for m
    proof -
      from that assms(3) d Inr obtain b' where b': "verify_all B b = Inr b'" "m = db_manifest b'"
        by (auto simp: list_bundle_def act_def lift_def split: sum.splits)
      with opened(2) [OF Inr] verify_all_Inr [OF b'(1)] show ?thesis by metis
    qed
    with assms(3) d opened(1) Inr show ?thesis
      by (auto simp: list_bundle_def act_def lift_def ret_def split: sum.splits)
  qed
qed

section \<open>Packing\<close>

lemma trailing_Inr: "trailing rd = Inr left \<Longrightarrow> left \<longleftrightarrow> r_data rd \<noteq> []"
proof -
  assume t: "trailing rd = Inr left"
  obtain q rd' where q: "read 1 rd = (q, rd')" by fastforce
  with t obtain got where got: "q = Inr got" "left \<longleftrightarrow> got \<noteq> []" by (auto simp: trailing_def split: sum.splits)
  from read_Inr(3) [OF q [unfolded got(1)]] got(2) show ?thesis by simp
qed

definition file_bytes :: "world \<Rightarrow> path \<Rightarrow> bytes" where
  "file_bytes w p = (case lookup w p of Some n \<Rightarrow> node_bytes n | None \<Rightarrow> [])"

lemma open_file_bytes: "open_file p w = (Inr rd, w') \<Longrightarrow> w' = w \<and> r_data rd = file_bytes w p"
  by (auto simp: open_file_def node_bytes_def file_bytes_def split: option.splits node.splits)

lemma hash_file_Inr:
  assumes "hash_file B p w = (Inr (sz, h), w')"
  shows "w' = w" "unat sz = length (file_bytes w p)" "h = blake3 B (file_bytes w p)"
proof -
  from assms [unfolded hash_file_def Let_def] obtain rd w1 md w2 where *: "open_file p w = (Inr rd, w1)"
      "metadata_of p w1 = (Inr md, w2)"
      "(case hash_reader B (unat (of_nat (snd md) :: u64)) rd of (Inl e, _) \<Rightarrow> fail e
        | (Inr h, rd1) \<Rightarrow> act (lift (trailing rd1)) (\<lambda>m.
            act (lift (ensure (\<not> m) (ManifestError (''Input changed while hashing: '' @ display p)))) (\<lambda>_.
              ret (of_nat (snd md), h)))) w2 = (Inr (sz, h), w')"
    by (elim act_steps) (rule that, assumption+)
  then obtain rd1 where h: "hash_reader B (unat sz) rd = (Inr h, rd1)" "trailing rd1 = Inr False" "w' = w2"
      "sz = of_nat (snd md)"
    by (auto simp: res_elims split: prod.splits sum.splits)
  note o = open_file_bytes [OF *(1)] and hr = hash_reader_Inr [OF h(1)]
  have "w2 = w" using metadata_of_Inr [OF *(2)] o by simp
  then show "w' = w" using h(3) by simp
  have "r_data rd1 = []" using trailing_Inr [OF h(2)] by simp
  with hr o show "unat sz = length (file_bytes w p)" "h = blake3 B (file_bytes w p)" by auto
qed

text \<open>The entries of the walk that are not directories.\<close>

fun walk_files :: "(string + walk_entry) list \<Rightarrow> walk_entry list" where
  "walk_files [] = []"
| "walk_files (Inl err # ws) = walk_files ws"
| "walk_files (Inr fe # ws) = (if we_names fe = [] \<or> we_is_dir fe then walk_files ws else fe # walk_files ws)"

lemma collect_paths_all:
  "collect_paths in_dir allow ws = Inr ps \<Longrightarrow>
     ps = map (\<lambda>fe. (join_slash (we_names fe), below in_dir (we_names fe))) (walk_files ws) \<and>
     (\<forall>fe \<in> set (walk_files ws). is_ok (validate_relative_path (join_slash (we_names fe))) \<and>
        (we_is_symlink fe \<longrightarrow> allow) \<and> (we_is_symlink fe \<or> we_is_file fe))"
proof (induction ws arbitrary: ps)
  case Nil
  then show ?case by simp
next
  case (Cons en ws)
  then show ?case by (cases en) (auto simp: res_elims Let_def is_ok_iff split: if_splits)
qed

definition source_ok :: "bundle_prims \<Rightarrow> world \<Rightarrow> source_file \<Rightarrow> bool" where
  "source_ok B w s \<longleftrightarrow> unat (src_size s) = length (file_bytes w (src_path s)) \<and>
     src_hash s = blake3 B (file_bytes w (src_path s))"

lemma hash_sources_Inr:
  "hash_sources B ps w = (Inr ss, w') \<Longrightarrow>
     w' = w \<and> map (\<lambda>s. (src_relative_path s, src_path s)) ss = ps \<and> list_all (source_ok B w) ss"
proof (induction ps arbitrary: ss w')
  case Nil
  then show ?case by simp
next
  case (Cons rp ps)
  obtain r p where rp: "rp = (r, p)" by (cases rp)
  from Cons.prems [unfolded rp hash_sources.simps] obtain sz h w1 ss' w2 where *: "hash_file B p w = (Inr (sz, h), w1)"
      "hash_sources B ps w1 = (Inr ss', w2)" "w' = w2"
      "ss = \<lparr>src_relative_path = r, src_path = p, src_size = sz, src_hash = h\<rparr> # ss'"
    by (auto simp: res_elims)
  note h = hash_file_Inr [OF *(1)]
  from Cons.IH [of ss' w2] * h show ?case by (simp add: rp source_ok_def)
qed

definition sources_from ::
  "bundle_prims \<Rightarrow> world \<Rightarrow> path \<Rightarrow> (string + walk_entry) list \<Rightarrow> source_file list \<Rightarrow> bool" where
  "sources_from B w in_dir walk ss \<longleftrightarrow>
     (\<forall>s \<in> set ss. source_ok B w s \<and> is_ok (validate_relative_path (src_relative_path s)) \<and>
        (\<exists>fe \<in> set (walk_files walk). src_path s = below in_dir (we_names fe) \<and>
           src_relative_path s = join_slash (we_names fe)))"

lemma collect_sources_Inr:
  assumes "collect_sources B walk in_dir allow w = (Inr ss, w')"
  shows "w' = w" "sources_from B w in_dir walk ss"
proof -
  from assms obtain ps where *: "collect_paths in_dir allow walk = Inr ps" "hash_sources B (sort_key fst ps) w = (Inr ss, w')"
    by (auto simp: collect_sources_def res_elims split: if_splits)
  note h = hash_sources_Inr [OF *(2)]
  then show "w' = w" by simp
  from h have eq: "map (\<lambda>s. (src_relative_path s, src_path s)) ss = sort_key fst ps" by simp
  have mem: "(src_relative_path s, src_path s) \<in> set ps" if "s \<in> set ss" for s
    using that eq by (metis (no_types, lifting) image_eqI list.set_map set_sort)
  note c = collect_paths_all [OF *(1)]
  have "source_ok B w s \<and> is_ok (validate_relative_path (src_relative_path s)) \<and>
      (\<exists>fe \<in> set (walk_files walk). src_path s = below in_dir (we_names fe) \<and> src_relative_path s = join_slash (we_names fe))"
    if s: "s \<in> set ss" for s
  proof -
    from mem [OF s] c obtain fe where "fe \<in> set (walk_files walk)" "src_relative_path s = join_slash (we_names fe)"
        "src_path s = below in_dir (we_names fe)" by auto
    moreover have "source_ok B w s" using h s by (simp add: list_all_iff)
    ultimately show ?thesis using c by auto
  qed
  then show "sources_from B w in_dir walk ss" unfolding sources_from_def by blast
qed

lemma write_bytes_Inr: "write_bytes bs wr = Inr wr' \<Longrightarrow> w_data wr' = w_data wr @ bs"
  by (auto simp: write_bytes_def dest: write_all_Inr split: prod.splits sum.splits)

lemma copy_source_checked_Inr:
  assumes "copy_source_checked B s wr w = (Inr wr', w')"
  shows "w' = w" "w_data wr' = w_data wr @ file_bytes w (src_path s)"
proof -
  from assms [unfolded copy_source_checked_def] obtain rd w1 md w2 where *: "open_file (src_path s) w = (Inr rd, w1)"
      "metadata_of (src_path s) w1 = (Inr md, w2)"
      "(case pump (ManifestError (''Input truncated during packing: '' @ display (src_path s)))
         (unat (src_size s)) rd wr of
       (Inl e, _, _) \<Rightarrow> fail e
     | (Inr _, rd1, wr1) \<Rightarrow>
         act (lift (trailing rd1)) (\<lambda>m.
         act (lift (ensure (\<not> m \<and> blake3 B (drop (length (w_data wr)) (w_data wr1)) = src_hash s)
           (ManifestError (''Input changed during packing: '' @ display (src_path s))))) (\<lambda>_.
           ret wr1))) w2 = (Inr wr', w')"
    by (elim act_steps) (rule that, assumption+)
  then obtain u rd1 e where p: "pump e (unat (src_size s)) rd wr = (Inr u, rd1, wr')"
      "trailing rd1 = Inr False" "w' = w2"
    by (auto simp: res_elims split: prod.splits sum.splits)
  note o = open_file_bytes [OF *(1)] and pu = pump_Inr [OF p(1)]
  show "w' = w" using metadata_of_Inr [OF *(2)] o p(3) by simp
  have "r_data rd1 = []" using trailing_Inr [OF p(2)] by simp
  with pu o show "w_data wr' = w_data wr @ file_bytes w (src_path s)" by simp
qed

lemma copy_sources_Inr:
  "copy_sources B ss wr w = (Inr wr', w') \<Longrightarrow>
     w' = w \<and> w_data wr' = w_data wr @ concat (map (\<lambda>s. file_bytes w (src_path s)) ss)"
proof (induction ss arbitrary: wr)
  case Nil
  then show ?case by simp
next
  case (Cons s ss)
  then obtain wr1 w1 where *: "copy_source_checked B s wr w = (Inr wr1, w1)" "copy_sources B ss wr1 w1 = (Inr wr', w')"
    by (auto simp: res_elims)
  note c = copy_source_checked_Inr [OF *(1)]
  from Cons.IH [of wr1] * c show ?case by simp
qed

lemma write_zero_padding_Inr:
  "write_zero_padding n wr = (Inr u, wr') \<Longrightarrow> w_data wr' = w_data wr @ replicate n 0"
proof (induction n wr rule: write_zero_padding.induct)
  case (1 n wr)
  show ?case
  proof (cases "0 < n")
    case False
    with "1.prems" show ?thesis by (simp add: write_zero_padding.simps [of 0])
  next
    case True
    let ?c = "min n BUNDLE_COPY_BUFFER_SIZE"
    obtain q wr1 where q: "write_all (replicate ?c 0) wr = (q, wr1)" by fastforce
    with "1.prems" True obtain v where v: "q = Inr v" "write_zero_padding (n - ?c) wr1 = (Inr u, wr')"
      by (cases q) (auto simp: write_zero_padding.simps [of n] Let_def)
    have "w_data wr' = w_data wr1 @ replicate (n - ?c) 0"
      using "1.IH" [OF True refl q [symmetric] v(1)] v(2) by simp
    moreover have "w_data wr1 = w_data wr @ replicate ?c 0" using write_all_Inr q v(1) by blast
    ultimately show ?thesis by (simp add: replicate_add [symmetric])
  qed
qed

lemma build_entries_disjoint:
  "build_entries off ss = Inr es \<Longrightarrow>
     (\<forall>en \<in> set es. unat off \<le> unat (be_offset en)) \<and> length (filter (\<lambda>en. k \<in> entry_range en) es) \<le> 1"
proof (induction ss arbitrary: off es)
  case Nil
  then show ?case by simp
next
  case (Cons s ss)
  then obtain off' es' where *: "checked_add_u64 off (src_size s) = Some off'" "build_entries off' ss = Inr es'"
      "es = \<lparr>relative_path = src_relative_path s, be_size = src_size s, blake3_hash = src_hash s, be_offset = off\<rparr> # es'"
    by (auto simp: res_elims)
  note IH = Cons.IH [OF *(2)] and off' = checked_add_u64_Some [OF *(1)]
  have "filter (\<lambda>en. k \<in> entry_range en) es' = []" if "k < unat off'"
    using that IH by (auto simp: filter_empty_conv entry_range_def)
  with IH off' *(3) show ?case by (auto simp: entry_range_def)
qed

lemma concat_slice:
  "i < length cs \<Longrightarrow>
     take (length (cs ! i)) (drop (\<Sum>c \<leftarrow> take i cs. length c) (concat cs @ z)) = cs ! i"
proof (induction cs arbitrary: i)
  case Nil
  then show ?case by simp
next
  case (Cons c cs)
  then show ?case by (cases i) auto
qed

lemma concat_length_take: "(\<Sum>c \<leftarrow> take i cs. length c) \<le> length (concat cs)"
proof -
  have "length (concat cs) = (\<Sum>c \<leftarrow> take i cs @ drop i cs. length c)" by (simp add: length_concat)
  then show ?thesis unfolding map_append sum_list_append by simp
qed

lemma map_nth_eq: "map f xs = map g ys \<Longrightarrow> i < length ys \<Longrightarrow> f (xs ! i) = g (ys ! i)"
  by (metis length_map nth_map)

lemma build_entries_nth:
  assumes "build_entries off ss = Inr es" "i < length ss"
  shows "length es = length ss" "relative_path (es ! i) = src_relative_path (ss ! i)"
    "be_size (es ! i) = src_size (ss ! i)" "blake3_hash (es ! i) = src_hash (ss ! i)"
proof -
  note e = build_entries_Inr [OF assms(1)]
  from e show "relative_path (es ! i) = src_relative_path (ss ! i)"
    by (intro map_nth_eq [of relative_path, OF _ assms(2)]) blast
  from e show "be_size (es ! i) = src_size (ss ! i)" by (intro map_nth_eq [of be_size, OF _ assms(2)]) blast
  from e show "blake3_hash (es ! i) = src_hash (ss ! i)" by (intro map_nth_eq [of blake3_hash, OF _ assms(2)]) blast
  from e have "map be_size es = map src_size ss" by blast
  then show "length es = length ss" by (rule map_eq_imp_length_eq)
qed

text \<open>What a payload built from \<open>sources\<close> looks like.\<close>

definition source_data :: "world \<Rightarrow> source_file list \<Rightarrow> bytes list" where
  "source_data w ss = map (\<lambda>s. file_bytes w (src_path s)) ss"

lemma packed_entries:
  assumes b: "build_entries 0 ss = Inr es" and ok: "list_all (source_ok B w) ss"
    and payload: "payload = capsule_bytes mb (concat (source_data w ss) @ z)" "unat ds = 4 + length mb"
  shows "length es = length ss"
    and "i < length ss \<Longrightarrow> relative_path (es ! i) = src_relative_path (ss ! i) \<and>
      entry_fits (4 + length mb) (length payload) (es ! i) \<and>
      entry_bytes payload ds (es ! i) = file_bytes w (src_path (ss ! i)) \<and>
      blake3_hash (es ! i) = blake3 B (file_bytes w (src_path (ss ! i)))"
proof -
  note e = build_entries_Inr [OF b]
  then show len: "length es = length ss" by (metis length_map)
  assume i: "i < length ss"
  let ?cs = "source_data w ss"
  have c: "?cs ! i = file_bytes w (src_path (ss ! i))" "i < length ?cs" using i by (simp_all add: source_data_def)
  have s: "source_ok B w (ss ! i)" using ok i by (simp add: list_all_length)
  note nth = build_entries_nth(2-) [OF b i]
  have "map (\<lambda>s. unat (src_size s)) (take i ss) = map length (take i ?cs)"
    using ok by (auto simp: source_data_def take_map list_all_iff source_ok_def dest!: in_set_takeD)
  then have off: "unat (be_offset (es ! i)) = (\<Sum>c \<leftarrow> take i ?cs. length c)" using e i len by simp
  have sz: "unat (be_size (es ! i)) = length (?cs ! i)" using s c nth by (simp add: source_ok_def)
  have "entry_bytes payload ds (es ! i) = take (length (?cs ! i)) (drop (\<Sum>c \<leftarrow> take i ?cs. length c) (concat ?cs @ z))"
    by (simp add: entry_bytes_def payload capsule_bytes_def off sz)
  also have "\<dots> = file_bytes w (src_path (ss ! i))" using concat_slice [OF c(2)] c(1) by simp
  finally have eb: "entry_bytes payload ds (es ! i) = file_bytes w (src_path (ss ! i))" .
  have "(\<Sum>c \<leftarrow> take (Suc i) ?cs. length c) \<le> length (concat ?cs)" by (rule concat_length_take)
  then have "entry_fits (4 + length mb) (length payload) (es ! i)"
    using c(2) by (simp add: entry_fits_def payload(1) capsule_bytes_def off sz take_Suc_conv_app_nth)
  with nth eb s show "relative_path (es ! i) = src_relative_path (ss ! i) \<and>
      entry_fits (4 + length mb) (length payload) (es ! i) \<and>
      entry_bytes payload ds (es ! i) = file_bytes w (src_path (ss ! i)) \<and>
      blake3_hash (es ! i) = blake3 B (file_bytes w (src_path (ss ! i)))"
    by (simp add: source_ok_def)
qed

lemma write_padded_Inr:
  assumes "(case write_zero_padding n wr of (Inl e, _) \<Rightarrow> Inl e | (Inr _, wr') \<Rightarrow> Inr wr') = Inr wr2"
  shows "w_data wr2 = w_data wr @ replicate n 0"
  using assms by (auto dest: write_zero_padding_Inr split: prod.splits sum.splits)

lemma pack_directory_Inr:
  assumes run: "pack_directory P S B version now walk tmp in_dir out cred profile allow padding force pol override w = (Inr m, w')"
  obtains ss mb z w2 payload target where "sources_from B w in_dir walk ss" "build_manifest version now ss = Inr m"
    "pc_manifest B m = Some mb" "mb \<noteq> []" "length mb \<le> MAX_BUNDLE_MANIFEST_SIZE"
    "payload = capsule_bytes mb (concat (source_data w ss) @ replicate z 0)"
    "padding_target (of_nat (4 + length mb + length (concat (source_data w ss)))) padding = Inr target"
    "z = unat (target - of_nat (4 + length mb + length (concat (source_data w ss))))"
    "bundle_encrypt P S tmp out cred profile pol override (put_file w tmp payload) = (Inr (), w2)"
    "w' = remove_below tmp w2" "path_exists w out \<longrightarrow> force"
    "collect_sources B walk in_dir allow w = (Inr ss, w)"
proof -
  have gate: "path_exists w out \<longrightarrow> force"
    using run by (auto simp: pack_directory_def split: if_splits)
  with run [unfolded pack_directory_def Let_def]
  obtain ss w1 mb wr0 w2 wr1 wr2 wr3 w3 target wr4 w4 u w5 where *:
    "collect_sources B walk in_dir allow w = (Inr ss, w1)" "build_manifest version now ss = Inr m"
    "pc_manifest B m = Some mb" "mb \<noteq> [] \<and> length mb \<le> MAX_BUNDLE_MANIFEST_SIZE" "length mb < 2 ^ 32"
    "new_in (parent_or_dot out) w1 = (Inr wr0, w2)"
    "write_bytes (u32_to_le_bytes (of_nat (length mb))) wr0 = Inr wr1" "write_bytes mb wr1 = Inr wr2"
    "copy_sources B ss wr2 w2 = (Inr wr3, w3)"
    "padding_target (of_nat (length (w_data wr3))) padding = Inr target"
    "(case write_zero_padding (unat (target - of_nat (length (w_data wr3)))) wr3 of
        (Inl e, _) \<Rightarrow> Inl e | (Inr _, wr) \<Rightarrow> Inr wr) = Inr wr4"
    "sync_temp w3 = (Inr u, w4)"
    "with_temp_file tmp (w_data wr4) (bundle_encrypt P S tmp out cred profile pol override) w4 = (Inr (), w5)"
    "w' = w5"
    by (auto simp: res_elims split: if_splits)
  have w1: "w1 = w" and sf: "sources_from B w in_dir walk ss" using collect_sources_Inr [OF *(1)] by simp_all
  have w2: "w2 = w" "wr0 = fresh_writer (w_disk w)" using new_in_Inr [OF *(6)] w1 by simp_all
  note cs = copy_sources_Inr [OF *(9)]
  have w4: "w4 = w" using *(12) sync_temp_Inr cs w2 by simp
  have d3: "w_data wr3 = capsule_bytes mb (concat (source_data w ss))"
    using write_bytes_Inr [OF *(7)] write_bytes_Inr [OF *(8)] cs w2
    by (simp add: capsule_bytes_def source_data_def)
  have n: "length (w_data wr3) = 4 + length mb + length (concat (source_data w ss))"
    unfolding d3 by (simp add: capsule_bytes_def)
  define z where "z = unat (target - of_nat (length (w_data wr3)))"
  have d4: "w_data wr4 = capsule_bytes mb (concat (source_data w ss) @ replicate z 0)"
    using write_padded_Inr [OF *(11)] unfolding d3 z_def by (simp add: capsule_bytes_def)
  obtain w6 where e: "bundle_encrypt P S tmp out cred profile pol override (put_file w tmp (w_data wr4)) = (Inr (), w6)"
      "w5 = remove_below tmp w6"
    using *(13) w4 by (auto simp: with_temp_file_def split: prod.splits)
  show ?thesis
    using that [OF sf *(2,3) _ _ d4 *(10) [unfolded n] z_def [unfolded n] e(1)] e(2) *(1,4,14) gate w1 by blast
qed

section \<open>Padding\<close>

lemma next_power_from_bounds:
  "0 < p \<Longrightarrow> n \<le> next_power_from p n \<and> (\<exists>j. next_power_from p n = p * 2 ^ j) \<and>
     (next_power_from p n = p \<or> next_power_from p n < 2 * n)"
proof (induction p n rule: next_power_from.induct)
  case (1 p n)
  show ?case
  proof (cases "p < n")
    case False
    then have "next_power_from p n = p" by (simp add: next_power_from.simps [of p])
    with False show ?thesis by (auto intro: exI [of _ 0])
  next
    case True
    then have eq: "next_power_from p n = next_power_from (2 * p) n"
      using "1.prems" by (simp add: next_power_from.simps [of p])
    from "1.IH" "1.prems" True obtain j where "n \<le> next_power_from (2 * p) n"
        "next_power_from (2 * p) n = 2 * p * 2 ^ j"
        "next_power_from (2 * p) n = 2 * p \<or> next_power_from (2 * p) n < 2 * n"
      by auto
    with True show ?thesis unfolding eq by (auto intro: exI [of _ "Suc j"])
  qed
qed

text \<open>The length of a payload under a padding profile.\<close>

definition padded_length :: "padding_profile \<Rightarrow> nat \<Rightarrow> nat \<Rightarrow> bool" where
  "padded_length padding n l \<longleftrightarrow>
     (case padding of
        NoPadding \<Rightarrow> l = n
      | Bucket \<Rightarrow> (\<exists>j. l = 2 ^ j) \<and> n \<le> l \<and> (l = 1 \<or> l < 2 * n)
      | Fixed k \<Rightarrow> l = max n (unat k))"

lemma unat_max: "unat (max a b) = max (unat a) (unat (b :: 'a :: len word))"
  by (auto simp: max_def word_le_nat_alt)

lemma padding_target_Inr:
  assumes "padding_target (of_nat n) padding = Inr target" "n < 2 ^ 64"
  shows "padded_length padding n (unat target)" "n + unat (target - of_nat n) = unat target"
proof -
  note n = unat_of_nat_u64 [OF assms(2)]
  show p: "padded_length padding n (unat target)"
  proof (cases padding)
    case NoPadding
    with assms n show ?thesis by (simp add: padding_target_def padded_length_def)
  next
    case (Fixed k)
    with assms n show ?thesis by (auto simp: padding_target_def padded_length_def unat_max)
  next
    case Bucket
    with assms n have lt: "next_power_from 1 n < 2 ^ 64" and t: "target = of_nat (next_power_from 1 n)"
      by (auto simp: padding_target_def checked_next_power_of_two_def Let_def res_elims split: if_splits)
    have "unat target = next_power_from 1 n" unfolding t by (rule unat_of_nat_u64 [OF lt])
    with Bucket next_power_from_bounds [of 1 n] show ?thesis by (auto simp: padded_length_def)
  qed
  then have "n \<le> unat target" by (auto simp: padded_length_def split: padding_profile.splits)
  then have "of_nat n \<le> target" using n by (simp add: word_le_nat_alt)
  then show "n + unat (target - of_nat n) = unat target" using n by (simp add: unat_sub word_le_nat_alt)
qed

section \<open>A packed bundle\<close>

text \<open>The size of a payload before padding.\<close>

definition payload_size :: "bytes \<Rightarrow> bundle_manifest \<Rightarrow> nat" where
  "payload_size mb m = 4 + length mb + (\<Sum>en \<leftarrow> entries m. unat (be_size en))"

lemma build_manifest_Inr:
  "build_manifest version now ss = Inr m \<Longrightarrow> build_entries 0 ss = Inr (entries m)"
  by (auto simp: build_manifest_def res_elims)

lemma source_data_length:
  assumes "build_entries 0 ss = Inr es" "list_all (source_ok B w) ss"
  shows "length (concat (source_data w ss)) = (\<Sum>en \<leftarrow> es. unat (be_size en))"
proof -
  have "map (\<lambda>en. unat (be_size en)) es = map unat (map be_size es)" by simp
  also have "\<dots> = map unat (map src_size ss)" using build_entries_Inr [OF assms(1)] by simp
  also have "\<dots> = map length (source_data w ss)"
    using assms(2) by (auto simp: source_data_def list_all_iff source_ok_def)
  finally show ?thesis by (simp add: length_concat)
qed

text \<open>A payload for the manifest \<open>m\<close> whose entries carry the bytes of files below \<open>in_dir\<close>.\<close>

definition packs ::
  "bundle_prims \<Rightarrow> world \<Rightarrow> path \<Rightarrow> (string + walk_entry) list \<Rightarrow> bundle_manifest \<Rightarrow> bytes \<Rightarrow> bytes \<Rightarrow> bool" where
  "packs B w in_dir walk m mb payload \<longleftrightarrow>
     pc_manifest B m = Some mb \<and> mb \<noteq> [] \<and> length mb \<le> MAX_BUNDLE_MANIFEST_SIZE \<and>
     (\<exists>rest. payload = capsule_bytes mb rest) \<and> length payload < 2 ^ 64 \<and>
     (\<forall>k. length (filter (\<lambda>en. k \<in> entry_range en) (entries m)) \<le> 1) \<and>
     (\<forall>en \<in> set (entries m). is_ok (validate_relative_path (relative_path en)) \<and>
        entry_fits (4 + length mb) (length payload) en \<and>
        blake3 B (entry_bytes payload (of_nat (4 + length mb)) en) = blake3_hash en \<and>
        (\<exists>fe \<in> set (walk_files walk). relative_path en = join_slash (we_names fe) \<and>
           entry_bytes payload (of_nat (4 + length mb)) en = file_bytes w (below in_dir (we_names fe))))"

lemma manifest_start: "length mb \<le> MAX_BUNDLE_MANIFEST_SIZE \<Longrightarrow> unat (of_nat (4 + length mb) :: u64) = 4 + length mb"
  by (rule unat_of_nat_u64) (simp add: MAX_BUNDLE_MANIFEST_SIZE_def)

lemma pack_directory_packs:
  assumes run: "pack_directory P S B version now walk tmp in_dir out cred profile allow padding force pol override w = (Inr m, w')"
    and small: "\<And>mb. pc_manifest B m = Some mb \<Longrightarrow> payload_size mb m < 2 ^ 64"
  obtains mb payload w2 where "packs B w in_dir walk m mb payload"
    "padded_length padding (payload_size mb m) (length payload)"
    "bundle_encrypt P S tmp out cred profile pol override (put_file w tmp payload) = (Inr (), w2)"
    "w' = remove_below tmp w2"
proof -
  obtain ss mb z w2 payload target where *: "sources_from B w in_dir walk ss" "build_manifest version now ss = Inr m"
    "pc_manifest B m = Some mb" "mb \<noteq> []" "length mb \<le> MAX_BUNDLE_MANIFEST_SIZE"
    "payload = capsule_bytes mb (concat (source_data w ss) @ replicate z 0)"
    "padding_target (of_nat (4 + length mb + length (concat (source_data w ss)))) padding = Inr target"
    "z = unat (target - of_nat (4 + length mb + length (concat (source_data w ss))))"
    "bundle_encrypt P S tmp out cred profile pol override (put_file w tmp payload) = (Inr (), w2)"
    "w' = remove_below tmp w2"
    using pack_directory_Inr [OF run] by metis
  note b = build_manifest_Inr [OF *(2)]
  have ok: "list_all (source_ok B w) ss" using *(1) by (auto simp: sources_from_def list_all_iff)
  let ?n = "4 + length mb + length (concat (source_data w ss))"
  have n: "?n = payload_size mb m" by (simp add: payload_size_def source_data_length [OF b ok])
  with small [OF *(3)] have lt: "?n < 2 ^ 64" by simp
  note t = padding_target_Inr [OF *(7) lt]
  have "length payload = ?n + z" by (simp add: *(6) capsule_bytes_def)
  then have len: "length payload = unat target" using t(2) *(8) by simp
  let ?ds = "of_nat (4 + length mb) :: u64"
  note e = packed_entries [OF b ok *(6) manifest_start [OF *(5)]]
  have "is_ok (validate_relative_path (relative_path en)) \<and> entry_fits (4 + length mb) (length payload) en \<and>
        blake3 B (entry_bytes payload ?ds en) = blake3_hash en \<and>
        (\<exists>fe \<in> set (walk_files walk). relative_path en = join_slash (we_names fe) \<and>
           entry_bytes payload ?ds en = file_bytes w (below in_dir (we_names fe)))"
    if "en \<in> set (entries m)" for en
  proof -
    from that e(1) obtain i where i: "en = entries m ! i" "i < length ss" by (metis in_set_conv_nth)
    with *(1) e(2) [OF i(2)] show ?thesis unfolding sources_from_def by (metis nth_mem)
  qed
  with * build_entries_disjoint [OF b] len unat_bound [of target] have "packs B w in_dir walk m mb payload"
    unfolding packs_def by auto
  with that *(9,10) t(1) len n show ?thesis by simp
qed

section \<open>Opening a packed bundle\<close>

text \<open>An environment for a temporary directory: a fresh name, space, and reads without faults.\<close>

definition temp_ok :: "world \<Rightarrow> path \<Rightarrow> bool" where
  "temp_ok w tmp \<longleftrightarrow> fresh_name w tmp \<and> calm w (payload_name tmp) \<and> w_sync w \<and> w_disk w = None"

lemma temp_output_ok:
  assumes "temp_ok w tmp"
  shows "output_ok (with_dir tmp w) (payload_name tmp)"
proof -
  have "parent_or_dot (payload_name tmp) = Path (absolute tmp) (comps tmp)" "parent (payload_name tmp) = Some (Path (absolute tmp) (comps tmp))"
    by (simp_all add: parent_or_dot_def parent_def payload_name_def below_def)
  moreover have "w_fs w (resolve w tmp @ [''bundle.payload'']) = None"
    using assms by (simp add: temp_ok_def fresh_name_def under_def)
  moreover have "tmp \<noteq> Path False []" using assms by (auto simp: temp_ok_def fresh_name_def)
  moreover have "comps (payload_name tmp) \<noteq> []" by (simp add: payload_name_def below_def)
  moreover have "w_sync (with_dir tmp w)" "w_disk (with_dir tmp w) = None"
    using assms by (simp_all add: temp_ok_def with_dir_def)
  ultimately show ?thesis
    by (simp add: output_ok_def resolve_payload) (simp add: with_dir_def)
qed

text \<open>The result of opening the capsule of a payload, up to the checks on its layout.\<close>

lemma decrypt_and_open_capsule:
  assumes laws: "ciphers_ok (cip P)" "postcard_ok S" and cap: "capsule_of P S e fek payload capsule"
    and key: "unwrap_password_file_key P e pw None = Inr fek" "plaintext_len e = of_nat (length payload)"
    and inp: "lookup w inp = Some (Regular capsule)" "calm w inp" and tmp: "temp_ok w tmp"
    and pay: "length payload < 2 ^ 64" "payload = capsule_bytes mb rest" "mb \<noteq> []"
      "length mb \<le> MAX_BUNDLE_MANIFEST_SIZE" "pc_take_manifest B mb = Some (m, [])"
  obtains rd where "quiet rd" "decrypt_and_open P S B tmp inp pw w =
    (rbind (validate_layout B m (of_nat (4 + length mb)) (of_nat (length payload))) (\<lambda>_.
      Inr \<lparr>db_all = payload, db_file = rd, db_manifest = m, db_data_start = of_nat (4 + length mb),
        db_payload_len = of_nat (length payload)\<rparr>), w)"
proof -
  let ?wd = "with_dir tmp w" and ?p = "payload_name tmp"
  let ?w1 = "put_file ?wd ?p payload"
  have fr: "fresh_name w tmp" and cp: "calm w ?p" using tmp by (simp_all add: temp_ok_def)
  have "w_fs w (resolve w inp) \<noteq> None" using inp(1) by (auto simp: lookup_def split: if_splits)
  then have look: "lookup ?wd inp = Some (Regular capsule)" using lookup_with_dir [OF fr] inp(1) by simp
  have calm: "calm ?wd inp" using inp(2) by (simp add: calm_def) (simp add: with_dir_def)
  have dec: "decrypt_file_password P S inp ?p pw None ?wd = (Inr (), ?w1)"
    using decrypt_file_capsule [where unlock = "\<lambda>e. unwrap_password_file_key P e pw None",
        OF cap laws(2,1) look calm key pay(1) temp_output_ok [OF tmp]]
    by (simp add: decrypt_with)
  have l1: "lookup ?w1 ?p = Some (Regular payload)"
    by (rule lookup_put_file) (simp add: payload_name_def below_def)
  have c1: "calm ?w1 ?p" using cp by (simp add: calm_def) (simp add: with_dir_def)
  obtain rd where rd: "quiet rd" "open_payload B ?p ?w1 =
    act (lift (validate_layout B m (of_nat (4 + length mb)) (of_nat (length payload)))) (\<lambda>_.
      ret \<lparr>db_all = payload, db_file = rd, db_manifest = m, db_data_start = of_nat (4 + length mb),
        db_payload_len = of_nat (length payload)\<rparr>) ?w1"
    using open_payload_calm [OF l1 pay(1) c1 pay(2-5)] .
  have "decrypt_and_open P S B tmp inp pw w =
    (rbind (validate_layout B m (of_nat (4 + length mb)) (of_nat (length payload))) (\<lambda>_.
      Inr \<lparr>db_all = payload, db_file = rd, db_manifest = m, db_data_start = of_nat (4 + length mb),
        db_payload_len = of_nat (length payload)\<rparr>), w)"
    using dec rd(2) with_dir_restored [OF fr]
    by (simp add: decrypt_and_open_def with_temp_dir_def with_dir_def [symmetric] act_def act_map_err_def
        rbind_def ret_def split: sum.splits del: of_nat_add)
  with rd(1) that show ?thesis by blast
qed

lemma packs_layout:
  assumes "packs B w in_dir walk m mb payload"
  shows "validate_layout B m (of_nat (4 + length mb)) (of_nat (length payload)) = Inr () \<longleftrightarrow>
    distinct (map (\<lambda>en. to_lowercase B (relative_path en)) (entries m))"
proof -
  have "length mb \<le> MAX_BUNDLE_MANIFEST_SIZE" "length payload < 2 ^ 64" using assms by (simp_all add: packs_def)
  note u = manifest_start [OF this(1)] unat_of_nat_u64 [OF this(2)]
  show ?thesis unfolding validate_layout_iff u
    using assms by (auto simp: good_layout_def packs_def entry_fits_def)
qed

text \<open>The output is still there once the temporary file is removed.\<close>

lemma lookup_removed:
  assumes "same_but_rng (put_file w tmp payload) w0" "w2 = put_file w0 out capsule" "out \<noteq> Path False []"
    "w1 = remove_below tmp w2" "\<not> under w tmp (resolve w out)"
  shows "lookup w1 out = Some (Regular capsule)"
proof -
  have cwd: "w_cwd w2 = w_cwd w" using same_but_rngD [OF assms(1)] assms(2) by simp
  then have r: "resolve w2 p = resolve w p" "resolve w1 p = resolve w p" for p
    by (simp_all add: resolve_def assms(4) remove_below_def)
  have "lookup w2 out = Some (Regular capsule)" unfolding assms(2) by (rule lookup_put_file [OF assms(3)])
  then show ?thesis
    using assms(3,5) by (simp add: lookup_def r) (simp add: assms(4) remove_below_def r under_def)
qed

text \<open>A bundle packed with a password: what the output holds, and what opening it does.\<close>

lemma packed_capsule:
  assumes C: "ciphers_ok (cip P)"
    and run: "pack_directory P S B version now walk tmp in_dir out (CredPassword pw seed) profile allow padding
      force pol override w = (Inr m, w1)"
    and small: "\<And>mb. pc_manifest B m = Some mb \<Longrightarrow> payload_size mb m < 2 ^ 64"
    and tmp: "comps tmp \<noteq> []" "\<not> under w tmp (resolve w out)"
  obtains mb payload e fek capsule where "packs B w in_dir walk m mb payload"
    "padded_length padding (payload_size mb m) (length payload)" "capsule_of P S e fek payload capsule"
    "unwrap_password_file_key P e pw seed = Inr fek" "plaintext_len e = of_nat (length payload)"
    "e_content_type e = Some Bundle" "lookup w1 out = Some (Regular capsule)"
proof -
  obtain mb payload w2 where *: "packs B w in_dir walk m mb payload"
    "padded_length padding (payload_size mb m) (length payload)"
    "encrypt_file_password_with_content_type P S tmp out pw seed profile pol override (Some Bundle)
       (put_file w tmp payload) = (Inr (), w2)" "w1 = remove_below tmp w2"
    using pack_directory_packs [OF run small] by (auto simp: bundle_encrypt_def)
  have "lookup (put_file w tmp payload) tmp = Some (Regular payload)"
    using tmp(1) by (intro lookup_put_file) auto
  from encrypt_file_password_Inr [OF *(3) C this] obtain e fek capsule w0 where
    e: "same_but_rng (put_file w tmp payload) w0" "w2 = put_file w0 out capsule" "out \<noteq> Path False []"
      "capsule_of P S e fek payload capsule" "unwrap_password_file_key P e pw seed = Inr fek"
      "plaintext_len e = of_nat (length payload)" "e_content_type e = Some Bundle" by metis
  have "lookup w1 out = Some (Regular capsule)" using lookup_removed [OF e(1-3) *(4) tmp(2)] .
  with that * e show ?thesis by blast
qed

lemma entry_bytes_length:
  "entry_fits (unat ds) (length all) en \<Longrightarrow> length (entry_bytes all ds en) = unat (be_size en)"
  by (simp add: entry_bytes_def entry_fits_def)

lemma packed_bundle_opens:
  assumes laws: "ciphers_ok (cip P)" "postcard_ok S" "manifest_codec_ok B"
    and run: "pack_directory P S B version now walk tmp in_dir out (CredPassword pw None) profile allow padding
      force pol override w = (Inr m, w1)"
    and small: "\<And>mb. pc_manifest B m = Some mb \<Longrightarrow> payload_size mb m < 2 ^ 64"
    and tmp: "comps tmp \<noteq> []" "\<not> under w tmp (resolve w out)"
    and env: "calm w1 out" "temp_ok w1 tmp2"
  obtains mb payload rd where "packs B w in_dir walk m mb payload" "quiet rd" "decrypt_and_open P S B tmp2 out pw w1 =
    (rbind (validate_layout B m (of_nat (4 + length mb)) (of_nat (length payload))) (\<lambda>_.
      Inr \<lparr>db_all = payload, db_file = rd, db_manifest = m, db_data_start = of_nat (4 + length mb),
        db_payload_len = of_nat (length payload)\<rparr>), w1)"
proof -
  obtain mb payload e fek capsule where *: "packs B w in_dir walk m mb payload" "capsule_of P S e fek payload capsule"
    "unwrap_password_file_key P e pw None = Inr fek" "plaintext_len e = of_nat (length payload)"
    "lookup w1 out = Some (Regular capsule)"
    using packed_capsule [OF laws(1) run small tmp] by metis
  obtain rest where pay: "length payload < 2 ^ 64" "payload = capsule_bytes mb rest" "mb \<noteq> []"
      "length mb \<le> MAX_BUNDLE_MANIFEST_SIZE" "pc_take_manifest B mb = Some (m, [])"
    using *(1) laws(3) unfolding packs_def manifest_codec_ok_def by (metis append_Nil2)
  from decrypt_and_open_capsule [OF laws(1,2) *(2-5) env pay] that [OF *(1)] show ?thesis .
qed

lemma packed_bundle_lists:
  assumes laws: "ciphers_ok (cip P)" "postcard_ok S" "manifest_codec_ok B"
    and run: "pack_directory P S B version now walk tmp in_dir out (CredPassword pw None) profile allow padding
      force pol override w = (Inr m, w1)"
    and small: "\<And>mb. pc_manifest B m = Some mb \<Longrightarrow> payload_size mb m < 2 ^ 64"
    and tmp: "comps tmp \<noteq> []" "\<not> under w tmp (resolve w out)"
    and paths: "distinct (map (\<lambda>en. to_lowercase B (relative_path en)) (entries m))"
    and env: "calm w1 out" "temp_ok w1 tmp2"
  shows "list_bundle P S B tmp2 out pw w1 = (Inr m, w1)"
proof -
  obtain mb payload rd where pk: "packs B w in_dir walk m mb payload" and rd: "quiet rd"
    "decrypt_and_open P S B tmp2 out pw w1 =
    (rbind (validate_layout B m (of_nat (4 + length mb)) (of_nat (length payload))) (\<lambda>_.
      Inr \<lparr>db_all = payload, db_file = rd, db_manifest = m, db_data_start = of_nat (4 + length mb),
        db_payload_len = of_nat (length payload)\<rparr>), w1)"
    using packed_bundle_opens [OF laws run small tmp env] .
  let ?ds = "of_nat (4 + length mb) :: u64"
  have len: "length payload < 2 ^ 64" "length mb \<le> MAX_BUNDLE_MANIFEST_SIZE" using pk by (simp_all add: packs_def)
  have v: "validate_layout B m ?ds (of_nat (length payload)) = Inr ()" using packs_layout [OF pk] paths by simp
  have "entry_fits (unat ?ds) (length payload) en \<and> blake3 B (entry_bytes payload ?ds en) = blake3_hash en"
    if "en \<in> set (entries m)" for en
    using pk that unfolding packs_def manifest_start [OF len(2)] by blast
  then obtain rd' where "verify_entries B payload ?ds (entries m) rd = (Inr (), rd')"
    using verify_entries_quiet [OF len(1) rd(1), of "entries m" ?ds B] by auto
  with rd(2) v show ?thesis by (simp add: list_bundle_def act_def verify_all_def)
qed

section \<open>Names that collide\<close>

text \<open>
  \<open>pack_directory\<close> does not run the layout checks on what it writes: when two paths are equal
  up to case it succeeds, and the bundle can never be opened to be listed or verified.
\<close>

lemma collision_unlistable:
  assumes laws: "ciphers_ok (cip P)" "postcard_ok S" "manifest_codec_ok B"
    and run: "pack_directory P S B version now walk tmp in_dir out (CredPassword pw None) profile allow padding
      force pol override w = (Inr m, w1)"
    and small: "\<And>mb. pc_manifest B m = Some mb \<Longrightarrow> payload_size mb m < 2 ^ 64"
    and tmp: "comps tmp \<noteq> []" "\<not> under w tmp (resolve w out)"
    and collide: "\<not> distinct (map (\<lambda>en. to_lowercase B (relative_path en)) (entries m))"
    and env: "calm w1 out" "temp_ok w1 tmp2"
  shows "\<exists>err. decrypt_and_open P S B tmp2 out pw w1 = (Inl err, w1) \<and>
    list_bundle P S B tmp2 out pw w1 = (Inl err, w1) \<and> verify_bundle P S B tmp2 out pw w1 = (Inl err, w1)"
proof -
  obtain mb payload rd where pk: "packs B w in_dir walk m mb payload" and rd: "decrypt_and_open P S B tmp2 out pw w1 =
    (rbind (validate_layout B m (of_nat (4 + length mb)) (of_nat (length payload))) (\<lambda>_.
      Inr \<lparr>db_all = payload, db_file = rd, db_manifest = m, db_data_start = of_nat (4 + length mb),
        db_payload_len = of_nat (length payload)\<rparr>), w1)"
    using packed_bundle_opens [OF laws run small tmp env] .
  have "validate_layout B m (of_nat (4 + length mb)) (of_nat (length payload)) \<noteq> Inr ()"
    using packs_layout [OF pk] collide by simp
  then obtain err where "validate_layout B m (of_nat (4 + length mb)) (of_nat (length payload)) = Inl err"
    by (cases "validate_layout B m (of_nat (4 + length mb)) (of_nat (length payload))") auto
  with rd show ?thesis by (simp add: list_bundle_def verify_bundle_def act_def)
qed

end
