(* ===== verification/Bundle_Claims.thy ===== *)
theory Bundle_Claims
  imports Bundle_Correct
begin

text \<open>
  Consequences of the library of Bundle\_Correct.thy: packing records every file of the walk, what it
  wrote under a password lists again when no names collide, and a bundle packed for key pairs cannot
  be read by the commands that take a password.
\<close>

lemma decrypt_locked:
  assumes cap: "capsule_of P S e fek bs capsule" "postcard_ok S"
    and inp: "lookup w inp = Some (Regular capsule)" "calm w inp" and key: "unlock e = Inl err"
  shows "decrypt_file_with P S unlock inp out w = (Inl err, w)"
proof -
  let ?rd = "\<lparr>r_data = capsule, r_events = w_script w (resolve w inp)\<rparr>"
  have rd: "quiet ?rd" "r_data ?rd = capsule"
    using inp(2) by (simp_all add: quiet_def calm_def)
  obtain rd' where "read_envelope P S ?rd = Inr (e, rd')"
    using open_capsule [OF cap rd] .
  with key inp(1) show ?thesis by (simp add: decrypt_file_with_def act_def act_map_err_def)
qed

lemma decrypt_and_open_locked:
  assumes cap: "capsule_of P S e fek bs capsule" "postcard_ok S"
    and inp: "lookup w inp = Some (Regular capsule)" "calm w inp"
    and key: "unwrap_password_file_key P e pw None = Inl err" and fr: "fresh_name w tmp"
  shows "decrypt_and_open P S B tmp inp pw w = (Inl (BCrypto err), w)"
proof -
  have "w_fs w (resolve w inp) \<noteq> None" using inp(1) by (auto simp: lookup_def split: if_splits)
  then have look: "lookup (with_dir tmp w) inp = Some (Regular capsule)" using lookup_with_dir [OF fr] inp(1) by simp
  have calm: "calm (with_dir tmp w) inp" using inp(2) by (simp add: calm_def) (simp add: with_dir_def)
  have "decrypt_file_password P S inp (payload_name tmp) pw None (with_dir tmp w) = (Inl err, with_dir tmp w)"
    unfolding decrypt_with
    by (rule decrypt_locked [where unlock = "\<lambda>e. unwrap_password_file_key P e pw None", OF cap look calm key])
  then show ?thesis
    using with_dir_restored(1) [OF fr]
    by (simp add: decrypt_and_open_def with_temp_dir_def with_dir_def [symmetric] act_def act_map_err_def)
qed

lemma no_kdf_locked: "h_kdf (header e) = None \<Longrightarrow> unwrap_password_file_key P e pw seed = Inl MissingKdfParams"
  by (simp add: unwrap_password_file_key_def)

text \<open>
  A bundle packed for a recipient group cannot be opened by any bundle command: listing,
  verifying and extracting only take a password, and all fail with \<open>MissingKdfParams\<close>.
\<close>

theorem group_bundle_unlistable:
  assumes S: "postcard_ok S"
    and run: "pack_directory P S B version now walk tmp in_dir out (CredKeypairs pks) profile allow padding
      force pol override w = (Inr m, w1)"
    and small: "\<And>mb. pc_manifest B m = Some mb \<Longrightarrow> payload_size mb m < 2 ^ 64"
    and tmp: "comps tmp \<noteq> []" "\<not> under w tmp (resolve w out)"
    and env: "calm w1 out" "fresh_name w1 tmp2"
  shows "decrypt_and_open P S B tmp2 out pw w1 = (Inl (BCrypto MissingKdfParams), w1) \<and>
    list_bundle P S B tmp2 out pw w1 = (Inl (BCrypto MissingKdfParams), w1) \<and>
    verify_bundle P S B tmp2 out pw w1 = (Inl (BCrypto MissingKdfParams), w1)"
proof -
  obtain payload w2 where *: "encrypt_file_keypairs_with_content_type P S tmp out pks profile pol override
      (Some Bundle) (put_file w tmp payload) = (Inr (), w2)" "w1 = remove_below tmp w2"
    by (rule pack_directory_packs [OF run small]) (auto simp: bundle_encrypt_def)
  have "lookup (put_file w tmp payload) tmp = Some (Regular payload)"
    using tmp(1) by (intro lookup_put_file) auto
  from encrypt_file_keypairs_Inr [OF *(1) this] obtain e fek capsule w0 where
    e: "same_but_rng (put_file w tmp payload) w0" "w2 = put_file w0 out capsule" "out \<noteq> Path False []"
      "capsule_of P S e fek payload capsule" "h_kdf (header e) = None" by metis
  have look: "lookup w1 out = Some (Regular capsule)"
    by (rule lookup_removed [OF e(1-3) *(2) tmp(2)])
  have "decrypt_and_open P S B tmp2 out pw w1 = (Inl (BCrypto MissingKdfParams), w1)"
    by (rule decrypt_and_open_locked [OF e(4) S look env(1) no_kdf_locked [OF e(5)] env(2)])
  then show ?thesis by (simp add: list_bundle_def verify_bundle_def act_def)
qed

section \<open>What is packed\<close>

lemma insort_key_map: "insort_key f (g x) (map g xs) = map g (insort_key (\<lambda>x. f (g x)) x xs)"
  by (induction xs) auto

lemma sort_key_map: "sort_key f (map g xs) = map g (sort_key (\<lambda>x. f (g x)) xs)"
  by (induction xs) (auto simp: insort_key_map)

text \<open>The entry of a file: its path, size and hash.\<close>

definition entry_of_file :: "bundle_prims \<Rightarrow> world \<Rightarrow> path \<Rightarrow> bundle_entry \<Rightarrow> walk_entry \<Rightarrow> bool" where
  "entry_of_file B w in_dir en fe \<longleftrightarrow>
     relative_path en = join_slash (we_names fe) \<and> is_ok (validate_relative_path (relative_path en)) \<and>
     unat (be_size en) = length (file_bytes w (below in_dir (we_names fe))) \<and>
     blake3_hash en = blake3 B (file_bytes w (below in_dir (we_names fe)))"

lemma collected_entries:
  assumes src: "collect_sources B walk in_dir allow w = (Inr ss, w')" and m: "build_manifest version now ss = Inr m"
  shows "list_all2 (entry_of_file B w in_dir) (entries m) (sort_key (\<lambda>fe. join_slash (we_names fe)) (walk_files walk))"
    "\<forall>fe \<in> set (walk_files walk). (we_is_symlink fe \<longrightarrow> allow) \<and> (we_is_symlink fe \<or> we_is_file fe)"
proof -
  from src obtain ps where *: "collect_paths in_dir allow walk = Inr ps" "hash_sources B (sort_key fst ps) w = (Inr ss, w')"
    by (auto simp: collect_sources_def res_elims split: if_splits)
  let ?fs = "sort_key (\<lambda>fe. join_slash (we_names fe)) (walk_files walk)"
  note c = collect_paths_all [OF *(1)] and h = hash_sources_Inr [OF *(2)]
  show "\<forall>fe \<in> set (walk_files walk). (we_is_symlink fe \<longrightarrow> allow) \<and> (we_is_symlink fe \<or> we_is_file fe)"
    using c by blast
  from c have "sort_key fst ps = map (\<lambda>fe. (join_slash (we_names fe), below in_dir (we_names fe))) ?fs"
    by (simp add: sort_key_map)
  moreover from h have "map (\<lambda>s. (src_relative_path s, src_path s)) ss = sort_key fst ps" by blast
  ultimately have ss: "map (\<lambda>s. (src_relative_path s, src_path s)) ss =
      map (\<lambda>fe. (join_slash (we_names fe), below in_dir (we_names fe))) ?fs" by (simp only:)
  then have len: "length ss = length ?fs" by (rule map_eq_imp_length_eq)
  from build_entries_Inr [OF build_manifest_Inr [OF m]] have "map be_size (entries m) = map src_size ss" by blast
  then have len': "length (entries m) = length ss" by (rule map_eq_imp_length_eq)
  show "list_all2 (entry_of_file B w in_dir) (entries m) ?fs"
  proof (rule list_all2_all_nthI)
    fix i assume "i < length (entries m)"
    then have i: "i < length ss" "i < length ?fs" "i < length (entries m)" using len len' by simp_all
    note e = build_entries_nth(2-) [OF build_manifest_Inr [OF m] i(1)]
    have s: "src_relative_path (ss ! i) = join_slash (we_names (?fs ! i))" "src_path (ss ! i) = below in_dir (we_names (?fs ! i))"
      using map_nth_eq [OF ss i(2)] by simp_all
    have ok: "source_ok B w (ss ! i)" using h i by (simp add: list_all_length)
    have "?fs ! i \<in> set (walk_files walk)" using i(2) by (metis nth_mem set_sort)
    with c have "is_ok (validate_relative_path (join_slash (we_names (?fs ! i))))" by blast
    with ok e s show "entry_of_file B w in_dir (entries m ! i) (?fs ! i)"
      unfolding entry_of_file_def source_ok_def by (simp only:)
  qed (simp add: len len')
qed

text \<open>
  A packed bundle records every file the walk of the directory yields and nothing else, in
  the order of their paths, each with the size and hash of its contents; symbolic links are
  refused unless links are allowed, and an existing output is only replaced by force.
\<close>

theorem pack_records_every_file:
  assumes "pack_directory P S B version now walk tmp in_dir out cred profile allow padding force pol override w = (Inr m, w')"
  shows "list_all2 (entry_of_file B w in_dir) (entries m)
      (sort_key (\<lambda>fe. join_slash (we_names fe)) (walk_files walk)) \<and>
    (\<forall>fe \<in> set (walk_files walk). (we_is_symlink fe \<longrightarrow> allow) \<and> (we_is_symlink fe \<or> we_is_file fe)) \<and>
    (path_exists w out \<longrightarrow> force)"
proof -
  obtain ss where *: "path_exists w out \<longrightarrow> force" "collect_sources B walk in_dir allow w = (Inr ss, w)"
      "build_manifest version now ss = Inr m"
    using pack_directory_Inr [OF assms] by metis
  with collected_entries [OF *(2,3)] show ?thesis by simp
qed

text \<open>
  C8: A directory packed under a password is recorded completely: the manifest has one entry for each
  file the walk yields, in the order of the paths and with the size and hash of its contents, and
  nothing else. If no two paths are equal up to case, listing the bundle with the password returns
  that manifest and changes no file, whatever the padding; if two are, packing has succeeded all the
  same and every listing fails.
\<close>

theorem bundle_round_trip:
  assumes laws: "ciphers_ok (cip P)" "postcard_ok S" "manifest_codec_ok B"
    and run: "pack_directory P S B version now walk tmp in_dir out (CredPassword pw None) profile allow padding
      force pol override w = (Inr m, w1)"
    and small: "\<And>mb. pc_manifest B m = Some mb \<Longrightarrow> payload_size mb m < 2 ^ 64"
    and tmp: "comps tmp \<noteq> []" "\<not> under w tmp (resolve w out)"
    and env: "calm w1 out" "temp_ok w1 tmp2"
  shows "list_all2 (entry_of_file B w in_dir) (entries m)
      (sort_key (\<lambda>fe. join_slash (we_names fe)) (walk_files walk)) \<and>
    (if distinct (map (\<lambda>en. to_lowercase B (relative_path en)) (entries m))
     then list_bundle P S B tmp2 out pw w1 = (Inr m, w1)
     else \<exists>err. list_bundle P S B tmp2 out pw w1 = (Inl err, w1))"
proof -
  obtain ss where "collect_sources B walk in_dir allow w = (Inr ss, w)" "build_manifest version now ss = Inr m"
    using pack_directory_Inr [OF run] by metis
  with collected_entries(1) packed_bundle_lists [OF laws run small tmp _ env] collision_unlistable [OF laws run small tmp _ env]
  show ?thesis by auto
qed

end
