(* ===== verification/Bundle_Samples.thy ===== *)
theory Bundle_Samples
  imports Bundle_Claims Capsule_Samples
begin

text \<open>
  Packing in a good environment, and concrete bundles for the witnesses of the bundle theories.
\<close>

section \<open>Packing succeeds in a good environment\<close>

definition good_file :: "world \<Rightarrow> path \<Rightarrow> bytes \<Rightarrow> bool" where
  "good_file w p bs \<longleftrightarrow> lookup w p = Some (Regular bs) \<and> calm w p \<and> length bs < 2 ^ 64"

lemma trailing_quiet: "quiet rd \<Longrightarrow> r_data rd = [] \<Longrightarrow> trailing rd = Inr False"
  by (erule read_quiet [of _ 1]) (auto simp: trailing_def dest: read_Inr(3))

lemma good_file_open:
  assumes "good_file w p bs"
  shows "open_file p w = (Inr \<lparr>r_data = bs, r_events = w_script w (resolve w p)\<rparr>, w)"
    "quiet \<lparr>r_data = bs, r_events = w_script w (resolve w p)\<rparr>"
    "metadata_of p w = (Inr (True, length bs), w)" "unat (of_nat (length bs) :: u64) = length bs"
    "file_bytes w p = bs"
  using assms unat_of_nat_u64 [of "length bs"]
  by (simp_all add: good_file_def calm_def quiet_def metadata_of_def file_bytes_def node_bytes_def)

lemma hash_file_good:
  assumes "good_file w p bs"
  shows "hash_file B p w = (Inr (of_nat (length bs), blake3 B bs), w)"
proof -
  note g = good_file_open [OF assms]
  let ?rd = "\<lparr>r_data = bs, r_events = w_script w (resolve w p)\<rparr>"
  have "length bs \<le> length (r_data ?rd)" by simp
  from hash_reader_quiet [OF g(2) this, of B] obtain rd1 where
    "hash_reader B (length bs) ?rd = (Inr (blake3 B (take (length bs) (r_data ?rd))), rd1)" "quiet rd1" .
  then have rd1: "hash_reader B (length bs) ?rd = (Inr (blake3 B bs), rd1)" "quiet rd1" by simp_all
  have "r_data rd1 = []" using conjunct2 [OF conjunct2 [OF hash_reader_Inr [OF rd1(1)]]] by simp
  then have "trailing rd1 = Inr False" by (rule trailing_quiet [OF rd1(2)])
  with rd1(1) show ?thesis
    unfolding hash_file_def by (simp only: act_apply act_map_err_def g(1,3,4) Let_def prod.case sum.case map_err_simps
        act_simps snd_conv ensure_simps not_False_eq_True)
qed

definition good_source :: "bundle_prims \<Rightarrow> world \<Rightarrow> source_file \<Rightarrow> bool" where
  "good_source B w s \<longleftrightarrow> (\<exists>bs. good_file w (src_path s) bs \<and> src_size s = of_nat (length bs) \<and> src_hash s = blake3 B bs)"

lemma copy_source_good:
  assumes "good_source B w s" "w_room wr = None"
  shows "\<exists>wr'. copy_source_checked B s wr w = (Inr wr', w) \<and> w_room wr' = None"
proof -
  obtain bs where bs: "good_file w (src_path s) bs" "src_size s = of_nat (length bs)" "src_hash s = blake3 B bs"
    using assms(1) by (auto simp: good_source_def)
  note g = good_file_open [OF bs(1)]
  let ?rd = "\<lparr>r_data = bs, r_events = w_script w (resolve w (src_path s))\<rparr>"
  let ?e = "ManifestError (''Input truncated during packing: '' @ display (src_path s))"
  obtain rd1 wr1 where p: "pump ?e (length bs) ?rd wr = (Inr (), rd1, wr1)" "quiet rd1" "w_room wr1 = None"
    using pump_quiet [OF g(2) assms(2), of "length bs" ?e] by auto
  note d = pump_Inr [OF p(1)]
  then have "trailing rd1 = Inr False" using p(2) trailing_quiet by simp
  with p bs(2,3) d show ?thesis
    unfolding copy_source_checked_def by (simp add: act_apply act_map_err_def g(1,3) bs(2,3) g(4))
qed

lemma copy_sources_good:
  "list_all (good_source B w) ss \<Longrightarrow> w_room wr = None \<Longrightarrow>
     \<exists>wr'. copy_sources B ss wr w = (Inr wr', w) \<and> w_room wr' = None"
proof (induction ss arbitrary: wr)
  case Nil
  then show ?case by simp
next
  case (Cons s ss)
  then obtain wr1 where "copy_source_checked B s wr w = (Inr wr1, w)" "w_room wr1 = None"
    using copy_source_good [of B w s wr] by auto
  with Cons show ?case by (simp add: act_apply)
qed

lemma write_bytes_ok: "w_room wr = None \<Longrightarrow> write_bytes bs wr = Inr (wr\<lparr>w_data := w_data wr @ bs\<rparr>)"
  by (simp add: write_bytes_def write_all_def)

lemma pack_directory_ok:
  assumes gate: "path_exists w out \<longrightarrow> force" and src: "collect_sources B walk in_dir allow w = (Inr ss, w)"
    and good: "list_all (good_source B w) ss" and m: "build_manifest version now ss = Inr m"
    and mb: "pc_manifest B m = Some mb" "mb \<noteq> []" "length mb \<le> MAX_BUNDLE_MANIFEST_SIZE"
    and env: "w_fs w (resolve w (parent_or_dot out)) = Some Directory" "w_disk w = None" "w_sync w"
    and enc: "bundle_encrypt P S tmp out cred profile pol override
      (put_file w tmp (capsule_bytes mb (concat (source_data w ss)))) = (Inr (), w2)"
  shows "pack_directory P S B version now walk tmp in_dir out cred profile allow NoPadding force pol override w =
    (Inr m, remove_below tmp w2)"
proof -
  let ?wr2 = "fresh_writer None\<lparr>w_data := u32_to_le_bytes (of_nat (length mb)) @ mb\<rparr>"
  obtain wr3 where wr3: "copy_sources B ss ?wr2 w = (Inr wr3, w)" "w_room wr3 = None"
    using copy_sources_good [OF good, of ?wr2] by auto
  have d: "w_data wr3 = capsule_bytes mb (concat (source_data w ss))"
    using copy_sources_Inr [OF wr3(1)] by (simp add: capsule_bytes_def source_data_def)
  have new: "new_in (parent_or_dot out) w = (Inr (fresh_writer None), w)" using env by (simp add: new_in_def)
  have n: "length mb < 2 ^ 32" using mb(3) by (simp add: MAX_BUNDLE_MANIFEST_SIZE_def)
  have g: "\<not> (path_exists w out \<and> \<not> force)" using gate by blast
  have z: "write_zero_padding 0 wr3 = (Inr (), wr3)" by (simp add: write_zero_padding.simps [of 0])
  show ?thesis
    unfolding pack_directory_def if_not_P [OF g]
    using src m mb new n wr3(1) d enc z env(3)
    by (simp add: act_apply act_map_err_def write_bytes_ok Let_def padding_target_def sync_temp_def with_temp_file_def)
qed

section \<open>A sample bundle\<close>

definition c_entry :: "bundle_entry codec" where
  "c_entry = c_iso (\<lambda>en. (relative_path en, be_size en, blake3_hash en, be_offset en))
     (\<lambda>(p, n, h, off). \<lparr>relative_path = p, be_size = n, blake3_hash = h, be_offset = off\<rparr>)
     (c_pair c_string (c_pair c_u64 (c_pair c_bytes c_u64)))"

definition c_manifest :: "bundle_manifest codec" where
  "c_manifest = c_iso (\<lambda>m. (entries m, bm_created_at m, bm_tool_version m))
     (\<lambda>(es, t, v). \<lparr>entries = es, bm_created_at = t, bm_tool_version = v\<rparr>)
     (c_pair (c_list c_entry) (c_pair (c_option c_string) (c_option c_string)))"

definition sample_bundle_prims :: bundle_prims where
  "sample_bundle_prims = \<lparr>blake3 = (\<lambda>bs. replicate 32 (sum_list bs)), pc_manifest = (\<lambda>m. Some (fst c_manifest m)),
     pc_take_manifest = snd c_manifest, to_lowercase = map to_ascii_lowercase\<rparr>"

lemma sample_manifest_codec [simp]: "manifest_codec_ok sample_bundle_prims"
proof -
  have "codec_ok c_entry" unfolding c_entry_def by (rule c_iso_ok) simp_all
  then have "codec_ok c_manifest" unfolding c_manifest_def by (intro c_iso_ok) simp_all
  then show ?thesis by (auto simp: manifest_codec_ok_def sample_bundle_prims_def codec_okD)
qed

definition sample_dir :: path where "sample_dir = Path True [''d'', ''src'']"

definition sample_tmp :: path where "sample_tmp = Path True [''d'', ''tmp'']"

definition bundle_world :: "string \<Rightarrow> string \<Rightarrow> world" where
  "bundle_world a b = \<lparr>w_fs = [[] \<mapsto> Directory, [''d''] \<mapsto> Directory, [''d'', ''src''] \<mapsto> Directory,
       [''d'', ''src'', a] \<mapsto> Regular [1], [''d'', ''src'', b] \<mapsto> Regular [2]],
     w_cwd = [], w_script = (\<lambda>_. []), w_disk = None, w_sync = True, w_dir_size = 0,
     w_rng = (\<lambda>_. 1), w_rng_pos = 0\<rparr>"

definition sample_walk_file :: "string \<Rightarrow> walk_entry" where
  "sample_walk_file n = \<lparr>we_names = [n], we_is_dir = False, we_is_symlink = False, we_is_file = True, we_metadata = Inr True\<rparr>"

definition sample_walk :: "string \<Rightarrow> string \<Rightarrow> (string + walk_entry) list" where
  "sample_walk a b = [Inr \<lparr>we_names = [], we_is_dir = True, we_is_symlink = False, we_is_file = False, we_metadata = Inr False\<rparr>,
     Inr (sample_walk_file a), Inr (sample_walk_file b)]"

lemma bundle_world_sel [simp]:
  "w_disk (bundle_world a b) = None" "w_sync (bundle_world a b)" "w_rng (bundle_world a b) = (\<lambda>_. 1)"
  "calm (bundle_world a b) p" "resolve (bundle_world a b) sample_dir = [''d'', ''src'']"
  by (simp_all add: bundle_world_def calm_def resolve_def sample_dir_def)

lemma bundle_world_fs:
  "w_fs (bundle_world a b) = [[] \<mapsto> Directory, [''d''] \<mapsto> Directory, [''d'', ''src''] \<mapsto> Directory,
       [''d'', ''src'', a] \<mapsto> Regular [1], [''d'', ''src'', b] \<mapsto> Regular [2]]"
  by (simp add: bundle_world_def)

definition sample_source :: "string \<Rightarrow> bytes \<Rightarrow> source_file" where
  "sample_source n bs = \<lparr>src_relative_path = n, src_path = below sample_dir [n], src_size = of_nat (length bs),
     src_hash = blake3 sample_bundle_prims bs\<rparr>"

definition sample_names :: "string \<Rightarrow> string \<Rightarrow> bool" where
  "sample_names a b \<longleftrightarrow> a \<le> b \<and> a \<noteq> b \<and> a \<noteq> ''.'' \<and> b \<noteq> ''.'' \<and>
     is_ok (validate_relative_path a) \<and> is_ok (validate_relative_path b) \<and> length a = 1 \<and> length b = 1"

lemma resolve_below: "n \<noteq> ''.'' \<Longrightarrow> resolve w (below sample_dir [n]) = [''d'', ''src'', n]"
  by (simp add: resolve_def below_def sample_dir_def)

lemma sample_good_files:
  assumes "sample_names a b"
  shows "good_file (bundle_world a b) (below sample_dir [a]) [1]" "good_file (bundle_world a b) (below sample_dir [b]) [2]"
proof -
  have "below sample_dir ns \<noteq> Path False []" for ns by (simp add: below_def sample_dir_def)
  with assms show "good_file (bundle_world a b) (below sample_dir [a]) [1]"
      "good_file (bundle_world a b) (below sample_dir [b]) [2]"
    by (simp_all add: good_file_def lookup_def resolve_below sample_names_def bundle_world_fs)
qed

lemma sample_collect:
  assumes n: "sample_names a b"
  shows "collect_sources sample_bundle_prims (sample_walk a b) sample_dir False (bundle_world a b) =
    (Inr [sample_source a [1], sample_source b [2]], bundle_world a b)"
proof -
  have "lookup (bundle_world a b) sample_dir = Some Directory"
    by (simp add: lookup_def bundle_world_fs) (simp add: sample_dir_def)
  moreover have "collect_paths sample_dir False (sample_walk a b) =
      Inr [(a, below sample_dir [a]), (b, below sample_dir [b])]"
    using n by (auto simp: sample_walk_def sample_walk_file_def sample_names_def is_ok_iff)
  moreover have "sort_key fst [(a, below sample_dir [a]), (b, below sample_dir [b])] =
      [(a, below sample_dir [a]), (b, below sample_dir [b])]"
    using n by (simp add: sample_names_def)
  ultimately show ?thesis
    using hash_file_good [OF sample_good_files(1) [OF n], of sample_bundle_prims]
      hash_file_good [OF sample_good_files(2) [OF n], of sample_bundle_prims]
    by (simp add: collect_sources_def act_apply sample_source_def)
qed

definition sample_manifest :: "string \<Rightarrow> string \<Rightarrow> bundle_manifest" where
  "sample_manifest a b = \<lparr>entries =
     [\<lparr>relative_path = a, be_size = 1, blake3_hash = replicate 32 1, be_offset = 0\<rparr>,
      \<lparr>relative_path = b, be_size = 1, blake3_hash = replicate 32 2, be_offset = 1\<rparr>],
     bm_created_at = Some (timestamp None), bm_tool_version = Some ''lvau 1''\<rparr>"

lemma sample_build: "build_manifest ''1'' None [sample_source a [1], sample_source b [2]] = Inr (sample_manifest a b)"
  by (simp add: build_manifest_def sample_source_def checked_add_u64_def sample_manifest_def sample_bundle_prims_def)

lemma sample_manifest_bytes:
  assumes "length a = 1" "length b = 1"
  shows "fst c_manifest (sample_manifest a b) \<noteq> []" "length (fst c_manifest (sample_manifest a b)) \<le> 1000"
proof -
  have s: "length (fst c_string x) = 2 * length x + 1" for x
    by (simp add: c_string_def length_c_iso length_c_bytes)
  have "0 < length (fst c_manifest (sample_manifest a b))"
    by (simp add: c_manifest_def len_simps sample_manifest_def)
  then show "fst c_manifest (sample_manifest a b) \<noteq> []" by auto
  show "length (fst c_manifest (sample_manifest a b)) \<le> 1000"
    by (simp add: c_manifest_def c_entry_def len_simps sample_manifest_def s assms timestamp_def)
qed

lemma sample_payload_size:
  assumes "pc_manifest sample_bundle_prims (sample_manifest a b) = Some mb" "sample_names a b"
  shows "payload_size mb (sample_manifest a b) < 2 ^ 64"
  using assms sample_manifest_bytes(2) [of a b]
  by (simp add: sample_bundle_prims_def payload_size_def sample_names_def) (simp add: sample_manifest_def)

text \<open>Packing the sample with any credential that can encrypt in this world.\<close>

definition sample_bundle_payload :: "string \<Rightarrow> string \<Rightarrow> bytes" where
  "sample_bundle_payload a b = capsule_bytes (fst c_manifest (sample_manifest a b)) [1, 2]"

definition packing_world :: "string \<Rightarrow> string \<Rightarrow> world" where
  "packing_world a b = put_file (bundle_world a b) sample_tmp (sample_bundle_payload a b)"

lemma sample_tmp_resolve [simp]: "resolve w sample_tmp = [''d'', ''tmp'']" "comps sample_tmp \<noteq> []"
  by (simp_all add: resolve_def sample_tmp_def)

lemma packing_world_ok:
  assumes "sample_names a b"
  shows "w_rng (packing_world a b) = (\<lambda>_. 1)"
    "lookup (packing_world a b) sample_tmp = Some (Regular (sample_bundle_payload a b))"
    "calm (packing_world a b) sample_tmp" "sample_payload (sample_bundle_payload a b)"
    "output_ok ((packing_world a b)\<lparr>w_rng_pos := n\<rparr>) sample_out"
proof -
  show "w_rng (packing_world a b) = (\<lambda>_. 1)" by (simp add: packing_world_def)
  show "lookup (packing_world a b) sample_tmp = Some (Regular (sample_bundle_payload a b))"
    unfolding packing_world_def by (rule lookup_put_file) (simp add: sample_tmp_def)
  show "calm (packing_world a b) sample_tmp" by (simp add: packing_world_def calm_def) (simp add: bundle_world_def)
  show "sample_payload (sample_bundle_payload a b)"
    using sample_manifest_bytes(2) [of a b] assms capsule_bytes_ne
    by (simp add: sample_payload_def sample_bundle_payload_def CHUNK_SIZE_def sample_names_def)
      (simp add: capsule_bytes_def)
  show "output_ok ((packing_world a b)\<lparr>w_rng_pos := n\<rparr>) sample_out"
    by (simp add: output_ok_def packing_world_def w_fs_put_file bundle_world_fs)
qed

lemma sample_pack:
  assumes n: "sample_names a b" and w0: "same_but_rng (packing_world a b) w0"
    and enc: "bundle_encrypt sample_prims sample_postcard sample_tmp sample_out cred Fast None False (packing_world a b) =
      (Inr (), put_file w0 sample_out capsule)"
  shows "pack_directory sample_prims sample_postcard sample_bundle_prims ''1'' None (sample_walk a b) sample_tmp
      sample_dir sample_out cred Fast False NoPadding False None False (bundle_world a b) =
    (Inr (sample_manifest a b), remove_below sample_tmp (put_file w0 sample_out capsule))"
proof (rule pack_directory_ok [OF _ sample_collect [OF n] _ sample_build])
  show "path_exists (bundle_world a b) sample_out \<longrightarrow> False"
    by (simp add: path_exists_def lookup_def bundle_world_fs)
  show "list_all (good_source sample_bundle_prims (bundle_world a b)) [sample_source a [1], sample_source b [2]]"
    using sample_good_files [OF n] by (auto simp: good_source_def sample_source_def)
  show "pc_manifest sample_bundle_prims (sample_manifest a b) = Some (fst c_manifest (sample_manifest a b))"
    by (simp add: sample_bundle_prims_def)
  show "fst c_manifest (sample_manifest a b) \<noteq> []" using n sample_manifest_bytes(1) by (simp add: sample_names_def)
  show "length (fst c_manifest (sample_manifest a b)) \<le> MAX_BUNDLE_MANIFEST_SIZE"
    using n sample_manifest_bytes(2) [of a b] by (simp add: sample_names_def MAX_BUNDLE_MANIFEST_SIZE_def)
  show "w_fs (bundle_world a b) (resolve (bundle_world a b) (parent_or_dot sample_out)) = Some Directory"
    by (simp add: bundle_world_fs)
  have "source_data (bundle_world a b) [sample_source a [1], sample_source b [2]] = [[1], [2]]"
    using good_file_open(5) [OF sample_good_files(1) [OF n]] good_file_open(5) [OF sample_good_files(2) [OF n]]
    by (simp add: source_data_def sample_source_def)
  then show "bundle_encrypt sample_prims sample_postcard sample_tmp sample_out cred Fast None False
      (put_file (bundle_world a b) sample_tmp (capsule_bytes (fst c_manifest (sample_manifest a b))
        (concat (source_data (bundle_world a b) [sample_source a [1], sample_source b [2]])))) =
      (Inr (), put_file w0 sample_out capsule)"
    using enc by (simp add: packing_world_def sample_bundle_payload_def)
qed simp_all

text \<open>The world after packing, as the listing functions find it.\<close>

definition sample_scratch :: path where "sample_scratch = Path True [''scratch'']"

lemma sample_packed_world:
  assumes "same_but_rng (packing_world a b) w0"
  shows "calm (remove_below sample_tmp (put_file w0 sample_out capsule)) sample_out"
    "temp_ok (remove_below sample_tmp (put_file w0 sample_out capsule)) sample_scratch"
proof -
  let ?w = "remove_below sample_tmp (put_file w0 sample_out capsule)"
  note r = same_but_rngD [OF assms]
  have w: "w_script ?w = (\<lambda>_. [])" "w_sync ?w" "w_disk ?w = None"
    using r by (simp_all add: remove_below_def) (simp_all add: packing_world_def bundle_world_def)
  show "calm ?w sample_out" by (simp add: calm_def w)
  have "w_fs ?w k = None" if "take 1 k = [''scratch'']" for k
    using that r by (cases k) (auto simp: remove_below_def w_fs_put_file packing_world_def bundle_world_fs)
  then show "temp_ok ?w sample_scratch"
    by (simp add: temp_ok_def fresh_name_def calm_def w under_def resolve_def sample_scratch_def)
qed

lemma sample_password_pack:
  assumes "sample_names a b"
  obtains w1 where "pack_directory sample_prims sample_postcard sample_bundle_prims ''1'' None (sample_walk a b) sample_tmp
      sample_dir sample_out (CredPassword [1] None) Fast False NoPadding False None False (bundle_world a b) =
      (Inr (sample_manifest a b), w1)" "calm w1 sample_out" "temp_ok w1 sample_scratch"
proof -
  note w = packing_world_ok [OF assms]
  obtain w0 capsule where run: "same_but_rng (packing_world a b) w0"
      "encrypt_file_password_with_content_type sample_prims sample_postcard sample_tmp sample_out [1] None Fast None False
        (Some Bundle) (packing_world a b) = (Inr (), put_file w0 sample_out capsule)"
    using sample_password_encrypts [OF w(1-5)] by blast
  from that [OF sample_pack [OF assms run(1)] sample_packed_world [OF run(1)]] run(2) show ?thesis
    by (simp add: bundle_encrypt_def)
qed

lemma sample_group_pack:
  assumes "sample_names a b"
  obtains w1 where "pack_directory sample_prims sample_postcard sample_bundle_prims ''1'' None (sample_walk a b) sample_tmp
      sample_dir sample_out (CredKeypairs [sample_pk]) Fast False NoPadding False None False (bundle_world a b) =
      (Inr (sample_manifest a b), w1)" "calm w1 sample_out" "temp_ok w1 sample_scratch"
proof -
  note w = packing_world_ok [OF assms]
  obtain w0 capsule where run: "same_but_rng (packing_world a b) w0"
      "encrypt_file_keypairs_with_content_type sample_prims sample_postcard sample_tmp sample_out [sample_pk] Fast None False
        (Some Bundle) (packing_world a b) = (Inr (), put_file w0 sample_out capsule)"
    using sample_keypair_encrypts [OF w(1-5)] by blast
  from that [OF sample_pack [OF assms run(1)] sample_packed_world [OF run(1)]] run(2) show ?thesis
    by (simp add: bundle_encrypt_def)
qed

lemma sample_validated:
  "validate_relative_path ''a'' = Inr [''a'']" "validate_relative_path ''b'' = Inr [''b'']"
  "validate_relative_path ''A'' = Inr [''A'']"
  by (simp_all add: validate_relative_path_def path_components_def List.map_filter_simps part_component_def
      is_normal_def component_name_def)

lemma sample_ab: "sample_names ''a'' ''b''" "sample_names ''A'' ''a''"
  by (simp_all add: sample_names_def sample_validated)

lemma sample_not_under: "\<not> under w sample_tmp (resolve w sample_out)"
  by (simp add: under_def)

lemma sample_distinct:
  "distinct (map (\<lambda>en. to_lowercase sample_bundle_prims (relative_path en)) (entries (sample_manifest ''a'' ''b'')))"
  by (simp add: sample_bundle_prims_def sample_manifest_def to_ascii_lowercase_def)

section \<open>Witnesses\<close>

theorem bundle_round_trip_witness:
  "(\<exists>w1. fst (pack_directory sample_prims sample_postcard sample_bundle_prims ''1'' None (sample_walk ''a'' ''b'') sample_tmp
      sample_dir sample_out (CredPassword [1] None) Fast False NoPadding False None False (bundle_world ''a'' ''b'')) =
      Inr (sample_manifest ''a'' ''b'') \<and>
    list_bundle sample_prims sample_postcard sample_bundle_prims sample_scratch sample_out [1] w1 =
      (Inr (sample_manifest ''a'' ''b''), w1)) \<and>
   (\<exists>w1 err. fst (pack_directory sample_prims sample_postcard sample_bundle_prims ''1'' None (sample_walk ''A'' ''a'') sample_tmp
      sample_dir sample_out (CredPassword [1] None) Fast False NoPadding False None False (bundle_world ''A'' ''a'')) =
      Inr (sample_manifest ''A'' ''a'') \<and>
    list_bundle sample_prims sample_postcard sample_bundle_prims sample_scratch sample_out [1] w1 = (Inl err, w1))"
proof
  obtain w1 where run: "pack_directory sample_prims sample_postcard sample_bundle_prims ''1'' None (sample_walk ''a'' ''b'') sample_tmp
      sample_dir sample_out (CredPassword [1] None) Fast False NoPadding False None False (bundle_world ''a'' ''b'') =
      (Inr (sample_manifest ''a'' ''b''), w1)" "calm w1 sample_out" "temp_ok w1 sample_scratch"
    using sample_password_pack [OF sample_ab(1)] .
  from bundle_round_trip [OF sample_prims_ok(2) sample_postcard_ok sample_manifest_codec run(1)
      sample_payload_size [OF _ sample_ab(1)] sample_tmp_resolve(2) sample_not_under run(2,3)] sample_distinct run(1)
  show "\<exists>w1. fst (pack_directory sample_prims sample_postcard sample_bundle_prims ''1'' None (sample_walk ''a'' ''b'') sample_tmp
      sample_dir sample_out (CredPassword [1] None) Fast False NoPadding False None False (bundle_world ''a'' ''b'')) =
      Inr (sample_manifest ''a'' ''b'') \<and>
    list_bundle sample_prims sample_postcard sample_bundle_prims sample_scratch sample_out [1] w1 =
      (Inr (sample_manifest ''a'' ''b''), w1)" by auto
next
  obtain w1 where run: "pack_directory sample_prims sample_postcard sample_bundle_prims ''1'' None (sample_walk ''A'' ''a'') sample_tmp
      sample_dir sample_out (CredPassword [1] None) Fast False NoPadding False None False (bundle_world ''A'' ''a'') =
      (Inr (sample_manifest ''A'' ''a''), w1)" "calm w1 sample_out" "temp_ok w1 sample_scratch"
    using sample_password_pack [OF sample_ab(2)] .
  have "\<not> distinct (map (\<lambda>en. to_lowercase sample_bundle_prims (relative_path en)) (entries (sample_manifest ''A'' ''a'')))"
    by (simp add: sample_bundle_prims_def sample_manifest_def to_ascii_lowercase_def char_of_def bit_Suc_0_iff)
  with bundle_round_trip [OF sample_prims_ok(2) sample_postcard_ok sample_manifest_codec run(1)
      sample_payload_size [OF _ sample_ab(2)] sample_tmp_resolve(2) sample_not_under run(2,3)]
  have "\<exists>err. list_bundle sample_prims sample_postcard sample_bundle_prims sample_scratch sample_out [1] w1 = (Inl err, w1)"
    by simp
  with run(1) show "\<exists>w1 err. fst (pack_directory sample_prims sample_postcard sample_bundle_prims ''1'' None (sample_walk ''A'' ''a'') sample_tmp
      sample_dir sample_out (CredPassword [1] None) Fast False NoPadding False None False (bundle_world ''A'' ''a'')) =
      Inr (sample_manifest ''A'' ''a'') \<and>
    list_bundle sample_prims sample_postcard sample_bundle_prims sample_scratch sample_out [1] w1 = (Inl err, w1)"
    by (intro exI [of _ w1]) auto
qed

theorem group_bundle_unlistable_witness:
  "\<exists>w1. fst (pack_directory sample_prims sample_postcard sample_bundle_prims ''1'' None (sample_walk ''a'' ''b'') sample_tmp
      sample_dir sample_out (CredKeypairs [sample_pk]) Fast False NoPadding False None False (bundle_world ''a'' ''b'')) =
      Inr (sample_manifest ''a'' ''b'') \<and>
    list_bundle sample_prims sample_postcard sample_bundle_prims sample_scratch sample_out [1] w1 =
      (Inl (BCrypto MissingKdfParams), w1)"
proof -
  obtain w1 where run: "pack_directory sample_prims sample_postcard sample_bundle_prims ''1'' None (sample_walk ''a'' ''b'') sample_tmp
      sample_dir sample_out (CredKeypairs [sample_pk]) Fast False NoPadding False None False (bundle_world ''a'' ''b'') =
      (Inr (sample_manifest ''a'' ''b''), w1)" "calm w1 sample_out" "temp_ok w1 sample_scratch"
    using sample_group_pack [OF sample_ab(1)] .
  have "fresh_name w1 sample_scratch" using run(3) by (simp add: temp_ok_def)
  from group_bundle_unlistable [OF _ run(1) sample_payload_size [OF _ sample_ab(1)] _ sample_not_under run(2) this] run(1)
  show ?thesis by (metis fst_conv sample_postcard_ok sample_tmp_resolve(2))
qed

theorem pack_records_every_file_witness:
  "list_all2 (entry_of_file sample_bundle_prims (bundle_world ''a'' ''b'') sample_dir) (entries (sample_manifest ''a'' ''b''))
     [sample_walk_file ''a'', sample_walk_file ''b'']"
proof -
  obtain w1 where run: "pack_directory sample_prims sample_postcard sample_bundle_prims ''1'' None (sample_walk ''a'' ''b'') sample_tmp
      sample_dir sample_out (CredPassword [1] None) Fast False NoPadding False None False (bundle_world ''a'' ''b'') =
      (Inr (sample_manifest ''a'' ''b''), w1)"
    using sample_password_pack [OF sample_ab(1)] by metis
  have "sort_key (\<lambda>fe. join_slash (we_names fe)) (walk_files (sample_walk ''a'' ''b'')) =
      [sample_walk_file ''a'', sample_walk_file ''b'']"
    by (simp add: sample_walk_def sample_walk_file_def)
  with pack_records_every_file [OF run] show ?thesis by metis
qed

theorem list_bundle_sound_witness:
  "\<exists>w. list_bundle sample_prims sample_postcard sample_bundle_prims sample_scratch sample_out [1] w =
      (Inr (sample_manifest ''a'' ''b''), w) \<and>
    (\<exists>payload start. verified sample_bundle_prims payload start (sample_manifest ''a'' ''b''))"
proof -
  obtain w1 where run: "pack_directory sample_prims sample_postcard sample_bundle_prims ''1'' None (sample_walk ''a'' ''b'') sample_tmp
      sample_dir sample_out (CredPassword [1] None) Fast False NoPadding False None False (bundle_world ''a'' ''b'') =
      (Inr (sample_manifest ''a'' ''b''), w1)" "calm w1 sample_out" "temp_ok w1 sample_scratch"
    using sample_password_pack [OF sample_ab(1)] .
  have "fresh_name w1 sample_scratch" using run(3) by (simp add: temp_ok_def)
  moreover have "list_bundle sample_prims sample_postcard sample_bundle_prims sample_scratch sample_out [1] w1 =
      (Inr (sample_manifest ''a'' ''b''), w1)"
    using packed_bundle_lists [OF _ _ sample_manifest_codec run(1) sample_payload_size [OF _ sample_ab(1)] _ sample_not_under
      sample_distinct run(2,3)] by simp
  ultimately show ?thesis using list_bundle_sound [OF sample_prims_ok(2)] by metis
qed

end
