(* ===== verification/Bundle_Extract.thy ===== *)
theory Bundle_Extract
  imports Bundle_Correct
begin

text \<open>
  Extraction (the rest of bundle_stream.rs). Names are relative to the output directory, whose
  own name is the empty list. The tree below it has symbolic links and link counts; a path
  that leads through a link or out of the directory ends at a place beyond the tree, whose
  answers are given and whose changes are recorded. Extraction works on a pair: the world of the
  other theories, with the bundle, the temporary directory and the parents of the output
  directory, and the tree. The last section takes the tree from the file system of the world and
  writes it back.
\<close>

section \<open>The output directory\<close>

datatype xnode = XDir | XFile bytes nat | XLink | XSpecial

type_synonym name = "string list"

record xworld =
  x_tree :: "name \<Rightarrow> xnode option"
  x_beyond :: "name \<Rightarrow> io_error + xnode"
  x_canon :: "name \<Rightarrow> io_error + bool"
  x_changed :: "name list"
  x_denied :: "name \<Rightarrow> io_error option"
  x_disk :: "nat option"
  x_sync :: bool

datatype place = Here "xnode option" | Beyond | Broken io_error

text \<open>
  Resolving a path except for its last name; \<open>..\<close> and the root lead out of the directory.
\<close>

definition leads_out :: "string \<Rightarrow> bool" where
  "leads_out n \<longleftrightarrow> n = ''..'' \<or> n = ''/''"

fun reach :: "(name \<Rightarrow> xnode option) \<Rightarrow> name \<Rightarrow> name \<Rightarrow> place" where
  "reach t cur [] = Here (t cur)"
| "reach t cur (n # ns) =
     (case t cur of
        Some XDir \<Rightarrow> (if leads_out n then Beyond else reach t (cur @ [n]) ns)
      | Some XLink \<Rightarrow> Beyond
      | None \<Rightarrow> Broken NotFound
      | Some _ \<Rightarrow> Broken OtherIo)"

definition at :: "xworld \<Rightarrow> name \<Rightarrow> place" where
  "at x k = reach (x_tree x) [] k"

definition symlink_metadata :: "name \<Rightarrow> (xworld, io_error, xnode) action" where
  "symlink_metadata k x =
     (case at x k of
        Here None \<Rightarrow> Inl NotFound | Here (Some n) \<Rightarrow> Inr n | Beyond \<Rightarrow> x_beyond x k | Broken e \<Rightarrow> Inl e, x)"

text \<open>\<open>Path::exists\<close> follows a link at the end.\<close>

definition exists_at :: "xworld \<Rightarrow> name \<Rightarrow> bool" where
  "exists_at x k =
     (case at x k of
        Here None \<Rightarrow> False | Here (Some XLink) \<Rightarrow> is_ok (x_beyond x k) | Here (Some _) \<Rightarrow> True
      | Beyond \<Rightarrow> is_ok (x_beyond x k) | Broken _ \<Rightarrow> False)"

text \<open>\<open>canonicalize\<close> and whether the result lies in the canonical output directory.\<close>

definition canonical_inside :: "name \<Rightarrow> (xworld, io_error, bool) action" where
  "canonical_inside k x =
     (case at x k of
        Here None \<Rightarrow> Inl NotFound | Here (Some XLink) \<Rightarrow> x_canon x k | Here (Some _) \<Rightarrow> Inr True
      | Beyond \<Rightarrow> x_canon x k | Broken e \<Rightarrow> Inl e, x)"

definition set_node :: "name \<Rightarrow> xnode \<Rightarrow> xworld \<Rightarrow> xworld" where
  "set_node k n x = x\<lparr>x_tree := (x_tree x)(k \<mapsto> n)\<rparr>"

definition change_beyond :: "name \<Rightarrow> xworld \<Rightarrow> xworld" where
  "change_beyond k x = x\<lparr>x_changed := x_changed x @ [k]\<rparr>"

definition create_dir :: "name \<Rightarrow> (xworld, io_error, unit) action" where
  "create_dir k x =
     (case x_denied x k of
        Some e \<Rightarrow> (Inl e, x)
      | None \<Rightarrow>
          (case at x k of
             Here None \<Rightarrow> (Inr (), set_node k XDir x)
           | Here (Some _) \<Rightarrow> (Inl AlreadyExists, x)
           | Beyond \<Rightarrow> (Inr (), change_beyond k x)
           | Broken e \<Rightarrow> (Inl e, x)))"

text \<open>
  \<open>fs::create_dir_all\<close> of the output directory: an existing directory, even behind a link, is fine,
  and the missing parents of a new one are made in the world. The empty path is accepted.
\<close>

definition create_output_dir :: "path \<Rightarrow> (world \<times> xworld, io_error, unit) action" where
  "create_output_dir out_dir = (\<lambda>(w, x).
     if out_dir = Path False [] then (Inr (), w, x)
     else case x_tree x [] of
         None \<Rightarrow>
           (case make_dirs [] (butlast (resolve w out_dir)) w of
              (Inl e, w1) \<Rightarrow> (Inl e, w1, x)
            | (Inr _, w1) \<Rightarrow> (case create_dir [] x of (r, x1) \<Rightarrow> (r, w1, x1)))
       | Some XDir \<Rightarrow> (Inr (), w, x)
       | Some XLink \<Rightarrow> (if x_beyond x [] = Inr XDir then Inr () else Inl AlreadyExists, w, x)
       | Some _ \<Rightarrow> (Inl AlreadyExists, w, x))"

definition new_temp_in :: "name \<Rightarrow> (xworld, io_error, writer) action" where
  "new_temp_in k x =
     (case at x k of
        Here None \<Rightarrow> Inl NotFound
      | Here (Some n) \<Rightarrow> (if n = XDir \<or> n = XLink then Inr (fresh_writer (x_disk x)) else Inl OtherIo)
      | Beyond \<Rightarrow> Inr (fresh_writer (x_disk x))
      | Broken e \<Rightarrow> Inl e, x)"

definition sync_at :: "name \<Rightarrow> (xworld, io_error, unit) action" where
  "sync_at k x =
     (case at x k of
        Here None \<Rightarrow> Inl NotFound
      | Broken e \<Rightarrow> Inl e
      | _ \<Rightarrow> (if x_sync x then Inr () else Inl OtherIo), x)"

definition sync_temp_file :: "(xworld, io_error, unit) action" where
  "sync_temp_file x = (if x_sync x then Inr () else Inl OtherIo, x)"

definition persist_at :: "bytes \<Rightarrow> name \<Rightarrow> (xworld, io_error, unit) action" where
  "persist_at bs k x =
     (case at x k of
        Here (Some XDir) \<Rightarrow> (Inl OtherIo, x)
      | Here _ \<Rightarrow> (Inr (), set_node k (XFile bs 1) x)
      | Beyond \<Rightarrow> (Inr (), change_beyond k x)
      | Broken e \<Rightarrow> (Inl e, x))"

definition persist_noclobber_at :: "bytes \<Rightarrow> name \<Rightarrow> (xworld, io_error, unit) action" where
  "persist_noclobber_at bs k x =
     (case at x k of
        Here (Some _) \<Rightarrow> (Inl AlreadyExists, x)
      | Here None \<Rightarrow> (Inr (), set_node k (XFile bs 1) x)
      | Beyond \<Rightarrow> (if is_ok (x_beyond x k) then (Inl AlreadyExists, x) else (Inr (), change_beyond k x))
      | Broken e \<Rightarrow> (Inl e, x))"

section \<open>The guards\<close>

text \<open>\<open>shw\<close> prints a path below the output directory.\<close>

definition validate_existing_target :: "(name \<Rightarrow> string) \<Rightarrow> name \<Rightarrow> (xworld, bundle_error, unit) action" where
  "validate_existing_target shw k =
     act (act_map_err BIo (symlink_metadata k)) (\<lambda>md.
       lift (case md of
           XLink \<Rightarrow> Inl (SymlinkRejected (shw k))
         | XFile _ nlink \<Rightarrow> ensure (nlink = 1) (HardlinkRejected (shw k))
         | _ \<Rightarrow> Inl (SpecialFileRejected (shw k))))"

definition validate_extraction_directory :: "(name \<Rightarrow> string) \<Rightarrow> name \<Rightarrow> (xworld, bundle_error, unit) action" where
  "validate_extraction_directory shw k =
     act (act_map_err BIo (symlink_metadata k)) (\<lambda>md.
       lift (case md of
           XLink \<Rightarrow> Inl (SymlinkRejected (shw k))
         | XDir \<Rightarrow> Inr ()
         | _ \<Rightarrow> Inl (SpecialFileRejected (shw k))))"

text \<open>One component of the loop of \<open>ensure_safe_extraction_parent\<close>, and the loop.\<close>

definition ensure_component :: "(name \<Rightarrow> string) \<Rightarrow> name \<Rightarrow> (xworld, bundle_error, unit) action" where
  "ensure_component shw current x =
     (case symlink_metadata current x of
        (Inr _, x1) \<Rightarrow> validate_extraction_directory shw current x1
      | (Inl NotFound, x1) \<Rightarrow>
          act (act_map_err BIo (create_dir current)) (\<lambda>_. validate_extraction_directory shw current) x1
      | (Inl e, x1) \<Rightarrow> (Inl (BIo e), x1))"

fun ensure_components :: "(name \<Rightarrow> string) \<Rightarrow> name \<Rightarrow> string list \<Rightarrow> (xworld, bundle_error, unit) action" where
  "ensure_components shw current [] = ret ()"
| "ensure_components shw current (n # ns) =
     act (ensure_component shw (current @ [n])) (\<lambda>_. ensure_components shw (current @ [n]) ns)"

definition ensure_safe_extraction_parent :: "(name \<Rightarrow> string) \<Rightarrow> name \<Rightarrow> (xworld, bundle_error, unit) action" where
  "ensure_safe_extraction_parent shw par =
     act (validate_extraction_directory shw []) (\<lambda>_. ensure_components shw [] par)"

text \<open>The \<open>match\<close> on the metadata of the target before it is written.\<close>

definition check_target :: "(name \<Rightarrow> string) \<Rightarrow> bool \<Rightarrow> name \<Rightarrow> (xworld, bundle_error, unit) action" where
  "check_target shw force k x =
     (case symlink_metadata k x of
        (Inr _, x1) \<Rightarrow>
          if \<not> force then (Inl (BOutputExists (shw k)), x1) else validate_existing_target shw k x1
      | (Inl NotFound, x1) \<Rightarrow> (Inr (), x1)
      | (Inl e, x1) \<Rightarrow> (Inl (BIo e), x1))"

definition persist_output :: "(name \<Rightarrow> string) \<Rightarrow> bytes \<Rightarrow> name \<Rightarrow> bool \<Rightarrow> (xworld, bundle_error, unit) action" where
  "persist_output shw bs target force x =
     act (if force \<and> exists_at x target
          then act (validate_existing_target shw target) (\<lambda>_. act_map_err BIo (persist_at bs target))
          else act_map_err (\<lambda>e. if e = AlreadyExists then BOutputExists (shw target) else BIo e)
            (persist_noclobber_at bs target)) (\<lambda>_.
       act_map_err BIo (sync_at (butlast target))) x"

section \<open>Extraction\<close>

definition copy_entry ::
  "bytes \<Rightarrow> u64 \<Rightarrow> bundle_entry \<Rightarrow> reader \<Rightarrow> writer \<Rightarrow> bundle_error + reader \<times> writer" where
  "copy_entry all data_start en rd wr =
     rbind (ok_or (ManifestError ''File offset overflow'') (checked_add_u64 data_start (be_offset en))) (\<lambda>start.
       case pump (ManifestError (''File data truncated for: '' @ relative_path en)) (unat (be_size en))
           (seek_start all start rd) wr of
         (Inl e, _, _) \<Rightarrow> Inl e
       | (Inr _, rd1, wr1) \<Rightarrow> Inr (rd1, wr1))"

definition extract_entry ::
  "(name \<Rightarrow> string) \<Rightarrow> bytes \<Rightarrow> u64 \<Rightarrow> bool \<Rightarrow> bundle_entry \<Rightarrow> reader \<Rightarrow> (xworld, bundle_error, reader) action" where
  "extract_entry shw all data_start force en rd =
     act (lift (validate_relative_path (relative_path en))) (\<lambda>target.
     let par = butlast target in
     act (ensure_safe_extraction_parent shw par) (\<lambda>_.
     act (act_map_err BIo (canonical_inside par)) (\<lambda>inside.
     act (lift (ensure inside
       (PathTraversal (''Resolved path escapes output directory: '' @ relative_path en)))) (\<lambda>_.
     act (check_target shw force target) (\<lambda>_.
     act (act_map_err BIo (new_temp_in par)) (\<lambda>output.
     act (lift (copy_entry all data_start en rd output)) (\<lambda>(rd1, output).
     act (act_map_err BIo sync_temp_file) (\<lambda>_.
     act (persist_output shw (w_data output) target force) (\<lambda>_.
       ret rd1)))))))))"

fun extract_entries ::
  "(name \<Rightarrow> string) \<Rightarrow> bytes \<Rightarrow> u64 \<Rightarrow> bool \<Rightarrow> bundle_entry list \<Rightarrow> reader \<Rightarrow> (xworld, bundle_error, unit) action" where
  "extract_entries shw all data_start force [] rd = ret ()"
| "extract_entries shw all data_start force (en # es) rd =
     act (extract_entry shw all data_start force en rd) (\<lambda>rd1. extract_entries shw all data_start force es rd1)"

text \<open>A step on the tree.\<close>

definition on_tree :: "(xworld, 'e, 'a) action \<Rightarrow> (world \<times> xworld, 'e, 'a) action" where
  "on_tree m = (\<lambda>(w, x). case m x of (r, x1) \<Rightarrow> (r, w, x1))"

text \<open>The part of \<open>extract_bundle\<close> after all entries are verified.\<close>

definition extract_into ::
  "(name \<Rightarrow> string) \<Rightarrow> bool \<Rightarrow> decrypted_bundle \<Rightarrow> (xworld, bundle_error, bundle_manifest) action" where
  "extract_into shw force b =
     act (validate_extraction_directory shw []) (\<lambda>_.
     act (act_map_err BIo (canonical_inside [])) (\<lambda>_.
     act (extract_entries shw (db_all b) (db_data_start b) force (entries (db_manifest b)) (db_file b)) (\<lambda>_.
       ret (db_manifest b))))"

definition extract_verified ::
  "path \<Rightarrow> bool \<Rightarrow> bool \<Rightarrow> decrypted_bundle \<Rightarrow> (world \<times> xworld, bundle_error, bundle_manifest) action" where
  "extract_verified out_dir force dry_run b =
     (if dry_run then ret (db_manifest b)
      else
        act (act_map_err BIo (create_output_dir out_dir)) (\<lambda>_.
          on_tree (extract_into (\<lambda>k. display (below out_dir k)) force b)))"

definition extract_bundle ::
  "prims \<Rightarrow> postcard \<Rightarrow> bundle_prims \<Rightarrow> path \<Rightarrow> path \<Rightarrow> path \<Rightarrow> bytes \<Rightarrow> bool \<Rightarrow> bool \<Rightarrow>
   (world \<times> xworld, bundle_error, bundle_manifest) action" where
  "extract_bundle P S B tmp in_file out_dir password force dry_run = (\<lambda>(w, x).
     case decrypt_and_open P S B tmp in_file password w of
       (Inl e, w1) \<Rightarrow> (Inl e, w1, x)
     | (Inr b, w1) \<Rightarrow>
         (case verify_all B b of
            Inl e \<Rightarrow> (Inl e, w1, x)
          | Inr b \<Rightarrow> extract_verified out_dir force dry_run b (w1, x)))"

section \<open>The tree in the file system\<close>

text \<open>
  What the file system of the world does not tell: which special entries are symbolic links, how
  many links a file has, what lies behind links, where they lead, and where no directory can be
  made. Links lead to places that the world does not name otherwise.
\<close>

record link_info =
  li_symlink :: "string list \<Rightarrow> bool"
  li_nlink :: "string list \<Rightarrow> nat"
  li_beyond :: "string list \<Rightarrow> io_error + xnode"
  li_canon :: "string list \<Rightarrow> name \<Rightarrow> io_error + bool"
  li_denied :: "string list \<Rightarrow> io_error option"

definition node_view :: "link_info \<Rightarrow> string list \<Rightarrow> node \<Rightarrow> xnode" where
  "node_view L k n = (case n of
       Directory \<Rightarrow> XDir
     | Regular bs \<Rightarrow> XFile bs (li_nlink L k)
     | Special \<Rightarrow> if li_symlink L k then XLink else XSpecial)"

fun node_back :: "xnode \<Rightarrow> node" where
  "node_back XDir = Directory"
| "node_back (XFile bs _) = Regular bs"
| "node_back XLink = Special"
| "node_back XSpecial = Special"

lemma node_back_view [simp]: "node_back (node_view L k n) = n"
  by (cases n) (simp_all add: node_view_def)

definition tree_of :: "link_info \<Rightarrow> world \<Rightarrow> path \<Rightarrow> xworld" where
  "tree_of L w out_dir =
     \<lparr>x_tree = (\<lambda>k. if out_dir = Path False [] then None
        else map_option (node_view L (resolve w out_dir @ k)) (w_fs w (resolve w out_dir @ k))),
      x_beyond = (\<lambda>k. li_beyond L (resolve w out_dir @ k)), x_canon = li_canon L (resolve w out_dir),
      x_changed = [], x_denied = (\<lambda>k. li_denied L (resolve w out_dir @ k)), x_disk = w_disk w, x_sync = w_sync w\<rparr>"

definition write_back :: "path \<Rightarrow> world \<times> xworld \<Rightarrow> world" where
  "write_back out_dir = (\<lambda>(w, x).
     if out_dir = Path False [] then w
     else w\<lparr>w_fs := (\<lambda>q. if under w out_dir q
       then map_option node_back (x_tree x (drop (length (resolve w out_dir)) q)) else w_fs w q)\<rparr>)"

end
