(* ===== verification/Extract_Correct.thy ===== *)
theory Extract_Correct
  imports Bundle_Extract Bundle_Claims
begin

text \<open>
  Extraction stays inside the output directory, replaces nothing it should not, writes only
  authenticated bytes, and restores what was packed.
\<close>

section \<open>What may change\<close>

text \<open>
  The files to write are given as names with contents. A name may stay as it is, become a
  directory on the way to a file if it was free, or become one of the files with one link,
  if it was free or, by force, a file with one link.
\<close>

definition strict_prefix_of :: "name \<Rightarrow> name \<Rightarrow> bool" where
  "strict_prefix_of k t \<longleftrightarrow> length k < length t \<and> take (length k) t = k"

definition may_replace :: "bool \<Rightarrow> xnode option \<Rightarrow> bool" where
  "may_replace force n \<longleftrightarrow> n = None \<or> force \<and> (\<exists>old. n = Some (XFile old 1))"

definition on_the_way :: "(name \<times> bytes) set \<Rightarrow> name \<Rightarrow> bool" where
  "on_the_way fs k \<longleftrightarrow> k = [] \<or> (\<exists>f \<in> fs. strict_prefix_of k (fst f))"

definition change_ok :: "(name \<times> bytes) set \<Rightarrow> bool \<Rightarrow> name \<Rightarrow> xnode option \<Rightarrow> xnode option \<Rightarrow> bool" where
  "change_ok fs force k old new \<longleftrightarrow> new = old \<or> old = None \<and> new = Some XDir \<and> on_the_way fs k \<or>
     (\<exists>bs. (k, bs) \<in> fs \<and> new = Some (XFile bs 1) \<and> may_replace force old)"

definition extracted :: "(name \<times> bytes) set \<Rightarrow> bool \<Rightarrow> xworld \<Rightarrow> xworld \<Rightarrow> bool" where
  "extracted fs force x x' \<longleftrightarrow>
     x_changed x' = x_changed x \<and> x_beyond x' = x_beyond x \<and> x_canon x' = x_canon x \<and>
     (\<forall>k. change_ok fs force k (x_tree x k) (x_tree x' k))"

lemma change_ok_refl [simp]: "change_ok fs force k n n"
  by (simp add: change_ok_def)

lemma change_ok_trans: "change_ok fs force k a b \<Longrightarrow> change_ok fs force k b c \<Longrightarrow> change_ok fs force k a c"
  by (auto simp: change_ok_def may_replace_def)

lemma change_ok_mono: "change_ok fs force k a b \<Longrightarrow> fs \<subseteq> gs \<Longrightarrow> change_ok gs force k a b"
  unfolding change_ok_def on_the_way_def by blast

lemma change_ok_dir: "change_ok fs force k (Some XDir) n \<Longrightarrow> n = Some XDir"
  by (auto simp: change_ok_def may_replace_def)

lemma extracted_refl [simp]: "extracted fs force x x"
  by (simp add: extracted_def)

lemma extracted_mono: "extracted fs force x x' \<Longrightarrow> fs \<subseteq> gs \<Longrightarrow> extracted gs force x x'"
  by (auto simp: extracted_def intro: change_ok_mono)

lemma extracted_at: "extracted fs force x x' \<Longrightarrow> change_ok fs force k (x_tree x k) (x_tree x' k)"
  by (simp add: extracted_def)

lemma extracted_trans: "extracted fs force x y \<Longrightarrow> extracted fs force y z \<Longrightarrow> extracted fs force x z"
  by (auto simp: extracted_def intro: change_ok_trans)

text \<open>A path of directories that stays inside; directories stay.\<close>

definition inner :: "name \<Rightarrow> bool" where
  "inner k \<longleftrightarrow> (\<forall>n \<in> set k. \<not> leads_out n)"

lemma inner_simps [simp]: "inner []" "inner (n # k) \<longleftrightarrow> \<not> leads_out n \<and> inner k" "inner (j @ k) \<longleftrightarrow> inner j \<and> inner k"
  by (auto simp: inner_def)

lemma inner_validated:
  assumes "validate_relative_path p = Inr k"
  shows "inner k"
  unfolding inner_def
proof
  fix n assume "n \<in> set k"
  then have "safe_name n" using validate_relative_path_Inr [OF assms] by (simp add: list_all_iff)
  then show "\<not> leads_out n" by (auto simp: safe_name_def leads_out_def)
qed

definition clear :: "xworld \<Rightarrow> name \<Rightarrow> bool" where
  "clear x k \<longleftrightarrow> inner k \<and> (\<forall>i \<le> length k. x_tree x (take i k) = Some XDir)"

lemma clear_extracted:
  assumes "extracted fs force x x'" "clear x k"
  shows "clear x' k"
proof -
  have "x_tree x' (take i k) = Some XDir" if "i \<le> length k" for i
    using extracted_at [OF assms(1), of "take i k"] assms(2) that by (simp add: clear_def change_ok_dir)
  then show ?thesis using assms(2) by (simp add: clear_def)
qed

lemma reach_clear:
  "inner ns \<Longrightarrow> (\<forall>i < length ns. t (cur @ take i ns) = Some XDir) \<Longrightarrow> reach t cur ns = Here (t (cur @ ns))"
proof (induction ns arbitrary: cur)
  case Nil
  then show ?case by simp
next
  case (Cons n ns)
  have "t cur = Some XDir" using Cons.prems(2) [rule_format, of 0] by simp
  moreover have "\<forall>i < length ns. t ((cur @ [n]) @ take i ns) = Some XDir"
    using Cons.prems(2) [rule_format, of "Suc _"] by simp
  ultimately show ?case using Cons.IH [of "cur @ [n]"] Cons.prems(1) by simp
qed

lemma at_clear:
  assumes "clear x par"
  shows "at x par = Here (Some XDir)" "\<not> leads_out n \<Longrightarrow> at x (par @ [n]) = Here (x_tree x (par @ [n]))"
proof -
  have par: "inner par" using assms by (simp add: clear_def)
  have "x_tree x (take i (par @ [n])) = Some XDir" if "i < length (par @ [n])" for i
    using assms that by (simp add: clear_def)
  then show "at x (par @ [n]) = Here (x_tree x (par @ [n]))" if "\<not> leads_out n"
    unfolding at_def using par that by (simp add: reach_clear)
  have "x_tree x (take i par) = Some XDir" if "i \<le> length par" for i using assms that by (simp add: clear_def)
  then show "at x par = Here (Some XDir)"
    unfolding at_def using reach_clear [OF par, of "x_tree x" "[]"] by (metis append_Nil less_imp_le order_refl take_all)
qed

lemma clear_snoc: "clear x (cur @ [n]) \<longleftrightarrow> clear x cur \<and> \<not> leads_out n \<and> x_tree x (cur @ [n]) = Some XDir"
  by (auto simp: clear_def le_Suc_eq)

lemma at_root [simp]: "at x [] = Here (x_tree x [])"
  by (simp add: at_def)

section \<open>The guards\<close>

lemma validate_dir_world: "snd (validate_extraction_directory shw k x) = x"
  by (auto simp: validate_extraction_directory_def act_def act_map_err_def symlink_metadata_def lift_def
      split: sum.splits)

lemma validate_dir_Inr:
  "validate_extraction_directory shw k x = (Inr u, x') \<Longrightarrow> at x k = Here n \<Longrightarrow> n = Some XDir"
  by (auto simp: validate_extraction_directory_def res_elims symlink_metadata_def
      split: option.splits xnode.splits)

lemma validate_target_world: "snd (validate_existing_target shw k x) = x"
  by (auto simp: validate_existing_target_def act_def act_map_err_def symlink_metadata_def lift_def
      split: sum.splits)

lemma validate_target_Inr:
  "validate_existing_target shw k x = (Inr u, x') \<Longrightarrow> at x k = Here n \<Longrightarrow> \<exists>old. n = Some (XFile old 1)"
  by (auto simp: validate_existing_target_def res_elims symlink_metadata_def
      split: option.splits xnode.splits)

lemma set_dir_extracted:
  assumes "x_tree x k = None" "k = [] \<or> strict_prefix_of k t"
  shows "extracted {(t, bs)} force x (set_node k XDir x)"
  using assms by (auto simp: extracted_def set_node_def change_ok_def on_the_way_def)

lemma ensure_component_extracted:
  assumes run: "ensure_component shw (cur @ [n]) x = (r, x')" and cl: "clear x cur" and n: "\<not> leads_out n"
    and pre: "strict_prefix_of (cur @ [n]) t"
  shows "extracted {(t, bs)} force x x'" "r = Inr () \<Longrightarrow> clear x' (cur @ [n])"
proof -
  note at = at_clear(2) [OF cl n]
  have "extracted {(t, bs)} force x x' \<and> (r = Inr () \<longrightarrow> clear x' (cur @ [n]))"
  proof (cases "x_tree x (cur @ [n])")
    case (Some node)
    then have v: "validate_extraction_directory shw (cur @ [n]) x = (r, x')"
      using run at by (simp add: ensure_component_def symlink_metadata_def)
    then have "x' = x" using validate_dir_world [of shw "cur @ [n]" x] by simp
    with v validate_dir_Inr [OF _ at, of shw "()" x] Some cl n show ?thesis by (auto simp: clear_snoc)
  next
    case None
    then have run1: "act (act_map_err BIo (create_dir (cur @ [n]))) (\<lambda>_. validate_extraction_directory shw (cur @ [n])) x = (r, x')"
      using run at by (simp add: ensure_component_def symlink_metadata_def)
    let ?x1 = "set_node (cur @ [n]) XDir x"
    show ?thesis
    proof (cases "x_denied x (cur @ [n])")
      case (Some e)
      with run1 show ?thesis by (auto simp: act_def act_map_err_def create_dir_def)
    next
      case None': None
      have "create_dir (cur @ [n]) x = (Inr (), ?x1)"
        using None None' at by (simp add: create_dir_def)
      with run1 have "validate_extraction_directory shw (cur @ [n]) ?x1 = (r, x')"
        by (simp add: act_def act_map_err_def)
      then have x': "x' = ?x1" using validate_dir_world [of shw "cur @ [n]" ?x1] by simp
      have e: "extracted {(t, bs)} force x ?x1" using set_dir_extracted [OF None] pre by blast
      then have "clear ?x1 (cur @ [n])" using clear_extracted [OF e cl] n by (simp add: clear_snoc) (simp add: set_node_def)
      with e x' show ?thesis by blast
    qed
  qed
  then show "extracted {(t, bs)} force x x'" "r = Inr () \<Longrightarrow> clear x' (cur @ [n])" by blast+
qed

lemma strict_prefix_of_app: "ms \<noteq> [] \<Longrightarrow> strict_prefix_of ks (ks @ ms)"
  by (simp add: strict_prefix_of_def)

lemma ensure_components_extracted:
  "ensure_components shw cur ns x = (r, x') \<Longrightarrow> clear x cur \<Longrightarrow> t = cur @ ns @ [m] \<Longrightarrow> inner ns \<Longrightarrow>
     extracted {(t, bs)} force x x' \<and> (r = Inr () \<longrightarrow> clear x' (cur @ ns))"
proof (induction ns arbitrary: cur x)
  case Nil
  then show ?case by simp
next
  case (Cons n ns)
  obtain q x1 where q: "ensure_component shw (cur @ [n]) x = (q, x1)" by fastforce
  have "strict_prefix_of (cur @ [n]) ((cur @ [n]) @ ns @ [m])" by (rule strict_prefix_of_app) simp
  then have pre: "strict_prefix_of (cur @ [n]) t" by (simp add: Cons.prems(3))
  have n: "\<not> leads_out n" "inner ns" using Cons.prems(4) by simp_all
  note one = ensure_component_extracted [OF q Cons.prems(2) n(1) pre]
  show ?case
  proof (cases q)
    case (Inl e)
    with Cons.prems(1) q one show ?thesis by (auto simp: act_def)
  next
    case (Inr u)
    then have "ensure_components shw (cur @ [n]) ns x1 = (r, x')" using Cons.prems(1) q by (simp add: act_def)
    from Cons.IH [OF this] one(2) Inr Cons.prems(3) n(2)
    have "extracted {(t, bs)} force x1 x' \<and> (r = Inr () \<longrightarrow> clear x' ((cur @ [n]) @ ns))" by simp
    with extracted_trans [OF one(1)] show ?thesis by simp
  qed
qed

lemma ensure_parent_extracted:
  assumes run: "ensure_safe_extraction_parent shw par x = (r, x')" and inner: "inner par"
  shows "extracted {(par @ [m], bs)} force x x'" "r = Inr () \<Longrightarrow> clear x' par"
proof -
  obtain q x1 where q: "validate_extraction_directory shw [] x = (q, x1)" by fastforce
  then have x1: "x1 = x" using validate_dir_world [of shw "[]" x] by simp
  have "extracted {(par @ [m], bs)} force x x' \<and> (r = Inr () \<longrightarrow> clear x' par)"
  proof (cases q)
    case (Inl e)
    with run q x1 show ?thesis by (auto simp: ensure_safe_extraction_parent_def act_def)
  next
    case (Inr u)
    then have "clear x []" using validate_dir_Inr [OF q [unfolded Inr]] by (simp add: clear_def)
    moreover have "ensure_components shw [] par x = (r, x')"
      using run q x1 Inr by (simp add: ensure_safe_extraction_parent_def act_def)
    ultimately show ?thesis using ensure_components_extracted [of shw "[]" par x r x' "par @ [m]" m] inner by simp
  qed
  then show "extracted {(par @ [m], bs)} force x x'" "r = Inr () \<Longrightarrow> clear x' par" by blast+
qed

lemma check_target_world: "snd (check_target shw force k x) = x"
proof -
  obtain q x1 where q: "symlink_metadata k x = (q, x1)" by fastforce
  then have "x1 = x" by (simp add: symlink_metadata_def)
  with q validate_target_world [of shw k x] show ?thesis
    by (auto simp: check_target_def split: sum.splits io_error.splits)
qed

section \<open>Putting a file in place\<close>

lemma set_file_extracted:
  "may_replace force (x_tree x k) \<Longrightarrow> extracted {(k, bs)} force x (set_node k (XFile bs 1) x)"
  by (simp add: extracted_def set_node_def change_ok_def)

lemma sync_at_world: "snd (sync_at k x) = x"
  by (simp add: sync_at_def)

lemma persist_at_clear:
  assumes "at x k = Here n" "n \<noteq> Some XDir"
  shows "persist_at bs k x = (Inr (), set_node k (XFile bs 1) x)"
  using assms by (auto simp: persist_at_def split: option.splits xnode.splits)

lemma persist_noclobber_clear:
  assumes "at x k = Here n"
  shows "persist_noclobber_at bs k x = (if n = None then (Inr (), set_node k (XFile bs 1) x) else (Inl AlreadyExists, x))"
  using assms by (auto simp: persist_noclobber_at_def split: option.splits)

lemma persist_output_extracted:
  assumes run: "persist_output shw bs (par @ [n]) force x = (r, x')" and cl: "clear x par" and n: "\<not> leads_out n"
  shows "extracted {(par @ [n], bs)} force x x'" "r = Inr () \<Longrightarrow> x_tree x' (par @ [n]) = Some (XFile bs 1)"
proof -
  let ?k = "par @ [n]" and ?x1 = "set_node (par @ [n]) (XFile bs 1) x"
  note at = at_clear(2) [OF cl n]
  let ?put = "if force \<and> exists_at x ?k
          then act (validate_existing_target shw ?k) (\<lambda>_. act_map_err BIo (persist_at bs ?k))
          else act_map_err (\<lambda>e. if e = AlreadyExists then BOutputExists (shw ?k) else BIo e) (persist_noclobber_at bs ?k)"
  obtain q y where q: "?put x = (q, y)" by fastforce
  have y: "(\<exists>e. q = Inl e) \<and> y = x \<or> q = Inr () \<and> y = ?x1 \<and> may_replace force (x_tree x ?k)"
  proof (cases "force \<and> exists_at x ?k")
    case False
    then show ?thesis using q persist_noclobber_clear [OF at, of bs]
      by (auto simp: act_map_err_def may_replace_def split: if_splits)
  next
    case True
    obtain v z where v: "validate_existing_target shw ?k x = (v, z)" by fastforce
    then have z: "z = x" using validate_target_world [of shw ?k x] by simp
    show ?thesis
    proof (cases v)
      case (Inl e)
      with q v z True show ?thesis by (auto simp: act_def)
    next
      case (Inr u)
      from validate_target_Inr [OF v [unfolded Inr] at] obtain old where old: "x_tree x ?k = Some (XFile old 1)" by blast
      then have "persist_at bs ?k x = (Inr (), ?x1)" using persist_at_clear [OF at] by simp
      with q v z True Inr old show ?thesis by (auto simp: act_def act_map_err_def may_replace_def)
    qed
  qed
  obtain s x2 where s: "sync_at par y = (s, x2)" by fastforce
  then have x2: "x2 = y" using sync_at_world [of par y] by simp
  have "x' = y \<and> (r = Inr () \<longrightarrow> q = Inr ())"
  proof (cases q)
    case (Inl e)
    with run q show ?thesis unfolding persist_output_def by (auto simp: act_def)
  next
    case (Inr u)
    with run q s x2 show ?thesis unfolding persist_output_def by (auto simp: act_def act_map_err_def)
  qed
  with y set_file_extracted [of force x ?k bs]
  show "extracted {(?k, bs)} force x x'" "r = Inr () \<Longrightarrow> x_tree x' ?k = Some (XFile bs 1)"
    by (auto simp: set_node_def)
qed

section \<open>One entry\<close>

lemma copy_entry_Inr:
  assumes "copy_entry all ds en rd (fresh_writer room) = Inr (rd', wr)"
  shows "w_data wr = entry_bytes all ds en"
proof -
  from assms obtain start where st: "checked_add_u64 ds (be_offset en) = Some start"
    by (cases "checked_add_u64 ds (be_offset en)") (simp_all add: copy_entry_def)
  obtain e q rd1 wr1 where p: "pump e (unat (be_size en)) (seek_start all start rd) (fresh_writer room) = (q, rd1, wr1)"
      "e = ManifestError (''File data truncated for: '' @ relative_path en)"
    by (metis prod_cases3)
  with assms st have "q = Inr ()" "wr = wr1" by (cases q; simp add: copy_entry_def)+
  with p pump_Inr [of e _ "seek_start all start rd"] checked_add_u64_Some [OF st] show ?thesis
    by (simp add: entry_bytes_def seek_start_def)
qed

lemma new_temp_world: "snd (new_temp_in k x) = x"
  by (simp add: new_temp_in_def)

lemma new_temp_Inr: "new_temp_in k x = (Inr wr, x') \<Longrightarrow> \<exists>room. wr = fresh_writer room"
  by (auto simp: new_temp_in_def split: place.splits option.splits if_splits)

text \<open>The files an extraction is to write.\<close>

definition files_of :: "bytes \<Rightarrow> u64 \<Rightarrow> bundle_entry list \<Rightarrow> (name \<times> bytes) set" where
  "files_of all ds es = {(k, entry_bytes all ds en) | k en. en \<in> set es \<and> validate_relative_path (relative_path en) = Inr k}"

lemma files_of_simps [simp]:
  "files_of all ds [] = {}"
  "validate_relative_path (relative_path en) = Inr k \<Longrightarrow>
     files_of all ds (en # es) = insert (k, entry_bytes all ds en) (files_of all ds es)"
  "validate_relative_path (relative_path en) = Inl e \<Longrightarrow> files_of all ds (en # es) = files_of all ds es"
  by (auto simp: files_of_def)

lemma extract_entry_extracted:
  assumes run: "extract_entry shw all ds force en rd x = (r, x')"
  shows "extracted (files_of all ds [en]) force x x'"
    and "r = Inr rd' \<Longrightarrow> validate_relative_path (relative_path en) = Inr k \<Longrightarrow>
      x_tree x' k = Some (XFile (entry_bytes all ds en) 1)"
    and "r = Inr rd' \<Longrightarrow> is_ok (validate_relative_path (relative_path en))"
proof -
  let ?bs = "entry_bytes all ds en"
  have "extracted (files_of all ds [en]) force x x' \<and> (\<forall>rd' . r = Inr rd' \<longrightarrow>
      (\<exists>k. validate_relative_path (relative_path en) = Inr k \<and> x_tree x' k = Some (XFile ?bs 1)))"
  proof (cases "validate_relative_path (relative_path en)")
    case (Inl e)
    with run show ?thesis by (auto simp: extract_entry_def)
  next
    case (Inr k)
    with validate_relative_path_Inr obtain par n where k: "k = par @ [n]" by (metis append_butlast_last_id)
    have fs: "files_of all ds [en] = {(par @ [n], ?bs)}" using Inr k by simp
    have inner: "inner par" "\<not> leads_out n" using inner_validated [OF Inr] k by simp_all
    note run1 = run [unfolded extract_entry_def Inr k Let_def act_lift butlast_snoc]
    obtain q1 x1 where q1: "ensure_safe_extraction_parent shw par x = (q1, x1)" by fastforce
    note e1 = ensure_parent_extracted(1) [OF q1 inner(1), of n ?bs force] and cl1 = ensure_parent_extracted(2) [OF q1 inner(1)]
    show ?thesis
    proof (cases q1)
      case (Inl e)
      with run1 q1 e1 fs show ?thesis by (auto simp: act_def)
    next
      case Inr1: (Inr u)
      then have cl: "clear x1 par" using cl1 by simp
      obtain q2 y2 where q2: "check_target shw force (par @ [n]) x1 = (q2, y2)" by fastforce
      then have y2: "y2 = x1" using check_target_world [of shw force "par @ [n]" x1] by simp
      obtain q3 y3 where q3: "new_temp_in par x1 = (q3, y3)" by fastforce
      then have y3: "y3 = x1" using new_temp_world [of par x1] by simp
      have ci: "canonical_inside par x1 = (Inr True, x1)"
        by (simp add: canonical_inside_def at_clear(1) [OF cl])
      have "x' = x1 \<and> (\<forall>rd'. r \<noteq> Inr rd') \<or> (\<exists>rd1 output. q3 = Inr output \<and>
          (\<exists>wr. copy_entry all ds en rd output = Inr (rd1, wr) \<and>
            (\<exists>v. persist_output shw (w_data wr) (par @ [n]) force x1 = (v, x') \<and> ((\<exists>rd'. r = Inr rd') \<longrightarrow> v = Inr ()))))"
        using run1 q1 Inr1 ci q2 y2 q3 y3
        by (auto simp: act_def act_map_err_def sync_temp_file_def lift_def ret_def map_err_eq_Inr split: sum.splits prod.splits)
      then show ?thesis
      proof (elim disjE exE conjE)
        assume "x' = x1" "\<forall>rd'. r \<noteq> Inr rd'"
        with e1 fs show ?thesis by simp
      next
        fix rd1 w0 wr v
        assume c: "q3 = Inr w0" "copy_entry all ds en rd w0 = Inr (rd1, wr)"
          and p: "persist_output shw (w_data wr) (par @ [n]) force x1 = (v, x')" and v: "(\<exists>rd'. r = Inr rd') \<longrightarrow> v = Inr ()"
        have "w_data wr = ?bs" using new_temp_Inr [OF q3 [unfolded c(1)]] copy_entry_Inr c(2) by blast
        note pe = persist_output_extracted [OF p [unfolded this] cl inner(2)]
        from extracted_trans [OF e1 pe(1)] pe(2) v fs Inr k show ?thesis by auto
      qed
    qed
  qed
  then show "extracted (files_of all ds [en]) force x x'"
    and "r = Inr rd' \<Longrightarrow> validate_relative_path (relative_path en) = Inr k \<Longrightarrow> x_tree x' k = Some (XFile ?bs 1)"
    and "r = Inr rd' \<Longrightarrow> is_ok (validate_relative_path (relative_path en))"
    by (auto simp: is_ok_iff)
qed

section \<open>All entries\<close>

lemma extract_entries_extracted:
  "extract_entries shw all ds force es rd x = (r, x') \<Longrightarrow> extracted (files_of all ds es) force x x'"
proof (induction es arbitrary: rd x)
  case Nil
  then show ?case by simp
next
  case (Cons en es)
  obtain q x1 where q: "extract_entry shw all ds force en rd x = (q, x1)" by fastforce
  have sub: "files_of all ds [en] \<subseteq> files_of all ds (en # es)" "files_of all ds es \<subseteq> files_of all ds (en # es)"
    by (auto simp: files_of_def)
  note e = extracted_mono [OF extract_entry_extracted(1) [OF q] sub(1)]
  show ?case
  proof (cases q)
    case (Inl err)
    with Cons.prems q e show ?thesis by (auto simp: act_def)
  next
    case (Inr rd1)
    then have "extract_entries shw all ds force es rd1 x1 = (r, x')" using Cons.prems q by (simp add: act_def)
    from extracted_trans [OF e extracted_mono [OF Cons.IH [OF this] sub(2)]] show ?thesis .
  qed
qed

text \<open>After a success every file is there; by force, if no other entry has the same name.\<close>

lemma extract_entries_done:
  "extract_entries shw all ds force es rd x = (Inr u, x') \<Longrightarrow> en \<in> set es \<Longrightarrow>
     validate_relative_path (relative_path en) = Inr k \<Longrightarrow>
     (force \<longrightarrow> (\<forall>en' \<in> set es. validate_relative_path (relative_path en') = Inr k \<longrightarrow> en' = en)) \<Longrightarrow>
     x_tree x' k = Some (XFile (entry_bytes all ds en) 1)"
proof (induction es arbitrary: rd x)
  case Nil
  then show ?case by simp
next
  case (Cons e0 es)
  obtain q x1 where q: "extract_entry shw all ds force e0 rd x = (q, x1)" by fastforce
  with Cons.prems(1) obtain rd1 where rd1: "q = Inr rd1" "extract_entries shw all ds force es rd1 x1 = (Inr u, x')"
    by (cases q) (simp_all add: act_def)
  show ?case
  proof (cases "en = e0")
    case False
    with Cons.prems have "en \<in> set es" by simp
    from Cons.IH [OF rd1(2) this Cons.prems(3)] Cons.prems(4) show ?thesis by simp
  next
    case True
    have one: "x_tree x1 k = Some (XFile (entry_bytes all ds en) 1)"
      using extract_entry_extracted(2) [OF q rd1(1)] True Cons.prems(3) by simp
    have "(k, bs) \<in> files_of all ds es \<Longrightarrow> force \<Longrightarrow> bs = entry_bytes all ds en" for bs
      using Cons.prems(4) by (auto simp: files_of_def)
    with extracted_at [OF extract_entries_extracted [OF rd1(2)], of k] one show ?thesis
      by (auto simp: change_ok_def may_replace_def)
  qed
qed

text \<open>The output directory: its missing parents are made in the world, and itself in the tree.\<close>

lemma create_output_dir_made:
  assumes run: "create_output_dir out_dir (w, x) = (r, w', x')"
  shows "dirs_made (butlast (resolve w out_dir)) w w'" "extracted fs force x x'"
    "x' \<noteq> x \<Longrightarrow> x_tree x [] = None \<and> x' = set_node [] XDir x"
    "out_dir = Path False [] \<or> x_tree x [] \<noteq> None \<Longrightarrow> w' = w \<and> x' = x"
proof -
  have e: "extracted fs force x (set_node [] XDir x)" if "x_tree x [] = None"
    using that by (simp add: extracted_def set_node_def change_ok_def on_the_way_def)
  obtain q w1 where m: "make_dirs [] (butlast (resolve w out_dir)) w = (q, w1)" by fastforce
  from make_dirs_made [OF m] have "dirs_made (butlast (resolve w out_dir)) w w1" by simp
  with run m show "dirs_made (butlast (resolve w out_dir)) w w'"
    by (auto simp: create_output_dir_def split: option.splits sum.splits prod.splits xnode.splits if_splits)
  from run m show c: "x' \<noteq> x \<Longrightarrow> x_tree x [] = None \<and> x' = set_node [] XDir x"
    by (auto simp: create_output_dir_def create_dir_def split: option.splits sum.splits prod.splits xnode.splits if_splits)
  with e show "extracted fs force x x'" by (cases "x' = x") auto
  from run show "out_dir = Path False [] \<or> x_tree x [] \<noteq> None \<Longrightarrow> w' = w \<and> x' = x"
    by (auto simp: create_output_dir_def split: option.splits xnode.splits if_splits)
qed

lemma canonical_world: "snd (canonical_inside k x) = x"
  by (simp add: canonical_inside_def)

lemma extract_into_extracted:
  assumes run: "extract_into shw force b x = (r, x')"
  shows "extracted (files_of (db_all b) (db_data_start b) (entries (db_manifest b))) force x x'"
proof -
  let ?fs = "files_of (db_all b) (db_data_start b) (entries (db_manifest b))"
  obtain q2 y2 where q2: "validate_extraction_directory shw [] x = (q2, y2)" by fastforce
  then have y2: "y2 = x" using validate_dir_world [of shw "[]" x] by simp
  obtain q3 y3 where q3: "canonical_inside [] x = (q3, y3)" by fastforce
  then have y3: "y3 = x" using canonical_world [of "[]" x] by simp
  obtain q4 x4 where q4: "extract_entries shw (db_all b) (db_data_start b) force (entries (db_manifest b)) (db_file b) x = (q4, x4)"
    by fastforce
  have "x' = x \<or> x' = x4"
    using run q2 y2 q3 y3 q4
    by (auto simp: extract_into_def act_def act_map_err_def ret_def split: sum.splits if_splits)
  with extract_entries_extracted [OF q4] show "extracted ?fs force x x'" by auto
qed

lemma extract_verified_extracted:
  assumes run: "extract_verified out_dir force dry_run b (w, x) = (r, w', x')"
  shows "dry_run \<Longrightarrow> w' = w \<and> x' = x"
    "\<exists>q x1. create_output_dir out_dir (w, x) = (q, w', x1) \<and>
      extracted (files_of (db_all b) (db_data_start b) (entries (db_manifest b))) force x1 x' \<or> dry_run"
proof -
  show "dry_run \<Longrightarrow> w' = w \<and> x' = x" using run by (simp add: extract_verified_def)
  let ?shw = "\<lambda>k. display (below out_dir k)"
  obtain q w1 x1 where q: "create_output_dir out_dir (w, x) = (q, w1, x1)" by (metis prod_cases3)
  obtain s y where s: "extract_into ?shw force b x1 = (s, y)" by fastforce
  have "w' = w1 \<and> (x' = x1 \<or> x' = y)" if "\<not> dry_run"
    using run q s that by (cases q) (auto simp: extract_verified_def act_def act_map_err_def on_tree_def)
  with q extract_into_extracted [OF s] show "\<exists>q x1. create_output_dir out_dir (w, x) = (q, w', x1) \<and>
      extracted (files_of (db_all b) (db_data_start b) (entries (db_manifest b))) force x1 x' \<or> dry_run"
    by (cases dry_run) auto
qed

lemma extract_verified_done:
  assumes run: "extract_verified out_dir force False b (w, x) = (Inr m, w', x')"
  shows "m = db_manifest b"
    and "en \<in> set (entries m) \<Longrightarrow> validate_relative_path (relative_path en) = Inr k \<Longrightarrow>
     (force \<longrightarrow> (\<forall>en' \<in> set (entries m). validate_relative_path (relative_path en') = Inr k \<longrightarrow> en' = en)) \<Longrightarrow>
     x_tree x' k = Some (XFile (entry_bytes (db_all b) (db_data_start b) en) 1)"
proof -
  obtain q w1 x1 where q: "create_output_dir out_dir (w, x) = (q, w1, x1)" by (metis prod_cases3)
  then obtain u where "q = Inr u" using run by (cases q) (auto simp: extract_verified_def act_def act_map_err_def)
  then have "extract_into (\<lambda>k. display (below out_dir k)) force b x1 = (Inr m, x')"
    using run q by (auto simp: extract_verified_def act_def act_map_err_def on_tree_def split: prod.splits)
  then obtain x3 u where *: "m = db_manifest b"
      "extract_entries (\<lambda>k. display (below out_dir k)) (db_all b) (db_data_start b) force (entries (db_manifest b)) (db_file b) x3 =
        (Inr u, x')"
    by (auto simp: extract_into_def res_elims)
  then show "m = db_manifest b" by simp
  show "en \<in> set (entries m) \<Longrightarrow> validate_relative_path (relative_path en) = Inr k \<Longrightarrow>
     (force \<longrightarrow> (\<forall>en' \<in> set (entries m). validate_relative_path (relative_path en') = Inr k \<longrightarrow> en' = en)) \<Longrightarrow>
     x_tree x' k = Some (XFile (entry_bytes (db_all b) (db_data_start b) en) 1)"
    using extract_entries_done [OF *(2), of en k] *(1) by simp
qed

section \<open>Confinement\<close>

text \<open>
  \<open>extract_bundle\<close> changes anything at all only after the capsule has been authenticated and every
  entry verified. Then it makes the output directory and its missing parents; inside, a free name
  may become a directory on the way to a file of the manifest, and the name of a file of the
  manifest, if it was free or by force a file with a single link, gets exactly the bytes of that
  entry. Links, linked files and special files are never written, nor is anything reached through a
  link or outside; a dry run changes nothing.
\<close>

theorem extract_confined:
  assumes C: "ciphers_ok (cip P)" and fr: "fresh_name w tmp"
    and run: "extract_bundle P S B tmp inp out_dir pw force dry_run (w, x) = (r, w', x')"
  shows "w' = w \<and> x' = x \<or> \<not> dry_run \<and> (\<exists>encoded ct e fek payload start m q x1.
    lookup w inp = Some (Regular (capsule_bytes encoded ct)) \<and>
    decode_envelope_bytes P S encoded = Inr e \<and> unwrap_password_file_key P e pw None = Inr fek \<and>
    seal_for P e (hkdf_new (cip P) None fek) payload = Inr ct \<and>
    payload_of B payload m (unat start) \<and> verified B payload start m \<and>
    create_output_dir out_dir (w, x) = (q, w', x1) \<and> extracted (files_of payload start (entries m)) force x1 x')"
proof -
  obtain q w1 where d: "decrypt_and_open P S B tmp inp pw w = (q, w1)" by fastforce
  note opened = decrypt_and_open_Inr [OF C fr d]
  show ?thesis
  proof (cases q)
    case (Inl e)
    with run d opened(1) show ?thesis by (auto simp: extract_bundle_def)
  next
    case Inr1: (Inr b)
    show ?thesis
    proof (cases "verify_all B b")
      case (Inl e)
      with run d opened(1) Inr1 show ?thesis by (auto simp: extract_bundle_def)
    next
      case (Inr b')
      have v: "extract_verified out_dir force dry_run b' (w, x) = (r, w', x')"
        using run d opened(1) Inr1 Inr by (simp add: extract_bundle_def)
      from opened(2) [OF Inr1] obtain encoded ct e fek where *:
        "lookup w inp = Some (Regular (capsule_bytes encoded ct))"
        "decode_envelope_bytes P S encoded = Inr e" "unwrap_password_file_key P e pw None = Inr fek"
        "seal_for P e (hkdf_new (cip P) None fek) (db_all b) = Inr ct"
        "payload_of B (db_all b) (db_manifest b) (unat (db_data_start b))" by blast
      note va = verify_all_Inr [OF Inr *(5)]
      then have sel: "db_all b' = db_all b" "db_data_start b' = db_data_start b" by auto
      show ?thesis
      proof (cases dry_run)
        case True
        then show ?thesis using extract_verified_extracted(1) [OF v] by simp
      next
        case False
        then obtain q x1 where "create_output_dir out_dir (w, x) = (q, w', x1)"
            "extracted (files_of (db_all b) (db_data_start b) (entries (db_manifest b'))) force x1 x'"
          using extract_verified_extracted(2) [OF v] sel by auto
        with * va False show ?thesis unfolding sel by metis
      qed
    qed
  qed
qed

section \<open>Packing and extracting\<close>

text \<open>The name of a directory entry.\<close>

definition plain :: "string \<Rightarrow> bool" where
  "plain n \<longleftrightarrow> n \<noteq> '''' \<and> n \<noteq> ''.'' \<and> CHR ''/'' \<notin> set n"

lemma split_slash_no_slash: "CHR ''/'' \<notin> set n \<Longrightarrow> split_slash n = [n]"
  by (induction n) auto

lemma split_slash_cons: "CHR ''/'' \<notin> set n \<Longrightarrow> split_slash (n @ CHR ''/'' # s) = n # split_slash s"
  by (induction n) auto

lemma split_join: "ns \<noteq> [] \<Longrightarrow> \<forall>n \<in> set ns. CHR ''/'' \<notin> set n \<Longrightarrow> split_slash (join_slash ns) = ns"
proof (induction ns rule: join_slash.induct)
  case (3 s t r)
  then have "split_slash (join_slash (t # r)) = t # r" by simp
  with 3 show ?case using split_slash_cons [of s "join_slash (t # r)"] by simp
qed (simp_all add: split_slash_no_slash)

lemma join_slash_inj:
  "\<forall>n \<in> set ns. plain n \<Longrightarrow> \<forall>n \<in> set ms. plain n \<Longrightarrow> ns \<noteq> [] \<Longrightarrow> ms \<noteq> [] \<Longrightarrow> join_slash ns = join_slash ms \<Longrightarrow> ns = ms"
  unfolding plain_def by (metis split_join)

lemma plain_components:
  "\<forall>n \<in> set ns. plain n \<Longrightarrow> list_all is_normal (List.map_filter part_component ns) \<Longrightarrow>
     map component_name (List.map_filter part_component ns) = ns"
  by (induction ns)
     (auto simp: List.map_filter_simps part_component_def is_normal_def component_name_def plain_def split: if_splits)

lemma validate_join:
  assumes ns: "ns \<noteq> []" "\<forall>n \<in> set ns. plain n" and v: "validate_relative_path (join_slash ns) = Inr k"
  shows "k = ns"
proof -
  let ?p = "join_slash ns"
  have split: "split_slash ?p = ns" using split_join ns by (simp add: plain_def)
  have p: "?p \<noteq> []" "hd ?p \<noteq> CHR ''/''" "list_all is_normal (path_components ?p)"
      "k = map component_name (path_components ?p)"
    using v by (auto simp: validate_relative_path_def split: if_splits)
  moreover have "hd ns \<noteq> ''.''" using ns by (cases ns) (auto simp: plain_def)
  ultimately have "path_components ?p = List.map_filter part_component ns"
    by (simp add: path_components_def split)
  with p plain_components [OF ns(2)] show ?thesis by simp
qed

lemma walk_files_names: "fe \<in> set (walk_files ws) \<Longrightarrow> we_names fe \<noteq> []"
  by (induction ws rule: walk_files.induct) (auto split: if_splits)

lemma packed_entry_of:
  assumes run: "pack_directory P S B version now walk tmp in_dir out cred profile allow padding force pol override w = (Inr m, w1)"
    and fe: "fe \<in> set (walk_files walk)"
  obtains en where "en \<in> set (entries m)" "relative_path en = join_slash (we_names fe)"
    "is_ok (validate_relative_path (relative_path en))"
proof -
  obtain ss where *: "collect_sources B walk in_dir allow w = (Inr ss, w)" "build_manifest version now ss = Inr m"
    using pack_directory_Inr [OF run] by metis
  let ?fs = "sort_key (\<lambda>fe. join_slash (we_names fe)) (walk_files walk)"
  have l2: "list_all2 (entry_of_file B w in_dir) (entries m) ?fs" using collected_entries(1) [OF *] .
  have "fe \<in> set ?fs" using fe by simp
  then obtain i where i: "i < length ?fs" "?fs ! i = fe" by (metis in_set_conv_nth)
  then have "entry_of_file B w in_dir (entries m ! i) fe" using list_all2_nthD2 [OF l2, of i] by simp
  moreover have "entries m ! i \<in> set (entries m)" using i(1) list_all2_lengthD [OF l2] by simp
  ultimately show ?thesis using that unfolding entry_of_file_def by blast
qed

text \<open>
  C7: Extracting a packed directory restores every file of the directory, under its own name and
  with its own bytes, whatever the padding.
\<close>

theorem pack_extract_restores:
  assumes laws: "ciphers_ok (cip P)" "postcard_ok S" "manifest_codec_ok B"
    and run: "pack_directory P S B version now walk tmp in_dir out (CredPassword pw None) profile allow padding
      overwrite pol override w = (Inr m, w1)"
    and small: "\<And>mb. pc_manifest B m = Some mb \<Longrightarrow> payload_size mb m < 2 ^ 64"
    and tmp: "comps tmp \<noteq> []" "\<not> under w tmp (resolve w out)"
    and names: "\<forall>fe \<in> set (walk_files walk). \<forall>n \<in> set (we_names fe). plain n"
    and env: "calm w1 out" "temp_ok w1 tmp2"
    and ext: "extract_bundle P S B tmp2 out out_dir pw force False (w1, x) = (Inr m', w2, x')"
  shows "m' = m \<and> dirs_made (butlast (resolve w1 out_dir)) w1 w2 \<and> (x_tree x [] \<noteq> None \<longrightarrow> w2 = w1) \<and> (\<forall>fe \<in> set (walk_files walk).
    x_tree x' (we_names fe) = Some (XFile (file_bytes w (below in_dir (we_names fe))) 1))"
proof -
  obtain mb payload rd where pk: "packs B w in_dir walk m mb payload" and rd:
    "decrypt_and_open P S B tmp2 out pw w1 =
    (rbind (validate_layout B m (of_nat (4 + length mb)) (of_nat (length payload))) (\<lambda>_.
      Inr \<lparr>db_all = payload, db_file = rd, db_manifest = m, db_data_start = of_nat (4 + length mb),
        db_payload_len = of_nat (length payload)\<rparr>), w1)"
    using packed_bundle_opens [OF laws run small tmp env] .
  let ?ds = "of_nat (4 + length mb) :: u64"
  obtain b where open_ok: "decrypt_and_open P S B tmp2 out pw w1 = (Inr b, w1)"
      "validate_layout B m ?ds (of_nat (length payload)) = Inr ()"
      "db_all b = payload" "db_manifest b = m" "db_data_start b = ?ds"
    using ext rd by (cases "validate_layout B m ?ds (of_nat (length payload))")
      (auto simp: extract_bundle_def simp del: of_nat_add)
  then obtain b' where b': "verify_all B b = Inr b'" "extract_verified out_dir force False b' (w1, x) = (Inr m', w2, x')"
    using ext by (auto simp: extract_bundle_def split: sum.splits prod.splits)
  then obtain rd' where "b' = b\<lparr>db_file := rd'\<rparr>"
    by (auto simp: verify_all_def res_elims split: sum.splits prod.splits)
  with open_ok have sel: "db_all b' = payload" "db_manifest b' = m" "db_data_start b' = ?ds" by simp_all
  note fin = extract_verified_done [OF b'(2), unfolded sel]
  have dist: "distinct (map (\<lambda>en. to_lowercase B (relative_path en)) (entries m))"
    using packs_layout [OF pk] open_ok(2) by simp
  have inj: "en = en'" if "en \<in> set (entries m)" "en' \<in> set (entries m)" "relative_path en = relative_path en'" for en en'
    using dist that by (auto simp: distinct_map inj_on_def)
  have "x_tree x' (we_names fe) = Some (XFile (file_bytes w (below in_dir (we_names fe))) 1)"
    if fe: "fe \<in> set (walk_files walk)" for fe
  proof -
    have own: "validate_relative_path (relative_path en) = Inr k \<Longrightarrow> relative_path en = join_slash (we_names g) \<Longrightarrow>
        g \<in> set (walk_files walk) \<Longrightarrow> k = we_names g" for en k g
      using validate_join [of "we_names g"] walk_files_names names by auto
    obtain en where en: "en \<in> set (entries m)" "relative_path en = join_slash (we_names fe)"
        "is_ok (validate_relative_path (relative_path en))"
      using packed_entry_of [OF run fe] .
    then have v: "validate_relative_path (relative_path en) = Inr (we_names fe)"
      using own [OF _ en(2) fe] by (auto simp: is_ok_iff)
    have from_file: "\<exists>g \<in> set (walk_files walk). relative_path e0 = join_slash (we_names g) \<and>
        entry_bytes payload ?ds e0 = file_bytes w (below in_dir (we_names g))" if "e0 \<in> set (entries m)" for e0
      using pk that by (simp add: packs_def)
    have same: "g = fe \<or> we_names g = we_names fe" if "g \<in> set (walk_files walk)" "join_slash (we_names g) = join_slash (we_names fe)" for g
      using join_slash_inj [of "we_names g" "we_names fe"] that fe names walk_files_names by blast
    have "en' = en" if e: "en' \<in> set (entries m)" "validate_relative_path (relative_path en') = Inr (we_names fe)" for en'
    proof -
      obtain g where g: "g \<in> set (walk_files walk)" "relative_path en' = join_slash (we_names g)"
        using from_file [OF e(1)] by blast
      have "we_names fe = we_names g" using own [OF e(2) g(2,1)] .
      with g(2) en(2) have "relative_path en' = relative_path en" by simp
      with inj e(1) en(1) show ?thesis by blast
    qed
    then have "x_tree x' (we_names fe) = Some (XFile (entry_bytes payload ?ds en) 1)"
      using fin(2) [of en "we_names fe"] en(1) v fin(1) by blast
    moreover have "entry_bytes payload ?ds en = file_bytes w (below in_dir (we_names fe))"
      using from_file [OF en(1)] same en(2) by (metis)
    ultimately show ?thesis by simp
  qed
  moreover obtain q x1 where made: "create_output_dir out_dir (w1, x) = (q, w2, x1)"
    using extract_verified_extracted(2) [OF b'(2)] by auto
  ultimately show ?thesis using fin(1) create_output_dir_made(1,4) [OF made] by blast
qed

end
