(* ===== verification/Extract_Samples.thy ===== *)
theory Extract_Samples
  imports Extract_Correct Bundle_Samples
begin

text \<open>Concrete extractions for the witnesses of theory Extract_Correct.\<close>

section \<open>A file in the output directory itself\<close>

lemma copy_entry_quiet:
  assumes "quiet rd" "entry_fits (unat ds) (length all) en" "length all < 2 ^ 64"
  shows "\<exists>rd' wr. copy_entry all ds en rd (fresh_writer None) = Inr (rd', wr) \<and> quiet rd' \<and> w_data wr = entry_bytes all ds en"
proof -
  have "unat (of_nat (length all) :: u64) = length all" by (rule unat_of_nat_u64 [OF assms(3)])
  with checked_range [of ds "of_nat (length all)" en] assms(2)
  have c: "checked_add_u64 ds (be_offset en) = Some (ds + be_offset en)"
      "unat (ds + be_offset en) = unat ds + unat (be_offset en)" by simp_all
  let ?rd = "seek_start all (ds + be_offset en) rd" and ?e = "ManifestError (''File data truncated for: '' @ relative_path en)"
  have "quiet ?rd" using assms(1) by (simp add: quiet_def seek_start_def)
  moreover have "unat (be_size en) \<le> length (r_data ?rd)"
    using assms(2) c(2) by (simp add: seek_start_def entry_fits_def)
  ultimately obtain rd' wr where "pump ?e (unat (be_size en)) ?rd (fresh_writer None) = (Inr (), rd', wr)" "quiet rd'"
    using pump_quiet [of ?rd "fresh_writer None" "unat (be_size en)" ?e] by fastforce
  with c have "copy_entry all ds en rd (fresh_writer None) = Inr (rd', wr)" by (simp add: copy_entry_def)
  with copy_entry_Inr [OF this] \<open>quiet rd'\<close> show ?thesis by blast
qed

lemma extract_entry_ok:
  assumes v: "validate_relative_path (relative_path en) = Inr [n]"
    and x: "x_tree x [] = Some XDir" "x_tree x [n] = None" "x_disk x = None" "x_sync x"
    and rd: "quiet rd" "entry_fits (unat ds) (length all) en" "length all < 2 ^ 64"
  shows "\<exists>rd'. extract_entry shw all ds force en rd x =
    (Inr rd', set_node [n] (XFile (entry_bytes all ds en) 1) x) \<and> quiet rd'"
proof -
  obtain rd' wr where c: "copy_entry all ds en rd (fresh_writer None) = Inr (rd', wr)" "quiet rd'" "w_data wr = entry_bytes all ds en"
    using copy_entry_quiet [OF rd] by blast
  have "\<not> leads_out n" using inner_validated [OF v] by simp
  then have at: "at x [n] = Here None" using x(1,2) by (simp add: at_def)
  have par: "ensure_safe_extraction_parent shw [] x = (Inr (), x)"
    using x(1) by (simp add: ensure_safe_extraction_parent_def act_apply act_map_err_def validate_extraction_directory_def
        symlink_metadata_def)
  have "persist_output shw (entry_bytes all ds en) [n] force x = (Inr (), set_node [n] (XFile (entry_bytes all ds en) 1) x)"
    using at x(1,4) by (simp add: persist_output_def exists_at_def act_apply act_map_err_def persist_noclobber_at_def
        sync_at_def) (simp add: set_node_def)
  with c par at x v show ?thesis
    by (simp add: extract_entry_def act_apply act_map_err_def canonical_inside_def check_target_def symlink_metadata_def
        new_temp_in_def sync_temp_file_def)
qed

section \<open>Extracting the sample bundle\<close>

definition sample_target :: xworld where
  "sample_target = \<lparr>x_tree = [[] \<mapsto> XDir], x_beyond = (\<lambda>_. Inl NotFound), x_canon = (\<lambda>_. Inl NotFound), x_changed = [],
     x_denied = (\<lambda>_. None), x_disk = None, x_sync = True\<rparr>"

definition empty_target :: "xworld \<Rightarrow> bool" where
  "empty_target x \<longleftrightarrow> x_tree x [] = Some XDir \<and> x_tree x [''a''] = None \<and> x_tree x [''b''] = None \<and> x_disk x = None \<and> x_sync x"

lemma sample_target_empty: "empty_target sample_target"
  by (simp add: empty_target_def sample_target_def)

lemma sample_extract_any:
  obtains w1 where "pack_directory sample_prims sample_postcard sample_bundle_prims ''1'' None (sample_walk ''a'' ''b'') sample_tmp
      sample_dir sample_out (CredPassword [1] None) Fast False NoPadding False None False (bundle_world ''a'' ''b'') =
      (Inr (sample_manifest ''a'' ''b''), w1)" "calm w1 sample_out" "temp_ok w1 sample_scratch"
    "\<forall>x out_dir. empty_target x \<longrightarrow> (\<exists>x'. extract_bundle sample_prims sample_postcard sample_bundle_prims sample_scratch
      sample_out out_dir [1] False False (w1, x) = (Inr (sample_manifest ''a'' ''b''), w1, x') \<and> x_changed x' = x_changed x)"
proof -
  let ?m = "sample_manifest ''a'' ''b''" and ?B = sample_bundle_prims
  obtain w1 where run: "pack_directory sample_prims sample_postcard ?B ''1'' None (sample_walk ''a'' ''b'') sample_tmp
      sample_dir sample_out (CredPassword [1] None) Fast False NoPadding False None False (bundle_world ''a'' ''b'') =
      (Inr ?m, w1)" "calm w1 sample_out" "temp_ok w1 sample_scratch"
    using sample_password_pack [OF sample_ab(1)] .
  obtain mb payload rd where pk: "packs ?B (bundle_world ''a'' ''b'') sample_dir (sample_walk ''a'' ''b'') ?m mb payload"
    and rd: "quiet rd" and opened: "decrypt_and_open sample_prims sample_postcard ?B sample_scratch sample_out [1] w1 =
    (rbind (validate_layout ?B ?m (of_nat (4 + length mb)) (of_nat (length payload))) (\<lambda>_.
      Inr \<lparr>db_all = payload, db_file = rd, db_manifest = ?m, db_data_start = of_nat (4 + length mb),
        db_payload_len = of_nat (length payload)\<rparr>), w1)"
    using packed_bundle_opens [OF sample_prims_ok(2) sample_postcard_ok sample_manifest_codec run(1)
        sample_payload_size [OF _ sample_ab(1)] sample_tmp_resolve(2) sample_not_under run(2,3)] by blast
  let ?ds = "of_nat (4 + length mb) :: u64"
  have len: "length payload < 2 ^ 64" "length mb \<le> MAX_BUNDLE_MANIFEST_SIZE" using pk by (simp_all add: packs_def)
  have v: "validate_layout ?B ?m ?ds (of_nat (length payload)) = Inr ()" using packs_layout [OF pk] sample_distinct by simp
  have en: "entry_fits (unat ?ds) (length payload) en \<and> blake3 ?B (entry_bytes payload ?ds en) = blake3_hash en"
    if "en \<in> set (entries ?m)" for en
    using pk that unfolding packs_def manifest_start [OF len(2)] by blast
  then obtain rd1 where rd1: "verify_entries ?B payload ?ds (entries ?m) rd = (Inr (), rd1)" "quiet rd1"
    using verify_entries_quiet [OF len(1) rd, of "entries ?m" ?ds ?B] by auto
  obtain e1 e2 where es: "entries ?m = [e1, e2]" "relative_path e1 = ''a''" "relative_path e2 = ''b''"
    by (simp add: sample_manifest_def)
  have "\<exists>x'. extract_bundle sample_prims sample_postcard ?B sample_scratch sample_out out_dir [1] False False (w1, x) =
      (Inr ?m, w1, x') \<and> x_changed x' = x_changed x" if x: "empty_target x" for x out_dir
  proof -
    let ?shw = "\<lambda>k. display (below out_dir k)"
    have tgt: "x_tree x [] = Some XDir" "x_tree x [''a''] = None" "x_tree x [''b''] = None" "x_disk x = None" "x_sync x"
      using x by (simp_all add: empty_target_def)
    have "validate_relative_path (relative_path e1) = Inr [''a'']" "entry_fits (unat ?ds) (length payload) e1"
      using es en [of e1] by (simp_all add: sample_validated)
    from extract_entry_ok [OF this(1) tgt(1,2,4,5) rd1(2) this(2) len(1), of ?shw False] obtain rd2 where
      rd2: "extract_entry ?shw payload ?ds False e1 rd1 x =
        (Inr rd2, set_node [''a''] (XFile (entry_bytes payload ?ds e1) 1) x)" "quiet rd2" by blast
    let ?x1 = "set_node [''a''] (XFile (entry_bytes payload ?ds e1) 1) x"
    have x1: "x_tree ?x1 [] = Some XDir" "x_tree ?x1 [''b''] = None" "x_disk ?x1 = None" "x_sync ?x1"
      using tgt by (simp_all add: set_node_def)
    have "validate_relative_path (relative_path e2) = Inr [''b'']" "entry_fits (unat ?ds) (length payload) e2"
      using es en [of e2] by (simp_all add: sample_validated)
    from extract_entry_ok [OF this(1) x1 rd2(2) this(2) len(1), of ?shw False] obtain rd3 where
      rd3: "extract_entry ?shw payload ?ds False e2 rd2 ?x1 =
        (Inr rd3, set_node [''b''] (XFile (entry_bytes payload ?ds e2) 1) ?x1)" by blast
    have dir: "create_output_dir out_dir (w1, x) = (Inr (), w1, x)" by (simp add: create_output_dir_def tgt(1))
    have "extract_bundle sample_prims sample_postcard ?B sample_scratch sample_out out_dir [1] False False (w1, x) =
        (Inr ?m, w1, set_node [''b''] (XFile (entry_bytes payload ?ds e2) 1) ?x1)"
      using opened v rd1(1) rd2(1) rd3 tgt(1) es(1) dir
      by (simp add: extract_bundle_def verify_all_def extract_verified_def extract_into_def on_tree_def act_apply act_map_err_def
          validate_extraction_directory_def symlink_metadata_def canonical_inside_def)
    then show ?thesis by (simp add: set_node_def)
  qed
  with that run show ?thesis by blast
qed

lemma sample_extract:
  obtains w1 x' where "pack_directory sample_prims sample_postcard sample_bundle_prims ''1'' None (sample_walk ''a'' ''b'') sample_tmp
      sample_dir sample_out (CredPassword [1] None) Fast False NoPadding False None False (bundle_world ''a'' ''b'') =
      (Inr (sample_manifest ''a'' ''b''), w1)" "calm w1 sample_out" "temp_ok w1 sample_scratch"
    "extract_bundle sample_prims sample_postcard sample_bundle_prims sample_scratch sample_out sample_dir [1] False False (w1, sample_target) =
      (Inr (sample_manifest ''a'' ''b''), w1, x')"
  using sample_extract_any sample_target_empty by metis

section \<open>Witnesses\<close>

lemma sample_walk_plain: "\<forall>fe \<in> set (walk_files (sample_walk ''a'' ''b'')). \<forall>n \<in> set (we_names fe). plain n"
  by (simp add: sample_walk_def sample_walk_file_def plain_def)

theorem pack_extract_restores_witness:
  "\<exists>w1 x'. extract_bundle sample_prims sample_postcard sample_bundle_prims sample_scratch sample_out sample_dir [1] False False
      (w1, sample_target) = (Inr (sample_manifest ''a'' ''b''), w1, x') \<and>
    x_tree x' [''a''] = Some (XFile (file_bytes (bundle_world ''a'' ''b'') (below sample_dir [''a''])) 1)"
proof -
  obtain w1 x' where run: "pack_directory sample_prims sample_postcard sample_bundle_prims ''1'' None (sample_walk ''a'' ''b'') sample_tmp
      sample_dir sample_out (CredPassword [1] None) Fast False NoPadding False None False (bundle_world ''a'' ''b'') =
      (Inr (sample_manifest ''a'' ''b''), w1)" "calm w1 sample_out" "temp_ok w1 sample_scratch"
    and ext: "extract_bundle sample_prims sample_postcard sample_bundle_prims sample_scratch sample_out sample_dir [1] False False
      (w1, sample_target) = (Inr (sample_manifest ''a'' ''b''), w1, x')"
    using sample_extract .
  have "sample_walk_file ''a'' \<in> set (walk_files (sample_walk ''a'' ''b''))"
    by (simp add: sample_walk_def sample_walk_file_def)
  with pack_extract_restores [OF sample_prims_ok(2) sample_postcard_ok sample_manifest_codec run(1)
      sample_payload_size [OF _ sample_ab(1)] sample_tmp_resolve(2) sample_not_under sample_walk_plain run(2,3) ext]
  have "x_tree x' (we_names (sample_walk_file ''a'')) =
      Some (XFile (file_bytes (bundle_world ''a'' ''b'') (below sample_dir (we_names (sample_walk_file ''a'')))) 1)" by blast
  with ext show ?thesis by (auto simp: sample_walk_file_def)
qed

end
