(* ===== verification/Key_Files.thy ===== *)
theory Key_Files
  imports Signing_Correct
begin

text \<open>
  Hybrid key pairs and their files (crypto/keys.rs). ML-KEM-768 key derivation, base64 and
  JSON are third-party code: the records \<open>mlkem\<close> and \<open>hybrid_json\<close>, and the base64 functions of
  \<open>key_json\<close>. The Windows access-control code and the Unix file modes are not modelled: the
  world has no modes, so the flag \<open>private\<close> of \<open>write_key_file\<close> has no effect here.
\<close>

section \<open>Atomic writes\<close>

text \<open>
  The body of the functions that write a file atomically: a temporary file in the directory of
  the output, its contents, a sync, and the commit under the final name.
\<close>

definition write_via ::
  "(io_error \<Rightarrow> 'e) \<Rightarrow> (writer \<Rightarrow> path \<Rightarrow> (world, 'e, unit) action) \<Rightarrow> path \<Rightarrow> bytes \<Rightarrow>
   (world, 'e, unit) action" where
  "write_via io commit p bs =
     act (act_map_err io (new_in (parent_or_dot p))) (\<lambda>temp.
     act (lift (case write_all bs temp of (Inl e, _) \<Rightarrow> Inl (io e) | (Inr _, t) \<Rightarrow> Inr t)) (\<lambda>temp.
     act (act_map_err io sync_temp) (\<lambda>_. commit temp p)))"

context atomic_commit
begin

lemma write_via_Inr:
  assumes "write_via io commit p bs w = (Inr u, w')"
  shows "w' = put_file w p bs \<and> p \<noteq> Path False [] \<and> w_fs w (resolve w p) \<noteq> Some Directory"
proof -
  from assms obtain tmp0 w1 tmp w2 where *: "new_in (parent_or_dot p) w = (Inr tmp0, w1)"
      "(case write_all bs tmp0 of (Inl e, _) \<Rightarrow> Inl (io e) | (Inr _, t) \<Rightarrow> Inr t) = Inr tmp"
      "sync_temp w1 = (Inr (), w2)" "commit tmp p w2 = (Inr u, w')"
    unfolding write_via_def by (elim act_steps) auto
  have w: "w1 = w" "w2 = w" "tmp0 = fresh_writer (w_disk w)"
    using new_in_Inr [OF *(1)] *(3) by (auto simp: sync_temp_Inr)
  from write_temp_Inr *(2) w(3) have "w_data tmp = bs" by metis
  with commit_Inr [OF *(4)] w(2) show ?thesis by simp
qed

lemma write_via_Inl:
  assumes "write_via io commit p bs w = (Inl e, w')"
  shows "w' = w \<or> w' = put_file w p bs"
proof (cases "\<exists>tmp w2. w_data tmp = bs \<and> w2 = w \<and> commit tmp p w2 = (Inl e, w')")
  case True
  then show ?thesis using commit_Inl by blast
next
  case False
  have "w_data t = bs" if "write_all bs (fresh_writer (w_disk w)) = (Inr x, t)" for x t
    using write_all_Inr [OF that] by simp
  with False assms show ?thesis
    by (auto simp: write_via_def act_def act_map_err_def new_in_def sync_temp_def
        split: prod.splits sum.splits if_splits)
qed

lemma write_via_one_file:
  assumes "write_via io commit p bs w = (r, w')"
  shows "w' = w \<or> w' = put_file w p bs"
  using assms write_via_Inr write_via_Inl by (cases r) metis+

end

lemma write_via_ok:
  assumes out: "output_ok w p" and commit: "\<And>tmp. w_data tmp = bs \<Longrightarrow> commit tmp p w = (Inr (), put_file w p bs)"
  shows "write_via io commit p bs w = (Inr (), put_file w p bs)"
proof -
  have nw: "new_in (parent_or_dot p) w = (Inr (fresh_writer None), w)"
    using out by (simp add: output_ok_def new_in_def)
  obtain tmp where tmp: "write_all bs (fresh_writer None) = (Inr (), tmp)" "w_data tmp = bs"
    by (simp add: write_all_def)
  have "sync_temp w = (Inr (), w)" using out by (simp add: sync_temp_def output_ok_def)
  then show ?thesis by (simp add: write_via_def act_apply act_map_err_def nw tmp commit)
qed

text \<open>A small regular file without faults is read completely.\<close>

lemma read_limited_calm:
  assumes "lookup w p = Some (Regular bs)" "calm w p" "length bs \<le> limit" "utf8_valid bs"
  shows "read_limited limit e io p w = (Inr bs, w)"
proof -
  let ?rd = "\<lparr>r_data = bs, r_events = w_script w (resolve w p)\<rparr>"
  have "quiet ?rd" using assms(2) by (simp add: quiet_def calm_def)
  then obtain rd' where "fill (limit + 1) [] ?rd = (Inr (take (limit + 1) bs), rd')"
    using fill_quiet_eq [of ?rd "limit + 1"] by auto
  then show ?thesis
    using assms by (simp add: read_limited_def act_apply act_map_err_def metadata_of_def)
qed

section \<open>Third-party code\<close>

record mlkem =
  mlkem_public :: "bytes \<Rightarrow> bytes"
  mlkem_key_ok :: "bytes \<Rightarrow> bool"

text \<open>
  The key derived from a 64-byte seed has 1184 bytes, is a valid encapsulation key, and what is
  encapsulated for it the seed decapsulates.
\<close>

definition mlkem_ok :: "prims \<Rightarrow> mlkem \<Rightarrow> bool" where
  "mlkem_ok P K \<longleftrightarrow> (\<forall>seed. length seed = 64 \<longrightarrow>
     length (mlkem_public K seed) = 1184 \<and> mlkem_key_ok K (mlkem_public K seed) \<and>
     (\<forall>r ct ss. mlkem_encapsulate P (mlkem_public K seed) r = (ct, ss) \<longrightarrow>
        length ct = MLKEM_CT_LEN \<and> mlkem_decapsulate P seed ct = ss))"

text \<open>\<open>HybridPublicKeyFormat\<close> and \<open>HybridPrivateKeyFormat\<close>: the base64 texts of the two parts.\<close>

record public_key_format =
  fmt_x25519_pub :: string
  fmt_mlkem_pub :: string

record private_key_format =
  fmt_x25519_priv :: string
  fmt_mlkem_priv :: string

record hybrid_json =
  js_public :: "public_key_format \<Rightarrow> bytes option"
  js_parse_public :: "bytes \<Rightarrow> public_key_format option"
  js_private :: "private_key_format \<Rightarrow> bytes option"
  js_parse_private :: "bytes \<Rightarrow> private_key_format option"

text \<open>
  Parsing undoes printing; the printed JSON is UTF-8 and its size is bounded by that of the
  two texts, every character of which takes at most six bytes.
\<close>

definition hybrid_json_ok :: "hybrid_json \<Rightarrow> bool" where
  "hybrid_json_ok H \<longleftrightarrow>
     (\<forall>f b. js_public H f = Some b \<longrightarrow> js_parse_public H b = Some f \<and> utf8_valid b \<and>
        length b \<le> 100 + 6 * (length (fmt_x25519_pub f) + length (fmt_mlkem_pub f))) \<and>
     (\<forall>f b. js_private H f = Some b \<longrightarrow> js_parse_private H b = Some f \<and> utf8_valid b \<and>
        length b \<le> 100 + 6 * (length (fmt_x25519_priv f) + length (fmt_mlkem_priv f)))"

text \<open>Base64 takes four characters for three bytes, and decoding undoes encoding.\<close>

definition base64_ok :: "key_json \<Rightarrow> bool" where
  "base64_ok J \<longleftrightarrow> (\<forall>b. base64_decode J (base64_encode J b) = Some b \<and>
     length (base64_encode J b) = 4 * ((length b + 2) div 3))"

section \<open>Files\<close>

definition MAX_KEY_FILE_SIZE :: nat where "MAX_KEY_FILE_SIZE = 64 * 1024"

definition read_key_file :: "path \<Rightarrow> (world, crypto_error, bytes) action" where
  "read_key_file =
     read_limited MAX_KEY_FILE_SIZE (Validation ''Key file is invalid or too large'') Io"

text \<open>\<open>temp.persist(path)\<close> and the sync of the directory.\<close>

definition key_commit :: "writer \<Rightarrow> path \<Rightarrow> (world, crypto_error, unit) action" where
  "key_commit temp p =
     act (act_map_err Io (persist temp p)) (\<lambda>_. act_map_err Io (sync_path (parent_or_dot p)))"

definition write_key_file :: "path \<Rightarrow> bytes \<Rightarrow> bool \<Rightarrow> (world, crypto_error, unit) action" where
  "write_key_file p cs private = write_via Io key_commit p cs"

section \<open>Key pairs\<close>

definition generate_keypair ::
  "prims \<Rightarrow> mlkem \<Rightarrow> (world, crypto_error, hybrid_private_key \<times> hybrid_public_key) action" where
  "generate_keypair P K =
     act (fill_bytes 32) (\<lambda>x25519_priv.
     let x25519_pub = x25519_public P x25519_priv in
     act (fill_bytes 64) (\<lambda>mlkem_priv.
     let mlkem_pub = mlkem_public K mlkem_priv in
       ret (\<lparr>priv_x25519 = x25519_priv, priv_mlkem = mlkem_priv\<rparr>,
            \<lparr>pub_x25519 = x25519_pub, pub_mlkem = mlkem_pub\<rparr>)))"

definition public_save_to_file ::
  "key_json \<Rightarrow> hybrid_json \<Rightarrow> hybrid_public_key \<Rightarrow> path \<Rightarrow> (world, crypto_error, unit) action" where
  "public_save_to_file J H key p =
     (let x25519_b64 = base64_encode J (pub_x25519 key);
          mlkem_b64 = base64_encode J (pub_mlkem key)
      in act (lift (ok_or DecryptionFailed
           (js_public H \<lparr>fmt_x25519_pub = x25519_b64, fmt_mlkem_pub = mlkem_b64\<rparr>))) (\<lambda>json.
         write_key_file p json False))"

definition from_format ::
  "mlkem \<Rightarrow> key_json \<Rightarrow> public_key_format \<Rightarrow> crypto_error + hybrid_public_key" where
  "from_format K J f =
     rbind (ok_or DecryptionFailed (base64_decode J (fmt_x25519_pub f))) (\<lambda>x25519_bytes.
     rbind (ok_or DecryptionFailed (base64_decode J (fmt_mlkem_pub f))) (\<lambda>mlkem_bytes.
     rbind (ensure (length x25519_bytes = 32) DecryptionFailed) (\<lambda>_.
     rbind (ensure (length mlkem_bytes = 1184) DecryptionFailed) (\<lambda>_.
     rbind (ensure (mlkem_key_ok K mlkem_bytes) DecryptionFailed) (\<lambda>_.
       Inr \<lparr>pub_x25519 = x25519_bytes, pub_mlkem = mlkem_bytes\<rparr>)))))"

definition public_load_from_file ::
  "mlkem \<Rightarrow> key_json \<Rightarrow> hybrid_json \<Rightarrow> path \<Rightarrow> (world, crypto_error, hybrid_public_key) action" where
  "public_load_from_file K J H p =
     act (read_key_file p) (\<lambda>json.
     act (lift (ok_or DecryptionFailed (js_parse_public H json))) (\<lambda>f.
       lift (from_format K J f)))"

definition private_save_to_file ::
  "key_json \<Rightarrow> hybrid_json \<Rightarrow> hybrid_private_key \<Rightarrow> path \<Rightarrow> (world, crypto_error, unit) action" where
  "private_save_to_file J H key p =
     (let x25519_b64 = base64_encode J (priv_x25519 key);
          mlkem_b64 = base64_encode J (priv_mlkem key)
      in act (lift (ok_or DecryptionFailed
           (js_private H \<lparr>fmt_x25519_priv = x25519_b64, fmt_mlkem_priv = mlkem_b64\<rparr>))) (\<lambda>json.
         write_key_file p json True))"

definition private_load_from_file ::
  "key_json \<Rightarrow> hybrid_json \<Rightarrow> path \<Rightarrow> (world, crypto_error, hybrid_private_key) action" where
  "private_load_from_file J H p =
     act (read_key_file p) (\<lambda>json.
     act (lift (ok_or DecryptionFailed (js_parse_private H json))) (\<lambda>f.
     act (lift (ok_or DecryptionFailed (base64_decode J (fmt_x25519_priv f)))) (\<lambda>x25519_bytes.
     act (lift (ok_or DecryptionFailed (base64_decode J (fmt_mlkem_priv f)))) (\<lambda>mlkem_bytes.
     act (lift (ensure (length x25519_bytes = 32) DecryptionFailed)) (\<lambda>_.
     act (lift (ensure (length mlkem_bytes = 64) DecryptionFailed)) (\<lambda>_.
       ret \<lparr>priv_x25519 = x25519_bytes, priv_mlkem = mlkem_bytes\<rparr>))))))"


section \<open>Loading and saving\<close>

interpretation kc: atomic_commit key_commit
proof unfold_locales
  fix tmp p w w' and u :: unit
  assume "key_commit tmp p w = (Inr u, w')"
  then obtain w1 where "persist tmp p w = (Inr (), w1)" "sync_path (parent_or_dot p) w1 = (Inr u, w')"
    unfolding key_commit_def by (auto simp: res_elims)
  then show "w' = put_file w p (w_data tmp) \<and> p \<noteq> Path False [] \<and> w_fs w (resolve w p) \<noteq> Some Directory"
    using pure_ops(3) [of "parent_or_dot p" w1] by (auto simp: persist_Inr)
next
  fix tmp p w w' e
  assume "key_commit tmp p w = (Inl e, w')"
  then show "w' = w \<or> w' = put_file w p (w_data tmp)"
    using pure_ops(3)
    by (auto simp: key_commit_def act_def act_map_err_def persist_def split: prod.splits sum.splits if_splits)
      (metis snd_conv)+
qed

lemma key_commit_ok:
  assumes "output_ok w p" "w_data tmp = bs"
  shows "key_commit tmp p w = (Inr (), put_file w p bs)"
proof -
  from assms(1) obtain q where q: "parent p = Some q" by (auto simp: output_ok_def parent_def)
  then have dir: "w_fs w (resolve w q) = Some Directory" "q \<noteq> Path False []"
    using assms(1) by (auto simp: output_ok_def parent_or_dot_def)
  with assms(1) have "resolve w q \<noteq> resolve w p" by (auto simp: output_ok_def)
  with dir have "lookup (put_file w p bs) q = Some Directory" by (simp add: lookup_def w_fs_put_file)
  then show ?thesis
    using assms q
    by (simp add: key_commit_def act_apply act_map_err_def persist_def output_ok_def sync_path_def parent_or_dot_def)
qed

lemma write_key_file_Inr:
  "write_key_file p bs b w = (Inr u, w') \<Longrightarrow> w' = put_file w p bs \<and> p \<noteq> Path False []"
  unfolding write_key_file_def by (drule kc.write_via_Inr) blast

lemma public_save_Inr:
  assumes "public_save_to_file J H key p w = (Inr u, w')"
  obtains json where "js_public H \<lparr>fmt_x25519_pub = base64_encode J (pub_x25519 key),
      fmt_mlkem_pub = base64_encode J (pub_mlkem key)\<rparr> = Some json"
    "w' = put_file w p json" "p \<noteq> Path False []"
  using assms that by (auto simp: public_save_to_file_def res_elims dest: write_key_file_Inr)

lemma private_save_Inr:
  assumes "private_save_to_file J H key p w = (Inr u, w')"
  obtains json where "js_private H \<lparr>fmt_x25519_priv = base64_encode J (priv_x25519 key),
      fmt_mlkem_priv = base64_encode J (priv_mlkem key)\<rparr> = Some json"
    "w' = put_file w p json" "p \<noteq> Path False []"
  using assms that by (auto simp: private_save_to_file_def res_elims dest: write_key_file_Inr)

lemma read_key_file_calm:
  "lookup w p = Some (Regular bs) \<Longrightarrow> calm w p \<Longrightarrow> length bs \<le> MAX_KEY_FILE_SIZE \<Longrightarrow> utf8_valid bs \<Longrightarrow>
     read_key_file p w = (Inr bs, w)"
  unfolding read_key_file_def by (rule read_limited_calm)

lemma public_load_saved:
  assumes J: "base64_ok J" and H: "hybrid_json_ok H"
    and js: "js_public H \<lparr>fmt_x25519_pub = base64_encode J (pub_x25519 key),
      fmt_mlkem_pub = base64_encode J (pub_mlkem key)\<rparr> = Some json"
    and key: "length (pub_x25519 key) = 32" "length (pub_mlkem key) = 1184" "mlkem_key_ok K (pub_mlkem key)"
    and at: "lookup w p = Some (Regular json)" "calm w p"
  shows "public_load_from_file K J H p w = (Inr key, w)"
proof -
  have "length json \<le> 100 + 6 * (4 * ((32 + 2) div 3) + 4 * ((1184 + 2) div 3))"
      "js_parse_public H json = Some \<lparr>fmt_x25519_pub = base64_encode J (pub_x25519 key),
        fmt_mlkem_pub = base64_encode J (pub_mlkem key)\<rparr>" "utf8_valid json"
    using H js J key(1,2) by (fastforce simp: hybrid_json_ok_def base64_ok_def)+
  moreover from this(1) have "length json \<le> MAX_KEY_FILE_SIZE" by (simp add: MAX_KEY_FILE_SIZE_def)
  moreover have "base64_decode J (base64_encode J b) = Some b" for b using J by (simp add: base64_ok_def)
  ultimately show ?thesis
    using read_key_file_calm [OF at] key
    by (simp add: public_load_from_file_def act_apply from_format_def)
qed

lemma private_load_saved:
  assumes J: "base64_ok J" and H: "hybrid_json_ok H"
    and js: "js_private H \<lparr>fmt_x25519_priv = base64_encode J (priv_x25519 key),
      fmt_mlkem_priv = base64_encode J (priv_mlkem key)\<rparr> = Some json"
    and key: "length (priv_x25519 key) = 32" "length (priv_mlkem key) = 64"
    and at: "lookup w p = Some (Regular json)" "calm w p"
  shows "private_load_from_file J H p w = (Inr key, w)"
proof -
  have "length json \<le> 100 + 6 * (4 * ((32 + 2) div 3) + 4 * ((64 + 2) div 3))"
      "js_parse_private H json = Some \<lparr>fmt_x25519_priv = base64_encode J (priv_x25519 key),
        fmt_mlkem_priv = base64_encode J (priv_mlkem key)\<rparr>" "utf8_valid json"
    using H js J key(1,2) by (fastforce simp: hybrid_json_ok_def base64_ok_def)+
  moreover from this(1) have "length json \<le> MAX_KEY_FILE_SIZE" by (simp add: MAX_KEY_FILE_SIZE_def)
  moreover have "base64_decode J (base64_encode J b) = Some b" for b using J by (simp add: base64_ok_def)
  ultimately show ?thesis
    using read_key_file_calm [OF at] key
    by (simp add: private_load_from_file_def act_apply)
qed

lemma generate_keypair_Inr:
  assumes "generate_keypair P K w = (Inr (sk, pk), w')"
  shows "length (priv_x25519 sk) = 32 \<and> length (priv_mlkem sk) = 64 \<and> same_but_rng w w' \<and>
    pk = \<lparr>pub_x25519 = x25519_public P (priv_x25519 sk), pub_mlkem = mlkem_public K (priv_mlkem sk)\<rparr>"
  using assms by (auto simp: generate_keypair_def res_elims Let_def dest!: fill_bytes_Inr intro: same_but_rng_trans)

text \<open>The lengths and the validity of the keys a program can hold.\<close>

definition well_formed_public :: "mlkem \<Rightarrow> hybrid_public_key \<Rightarrow> bool" where
  "well_formed_public K pk \<longleftrightarrow>
     length (pub_x25519 pk) = 32 \<and> length (pub_mlkem pk) = 1184 \<and> mlkem_key_ok K (pub_mlkem pk)"

definition well_formed_private :: "hybrid_private_key \<Rightarrow> bool" where
  "well_formed_private sk \<longleftrightarrow> length (priv_x25519 sk) = 32 \<and> length (priv_mlkem sk) = 64"

lemma from_format_Inr: "from_format K J f = Inr pk \<Longrightarrow> well_formed_public K pk"
  by (auto simp: from_format_def well_formed_public_def res_elims)

text \<open>
  C21: Whatever file a loader reads, a key it returns is well formed: an X25519 part of 32 bytes,
  a valid ML-KEM encapsulation key of 1184 bytes or a seed of 64 bytes, from a regular file of at
  most 64 KiB; generated keys are well formed too, and loading changes nothing.
\<close>

theorem loaded_keys_well_formed:
  "(public_load_from_file K J H p w = (Inr pk, w1) \<longrightarrow> w1 = w \<and> well_formed_public K pk \<and>
      (\<exists>bs. lookup w p = Some (Regular bs) \<and> length bs \<le> MAX_KEY_FILE_SIZE)) \<and>
   (private_load_from_file J H p w = (Inr sk, w1) \<longrightarrow> w1 = w \<and> well_formed_private sk \<and>
      (\<exists>bs. lookup w p = Some (Regular bs) \<and> length bs \<le> MAX_KEY_FILE_SIZE)) \<and>
   (generate_keypair P K w = (Inr (sk, pk), w1) \<longrightarrow> same_files w w1 \<and> well_formed_private sk \<and>
      (mlkem_ok P K \<longrightarrow> (\<forall>a. length (x25519_public P a) = 32) \<longrightarrow> well_formed_public K pk))"
proof (intro conjI [rotated] impI)
  assume "generate_keypair P K w = (Inr (sk, pk), w1)"
  from generate_keypair_Inr [OF this]
  show "same_files w w1" "well_formed_private sk"
    "mlkem_ok P K \<Longrightarrow> \<forall>a. length (x25519_public P a) = 32 \<Longrightarrow> well_formed_public K pk"
    by (auto simp: same_files_def same_but_rngD well_formed_private_def well_formed_public_def mlkem_ok_def)
next
  assume "private_load_from_file J H p w = (Inr sk, w1)"
  then show "w1 = w" "well_formed_private sk"
      "\<exists>bs. lookup w p = Some (Regular bs) \<and> length bs \<le> MAX_KEY_FILE_SIZE"
    unfolding private_load_from_file_def read_key_file_def
    by (auto simp: res_elims well_formed_private_def dest!: read_limited_Inr)
next
  assume "public_load_from_file K J H p w = (Inr pk, w1)"
  then show "w1 = w" "well_formed_public K pk"
      "\<exists>bs. lookup w p = Some (Regular bs) \<and> length bs \<le> MAX_KEY_FILE_SIZE"
    unfolding public_load_from_file_def read_key_file_def
    by (auto simp: res_elims dest!: read_limited_Inr from_format_Inr)
qed

text \<open>
  C20: A generated key pair that is saved to two files loads from them unchanged, and what is
  encrypted for the loaded public key the loaded private key decrypts.
\<close>

theorem key_files_round_trip:
  assumes laws: "mlkem_ok P K" "base64_ok J" "hybrid_json_ok H" "\<forall>a. length (x25519_public P a) = 32"
    and gen: "generate_keypair P K w0 = (Inr (sk, pk), w1)"
    and save: "private_save_to_file J H sk priv_path w1 = (Inr (), w2)"
      "public_save_to_file J H pk pub_path w2 = (Inr (), w3)"
    and env: "resolve w0 priv_path \<noteq> resolve w0 pub_path" "calm w0 priv_path" "calm w0 pub_path"
  shows "private_load_from_file J H priv_path w3 = (Inr sk, w3) \<and>
    public_load_from_file K J H pub_path w3 = (Inr pk, w3) \<and>
    (\<forall>inp bs out out2 profile pol override w4. ciphers_ok (cip P) \<longrightarrow> dh_laws P \<longrightarrow> postcard_ok S \<longrightarrow>
       encrypt_file_keypairs P S inp out [pk] profile pol override w3 = (Inr (), w4) \<longrightarrow>
       lookup w3 inp = Some (Regular bs) \<longrightarrow> length bs < 2 ^ 64 \<longrightarrow> calm w4 out \<longrightarrow> output_ok w4 out2 \<longrightarrow>
       decrypt_file_keypair P S out out2 sk w4 = (Inr (), put_file w4 out2 bs))"
proof -
  note g = generate_keypair_Inr [OF gen]
  then have rng: "same_but_rng w0 w1" by simp
  obtain j1 where j1: "js_private H \<lparr>fmt_x25519_priv = base64_encode J (priv_x25519 sk),
      fmt_mlkem_priv = base64_encode J (priv_mlkem sk)\<rparr> = Some j1"
    "w2 = put_file w1 priv_path j1" "priv_path \<noteq> Path False []"
    using private_save_Inr [OF save(1)] .
  obtain j2 where j2: "js_public H \<lparr>fmt_x25519_pub = base64_encode J (pub_x25519 pk),
      fmt_mlkem_pub = base64_encode J (pub_mlkem pk)\<rparr> = Some j2"
    "w3 = put_file w2 pub_path j2" "pub_path \<noteq> Path False []"
    using public_save_Inr [OF save(2)] .
  have files: "lookup w3 priv_path = Some (Regular j1)" "lookup w3 pub_path = Some (Regular j2)"
    using env(1) j1(2,3) j2(2,3) same_but_rngD(6) [OF rng] by (auto simp: lookup_def w_fs_put_file)
  have calm: "calm w3 priv_path" "calm w3 pub_path"
    using env(2,3) j1(2) j2(2) same_but_rngD [OF rng] by (simp_all add: calm_def)
  have pk: "length (pub_x25519 pk) = 32" "length (pub_mlkem pk) = 1184" "mlkem_key_ok K (pub_mlkem pk)"
    using g laws(1,4) by (auto simp: mlkem_ok_def)
  have pair: "key_pair P sk ([pk] ! 0)" using g laws(1) by (auto simp: key_pair_def mlkem_ok_def)
  have "decrypt_file_keypair P S out out2 sk w4 = (Inr (), put_file w4 out2 bs)"
    if "ciphers_ok (cip P)" "dh_laws P" "postcard_ok S"
      "encrypt_file_keypairs P S inp out [pk] profile pol override w3 = (Inr (), w4)"
      "lookup w3 inp = Some (Regular bs)" "length bs < 2 ^ 64" "calm w4 out" "output_ok w4 out2"
    for inp bs out out2 profile pol override w4
    by (rule keypair_restores [OF that(1-6) _ pair _ that(7,8)]) simp_all
  with private_load_saved [OF laws(2,3) j1(1) _ _ files(1) calm(1)]
    public_load_saved [OF laws(2,3) j2(1) pk files(2) calm(2)] g
  show ?thesis by simp
qed

end
