(* ===== verification/Recipient_Groups.thy ===== *)
theory Recipient_Groups
  imports Key_Files
begin

text \<open>
  Recipient groups (groups.rs) and the group commands of the command line (main.rs), which
  create a group file, add a public key, remove recipients by name and list them. TOML is the
  parameter \<open>group_toml\<close>; errors are messages, with the cause kept as a value.
\<close>

section \<open>Data\<close>

record group_recipient =
  gr_name :: string
  gr_key :: public_key_format

record recipient_group =
  group_name :: string
  group_description :: "string option"
  group_recipients :: "group_recipient list"

record group_toml =
  to_toml_group :: "recipient_group \<Rightarrow> bytes option"
  from_toml_group :: "bytes \<Rightarrow> recipient_group option"

text \<open>Parsing undoes printing, and the printed text is UTF-8.\<close>

definition group_toml_ok :: "group_toml \<Rightarrow> bool" where
  "group_toml_ok T \<longleftrightarrow> (\<forall>g b. to_toml_group T g = Some b \<longrightarrow> from_toml_group T b = Some g \<and> utf8_valid b)"

text \<open>An error message, with the I/O error that follows the colon when there is one.\<close>

datatype group_error = GroupMessage string | GroupIo string io_error

section \<open>Group files\<close>

definition MAX_RECIPIENT_GROUP_FILE_SIZE :: nat where
  "MAX_RECIPIENT_GROUP_FILE_SIZE = 1024 * 1024"

definition read_recipient_group_file :: "path \<Rightarrow> (world, group_error, bytes) action" where
  "read_recipient_group_file =
     read_limited MAX_RECIPIENT_GROUP_FILE_SIZE (GroupMessage ''Recipient group file is invalid or too large'')
       (GroupIo ''Failed to read recipient group file: '')"

definition group_load_from_file :: "group_toml \<Rightarrow> path \<Rightarrow> (world, group_error, recipient_group) action" where
  "group_load_from_file T p =
     act (read_recipient_group_file p) (\<lambda>content.
       lift (ok_or (GroupMessage ''Failed to parse recipient group'') (from_toml_group T content)))"

definition group_save_to_file ::
  "group_toml \<Rightarrow> recipient_group \<Rightarrow> path \<Rightarrow> (world, group_error, unit) action" where
  "group_save_to_file T g p =
     act (lift (ok_or (GroupMessage ''Failed to serialize recipient group'') (to_toml_group T g))) (\<lambda>content.
     act (lift (ensure (length content \<le> MAX_RECIPIENT_GROUP_FILE_SIZE)
       (GroupMessage ''Recipient group file is too large''))) (\<lambda>_.
       act_map_err (GroupIo ''Failed to write recipient group file: '') (fs_write p content)))"

text \<open>The loop over the recipients stops at the first key that does not parse.\<close>

definition extract_public_keys ::
  "mlkem \<Rightarrow> key_json \<Rightarrow> recipient_group \<Rightarrow> crypto_error + hybrid_public_key list" where
  "extract_public_keys K J g = traverse (\<lambda>r. from_format K J (gr_key r)) (group_recipients g)"

section \<open>Group commands\<close>

text \<open>
  \<open>Path::file_stem\<close>: the file name without its last extension; a leading dot is no extension.
\<close>

definition file_name :: "path \<Rightarrow> string option" where
  "file_name p =
     (if comps p = [] \<or> last (comps p) = ''.'' \<or> last (comps p) = ''..'' then None else Some (last (comps p)))"

definition rsplit_dot :: "string \<Rightarrow> (string \<times> string) option" where
  "rsplit_dot s =
     (if CHR ''.'' \<in> set s
      then Some (rev (tl (dropWhile (\<lambda>c. c \<noteq> CHR ''.'') (rev s))), rev (takeWhile (\<lambda>c. c \<noteq> CHR ''.'') (rev s)))
      else None)"

definition stem_and_extension :: "string \<Rightarrow> string \<times> string option" where
  "stem_and_extension name =
     (case rsplit_dot name of
        None \<Rightarrow> (name, None)
      | Some (before, after) \<Rightarrow> if before = [] then (name, None) else (before, Some after))"

definition file_stem :: "path \<Rightarrow> string option" where
  "file_stem p = map_option (fst \<circ> stem_and_extension) (file_name p)"

definition group_create :: "group_toml \<Rightarrow> string \<Rightarrow> path \<Rightarrow> (world, group_error, unit) action" where
  "group_create T name p w =
     (if path_exists w p then (Inl (GroupMessage (''Group file already exists: '' @ name)), w)
      else group_save_to_file T
        \<lparr>group_name = name, group_description = Some ''Created by lvau-cli'', group_recipients = []\<rparr> p w)"

text \<open>
  \<open>fs::read_to_string\<close>, then the JSON of the key file; \<open>file_stem().unwrap()\<close> cannot fail for a
  file that was read.
\<close>

definition group_add ::
  "group_toml \<Rightarrow> hybrid_json \<Rightarrow> path \<Rightarrow> path \<Rightarrow> (world, group_error, unit) action" where
  "group_add T H p pub_key =
     act (group_load_from_file T p) (\<lambda>g.
     act (act_map_err (GroupIo ''Failed to read public key file: '') (fs_read pub_key)) (\<lambda>json.
     act (lift (ensure (utf8_valid json) (GroupIo ''Failed to read public key file: '' InvalidData))) (\<lambda>_.
     act (lift (ok_or (GroupMessage ''Invalid public key format'') (js_parse_public H json))) (\<lambda>fmt.
       group_save_to_file T (g\<lparr>group_recipients := group_recipients g @
         [\<lparr>gr_name = the (file_stem pub_key), gr_key = fmt\<rparr>]\<rparr>) p))))"

text \<open>The result tells whether a recipient was removed (and the file written).\<close>

definition group_remove :: "group_toml \<Rightarrow> path \<Rightarrow> string \<Rightarrow> (world, group_error, bool) action" where
  "group_remove T p fingerprint =
     act (group_load_from_file T p) (\<lambda>g.
     let kept = filter (\<lambda>r. gr_name r \<noteq> fingerprint) (group_recipients g) in
     if length kept < length (group_recipients g)
     then act (group_save_to_file T (g\<lparr>group_recipients := kept\<rparr>) p) (\<lambda>_. ret True)
     else ret False)"

section \<open>Loading and saving\<close>

lemma fs_write_Inr:
  assumes "fs_write p bs w = (Inr u, w')"
  shows "w' = put_file w p bs" "p \<noteq> Path False []"
proof -
  from assms obtain wr where wr: "write_all bs (fresh_writer (w_disk w)) = (Inr u, wr)" "w' = put_file w p (w_data wr)"
    and ne: "comps p \<noteq> []"
    by (auto simp: fs_write_def split: if_splits prod.splits)
  from write_all_Inr [OF wr(1)] wr(2) show "w' = put_file w p bs" by simp
  from ne show "p \<noteq> Path False []" by auto
qed

lemma group_save_Inr:
  assumes "group_save_to_file T g p w = (Inr u, w')"
  obtains b where "to_toml_group T g = Some b" "length b \<le> MAX_RECIPIENT_GROUP_FILE_SIZE" "w' = put_file w p b"
    "p \<noteq> Path False []"
  using assms that unfolding group_save_to_file_def by (auto simp: res_elims dest: fs_write_Inr)

lemma group_load_Inr:
  assumes "group_load_from_file T p w = (Inr g, w')"
  shows "w' = w \<and> (\<exists>bs. lookup w p = Some (Regular bs) \<and> from_toml_group T bs = Some g)"
  using assms unfolding group_load_from_file_def read_recipient_group_file_def
  by (auto simp: res_elims dest!: read_limited_Inr)

lemma group_saved_loads:
  assumes "group_toml_ok T" "group_save_to_file T g p w = (Inr u, w')" "calm w p"
  shows "group_load_from_file T p w' = (Inr g, w')"
proof -
  obtain b where b: "to_toml_group T g = Some b" "length b \<le> MAX_RECIPIENT_GROUP_FILE_SIZE" "w' = put_file w p b"
      "p \<noteq> Path False []"
    using group_save_Inr [OF assms(2)] .
  then have "lookup w' p = Some (Regular b)" "calm w' p"
    using assms(3) lookup_put_file by (simp_all add: calm_def)
  moreover have "utf8_valid b" "from_toml_group T b = Some g"
    using assms(1) b(1) by (auto simp: group_toml_ok_def)
  ultimately show ?thesis
    using b(2) by (simp add: group_load_from_file_def read_recipient_group_file_def act_apply read_limited_calm)
qed

lemma traverse_snoc:
  "traverse f (xs @ [x]) = rbind (traverse f xs) (\<lambda>ys. rbind (f x) (\<lambda>y. Inr (ys @ [y])))"
  by (simp add: traverse_append rbind_assoc)


lemma fs_read_unique:
  assumes "fs_read p w = (Inr bs, w')" "lookup w p = Some (Regular cs)"
  shows "bs = cs"
proof -
  from assms(1) obtain rd w1 where rd: "open_file p w = (Inr rd, w1)"
      "fst (fill (length (r_data rd) + 1) [] rd) = Inr bs"
    by (auto simp: fs_read_def res_elims)
  obtain rd' where "fill (length (r_data rd) + 1) [] rd = (Inr bs, rd')"
    using rd(2) by (metis prod.collapse)
  from fill_Inr [OF this] open_file_Inr [OF rd(1)] assms(2) show ?thesis by simp
qed

lemma group_add_Inr:
  assumes "group_add T H p key_path w = (Inr u, w')"
  obtains g json fmt where "group_load_from_file T p w = (Inr g, w)" "fs_read key_path w = (Inr json, w)"
    "js_parse_public H json = Some fmt"
    "group_save_to_file T (g\<lparr>group_recipients := group_recipients g @
       [\<lparr>gr_name = the (file_stem key_path), gr_key = fmt\<rparr>]\<rparr>) p w = (Inr u, w')"
proof -
  from assms obtain g w1 json w2 fmt where *: "group_load_from_file T p w = (Inr g, w1)"
      "fs_read key_path w1 = (Inr json, w2)" "js_parse_public H json = Some fmt"
      "group_save_to_file T (g\<lparr>group_recipients := group_recipients g @
         [\<lparr>gr_name = the (file_stem key_path), gr_key = fmt\<rparr>]\<rparr>) p w2 = (Inr u, w')"
    unfolding group_add_def by (auto simp: res_elims)
  with group_load_Inr [OF *(1)] fs_read_Inr(1) [OF *(2)] that show ?thesis by blast
qed

lemma group_remove_Inr:
  assumes "group_remove T p name w = (Inr removed, w')"
  obtains g where "group_load_from_file T p w = (Inr g, w)"
    "removed \<longleftrightarrow> (\<exists>r \<in> set (group_recipients g). gr_name r = name)"
    "removed \<longrightarrow> group_save_to_file T (g\<lparr>group_recipients := filter (\<lambda>r. gr_name r \<noteq> name) (group_recipients g)\<rparr>) p w = (Inr (), w')"
    "\<not> removed \<longrightarrow> w' = w"
proof -
  obtain g where g: "group_load_from_file T p w = (Inr g, w)"
    using assms group_load_Inr unfolding group_remove_def by (elim act_InrE) blast
  have "length (filter (\<lambda>r. gr_name r \<noteq> name) (group_recipients g)) < length (group_recipients g) \<longleftrightarrow>
      (\<exists>r \<in> set (group_recipients g). gr_name r = name)"
    by (auto simp: length_filter_less) (metis (mono_tags, lifting) filter_True less_irrefl)
  with assms g that show ?thesis
    by (auto simp: group_remove_def act_def Let_def split: if_splits prod.splits sum.splits)
qed

text \<open>
  Adding a key file appends one recipient, named after the file, to the group; removing
  deletes exactly the recipients of that name, keeps the others in order, and leaves the file
  alone when there is none: the argument \<open>fingerprint\<close> is compared with names only.
\<close>

theorem group_commands_exact:
  assumes T: "group_toml_ok T" and p: "calm w p"
  shows "(group_add T H p key_path w = (Inr (), w1) \<longrightarrow>
      (\<exists>g json fmt. group_load_from_file T p w = (Inr g, w) \<and> fs_read key_path w = (Inr json, w) \<and>
         js_parse_public H json = Some fmt \<and>
         group_load_from_file T p w1 = (Inr (g\<lparr>group_recipients := group_recipients g @
           [\<lparr>gr_name = the (file_stem key_path), gr_key = fmt\<rparr>]\<rparr>), w1))) \<and>
    (group_remove T p name w = (Inr removed, w2) \<longrightarrow>
      (\<exists>g. group_load_from_file T p w = (Inr g, w) \<and>
         group_load_from_file T p w2 =
           (Inr (g\<lparr>group_recipients := filter (\<lambda>r. gr_name r \<noteq> name) (group_recipients g)\<rparr>), w2) \<and>
         (removed \<longleftrightarrow> (\<exists>r \<in> set (group_recipients g). gr_name r = name)) \<and> (\<not> removed \<longrightarrow> w2 = w)))"
proof (intro conjI impI)
  assume "group_add T H p key_path w = (Inr (), w1)"
  then show "\<exists>g json fmt. group_load_from_file T p w = (Inr g, w) \<and> fs_read key_path w = (Inr json, w) \<and>
         js_parse_public H json = Some fmt \<and>
         group_load_from_file T p w1 = (Inr (g\<lparr>group_recipients := group_recipients g @
           [\<lparr>gr_name = the (file_stem key_path), gr_key = fmt\<rparr>]\<rparr>), w1)"
    by (rule group_add_Inr) (use group_saved_loads [OF T _ p] in blast)
next
  assume "group_remove T p name w = (Inr removed, w2)"
  then obtain g where g: "group_load_from_file T p w = (Inr g, w)"
    "removed \<longleftrightarrow> (\<exists>r \<in> set (group_recipients g). gr_name r = name)"
    "removed \<longrightarrow> group_save_to_file T (g\<lparr>group_recipients := filter (\<lambda>r. gr_name r \<noteq> name) (group_recipients g)\<rparr>) p w = (Inr (), w2)"
    "\<not> removed \<longrightarrow> w2 = w" by (rule group_remove_Inr)
  have "g\<lparr>group_recipients := filter (\<lambda>r. gr_name r \<noteq> name) (group_recipients g)\<rparr> = g" if "\<not> removed"
    using that g(2) by (cases g) (auto intro: filter_True)
  then show "\<exists>g. group_load_from_file T p w = (Inr g, w) \<and>
         group_load_from_file T p w2 =
           (Inr (g\<lparr>group_recipients := filter (\<lambda>r. gr_name r \<noteq> name) (group_recipients g)\<rparr>), w2) \<and>
         (removed \<longleftrightarrow> (\<exists>r \<in> set (group_recipients g). gr_name r = name)) \<and> (\<not> removed \<longrightarrow> w2 = w)"
    using g group_saved_loads [OF T _ p] by (intro exI [of _ g]) (cases removed; simp)
qed

text \<open>
  A group to which a saved public key is added yields, as the keys to encrypt for, the keys it
  held before followed by that key; every key of a group is well formed.
\<close>

theorem group_keys_round_trip:
  assumes T: "group_toml_ok T" and J: "base64_ok J" and H: "hybrid_json_ok H" and pk: "well_formed_public K pk"
    and save: "public_save_to_file J H pk key_path w0 = (Inr (), w)"
    and p: "calm w p" "group_load_from_file T p w = (Inr g, w)" "extract_public_keys K J g = Inr ks"
    and add: "group_add T H p key_path w = (Inr (), w1)"
  shows "\<exists>g1. group_load_from_file T p w1 = (Inr g1, w1) \<and> extract_public_keys K J g1 = Inr (ks @ [pk]) \<and>
    (\<forall>k \<in> set (ks @ [pk]). well_formed_public K k)"
proof -
  obtain json where js: "js_public H \<lparr>fmt_x25519_pub = base64_encode J (pub_x25519 pk),
      fmt_mlkem_pub = base64_encode J (pub_mlkem pk)\<rparr> = Some json" "w = put_file w0 key_path json" "key_path \<noteq> Path False []"
    using public_save_Inr [OF save] .
  from add obtain json' fmt where a: "fs_read key_path w = (Inr json', w)" "js_parse_public H json' = Some fmt"
    "group_save_to_file T (g\<lparr>group_recipients := group_recipients g @
       [\<lparr>gr_name = the (file_stem key_path), gr_key = fmt\<rparr>]\<rparr>) p w = (Inr (), w1)"
    by (rule group_add_Inr) (use p(2) in auto)
  have "json' = json" using fs_read_unique [OF a(1)] lookup_put_file [OF js(3)] js(2) by blast
  then have fmt: "from_format K J fmt = Inr pk"
    using a(2) js(1) H J pk
    by (auto simp: hybrid_json_ok_def base64_ok_def from_format_def well_formed_public_def)
  have "well_formed_public K k" if "k \<in> set ks" for k
  proof -
    from that obtain i where i: "i < length ks" "k = ks ! i" by (auto simp: in_set_conv_nth)
    moreover have "length ks = length (group_recipients g)"
      using p(3) by (simp add: extract_public_keys_def traverse_length)
    ultimately have "from_format K J (gr_key (group_recipients g ! i)) = Inr k"
      using traverse_nth [OF p(3) [unfolded extract_public_keys_def], of i] by simp
    then show ?thesis by (rule from_format_Inr)
  qed
  with pk fmt p(3) group_saved_loads [OF T a(3) p(1)] show ?thesis
    by (auto simp: extract_public_keys_def traverse_snoc)
qed

end
