(* ===== verification/Recovery.thy ===== *)
theory Recovery
  imports Key_Files
begin

text \<open>
  Recovery shares (recovery.rs): splitting a secret with Shamir's scheme, share files, and
  combining. The blahaj crate is the parameter \<open>sharks\<close>, with the polynomials its dealer draws
  inside; a share is its byte representation. The serializer of a share is \<open>share_codec\<close>.
\<close>

section \<open>Data and third-party code\<close>

record recovery_share =
  sh_magic :: bytes
  sh_version :: u32
  sh_index :: byte
  sh_threshold :: byte
  sh_fingerprint :: bytes
  sh_data :: bytes

record share_codec =
  pc_share :: "recovery_share \<Rightarrow> bytes option"
  pc_take_share :: "bytes \<Rightarrow> (recovery_share \<times> bytes) option"

definition share_codec_ok :: "share_codec \<Rightarrow> bool" where
  "share_codec_ok C \<longleftrightarrow> (\<forall>s b r. pc_share C s = Some b \<longrightarrow> pc_take_share C (b @ r) = Some (s, r))"

record sharks =
  sk_dealer :: "nat \<Rightarrow> bytes \<Rightarrow> bytes list"
  sk_share_ok :: "bytes \<Rightarrow> bool"
  sk_recover :: "nat \<Rightarrow> bytes list \<Rightarrow> bytes option"

text \<open>
  Shamir's scheme over GF(256): the dealer yields 255 shares, each led by its own number, and any
  \<open>threshold\<close> of them recover a non-empty secret, in any order.
\<close>

definition sharks_ok :: "sharks \<Rightarrow> bool" where
  "sharks_ok K \<longleftrightarrow> (\<forall>t s. 0 < t \<longrightarrow> t < 256 \<longrightarrow> s \<noteq> [] \<longrightarrow>
     length (sk_dealer K t s) = 255 \<and> distinct (map hd (sk_dealer K t s)) \<and>
     (\<forall>d \<in> set (sk_dealer K t s). d \<noteq> [] \<and> sk_share_ok K d) \<and>
     (\<forall>ds. set ds \<subseteq> set (sk_dealer K t s) \<longrightarrow> distinct ds \<longrightarrow> t \<le> length ds \<longrightarrow> sk_recover K t ds = Some s))"

definition CURRENT_SHARE_VERSION :: u32 where "CURRENT_SHARE_VERSION = 2"

definition MAX_SHARE_FILE_SIZE :: nat where "MAX_SHARE_FILE_SIZE = 1024 * 1024"

definition SHARE_MAGIC :: bytes where "SHARE_MAGIC = ascii ''LVAU''"

section \<open>Share files\<close>

definition read_share_file :: "path \<Rightarrow> (world, crypto_error, bytes) action" where
  "read_share_file p =
     act (act_map_err Io (open_file p)) (\<lambda>rd.
     act (act_map_err Io (metadata_of p)) (\<lambda>m.
     act (lift (ensure (fst m \<and> snd m \<le> MAX_SHARE_FILE_SIZE) (Validation ''Recovery share is too large''))) (\<lambda>_.
     act (lift (map_err Io (fst (fill (MAX_SHARE_FILE_SIZE + 1) [] rd)))) (\<lambda>bs.
     act (lift (ensure (length bs \<le> MAX_SHARE_FILE_SIZE) (Validation ''Recovery share is too large''))) (\<lambda>_.
       ret bs)))))"

definition persist_error :: "bool \<Rightarrow> io_error \<Rightarrow> crypto_error" where
  "persist_error force e = (if \<not> force \<and> e = AlreadyExists then OutputExists else Io e)"

definition share_commit :: "bool \<Rightarrow> writer \<Rightarrow> path \<Rightarrow> (world, crypto_error, unit) action" where
  "share_commit force temp p =
     act (act_map_err (persist_error force) (if force then persist temp p else persist_noclobber temp p)) (\<lambda>_.
       act_map_err Io (sync_path (parent_or_dot p)))"

definition share_write_private_atomic :: "path \<Rightarrow> bytes \<Rightarrow> bool \<Rightarrow> (world, crypto_error, unit) action" where
  "share_write_private_atomic p bs force = write_via Io (share_commit force) p bs"

definition to_file_with_force ::
  "share_codec \<Rightarrow> recovery_share \<Rightarrow> path \<Rightarrow> bool \<Rightarrow> (world, crypto_error, unit) action" where
  "to_file_with_force C share p force =
     act (lift (ok_or Serialization (pc_share C share))) (\<lambda>encoded. share_write_private_atomic p encoded force)"

definition share_to_file :: "share_codec \<Rightarrow> recovery_share \<Rightarrow> path \<Rightarrow> (world, crypto_error, unit) action" where
  "share_to_file C share p = to_file_with_force C share p True"

definition version_supported :: "u32 \<Rightarrow> bool" where
  "version_supported v \<longleftrightarrow> 1 \<le> v \<and> v \<le> CURRENT_SHARE_VERSION"

definition decode_share :: "share_codec \<Rightarrow> bytes \<Rightarrow> crypto_error + recovery_share" where
  "decode_share C bs =
     rbind (ok_or Serialization (pc_take_share C bs)) (\<lambda>(share, remaining).
     rbind (ensure (remaining = []) (Validation ''Recovery share contains trailing data'')) (\<lambda>_.
     rbind (ensure (sh_magic share = SHARE_MAGIC) (Validation ''Invalid magic bytes in share'')) (\<lambda>_.
     rbind (ensure (version_supported (sh_version share)) (Validation ''Unsupported recovery share version'')) (\<lambda>_.
     rbind (ensure (sh_threshold share \<noteq> 0 \<and> sh_data share \<noteq> [] \<and> hd (sh_data share) = sh_index share)
       (Validation ''Invalid recovery share metadata'')) (\<lambda>_. Inr share)))))"

definition share_from_file :: "share_codec \<Rightarrow> path \<Rightarrow> (world, crypto_error, recovery_share) action" where
  "share_from_file C p = act (read_share_file p) (\<lambda>bs. lift (decode_share C bs))"

definition write_recovered_secret :: "path \<Rightarrow> bytes \<Rightarrow> bool \<Rightarrow> (world, crypto_error, unit) action" where
  "write_recovered_secret p secret force = share_write_private_atomic p secret force"

section \<open>Splitting and combining\<close>

definition split_secret ::
  "sharks \<Rightarrow> bytes \<Rightarrow> byte \<Rightarrow> byte \<Rightarrow> (world, crypto_error, recovery_share list) action" where
  "split_secret K secret num_shares threshold =
     act (lift (ensure (\<not> (threshold = 0 \<or> num_shares = 0 \<or> num_shares < threshold))
       (Validation ''Invalid threshold or share count''))) (\<lambda>_.
     let dealer = sk_dealer K (unat threshold) secret in
     act (fill_bytes 32) (\<lambda>fingerprint.
       ret (map (\<lambda>share_bytes. \<lparr>sh_magic = SHARE_MAGIC, sh_version = CURRENT_SHARE_VERSION,
           sh_index = hd share_bytes, sh_threshold = threshold, sh_fingerprint = fingerprint,
           sh_data = share_bytes\<rparr>) (take (unat num_shares) dealer))))"

text \<open>The loop over the shares, with the set of indices seen so far.\<close>

fun check_shares :: "u32 \<Rightarrow> byte \<Rightarrow> bytes \<Rightarrow> byte set \<Rightarrow> recovery_share list \<Rightarrow> crypto_error + unit" where
  "check_shares version threshold fingerprint indices [] = Inr ()"
| "check_shares version threshold fingerprint indices (s # ss) =
     (if sh_magic s \<noteq> SHARE_MAGIC \<or> \<not> version_supported (sh_version s) \<or> sh_version s \<noteq> version \<or>
         sh_threshold s \<noteq> threshold \<or> sh_fingerprint s \<noteq> fingerprint \<or>
         \<not> (sh_data s \<noteq> [] \<and> hd (sh_data s) = sh_index s) \<or> sh_index s \<in> indices
      then Inl (Validation ''Mismatched, duplicate, or invalid recovery shares'')
      else check_shares version threshold fingerprint (insert (sh_index s) indices) ss)"

definition combine_shares :: "prims \<Rightarrow> sharks \<Rightarrow> recovery_share list \<Rightarrow> crypto_error + bytes" where
  "combine_shares P K shares =
     rbind (ensure (shares \<noteq> []) (Validation ''No shares provided'')) (\<lambda>_.
     let threshold = sh_threshold (hd shares); fingerprint = sh_fingerprint (hd shares);
         version = sh_version (hd shares) in
     rbind (ensure (threshold \<noteq> 0 \<and> unat threshold \<le> length shares)
       (Validation ''Not enough shares to reach threshold'')) (\<lambda>_.
     rbind (check_shares version threshold fingerprint {} shares) (\<lambda>_.
     rbind (traverse (\<lambda>s. rbind (ensure (sk_share_ok K (sh_data s)) (Validation ''Invalid share data format''))
       (\<lambda>_. Inr (sh_data s))) shares) (\<lambda>sharks_shares.
     rbind (ok_or DecryptionFailed (sk_recover K (unat threshold) sharks_shares)) (\<lambda>recovered.
     rbind (ensure (\<not> (version = 1 \<and> sha256 P recovered \<noteq> fingerprint)) DecryptionFailed) (\<lambda>_.
       Inr recovered))))))"

section \<open>What combining accepts\<close>

definition share_matches :: "u32 \<Rightarrow> byte \<Rightarrow> bytes \<Rightarrow> recovery_share \<Rightarrow> bool" where
  "share_matches version threshold fingerprint s \<longleftrightarrow>
     sh_magic s = SHARE_MAGIC \<and> version_supported version \<and> sh_version s = version \<and>
     sh_threshold s = threshold \<and> sh_fingerprint s = fingerprint \<and>
     sh_data s \<noteq> [] \<and> hd (sh_data s) = sh_index s"

lemma check_shares_iff:
  "check_shares version threshold fingerprint indices ss = Inr u \<longleftrightarrow>
     (\<forall>s \<in> set ss. share_matches version threshold fingerprint s) \<and>
     distinct (map sh_index ss) \<and> sh_index ` set ss \<inter> indices = {}"
  by (induction ss arbitrary: indices) (auto simp: share_matches_def)

lemma traverse_ensure:
  "traverse (\<lambda>s. rbind (ensure (q s) e) (\<lambda>_. Inr (f s))) xs = Inr ys \<longleftrightarrow>
     (\<forall>s \<in> set xs. q s) \<and> ys = map f xs"
  by (induction xs arbitrary: ys) (auto simp: res_elims)

lemma combine_shares_iff:
  "combine_shares P K shares = Inr secret \<longleftrightarrow>
     shares \<noteq> [] \<and> sh_threshold (hd shares) \<noteq> 0 \<and> unat (sh_threshold (hd shares)) \<le> length shares \<and>
     (\<forall>s \<in> set shares. share_matches (sh_version (hd shares)) (sh_threshold (hd shares)) (sh_fingerprint (hd shares)) s) \<and>
     distinct (map sh_index shares) \<and> (\<forall>s \<in> set shares. sk_share_ok K (sh_data s)) \<and>
     sk_recover K (unat (sh_threshold (hd shares))) (map sh_data shares) = Some secret \<and>
     (sh_version (hd shares) = 1 \<longrightarrow> sha256 P secret = sh_fingerprint (hd shares))"
  by (auto simp: combine_shares_def res_elims Let_def check_shares_iff traverse_ensure)

lemma split_secret_Inr:
  assumes "split_secret K secret num threshold w = (Inr shares, w')"
  shows "threshold \<noteq> 0 \<and> threshold \<le> num \<and> same_but_rng w w' \<and> (\<exists>fp. length fp = 32 \<and>
    shares = map (\<lambda>d. \<lparr>sh_magic = SHARE_MAGIC, sh_version = CURRENT_SHARE_VERSION, sh_index = hd d,
      sh_threshold = threshold, sh_fingerprint = fp, sh_data = d\<rparr>) (take (unat num) (sk_dealer K (unat threshold) secret)))"
  using assms by (auto simp: split_secret_def res_elims Let_def not_less dest!: fill_bytes_Inr)

text \<open>Any selection of enough distinct shares of one split combines to the secret.\<close>

lemma split_then_combine:
  assumes K: "sharks_ok K" and split: "split_secret K secret num threshold w = (Inr shares, w')" and secret: "secret \<noteq> []"
    and chosen: "set chosen \<subseteq> set shares" "distinct chosen" "unat threshold \<le> length chosen"
  shows "combine_shares P K chosen = Inr secret"
proof -
  obtain fp where t: "threshold \<noteq> 0" and sh: "shares = map (\<lambda>d. \<lparr>sh_magic = SHARE_MAGIC, sh_version = CURRENT_SHARE_VERSION,
      sh_index = hd d, sh_threshold = threshold, sh_fingerprint = fp, sh_data = d\<rparr>)
      (take (unat num) (sk_dealer K (unat threshold) secret))"
    using split_secret_Inr [OF split] by blast
  let ?ds = "sk_dealer K (unat threshold) secret"
  have pos: "0 < unat threshold" "unat threshold < 256"
    using t unat_bound [of threshold] by (simp_all add: unat_gt_0)
  then have deal: "distinct (map hd ?ds)" "\<forall>d \<in> set ?ds. d \<noteq> [] \<and> sk_share_ok K d"
      "\<And>ds. set ds \<subseteq> set ?ds \<Longrightarrow> distinct ds \<Longrightarrow> unat threshold \<le> length ds \<Longrightarrow>
         sk_recover K (unat threshold) ds = Some secret"
    using K secret unfolding sharks_ok_def by blast+
  have each: "sh_magic s = SHARE_MAGIC \<and> sh_version s = CURRENT_SHARE_VERSION \<and> sh_threshold s = threshold \<and>
      sh_fingerprint s = fp \<and> sh_index s = hd (sh_data s) \<and> sh_data s \<in> set ?ds" if "s \<in> set chosen" for s
  proof -
    from that chosen(1) have "s \<in> set shares" by blast
    then obtain d where "d \<in> set (take (unat num) ?ds)"
        "s = \<lparr>sh_magic = SHARE_MAGIC, sh_version = CURRENT_SHARE_VERSION, sh_index = hd d,
           sh_threshold = threshold, sh_fingerprint = fp, sh_data = d\<rparr>"
      unfolding sh by auto
    then show ?thesis using in_set_takeD by force
  qed
  have ne: "chosen \<noteq> []" using chosen(3) pos by auto
  then have hd: "hd chosen \<in> set chosen" by simp
  have inj: "inj_on hd (set ?ds)" using deal(1) by (simp add: distinct_map)
  have "inj_on sh_data (set chosen)"
  proof (rule inj_onI)
    fix a b assume "a \<in> set chosen" "b \<in> set chosen" "sh_data a = sh_data b"
    with each [of a] each [of b] show "a = b" by (cases a; cases b) simp
  qed
  then have data: "distinct (map sh_data chosen)" using chosen(2) by (simp add: distinct_map)
  have "inj_on sh_index (set chosen)"
  proof (rule inj_onI)
    fix a b assume ab: "a \<in> set chosen" "b \<in> set chosen" "sh_index a = sh_index b"
    then have "sh_data a = sh_data b" using each inj by (metis inj_onD)
    with \<open>inj_on sh_data (set chosen)\<close> ab show "a = b" by (simp add: inj_on_eq_iff)
  qed
  then have ix: "distinct (map sh_index chosen)" using chosen(2) by (simp add: distinct_map)
  have rec: "sk_recover K (unat threshold) (map sh_data chosen) = Some secret"
    by (rule deal(3)) (use each data chosen(3) in auto)
  have "share_matches CURRENT_SHARE_VERSION threshold fp s" "sk_share_ok K (sh_data s)" if "s \<in> set chosen" for s
    using each [OF that] deal(2) by (auto simp: share_matches_def version_supported_def CURRENT_SHARE_VERSION_def)
  with each [OF hd] ne ix rec chosen(3) t show ?thesis
    by (simp add: combine_shares_iff CURRENT_SHARE_VERSION_def)
qed


text \<open>
  C33: \<open>combine_shares\<close> returns a secret exactly when there are at least \<open>threshold > 0\<close> shares, all
  well formed, of one version, threshold and fingerprint, with distinct indices, whose data the
  scheme accepts and recovers to that secret; for a version-1 set the secret must also hash to the
  fingerprint, a version-2 set has no such check.
\<close>

theorem combine_shares_exact:
  "combine_shares P K shares = Inr secret \<longleftrightarrow>
     (\<exists>version threshold fingerprint. shares \<noteq> [] \<and> threshold \<noteq> 0 \<and> unat threshold \<le> length shares \<and>
        (\<forall>s \<in> set shares. share_matches version threshold fingerprint s \<and> sk_share_ok K (sh_data s)) \<and>
        distinct (map (hd \<circ> sh_data) shares) \<and>
        sk_recover K (unat threshold) (map sh_data shares) = Some secret \<and>
        (version = 1 \<longrightarrow> sha256 P secret = fingerprint))" (is "?l \<longleftrightarrow> ?r")
proof
  assume l: ?l
  then have "\<forall>s \<in> set shares. hd (sh_data s) = sh_index s"
    by (auto simp: combine_shares_iff share_matches_def)
  then have "map (hd \<circ> sh_data) shares = map sh_index shares" by simp
  moreover have "distinct (map sh_index shares)" using l by (simp add: combine_shares_iff)
  ultimately have "distinct (map (hd \<circ> sh_data) shares)" by (simp only:)
  with l show ?r
    by (intro exI [of _ "sh_version (hd shares)"] exI [of _ "sh_threshold (hd shares)"]
        exI [of _ "sh_fingerprint (hd shares)"]) (auto simp: combine_shares_iff)
next
  assume ?r
  then obtain version threshold fingerprint where *: "shares \<noteq> []" "threshold \<noteq> 0" "unat threshold \<le> length shares"
      "\<forall>s \<in> set shares. share_matches version threshold fingerprint s \<and> sk_share_ok K (sh_data s)"
      "distinct (map (hd \<circ> sh_data) shares)" "sk_recover K (unat threshold) (map sh_data shares) = Some secret"
      "version = 1 \<longrightarrow> sha256 P secret = fingerprint" by blast
  then have "share_matches version threshold fingerprint (hd shares)" by simp
  then have "sh_version (hd shares) = version" "sh_threshold (hd shares) = threshold" "sh_fingerprint (hd shares) = fingerprint"
    by (simp_all add: share_matches_def)
  moreover have "map (hd \<circ> sh_data) shares = map sh_index shares" using *(4) by (simp add: share_matches_def)
  with *(5) have "distinct (map sh_index shares)" by (simp only:)
  ultimately show ?l using * by (simp add: combine_shares_iff)
qed

section \<open>Share files\<close>

interpretation shc: atomic_commit "share_commit force" for force
proof unfold_locales
  fix tmp p w w' and u :: unit
  assume "share_commit force tmp p w = (Inr u, w')"
  then obtain w1 where "(if force then persist tmp p else persist_noclobber tmp p) w = (Inr (), w1)"
      "sync_path (parent_or_dot p) w1 = (Inr u, w')"
    unfolding share_commit_def by (auto simp: res_elims)
  then show "w' = put_file w p (w_data tmp) \<and> p \<noteq> Path False [] \<and> w_fs w (resolve w p) \<noteq> Some Directory"
    using pure_ops(3) [of "parent_or_dot p" w1]
    by (auto simp: persist_def persist_noclobber_def split: if_splits)
next
  fix tmp p w w' e
  assume "share_commit force tmp p w = (Inl e, w')"
  then show "w' = w \<or> w' = put_file w p (w_data tmp)"
    using pure_ops(3)
    by (auto simp: share_commit_def act_def act_map_err_def persist_def persist_noclobber_def
        split: prod.splits sum.splits if_splits) (metis snd_conv)+
qed

lemma share_write_Inr:
  "share_write_private_atomic p bs force w = (Inr u, w') \<Longrightarrow> w' = put_file w p bs \<and> p \<noteq> Path False []"
  unfolding share_write_private_atomic_def by (drule shc.write_via_Inr) blast

lemma share_commit_keeps: "share_commit False tmp p w = (r, w') \<Longrightarrow> keeps_entries w w'"
  using persist_noclobber_keeps pure_ops(3)
  by (fastforce simp: share_commit_def act_def act_map_err_def sync_path_def
      split: prod.splits sum.splits option.splits)

lemma share_write_keeps: "share_write_private_atomic p bs False w = (r, w') \<Longrightarrow> keeps_entries w w'"
  using share_commit_keeps [of _ p w]
  by (auto simp: share_write_private_atomic_def write_via_def act_def act_map_err_def new_in_def
      sync_temp_def split: prod.splits sum.splits if_splits)

lemma to_file_keeps: "to_file_with_force C share p False w = (r, w') \<Longrightarrow> keeps_entries w w'"
  by (auto simp: to_file_with_force_def act_def dest: share_write_keeps split: sum.splits)

lemma to_file_Inr:
  assumes "to_file_with_force C share p force w = (Inr u, w')"
  obtains b where "pc_share C share = Some b" "w' = put_file w p b" "p \<noteq> Path False []"
  using assms that by (auto simp: to_file_with_force_def res_elims dest: share_write_Inr)

lemma decode_share_iff:
  "decode_share C bs = Inr share \<longleftrightarrow> pc_take_share C bs = Some (share, []) \<and> sh_magic share = SHARE_MAGIC \<and>
     version_supported (sh_version share) \<and> sh_threshold share \<noteq> 0 \<and> sh_data share \<noteq> [] \<and>
     hd (sh_data share) = sh_index share"
  by (auto simp: decode_share_def res_elims split: prod.splits)

lemma read_share_file_calm:
  assumes "lookup w p = Some (Regular bs)" "calm w p" "length bs \<le> MAX_SHARE_FILE_SIZE"
  shows "read_share_file p w = (Inr bs, w)"
proof -
  let ?rd = "\<lparr>r_data = bs, r_events = w_script w (resolve w p)\<rparr>"
  have "quiet ?rd" using assms(2) by (simp add: quiet_def calm_def)
  then obtain rd' where "fill (MAX_SHARE_FILE_SIZE + 1) [] ?rd = (Inr (take (MAX_SHARE_FILE_SIZE + 1) bs), rd')"
    using fill_quiet_eq [of ?rd "MAX_SHARE_FILE_SIZE + 1"] by auto
  then show ?thesis
    using assms by (simp add: read_share_file_def act_apply act_map_err_def metadata_of_def)
qed

lemma read_share_file_world: "read_share_file p w = (r, w') \<Longrightarrow> w' = w"
  using pure_ops(1,2)
  by (auto simp: read_share_file_def act_def act_map_err_def split: prod.splits sum.splits) (metis snd_conv)+

text \<open>A share as \<open>split_secret\<close> makes it survives its file.\<close>

lemma share_saved_loads:
  assumes "share_codec_ok C" "pc_share C share = Some b" "length b \<le> MAX_SHARE_FILE_SIZE"
    and "sh_magic share = SHARE_MAGIC" "sh_version share = CURRENT_SHARE_VERSION" "sh_threshold share \<noteq> 0"
      "sh_data share \<noteq> []" "hd (sh_data share) = sh_index share"
    and "lookup w p = Some (Regular b)" "calm w p"
  shows "share_from_file C p w = (Inr share, w)"
proof -
  have "pc_take_share C b = Some (share, [])"
    using assms(1,2) unfolding share_codec_ok_def by (metis append_Nil2)
  with assms have "decode_share C b = Inr share"
    by (simp add: decode_share_iff version_supported_def CURRENT_SHARE_VERSION_def)
  with read_share_file_calm [OF assms(9,10,3)] show ?thesis by (simp add: share_from_file_def act_apply)
qed

end
