(* ===== verification/Report.thy ===== *)
theory Report
  imports Preflight Diff Bundle_Correct
begin

text \<open>
  Verification reports (report.rs) and the comparison of two encrypted bundles (\<open>diff_bundles\<close>,
  diff.rs). Both only read: what they return is determined by the components they call.
\<close>

section \<open>Comparing bundles\<close>

definition diff_bundles ::
  "prims \<Rightarrow> postcard \<Rightarrow> bundle_prims \<Rightarrow> path \<Rightarrow> path \<Rightarrow> bytes \<Rightarrow> path \<Rightarrow> bytes \<Rightarrow>
   (world, bundle_error, diff_report) action" where
  "diff_bundles P S B tmp old_path old_password new_path new_password =
     act (list_bundle P S B tmp old_path old_password) (\<lambda>old_manifest.
     act (list_bundle P S B tmp new_path new_password) (\<lambda>new_manifest.
       ret (diff_manifests old_manifest new_manifest)))"

section \<open>Reports\<close>

datatype decrypt_credential =
    DcPassword bytes "bytes option"
  | DcKeypair hybrid_private_key

record full_report =
  rp_file_path :: string
  rp_preflight :: preflight_result
  rp_decryption_successful :: "bool option"
  rp_file_count :: "nat option"
  rp_timestamp :: string

text \<open>\<open>match verify_file_... { Ok(_) => Some(true), Err(_) => Some(false) }\<close>\<close>

definition report_decryption ::
  "prims \<Rightarrow> postcard \<Rightarrow> path \<Rightarrow> decrypt_credential \<Rightarrow> world \<Rightarrow> bool \<times> world" where
  "report_decryption P S in_file cred w =
     (case cred of
        DcPassword pwd seed \<Rightarrow> (case verify_file_password P S in_file pwd seed w of (r, w1) \<Rightarrow> (is_ok r, w1))
      | DcKeypair pk \<Rightarrow> (case verify_file_keypair P S in_file pk w of (r, w1) \<Rightarrow> (is_ok r, w1)))"

definition report_file_count ::
  "prims \<Rightarrow> postcard \<Rightarrow> bundle_prims \<Rightarrow> path \<Rightarrow> path \<Rightarrow> preflight_result \<Rightarrow> bool \<Rightarrow> decrypt_credential \<Rightarrow>
   world \<Rightarrow> nat option \<times> world" where
  "report_file_count P S B tmp in_file preflight_res successful cred w =
     (if successful \<and> pf_content_type preflight_res = ''Bundle''
      then (case cred of
          DcPassword pwd _ \<Rightarrow>
            (case list_bundle P S B tmp in_file pwd w of
               (Inr manifest, w1) \<Rightarrow> (Some (length (entries manifest)), w1)
             | (Inl _, w1) \<Rightarrow> (None, w1))
        | DcKeypair _ \<Rightarrow> (None, w))
      else (None, w))"

definition generate_report ::
  "(crypto_error \<Rightarrow> string) \<Rightarrow> prims \<Rightarrow> postcard \<Rightarrow> ed25519 \<Rightarrow> bundle_prims \<Rightarrow> path \<Rightarrow> nat option \<Rightarrow> path \<Rightarrow>
   bytes option \<Rightarrow> capsule_policy option \<Rightarrow> decrypt_credential option \<Rightarrow> world \<Rightarrow> full_report \<times> world" where
  "generate_report crypto_text P S D B tmp now in_file verify_key policy credential w =
     (case run_preflight crypto_text P S D in_file verify_key policy w of (preflight_res, w1) \<Rightarrow>
      case (case credential of
          None \<Rightarrow> ((None, None), w1)
        | Some cred \<Rightarrow>
            (case report_decryption P S in_file cred w1 of (ok, w2) \<Rightarrow>
             case report_file_count P S B tmp in_file preflight_res ok cred w2 of (n, w3) \<Rightarrow>
               ((Some ok, n), w3))) of ((decryption_successful, file_count), w4) \<Rightarrow>
        (\<lparr>rp_file_path = display in_file, rp_preflight = preflight_res,
          rp_decryption_successful = decryption_successful, rp_file_count = file_count,
          rp_timestamp = (case now of Some secs \<Rightarrow> decimal secs @ ''Z'' | None \<Rightarrow> ''unknown'')\<rparr>, w4))"

section \<open>Reports only read\<close>

lemma list_bundle_world:
  assumes "ciphers_ok (cip P)" "fresh_name w tmp" "list_bundle P S B tmp inp pw w = (r, w')"
  shows "w' = w"
proof -
  obtain q w1 where d: "decrypt_and_open P S B tmp inp pw w = (q, w1)" by fastforce
  from decrypt_and_open_Inr(1) [OF assms(1,2) d] assms(3) d show ?thesis
    by (auto simp: list_bundle_def act_def split: sum.splits)
qed

lemma verify_world:
  "snd (verify_file_password P S inp pw seed w) = w" "snd (verify_file_keypair P S inp sk w) = w"
  using pure_ops(1) [of inp w]
  by (auto simp: verify_file_password_def verify_file_keypair_def act_def act_map_err_def lift_def
      split: prod.splits sum.splits)

lemma run_preflight_world: "snd (run_preflight ct P S D p key policy w) = w"
proof -
  have v: "snd (verify_signature P S D p k w) = w" for k
    using fs_read_world [of p w]
    by (auto simp: verify_signature_def act_def act_map_err_def lift_def split: prod.splits sum.splits)
  obtain r w1 where r: "read_envelope_from_path P S p w = (r, w1)" by fastforce
  then have "w1 = w" using read_from_path_world [of P S p w] by simp
  with r v show ?thesis
    by (auto simp: run_preflight_def Let_def split: sum.splits option.splits prod.splits) (metis snd_conv)
qed

lemma is_ok_unit: "is_ok r \<longleftrightarrow> r = Inr ()" for r :: "'e + unit"
  by (cases r) auto

text \<open>
  C34: A report changes nothing. It carries the preflight result, tells the decryption successful
  exactly when a credential is given and the contents decrypt in memory under it, and counts the
  files of a bundle exactly when that is so for a password and the bundle lists under it.
\<close>

theorem report_exact:
  assumes C: "ciphers_ok (cip P)" and fr: "fresh_name w tmp"
    and inp: "lookup w in_file = Some (Regular capsule)" "calm w in_file"
    and run: "generate_report crypto_text P S D B tmp now in_file key policy credential w = (rep, w')"
  shows "w' = w \<and> rp_preflight rep = fst (run_preflight crypto_text P S D in_file key policy w) \<and>
    rp_decryption_successful rep = map_option (\<lambda>c. case c of
        DcPassword pw seed \<Rightarrow> is_ok (decrypt_memory_password P S capsule pw seed)
      | DcKeypair sk \<Rightarrow> is_ok (decrypt_memory_keypair P S capsule sk)) credential \<and>
    (\<forall>n. rp_file_count rep = Some n \<longleftrightarrow> rp_decryption_successful rep = Some True \<and>
       pf_content_type (rp_preflight rep) = ''Bundle'' \<and>
       (\<exists>pw seed m. credential = Some (DcPassword pw seed) \<and>
          list_bundle P S B tmp in_file pw w = (Inr m, w) \<and> n = length (entries m)))"
proof -
  obtain pre where pre: "run_preflight crypto_text P S D in_file key policy w = (pre, w)"
    using run_preflight_world by (metis prod.collapse)
  show ?thesis
  proof (cases credential)
    case None
    with run pre show ?thesis by (auto simp: generate_report_def)
  next
    case (Some cred)
    show ?thesis
    proof (cases cred)
      case (DcKeypair sk)
      have "report_decryption P S in_file cred w = (is_ok (decrypt_memory_keypair P S capsule sk), w)"
        using verify_keypair_exact [OF C inp, of S sk]
        by (auto simp: report_decryption_def DcKeypair is_ok_unit split: prod.splits)
      moreover have "report_file_count P S B tmp in_file pre ok cred w = (None, w)" for ok
        by (simp add: report_file_count_def DcKeypair)
      ultimately show ?thesis using run pre Some DcKeypair by (auto simp: generate_report_def)
    next
      case (DcPassword pw seed)
      obtain r where r: "list_bundle P S B tmp in_file pw w = (r, w)"
        using list_bundle_world [OF C fr] by (metis prod.collapse)
      have "report_decryption P S in_file cred w = (is_ok (decrypt_memory_password P S capsule pw seed), w)"
        using verify_exact [OF C inp, of S pw seed]
        by (auto simp: report_decryption_def DcPassword is_ok_unit split: prod.splits)
      moreover have "report_file_count P S B tmp in_file pre ok cred w =
          (if ok \<and> pf_content_type pre = ''Bundle''
           then (case r of Inl _ \<Rightarrow> None | Inr m \<Rightarrow> Some (length (entries m))) else None, w)" for ok
        by (cases r) (simp_all add: report_file_count_def DcPassword r)
      ultimately show ?thesis using run pre Some DcPassword r
        by (cases r) (auto simp: generate_report_def split: if_splits)
    qed
  qed
qed

text \<open>
  Comparing two bundles changes nothing, and a result is the comparison of the manifests that
  listing the two files under their passwords returns.
\<close>

theorem diff_bundles_exact:
  assumes "ciphers_ok (cip P)" "fresh_name w tmp"
    and "diff_bundles P S B tmp old_path old_pw new_path new_pw w = (r, w')"
  shows "w' = w \<and> (\<forall>d. r = Inr d \<longleftrightarrow>
    (\<exists>m1 m2. list_bundle P S B tmp old_path old_pw w = (Inr m1, w) \<and>
       list_bundle P S B tmp new_path new_pw w = (Inr m2, w) \<and> d = diff_manifests m1 m2))"
proof -
  obtain a where a: "list_bundle P S B tmp old_path old_pw w = (a, w)"
    using list_bundle_world [OF assms(1,2)] by (metis prod.collapse)
  obtain b where b: "list_bundle P S B tmp new_path new_pw w = (b, w)"
    using list_bundle_world [OF assms(1,2)] by (metis prod.collapse)
  from a b assms(3) show ?thesis
    by (cases a; cases b) (auto simp: diff_bundles_def act_def)
qed

end
