(* ===== verification/Key_Samples.thy ===== *)
theory Key_Samples
  imports Recipient_Groups Recovery Report Signing_Samples Bundle_Samples
begin

text \<open>
  Instances of the third-party code behind key, group and share files that satisfy the stated
  laws, and concrete runs for the witnesses of these theories.
\<close>

section \<open>Text encodings\<close>

definition text_bytes :: "string \<Rightarrow> bytes" where
  "text_bytes s = concat (map (\<lambda>c. [of_nat (of_char c div 16), of_nat (of_char c mod 16)]) s) @ [16]"

fun take_text :: "bytes \<Rightarrow> (string \<times> bytes) option" where
  "take_text [] = None"
| "take_text (a # r) =
     (if a = 16 then Some ([], r)
      else (case r of [] \<Rightarrow> None
        | b # r' \<Rightarrow> map_option (\<lambda>(s, t). (char_of (unat a * 16 + unat b) # s, t)) (take_text r')))"

definition c_text :: "string codec" where "c_text = (text_bytes, take_text)"

lemma char_halves:
  fixes c :: char
  shows "of_nat (of_char c div 16) \<noteq> (16 :: byte)"
    "unat (of_nat (of_char c div 16) :: byte) * 16 + unat (of_nat (of_char c mod 16) :: byte) = of_char c"
    "of_nat (of_char c div 16) \<le> (0x7F :: byte)" "of_nat (of_char c mod 16) \<le> (0x7F :: byte)"
proof -
  have lt: "(of_char c :: nat) < 256" using of_char_mod_256 [of c, where 'a = nat] by (metis mod_less_divisor zero_less_numeral)
  have lt16: "of_char c div 16 < (16 :: nat)" by (rule less_mult_imp_div_less) (use lt in simp)
  then have lt2: "of_char c div 16 < (256 :: nat)" by simp
  have u: "unat (of_nat (of_char c div 16) :: byte) = of_char c div 16"
      "unat (of_nat (of_char c mod 16) :: byte) = of_char c mod 16"
    using lt2 by (simp_all add: unat_of_nat_byte)
  show "of_nat (of_char c div 16) \<noteq> (16 :: byte)" using u(1) lt16 by (auto dest: arg_cong [of _ _ unat])
  show "unat (of_nat (of_char c div 16) :: byte) * 16 + unat (of_nat (of_char c mod 16) :: byte) = of_char c"
    by (simp only: u div_mult_mod_eq)
  show "of_nat (of_char c div 16) \<le> (0x7F :: byte)" "of_nat (of_char c mod 16) \<le> (0x7F :: byte)"
    using u lt16 by (simp_all add: word_le_nat_alt)
qed

lemma take_text_append: "take_text (text_bytes s @ r) = Some (s, r)"
proof (induction s)
  case Nil
  then show ?case by (simp add: text_bytes_def)
next
  case (Cons c s)
  have "text_bytes (c # s) @ r = of_nat (of_char c div 16) # of_nat (of_char c mod 16) # (text_bytes s @ r)"
    by (simp add: text_bytes_def)
  then show ?case
    using Cons char_halves(1,2) [of c] by (simp only: take_text.simps) simp
qed

lemma c_text_ok [simp]: "codec_ok c_text"
  by (simp add: codec_ok_def c_text_def take_text_append)

lemma length_text_bytes: "length (text_bytes s) = 2 * length s + 1"
  by (induction s) (simp_all add: text_bytes_def)

text \<open>An encoding into ASCII is UTF-8.\<close>

definition low_codec :: "'a codec \<Rightarrow> bool" where
  "low_codec c \<longleftrightarrow> (\<forall>x. \<forall>b \<in> set (fst c x). b \<le> 0x7F)"

lemma utf8_ascii: "\<forall>b \<in> set bs. b \<le> 0x7F \<Longrightarrow> utf8_valid bs"
  by (induction bs) auto

lemma low_utf8: "low_codec c \<Longrightarrow> utf8_valid (fst c x)"
  by (simp add: low_codec_def utf8_ascii)

lemma low_codecs [simp]:
  "low_codec c_text"
  "low_codec c \<Longrightarrow> low_codec (c_iso f g c)"
  "low_codec c \<Longrightarrow> low_codec d \<Longrightarrow> low_codec (c_pair c d)"
  "low_codec c \<Longrightarrow> low_codec (c_option c)"
  "low_codec c \<Longrightarrow> low_codec (c_list c)"
proof -
  have "\<forall>b \<in> set (text_bytes s). b \<le> 0x7F" for s
    using char_halves(3,4) by (induction s) (auto simp: text_bytes_def)
  then show "low_codec c_text" by (simp add: low_codec_def c_text_def)
qed (auto simp: low_codec_def c_iso_def c_pair_def c_option_def c_list_def c_nat_def split: option.splits)

section \<open>Instances\<close>

definition sample_mlkem :: mlkem where
  "sample_mlkem = \<lparr>mlkem_public = (\<lambda>_. replicate 1184 7), mlkem_key_ok = (\<lambda>b. length b = 1184)\<rparr>"

lemma sample_mlkem_ok [simp]: "mlkem_ok sample_prims sample_mlkem"
  by (auto simp: mlkem_ok_def sample_mlkem_def sample_prims_def MLKEM_CT_LEN_def)

text \<open>Four characters for three bytes, the last of them the number of bytes.\<close>

fun encode64 :: "bytes \<Rightarrow> string" where
  "encode64 [] = []"
| "encode64 [a] = [char_of (unat a), CHR 0x00, CHR 0x00, CHR 0x01]"
| "encode64 [a, b] = [char_of (unat a), char_of (unat b), CHR 0x00, CHR 0x02]"
| "encode64 (a # b # c # r) = char_of (unat a) # char_of (unat b) # char_of (unat c) # CHR 0x03 # encode64 r"

fun decode64 :: "string \<Rightarrow> bytes option" where
  "decode64 (a # b # c # n # r) =
     map_option (\<lambda>s. take (of_char n) [of_nat (of_char a), of_nat (of_char b), of_nat (of_char c)] @ s) (decode64 r)"
| "decode64 s = (if s = [] then Some [] else None)"

lemma byte_char [simp]: "of_nat (of_char (char_of (unat b) :: char)) = (b :: byte)" "of_nat (unat b mod 256) = b"
proof -
  have m: "unat b mod 256 = unat b" using unat_bound [of b] by simp
  then show "of_nat (unat b mod 256) = b" by simp
  show "of_nat (of_char (char_of (unat b) :: char)) = b" by (simp add: m)
qed

lemma decode64_encode: "decode64 (encode64 b) = Some b"
proof (induction b rule: encode64.induct)
  case (4 a b c r)
  have "take (of_char CHR 0x03) [a, b, c] = [a, b, c]" by (simp add: of_char_def)
  with 4 show ?case by simp
qed simp_all

lemma length_encode64: "length (encode64 b) = 4 * ((length b + 2) div 3)"
proof (induction b rule: encode64.induct)
  case (4 a b c r)
  have "(n + 3 + 2) div 3 = (n + 2) div 3 + 1" for n :: nat by presburger
  from this [of "length r"] have "(length (a # b # c # r) + 2) div 3 = (length r + 2) div 3 + 1" by simp
  with 4 show ?case by simp
qed simp_all

definition sample_base64 :: key_json where
  "sample_base64 = \<lparr>base64_encode = encode64, base64_decode = decode64, js_signing_key = (\<lambda>_. None),
     js_parse_signing_key = (\<lambda>_. None), js_verify_key = (\<lambda>_. None), js_parse_verify_key = (\<lambda>_. None)\<rparr>"

lemma sample_base64_ok [simp]: "base64_ok sample_base64"
  by (simp add: base64_ok_def sample_base64_def decode64_encode length_encode64)

definition all_of :: "('a \<times> bytes) option \<Rightarrow> 'a option" where
  "all_of p = (case p of Some (x, []) \<Rightarrow> Some x | _ \<Rightarrow> None)"

lemma all_of_codec: "codec_ok c \<Longrightarrow> all_of (snd c (fst c x)) = Some x"
  using codec_okD [of c x "[]"] by (simp add: all_of_def)

definition c_public :: "public_key_format codec" where
  "c_public = c_iso (\<lambda>f. (fmt_x25519_pub f, fmt_mlkem_pub f)) (\<lambda>(x, m). \<lparr>fmt_x25519_pub = x, fmt_mlkem_pub = m\<rparr>)
     (c_pair c_text c_text)"

definition c_private :: "private_key_format codec" where
  "c_private = c_iso (\<lambda>f. (fmt_x25519_priv f, fmt_mlkem_priv f)) (\<lambda>(x, m). \<lparr>fmt_x25519_priv = x, fmt_mlkem_priv = m\<rparr>)
     (c_pair c_text c_text)"

lemma key_codecs_ok [simp]: "codec_ok c_public" "codec_ok c_private" "low_codec c_public" "low_codec c_private"
  by (simp_all add: c_public_def c_private_def)

definition sample_hybrid :: hybrid_json where
  "sample_hybrid = \<lparr>js_public = (\<lambda>f. Some (fst c_public f)), js_parse_public = (\<lambda>b. all_of (snd c_public b)),
     js_private = (\<lambda>f. Some (fst c_private f)), js_parse_private = (\<lambda>b. all_of (snd c_private b))\<rparr>"

lemma sample_hybrid_ok [simp]: "hybrid_json_ok sample_hybrid"
  unfolding hybrid_json_ok_def
proof (intro conjI allI impI)
  fix f b assume "js_public sample_hybrid f = Some b"
  then have b: "b = fst c_public f" by (simp add: sample_hybrid_def)
  show "js_parse_public sample_hybrid b = Some f" using all_of_codec [of c_public f] by (simp add: b sample_hybrid_def)
  show "utf8_valid b" using low_utf8 [of c_public f] by (simp add: b)
  show "length b \<le> 100 + 6 * (length (fmt_x25519_pub f) + length (fmt_mlkem_pub f))"
    by (simp add: b c_public_def c_iso_def c_pair_def c_text_def length_text_bytes)
next
  fix f b assume "js_private sample_hybrid f = Some b"
  then have b: "b = fst c_private f" by (simp add: sample_hybrid_def)
  show "js_parse_private sample_hybrid b = Some f" using all_of_codec [of c_private f] by (simp add: b sample_hybrid_def)
  show "utf8_valid b" using low_utf8 [of c_private f] by (simp add: b)
  show "length b \<le> 100 + 6 * (length (fmt_x25519_priv f) + length (fmt_mlkem_priv f))"
    by (simp add: b c_private_def c_iso_def c_pair_def c_text_def length_text_bytes)
qed

definition c_group_recipient :: "group_recipient codec" where
  "c_group_recipient = c_iso (\<lambda>r. (gr_name r, gr_key r)) (\<lambda>(n, k). \<lparr>gr_name = n, gr_key = k\<rparr>) (c_pair c_text c_public)"

definition c_group :: "recipient_group codec" where
  "c_group = c_iso (\<lambda>g. (group_name g, group_description g, group_recipients g))
     (\<lambda>(n, d, rs). \<lparr>group_name = n, group_description = d, group_recipients = rs\<rparr>)
     (c_pair c_text (c_pair (c_option c_text) (c_list c_group_recipient)))"

lemma c_group_ok [simp]: "codec_ok c_group" "low_codec c_group"
  by (simp_all add: c_group_def c_group_recipient_def)

definition sample_toml :: group_toml where
  "sample_toml = \<lparr>to_toml_group = (\<lambda>g. Some (fst c_group g)), from_toml_group = (\<lambda>b. all_of (snd c_group b))\<rparr>"

lemma sample_toml_ok [simp]: "group_toml_ok sample_toml"
  by (auto simp: group_toml_ok_def sample_toml_def all_of_codec low_utf8)

text \<open>Shares that repeat the secret behind their number satisfy the laws of the scheme.\<close>

definition sample_sharks :: sharks where
  "sample_sharks = \<lparr>sk_dealer = (\<lambda>t s. map (\<lambda>i. of_nat i # s) [1..<256]), sk_share_ok = (\<lambda>d. d \<noteq> []),
     sk_recover = (\<lambda>t ds. case ds of [] \<Rightarrow> None | d # _ \<Rightarrow> Some (tl d))\<rparr>"

lemma sample_sharks_ok [simp]: "sharks_ok sample_sharks"
proof -
  have inj: "inj_on (of_nat :: nat \<Rightarrow> byte) (set [1..<256])"
    by (rule inj_onI) (metis atLeastLessThan_iff mod_less set_upt unat_of_nat_byte)
  have "map hd (map (\<lambda>i. of_nat i # s) [1..<256]) = map (of_nat :: nat \<Rightarrow> byte) [1..<256]" for s :: bytes
    by simp
  then have "distinct (map hd (map (\<lambda>i. (of_nat i :: byte) # s) [1..<256]))" for s :: bytes
    using inj by (simp only: distinct_map distinct_upt simp_thms)
  then have hds: "distinct (map hd (sk_dealer sample_sharks t s))" for t s by (simp add: sample_sharks_def)
  have rec: "sk_recover sample_sharks t ds = Some s"
    if "set ds \<subseteq> set (sk_dealer sample_sharks t s)" "0 < t" "t \<le> length ds" for ds t s
  proof (cases ds)
    case Nil
    with that show ?thesis by simp
  next
    case (Cons d r)
    with that(1) have "d \<in> set (sk_dealer sample_sharks t s)" by simp
    then show ?thesis by (auto simp: Cons sample_sharks_def)
  qed
  have basic: "length (sk_dealer sample_sharks t s) = 255"
    "\<forall>d \<in> set (sk_dealer sample_sharks t s). d \<noteq> [] \<and> sk_share_ok sample_sharks d" for t s
    by (auto simp: sample_sharks_def)
  show ?thesis unfolding sharks_ok_def using hds rec basic by blast
qed

definition c_share :: "recovery_share codec" where
  "c_share = c_iso (\<lambda>s. (sh_magic s, sh_version s, sh_index s, sh_threshold s, sh_fingerprint s, sh_data s))
     (\<lambda>(m, v, i, t, f, d). \<lparr>sh_magic = m, sh_version = v, sh_index = i, sh_threshold = t, sh_fingerprint = f, sh_data = d\<rparr>)
     (c_pair c_bytes (c_pair c_u32 (c_pair c_byte (c_pair c_byte (c_pair c_bytes c_bytes)))))"

lemma c_share_ok [simp]: "codec_ok c_share"
  by (simp add: c_share_def)

definition sample_shares :: share_codec where
  "sample_shares = \<lparr>pc_share = (\<lambda>s. Some (fst c_share s)), pc_take_share = snd c_share\<rparr>"

lemma sample_shares_ok [simp]: "share_codec_ok sample_shares"
  by (simp add: share_codec_ok_def sample_shares_def codec_okD)


section \<open>Runs\<close>

definition sample_file :: "string \<Rightarrow> path" where "sample_file name = Path True [''d'', name]"

lemma sample_file_paths [simp]:
  "resolve w (sample_file n) = [''d'', n]" if "n \<noteq> ''.''"
  using that by (simp add: resolve_def sample_file_def)

lemma sample_file_simps [simp]:
  "comps (sample_file n) = [''d'', n]" "parent (sample_file n) = Some (Path True [''d''])"
  "parent_or_dot (sample_file n) = Path True [''d'']" "sample_file n \<noteq> Path False []"
  by (simp_all add: sample_file_def parent_def parent_or_dot_def)

text \<open>A world in which files of the sample directory can be written.\<close>

definition sample_dir_ok :: "world \<Rightarrow> bool" where
  "sample_dir_ok w \<longleftrightarrow> w_fs w [''d''] = Some Directory \<and> w_sync w \<and> w_disk w = None \<and>
     w_script w = (\<lambda>_. [Short 0]) \<and> w_rng w = (\<lambda>_. 1) \<and>
     (\<forall>n. w_fs w [''d'', n] \<noteq> Some Directory)"

lemma sample_dir_ok_world [simp]: "sample_dir_ok sample_world"
  by (auto simp: sample_dir_ok_def sample_world_def)

lemma sample_dir_ok_put: "sample_dir_ok w \<Longrightarrow> n \<noteq> ''.'' \<Longrightarrow> sample_dir_ok (put_file w (sample_file n) bs)"
  by (simp add: sample_dir_ok_def w_fs_put_file)

lemma sample_dir_ok_rng: "sample_dir_ok w \<Longrightarrow> sample_dir_ok (w\<lparr>w_rng_pos := n\<rparr>)"
  by (simp add: sample_dir_ok_def)

lemma sample_dir_output: "sample_dir_ok w \<Longrightarrow> n \<noteq> ''.'' \<Longrightarrow> output_ok w (sample_file n)"
  by (simp add: sample_dir_ok_def output_ok_def)

lemma sample_dir_calm: "sample_dir_ok w \<Longrightarrow> calm w p"
  by (simp add: sample_dir_ok_def calm_def)

lemma write_key_file_ok: "output_ok w p \<Longrightarrow> write_key_file p bs b w = (Inr (), put_file w p bs)"
  unfolding write_key_file_def by (rule write_via_ok) (simp_all add: key_commit_ok)

lemma sample_private_save:
  "output_ok w p \<Longrightarrow> \<exists>bs. private_save_to_file sample_base64 sample_hybrid sk p w = (Inr (), put_file w p bs)"
  by (simp add: private_save_to_file_def sample_hybrid_def write_key_file_ok) blast

lemma sample_public_save:
  "output_ok w p \<Longrightarrow> \<exists>bs. public_save_to_file sample_base64 sample_hybrid pk p w = (Inr (), put_file w p bs)"
  by (simp add: public_save_to_file_def sample_hybrid_def write_key_file_ok) blast

lemma sample_generate:
  assumes "sample_dir_ok w"
  shows "\<exists>sk pk w'. generate_keypair sample_prims sample_mlkem w = (Inr (sk, pk), w') \<and> sample_dir_ok w' \<and> same_files w w'"
  using assms sample_dir_ok_rng [OF assms]
  by (auto simp: generate_keypair_def act_apply fill_bytes_def Let_def same_files_def)

abbreviation key_path :: path where "key_path \<equiv> sample_file ''id.lvau-key''"
abbreviation pub_path :: path where "pub_path \<equiv> sample_file ''id.lvau-pub''"
abbreviation group_path :: path where "group_path \<equiv> sample_file ''group.toml''"

lemma sample_x25519_length: "\<forall>a. length (x25519_public sample_prims a) = 32"
  by (simp add: sample_prims_def)

theorem key_files_round_trip_witness:
  "\<exists>sk pk w. private_load_from_file sample_base64 sample_hybrid key_path w = (Inr sk, w) \<and>
     public_load_from_file sample_mlkem sample_base64 sample_hybrid pub_path w = (Inr pk, w)"
proof -
  obtain sk pk w1 where g: "generate_keypair sample_prims sample_mlkem sample_world = (Inr (sk, pk), w1)" "sample_dir_ok w1"
    using sample_generate [OF sample_dir_ok_world] by blast
  have o1: "output_ok w1 key_path" by (rule sample_dir_output [OF g(2)]) simp
  obtain b1 where s1: "private_save_to_file sample_base64 sample_hybrid sk key_path w1 = (Inr (), put_file w1 key_path b1)"
    using sample_private_save [OF o1] by blast
  have d2: "sample_dir_ok (put_file w1 key_path b1)" by (rule sample_dir_ok_put [OF g(2)]) simp
  have o2: "output_ok (put_file w1 key_path b1) pub_path" by (rule sample_dir_output [OF d2]) simp
  obtain w3 where s2: "public_save_to_file sample_base64 sample_hybrid pk pub_path (put_file w1 key_path b1) = (Inr (), w3)"
    using sample_public_save [OF o2] by blast
  have "resolve sample_world key_path \<noteq> resolve sample_world pub_path" by simp
  note rt = key_files_round_trip [OF sample_mlkem_ok sample_base64_ok sample_hybrid_ok sample_x25519_length g(1) s1 s2 this
      sample_dir_calm [OF sample_dir_ok_world] sample_dir_calm [OF sample_dir_ok_world]]
  from rt [THEN conjunct1] rt [THEN conjunct2, THEN conjunct1] show ?thesis by blast
qed

theorem loaded_keys_well_formed_witness:
  "\<exists>sk pk w. generate_keypair sample_prims sample_mlkem sample_world = (Inr (sk, pk), w) \<and> well_formed_private sk \<and>
     well_formed_public sample_mlkem pk"
proof -
  obtain sk pk w1 where g: "generate_keypair sample_prims sample_mlkem sample_world = (Inr (sk, pk), w1)"
    using sample_generate [OF sample_dir_ok_world] by blast
  with loaded_keys_well_formed [where P = sample_prims and K = sample_mlkem and w = sample_world and sk = sk and pk = pk and ?w1.0 = w1]
    sample_mlkem_ok sample_x25519_length
  show ?thesis by blast
qed

lemma group_save_ok:
  assumes "output_ok w p" "length (fst c_group g) \<le> MAX_RECIPIENT_GROUP_FILE_SIZE"
    "w_fs w (butlast (resolve w p)) = Some Directory"
  shows "group_save_to_file sample_toml g p w = (Inr (), put_file w p (fst c_group g))"
proof -
  have "fs_write p (fst c_group g) w = (Inr (), put_file w p (fst c_group g))"
    using assms(1,3) by (simp add: fs_write_def output_ok_def write_all_def)
  with assms(2) show ?thesis by (simp add: group_save_to_file_def sample_toml_def act_apply act_map_err_def)
qed


text \<open>A group file without recipients beside a public key file.\<close>

definition sample_fmt :: public_key_format where "sample_fmt = \<lparr>fmt_x25519_pub = [], fmt_mlkem_pub = []\<rparr>"

definition sample_group :: "group_recipient list \<Rightarrow> recipient_group" where
  "sample_group rs = \<lparr>group_name = [], group_description = None, group_recipients = rs\<rparr>"

definition group_world :: world where
  "group_world = put_file (put_file sample_world pub_path (fst c_public sample_fmt)) group_path (fst c_group (sample_group []))"

lemma group_world_ok: "sample_dir_ok group_world"
  unfolding group_world_def by (intro sample_dir_ok_put) simp_all

lemma group_world_files:
  "lookup group_world pub_path = Some (Regular (fst c_public sample_fmt))"
  "lookup group_world group_path = Some (Regular (fst c_group (sample_group [])))"
  by (simp_all add: group_world_def lookup_def w_fs_put_file)

lemma sample_group_sizes:
  "length (fst c_group (sample_group [])) \<le> 100"
  "length (fst c_group (sample_group [\<lparr>gr_name = ''id'', gr_key = sample_fmt\<rparr>])) \<le> 100"
  by (simp_all add: c_group_def c_group_recipient_def c_public_def sample_group_def sample_fmt_def c_iso_def c_pair_def
      c_text_def c_option_def c_list_def c_nat_def length_text_bytes)

lemma sample_group_load: "group_load_from_file sample_toml group_path group_world = (Inr (sample_group []), group_world)"
proof -
  have "read_recipient_group_file group_path group_world = (Inr (fst c_group (sample_group [])), group_world)"
    unfolding read_recipient_group_file_def
    by (rule read_limited_calm [OF group_world_files(2) sample_dir_calm [OF group_world_ok]])
      (use sample_group_sizes low_utf8 [of c_group] in \<open>simp_all add: MAX_RECIPIENT_GROUP_FILE_SIZE_def\<close>)
  then show ?thesis
    using all_of_codec [of c_group "sample_group []"] by (simp add: group_load_from_file_def act_apply sample_toml_def)
qed

theorem group_commands_exact_witness:
  "\<exists>w1. group_add sample_toml sample_hybrid group_path pub_path group_world = (Inr (), w1) \<and>
     group_load_from_file sample_toml group_path w1 =
       (Inr (sample_group [\<lparr>gr_name = ''id'', gr_key = sample_fmt\<rparr>]), w1)"
proof -
  have rd: "fs_read pub_path group_world = (Inr (fst c_public sample_fmt), group_world)"
    by (rule fs_read_calm [OF group_world_files(1) sample_dir_calm [OF group_world_ok]])
  have js: "js_parse_public sample_hybrid (fst c_public sample_fmt) = Some sample_fmt"
    using all_of_codec [of c_public sample_fmt] by (simp add: sample_hybrid_def)
  have stem: "the (file_stem pub_path) = ''id''"
    by (simp add: file_stem_def file_name_def stem_and_extension_def rsplit_dot_def)
  let ?g = "sample_group [\<lparr>gr_name = ''id'', gr_key = sample_fmt\<rparr>]"
  have save: "group_save_to_file sample_toml ?g group_path group_world =
      (Inr (), put_file group_world group_path (fst c_group ?g))"
  proof (rule group_save_ok)
    show "output_ok group_world group_path" by (rule sample_dir_output [OF group_world_ok]) simp
    show "length (fst c_group ?g) \<le> MAX_RECIPIENT_GROUP_FILE_SIZE"
      using sample_group_sizes(2) by (simp add: MAX_RECIPIENT_GROUP_FILE_SIZE_def)
    show "w_fs group_world (butlast (resolve group_world group_path)) = Some Directory"
      using group_world_ok by (simp add: sample_dir_ok_def)
  qed
  have g1: "(sample_group [])\<lparr>group_recipients := group_recipients (sample_group []) @ [\<lparr>gr_name = ''id'', gr_key = sample_fmt\<rparr>]\<rparr> = ?g"
    by (simp add: sample_group_def)
  have add: "group_add sample_toml sample_hybrid group_path pub_path group_world =
      (Inr (), put_file group_world group_path (fst c_group ?g))"
    using save g1 low_utf8 [of c_public sample_fmt]
    by (simp add: group_add_def act_apply act_map_err_def sample_group_load rd js stem del: file_stem_def)
  with group_commands_exact [OF sample_toml_ok sample_dir_calm [OF group_world_ok], THEN conjunct1] sample_group_load rd js stem g1
  have "group_load_from_file sample_toml group_path (put_file group_world group_path (fst c_group ?g)) =
      (Inr ?g, put_file group_world group_path (fst c_group ?g))" by fastforce
  with add show ?thesis by blast
qed

theorem combine_shares_exact_witness:
  "combine_shares sample_prims sample_sharks
     [\<lparr>sh_magic = SHARE_MAGIC, sh_version = 2, sh_index = 1, sh_threshold = 1, sh_fingerprint = [], sh_data = [1, 9]\<rparr>] = Inr [9]"
  by (subst combine_shares_exact, rule exI [of _ 2], rule exI [of _ 1], rule exI [of _ "[]"])
    (simp add: share_matches_def version_supported_def CURRENT_SHARE_VERSION_def sample_sharks_def)

theorem report_exact_witness:
  "\<exists>w tmp in_file rep. generate_report (\<lambda>_. []) sample_prims sample_postcard sample_ed sample_bundle_prims tmp None in_file None None
      (Some (DcPassword [1] None)) w = (rep, w) \<and> rp_decryption_successful rep = Some True"
proof -
  obtain w1 e fek capsule where *: "lookup w1 sample_out = Some (Regular capsule)" "calm w1 sample_out"
      "capsule_of sample_prims sample_postcard e fek [10, 20, 30] capsule"
      "unwrap_password_file_key sample_prims e [1] None = Inr fek" "plaintext_len e = 3"
      "encrypt_file_password sample_prims sample_postcard sample_in sample_out [1] None Fast None False
        sample_world = (Inr (), w1)"
    using sample_capsule by metis
  obtain w0 c where w1: "same_but_rng sample_world w0" "w1 = put_file w0 sample_out c"
    using sample_password_run *(6) by auto
  have fr: "fresh_name w1 (Path True [''tmp''])"
    by (auto simp: fresh_name_def under_def w1(2) w_fs_put_file same_but_rngD [OF w1(1)] resolve_def sample_world_def)
  have "decrypt_memory_password sample_prims sample_postcard capsule [1] None = Inr [10, 20, 30]"
    unfolding decrypt_with
    by (rule decrypt_memory_capsule [OF *(3)]) (use *(4,5) in \<open>simp_all add: quiet_def cursor_def\<close>)
  then have ok: "is_ok (decrypt_memory_password sample_prims sample_postcard capsule [1] None)" by simp
  obtain rep w' where run: "generate_report (\<lambda>_. []) sample_prims sample_postcard sample_ed sample_bundle_prims (Path True [''tmp'']) None
      sample_out None None (Some (DcPassword [1] None)) w1 = (rep, w')" by fastforce
  from report_exact [OF sample_prims_ok(2) fr *(1,2) run] ok run show ?thesis by auto
qed

end
