(* ===== verification/Json.thy ===== *)
theory Json
  imports Main
begin

text \<open>
  The documents of \<open>--json\<close> (lvau-cli, output.rs) as values: the serializer turns a structure into
  an object of its fields, \<open>None\<close> into null and a unit variant into its name. The fields are listed in
  the order of the source; the order carries no meaning (the crate sorts those of a \<open>json!\<close> value),
  and how a value is laid out as text is left to the JSON crate.
\<close>

section \<open>Values\<close>

datatype json =
    JNull
  | JBool bool
  | JNumber nat
  | JString string
  | JArray "json list"
  | JObject "(string \<times> json) list"

definition json_option :: "('a \<Rightarrow> json) \<Rightarrow> 'a option \<Rightarrow> json" where
  "json_option f x = (case x of None \<Rightarrow> JNull | Some a \<Rightarrow> f a)"

definition json_strings :: "string list \<Rightarrow> json" where
  "json_strings xs = JArray (map JString xs)"

section \<open>Envelopes\<close>

definition JSON_SCHEMA_VERSION :: nat where "JSON_SCHEMA_VERSION = 1"

definition json_envelope :: "string \<Rightarrow> json \<Rightarrow> json" where
  "json_envelope command data =
     JObject [(''schema_version'', JNumber JSON_SCHEMA_VERSION), (''command'', JString command),
       (''status'', JString ''ok''), (''data'', data)]"

definition json_error_envelope :: "string \<Rightarrow> string \<Rightarrow> string \<Rightarrow> json" where
  "json_error_envelope command code message =
     JObject [(''schema_version'', JNumber JSON_SCHEMA_VERSION), (''command'', JString command),
       (''status'', JString ''error''),
       (''error'', JObject [(''code'', JString code), (''message'', JString message)])]"

text \<open>
  The published contract (schemas/lvau-cli-output-v1.schema.json): exactly these fields, in any
  order, with a command that is not empty.
\<close>

definition has_fields :: "(string \<times> json) list \<Rightarrow> string list \<Rightarrow> bool" where
  "has_fields fs names \<longleftrightarrow> distinct (map fst fs) \<and> set (map fst fs) = set names"

definition nonempty_string :: "json option \<Rightarrow> bool" where
  "nonempty_string v \<longleftrightarrow> (case v of Some (JString s) \<Rightarrow> s \<noteq> [] | _ \<Rightarrow> False)"

definition schema_ok_document :: "(string \<times> json) list \<Rightarrow> bool" where
  "schema_ok_document fs \<longleftrightarrow> has_fields fs [''schema_version'', ''command'', ''status'', ''data''] \<and>
     map_of fs ''schema_version'' = Some (JNumber 1) \<and> nonempty_string (map_of fs ''command'') \<and>
     map_of fs ''status'' = Some (JString ''ok'')"

definition schema_error_body :: "json option \<Rightarrow> bool" where
  "schema_error_body v \<longleftrightarrow> (case v of
       Some (JObject fs) \<Rightarrow> has_fields fs [''code'', ''message''] \<and> nonempty_string (map_of fs ''code'') \<and>
         (case map_of fs ''message'' of Some (JString _) \<Rightarrow> True | _ \<Rightarrow> False)
     | _ \<Rightarrow> False)"

definition schema_error_document :: "(string \<times> json) list \<Rightarrow> bool" where
  "schema_error_document fs \<longleftrightarrow> has_fields fs [''schema_version'', ''command'', ''status'', ''error''] \<and>
     map_of fs ''schema_version'' = Some (JNumber 1) \<and> nonempty_string (map_of fs ''command'') \<and>
     map_of fs ''status'' = Some (JString ''error'') \<and> schema_error_body (map_of fs ''error'')"

definition schema_v1 :: "json \<Rightarrow> bool" where
  "schema_v1 j \<longleftrightarrow> (case j of JObject fs \<Rightarrow> schema_ok_document fs \<noteq> schema_error_document fs | _ \<Rightarrow> False)"

lemmas schema_defs = schema_v1_def schema_ok_document_def schema_error_document_def schema_error_body_def
  has_fields_def nonempty_string_def JSON_SCHEMA_VERSION_def

lemma json_envelope_schema: "schema_v1 (json_envelope command data) \<longleftrightarrow> command \<noteq> []"
  by (simp add: json_envelope_def schema_defs)

lemma json_error_envelope_schema:
  "schema_v1 (json_error_envelope command code message) \<longleftrightarrow> command \<noteq> [] \<and> code \<noteq> []"
  by (simp add: json_error_envelope_def schema_defs)

lemma json_envelope_inject: "json_envelope c d = json_envelope c' d' \<longleftrightarrow> c = c' \<and> d = d'"
  by (simp add: json_envelope_def)

end
