(* ===== verification/Cli_Base.thy ===== *)
theory Cli_Base
  imports Recipient_Groups Recovery Report Release Bundle_Extract Json
begin

text \<open>
  The command line's own layer (lvau-cli, main.rs): its state, its errors, the checks its
  commands share, and the parsing of option values. The state is the world, a record of changes behind
  links (none is the rule), what the user will type at password prompts, and what has been printed
  so far (the lines and documents whose names begin with \<open>Error\<close> go to the error output). Text arguments are
  ASCII.
\<close>

section \<open>State, environment and errors\<close>

datatype cause =
    CauseCrypto crypto_error
  | CauseBundle bundle_error
  | CauseSigning signing_error
  | CauseRelease release_error
  | CauseGroup group_error

datatype out_line =
    Line string
  | JsonDocument json
  | ErrorText string
  | ErrorLine string cause
  | ErrorDocument json

record console =
  c_world :: world
  c_beyond :: "string list list"
  c_typed :: "(io_error + bytes) list"
  c_out :: "out_line list"

text \<open>
  What is around a command: permission bits of files, the path of the running executable, the
  clock, a fresh name for temporary objects, the directory for temporary files, the version of
  the program, what walking and listing a directory return, what is known of links in the file
  system, and the user's editor.
\<close>

record environ =
  env_mode :: "string list \<Rightarrow> nat"
  env_exe :: "io_error + path"
  env_now :: "nat option"
  env_tmp :: path
  env_temp_dir :: path
  env_version :: string
  env_walk :: "world \<Rightarrow> path \<Rightarrow> (string + walk_entry) list"
  env_list :: "world \<Rightarrow> path \<Rightarrow> io_error + (io_error + path) list"
  env_links :: "world \<Rightarrow> link_info"
  env_edit :: "path \<Rightarrow> (world, io_error, bool) action"

text \<open>The third-party code of all components.\<close>

record crates =
  cr_prims :: prims
  cr_postcard :: postcard
  cr_ed :: ed25519
  cr_base64 :: key_json
  cr_mlkem :: mlkem
  cr_hybrid :: hybrid_json
  cr_groups :: group_toml
  cr_io_text :: "io_error \<Rightarrow> string"
  cr_crypto_text :: "crypto_error \<Rightarrow> string"
  cr_from_policy :: "bytes \<Rightarrow> string + capsule_policy"
  cr_to_policy :: "capsule_policy \<Rightarrow> string + bytes"
  cr_bundle :: bundle_prims
  cr_shares :: share_codec
  cr_sharks :: sharks

text \<open>
  \<open>CliError\<close>. A message that quotes another error keeps it as a value; \<open>CliExit\<close> is
  \<open>std::process::exit\<close>.
\<close>

datatype cli_error =
    CliMessage string
  | CliCause string cause
  | CliIo io_error
  | CliCrypto crypto_error
  | CliExit nat

text \<open>A step on the world, and a printed line.\<close>

definition on_world :: "(world, 'e, 'a) action \<Rightarrow> (console, 'e, 'a) action" where
  "on_world m c = (case m (c_world c) of (r, w) \<Rightarrow> (r, c\<lparr>c_world := w\<rparr>))"

definition print :: "string \<Rightarrow> (console, 'e, unit) action" where
  "print s c = (Inr (), c\<lparr>c_out := c_out c @ [Line s]\<rparr>)"

definition print_lines :: "string list \<Rightarrow> (console, 'e, unit) action" where
  "print_lines ls c = (Inr (), c\<lparr>c_out := c_out c @ map Line ls\<rparr>)"

definition print_error_line :: "string \<Rightarrow> cause \<Rightarrow> (console, 'e, unit) action" where
  "print_error_line s e c = (Inr (), c\<lparr>c_out := c_out c @ [ErrorLine s e]\<rparr>)"

text \<open>
  \<open>println!("{}", to_string_pretty(value))\<close>, and output.rs: the serializer fails for none of the
  values here, so the \<open>?\<close> behind these calls has no effect.
\<close>

definition print_json :: "json \<Rightarrow> (console, 'e, unit) action" where
  "print_json value c = (Inr (), c\<lparr>c_out := c_out c @ [JsonDocument value]\<rparr>)"

definition print_success :: "string \<Rightarrow> json \<Rightarrow> (console, 'e, unit) action" where
  "print_success command data = print_json (json_envelope command data)"

definition print_error :: "string \<Rightarrow> string \<Rightarrow> string \<Rightarrow> (console, 'e, unit) action" where
  "print_error command code msg c =
     (Inr (), c\<lparr>c_out := c_out c @ [ErrorDocument (json_error_envelope command code msg)]\<rparr>)"

text \<open>
  A step on the world and the tree of an output directory: the tree is what the file system has
  there, and goes back there; changes beyond it are recorded.
\<close>

definition on_target :: "environ \<Rightarrow> path \<Rightarrow> (world \<times> xworld, 'e, 'a) action \<Rightarrow> (console, 'e, 'a) action" where
  "on_target E out_dir m c =
     (case m (c_world c, tree_of (env_links E (c_world c)) (c_world c) out_dir) of
        (r, w, x) \<Rightarrow> (r, c\<lparr>c_world := write_back out_dir (w, x),
          c_beyond := c_beyond c @ map ((@) (resolve w out_dir)) (x_changed x)\<rparr>))"

text \<open>\<open>?\<close> through the \<open>From\<close> implementations of \<open>CliError\<close>.\<close>

definition io_step :: "(world, io_error, 'a) action \<Rightarrow> (console, cli_error, 'a) action" where
  "io_step m = on_world (act_map_err CliIo m)"

definition crypto_step :: "(world, crypto_error, 'a) action \<Rightarrow> (console, cli_error, 'a) action" where
  "crypto_step m = on_world (act_map_err CliCrypto m)"

definition bundle_step :: "(world, bundle_error, 'a) action \<Rightarrow> (console, cli_error, 'a) action" where
  "bundle_step m = on_world (act_map_err (\<lambda>e. CliCause '''' (CauseBundle e)) m)"

definition signing_step :: "(world, signing_error, 'a) action \<Rightarrow> (console, cli_error, 'a) action" where
  "signing_step m = on_world (act_map_err (\<lambda>e. CliCause '''' (CauseSigning e)) m)"

definition group_step :: "(world, group_error, 'a) action \<Rightarrow> (console, cli_error, 'a) action" where
  "group_step m = on_world (act_map_err (\<lambda>e. CliCause '''' (CauseGroup e)) m)"

text \<open>\<open>map_err(|e| CliError::Message(format!("...: {e}")))\<close>\<close>

definition crypto_step_msg :: "string \<Rightarrow> (world, crypto_error, 'a) action \<Rightarrow> (console, cli_error, 'a) action" where
  "crypto_step_msg msg m = on_world (act_map_err (\<lambda>e. CliCause msg (CauseCrypto e)) m)"

definition release_step_msg :: "string \<Rightarrow> (world, release_error, 'a) action \<Rightarrow> (console, cli_error, 'a) action" where
  "release_step_msg msg m = on_world (act_map_err (\<lambda>e. CliCause msg (CauseRelease e)) m)"

section \<open>Checks\<close>

definition is_regular :: "world \<Rightarrow> path \<Rightarrow> bool" where
  "is_regular w p \<longleftrightarrow> (case lookup w p of Some (Regular _) \<Rightarrow> True | _ \<Rightarrow> False)"

definition ensure_input_file :: "path \<Rightarrow> (world, cli_error, unit) action" where
  "ensure_input_file p w =
     (ensure (is_regular w p) (CliMessage (''Input file does not exist: '' @ display p)), w)"

text \<open>
  \<open>fs::canonicalize\<close>, in a file system without symbolic links: the absolute path of an object.
\<close>

definition canonicalize :: "path \<Rightarrow> (world, io_error, path) action" where
  "canonicalize p w = (if lookup w p = None then (Inl NotFound, w) else (Inr (Path True (resolve w p)), w))"

definition ensure_distinct_file_paths :: "path \<Rightarrow> path \<Rightarrow> (world, cli_error, unit) action" where
  "ensure_distinct_file_paths inp out w =
     (if path_exists w out
      then act (act_map_err CliIo (canonicalize inp)) (\<lambda>a.
        act (act_map_err CliIo (canonicalize out)) (\<lambda>b.
          lift (ensure (a \<noteq> b) (CliMessage ''Input and output paths must be different'')))) w
      else (ensure (inp \<noteq> out) (CliMessage ''Input and output paths must be different''), w))"

definition ensure_output_available :: "path \<Rightarrow> bool \<Rightarrow> (world, cli_error, unit) action" where
  "ensure_output_available p force w =
     (ensure (\<not> (path_exists w p \<and> \<not> force))
       (CliMessage (''Output file already exists: '' @ display p @ ''. Use --force to replace it.'')), w)"

definition require_one_mode ::
  "bool \<Rightarrow> path option \<Rightarrow> bool \<Rightarrow> string \<Rightarrow> string \<Rightarrow> cli_error + unit" where
  "require_one_mode password_selected password_file key_file password_name key_name =
     (case (password_selected \<or> password_file \<noteq> None, key_file) of
        (True, False) \<Rightarrow> Inr ()
      | (False, True) \<Rightarrow> Inr ()
      | (False, False) \<Rightarrow> Inl (CliMessage (''Specify either '' @ password_name @ '' or '' @ key_name))
      | (True, True) \<Rightarrow> Inl (CliMessage (''Specify only one of '' @ password_name @ '' or '' @ key_name)))"

section \<open>Secrets\<close>

definition MAX_SECRET_FILE_SIZE :: nat where "MAX_SECRET_FILE_SIZE = 64 * 1024"

text \<open>\<open>value.trim_end_matches(['\r', '\n'])\<close>\<close>

definition trim_line_ends :: "bytes \<Rightarrow> bytes" where
  "trim_line_ends bs = rev (dropWhile (\<lambda>b. b = 13 \<or> b = 10) (rev bs))"

text \<open>The mask of the permission check is octal 077.\<close>

definition too_large :: "path \<Rightarrow> string" where
  "too_large p = ''Secret file is too large: '' @ display p @ '' (maximum '' @ decimal MAX_SECRET_FILE_SIZE @ '' bytes)''"

definition read_secret_file :: "environ \<Rightarrow> path \<Rightarrow> (world, cli_error, bytes) action" where
  "read_secret_file E p w0 =
     act (act_map_err CliIo (open_file p)) (\<lambda>rd.
     act (act_map_err CliIo (metadata_of p)) (\<lambda>m.
     act (lift (ensure (fst m) (CliMessage (''Secret file is not a regular file: '' @ display p)))) (\<lambda>_.
     act (lift (ensure (snd m \<le> MAX_SECRET_FILE_SIZE) (CliMessage (too_large p)))) (\<lambda>_.
     act (lift (ensure (env_mode E (resolve w0 p) AND 0x3F = 0)
       (CliMessage (''Secret file permissions are too broad: '' @ display p @ '' (use chmod 600)'')))) (\<lambda>_.
     act (lift (map_err CliIo (fst (fill (MAX_SECRET_FILE_SIZE + 1) [] rd)))) (\<lambda>bs.
     act (lift (ensure (utf8_valid bs) (CliIo InvalidData))) (\<lambda>_.
     act (lift (ensure (length bs \<le> MAX_SECRET_FILE_SIZE) (CliMessage (too_large p)))) (\<lambda>_.
       ret (trim_line_ends bs))))))))) w0"

text \<open>What the prompt returns is an input; with nothing left to type it is the end of the file.\<close>

definition prompt_password :: "(console, cli_error, bytes) action" where
  "prompt_password c =
     (case c_typed c of
        [] \<Rightarrow> (Inl (CliIo UnexpectedEof), c)
      | t # ts \<Rightarrow> (map_err CliIo t, c\<lparr>c_typed := ts\<rparr>))"

definition password_secret ::
  "environ \<Rightarrow> bool \<Rightarrow> path option \<Rightarrow> bool \<Rightarrow> (console, cli_error, bytes option) action" where
  "password_secret E password password_file confirm =
     (case password_file of
        Some p \<Rightarrow> act (on_world (read_secret_file E p)) (\<lambda>s. ret (Some s))
      | None \<Rightarrow>
          if \<not> password then ret None
          else act prompt_password (\<lambda>first.
            act (if confirm
                then act prompt_password (\<lambda>second. lift (ensure (first = second) (CliMessage ''Passwords do not match'')))
                else ret ()) (\<lambda>_. ret (Some first))))"

definition seed_secret :: "environ \<Rightarrow> bool \<Rightarrow> path option \<Rightarrow> (console, cli_error, bytes option) action" where
  "seed_secret E seed seed_file =
     (case seed_file of
        Some p \<Rightarrow> act (on_world (read_secret_file E p)) (\<lambda>s. ret (Some s))
      | None \<Rightarrow> if seed then act prompt_password (\<lambda>s. ret (Some s)) else ret None)"

text \<open>\<open>.ok_or_else(|| CliError::Message("Missing password".into()))\<close>\<close>

definition required_password ::
  "environ \<Rightarrow> bool \<Rightarrow> path option \<Rightarrow> bool \<Rightarrow> (console, cli_error, bytes) action" where
  "required_password E password password_file confirm =
     act (password_secret E password password_file confirm) (\<lambda>p.
       lift (ok_or (CliMessage ''Missing password'') p))"

section \<open>Option values\<close>

definition lowercase :: "string \<Rightarrow> string" where "lowercase s = map to_ascii_lowercase s"

definition parse_profile :: "string \<Rightarrow> cli_error + security_profile" where
  "parse_profile profile =
     (let s = lowercase profile in
      if s = ''fast'' then Inr Fast
      else if s = ''balanced'' then Inr Balanced
      else if s = ''archive'' then Inr Archive
      else if s = ''paranoid'' then Inr Paranoid
      else if s = ''extreme'' then Inr Extreme
      else Inl (CliMessage ''Invalid profile. Valid options: fast, balanced, archive, paranoid, extreme''))"

text \<open>
  \<open>str::parse::<usize>\<close>: an optional plus sign and at least one digit; a value of 2^64 or more is
  an overflow.
\<close>

fun parse_digits :: "nat \<Rightarrow> string \<Rightarrow> nat option" where
  "parse_digits acc [] = Some acc"
| "parse_digits acc (c # cs) =
     (let d = of_char c :: nat in
      if 48 \<le> d \<and> d \<le> 57
      then (let n = acc * 10 + (d - 48) in if n < 2 ^ 64 then parse_digits n cs else None)
      else None)"

definition parse_usize :: "string \<Rightarrow> u64 option" where
  "parse_usize s =
     (let ds = (case s of [] \<Rightarrow> [] | c # r \<Rightarrow> if c = CHR ''+'' then r else s)
      in if ds = [] then None else map_option of_nat (parse_digits 0 ds))"

definition parse_padding :: "string \<Rightarrow> cli_error + padding_profile" where
  "parse_padding pad =
     (let s = lowercase pad in
      if s = ''none'' then Inr NoPadding
      else if s = ''bucket'' then Inr Bucket
      else if take 6 s = ''fixed:''
      then (let size_str = drop 6 s in
        rbind (ok_or (CliMessage (''Invalid fixed padding size: '' @ size_str)) (parse_usize size_str)) (\<lambda>size.
          Inr (Fixed size)))
      else Inl (CliMessage ''Invalid padding. Valid options: none, bucket, fixed:<SIZE>''))"

section \<open>Paths\<close>

text \<open>\<open>Path::with_extension\<close> and \<open>Path::extension\<close>\<close>

definition extension :: "path \<Rightarrow> string option" where
  "extension p = (case file_name p of None \<Rightarrow> None | Some n \<Rightarrow> snd (stem_and_extension n))"

definition with_extension :: "path \<Rightarrow> string \<Rightarrow> path" where
  "with_extension p ext =
     (case file_stem p of
        None \<Rightarrow> p
      | Some stem \<Rightarrow> Path (absolute p) (butlast (comps p) @ [if ext = [] then stem else stem @ ''.'' @ ext]))"

text \<open>\<open>fs::remove_file\<close>\<close>

definition remove_file :: "path \<Rightarrow> (world, io_error, unit) action" where
  "remove_file p w =
     (case lookup w p of
        None \<Rightarrow> (Inl NotFound, w)
      | Some Directory \<Rightarrow> (Inl OtherIo, w)
      | Some _ \<Rightarrow> (Inr (), w\<lparr>w_fs := (w_fs w)(resolve w p := None)\<rparr>))"

end
