(* ===== verification/Cli_Options.thy ===== *)
theory Cli_Options
  imports Cli_Base
begin

text \<open>
  The values of the options \<open>--profile\<close> and \<open>--pad\<close>: what the parsers of theory Cli_Base accept.
\<close>

lemma lowercase_simps [simp]: "lowercase [] = []" "lowercase (c # s) = to_ascii_lowercase c # lowercase s"
  by (simp_all add: lowercase_def)

lemma lowercase_append [simp]: "lowercase (s @ t) = lowercase s @ lowercase t"
  by (simp add: lowercase_def)

definition is_digit :: "char \<Rightarrow> bool" where
  "is_digit c \<longleftrightarrow> 48 \<le> (of_char c :: nat) \<and> (of_char c :: nat) \<le> 57"

definition digits_value :: "nat \<Rightarrow> string \<Rightarrow> nat" where
  "digits_value = foldl (\<lambda>a c. a * 10 + (of_char c - 48))"

lemma digits_value_simps [simp]:
  "digits_value a [] = a" "digits_value a (c # cs) = digits_value (a * 10 + (of_char c - 48)) cs"
  "digits_value a (xs @ ys) = digits_value (digits_value a xs) ys"
  by (simp_all add: digits_value_def)

lemma digits_value_mono: "a \<le> digits_value a cs"
proof (induction cs arbitrary: a)
  case (Cons c cs)
  have "a \<le> a * 10 + (of_char c - 48)" by simp
  also have "\<dots> \<le> digits_value (a * 10 + (of_char c - 48)) cs" by (rule Cons)
  finally show ?case by simp
qed simp

lemma parse_digits_iff:
  "acc < 2 ^ 64 \<Longrightarrow>
     parse_digits acc cs = Some n \<longleftrightarrow> list_all is_digit cs \<and> digits_value acc cs = n \<and> n < 2 ^ 64"
proof (induction cs arbitrary: acc)
  case (Cons c cs)
  let ?n = "acc * 10 + (of_char c - 48) :: nat"
  show ?case
  proof (cases "is_digit c \<and> ?n < 2 ^ 64")
    case True
    then have "parse_digits acc (c # cs) = parse_digits ?n cs" by (simp only: is_digit_def Let_def parse_digits.simps) simp
    with True Cons.IH [of ?n] show ?thesis by (simp only: digits_value_simps list.pred_inject simp_thms)
  next
    case False
    then have "parse_digits acc (c # cs) = None" by (auto simp: is_digit_def Let_def)
    moreover have "\<not> (list_all is_digit (c # cs) \<and> digits_value acc (c # cs) < 2 ^ 64)"
      using False digits_value_mono [of ?n cs] by auto
    ultimately show ?thesis by auto
  qed
qed auto

lemma decimal_digits: "list_all is_digit (decimal n) \<and> digits_value 0 (decimal n) = n \<and> decimal n \<noteq> []"
proof (induction n rule: decimal.induct)
  case (1 n)
  have ch: "of_char (char_of (48 + k) :: char) = 48 + k" if "k < 10" for k :: nat
    using that by (simp add: of_char_of)
  show ?case
  proof (cases "n < 10")
    case True
    then show ?thesis using ch [of n] by (simp add: decimal.simps [of n] is_digit_def)
  next
    case False
    have "digits_value 0 (decimal n) = (n div 10) * 10 + n mod 10"
      using "1.IH" [OF False] False ch [of "n mod 10"] by (simp add: decimal.simps [of n])
    with "1.IH" [OF False] False ch [of "n mod 10"] show ?thesis
      by (simp add: decimal.simps [of n] is_digit_def)
  qed
qed

lemma lowercase_digit: "is_digit c \<Longrightarrow> to_ascii_lowercase c = c"
  by (simp add: is_digit_def to_ascii_lowercase_def Let_def)

lemma lowercase_digits: "list_all is_digit s \<Longrightarrow> lowercase s = s"
  by (induction s) (simp_all add: lowercase_digit)

lemma parse_usize_iff:
  "parse_usize s = Some n \<longleftrightarrow>
     (\<exists>ds. (s = ds \<or> s = CHR ''+'' # ds) \<and> ds \<noteq> [] \<and> list_all is_digit ds \<and> digits_value 0 ds = unat n)"
    (is "?l \<longleftrightarrow> ?r")
proof -
  have plus: "\<not> is_digit CHR ''+''" by (simp add: is_digit_def)
  define ds where "ds = (case s of [] \<Rightarrow> [] | c # r \<Rightarrow> if c = CHR ''+'' then r else s)"
  have val: "parse_digits 0 ds = Some m \<longleftrightarrow> list_all is_digit ds \<and> digits_value 0 ds = m \<and> m < 2 ^ 64" for m
    using parse_digits_iff [of 0 ds m] by simp
  have "?l \<longleftrightarrow> ds \<noteq> [] \<and> (\<exists>m. parse_digits 0 ds = Some m \<and> of_nat m = n)"
    by (auto simp: parse_usize_def Let_def ds_def [symmetric])
  also have "\<dots> \<longleftrightarrow> ds \<noteq> [] \<and> list_all is_digit ds \<and> digits_value 0 ds = unat n"
  proof -
    have "digits_value 0 ds < 2 ^ 64 \<Longrightarrow> unat (of_nat (digits_value 0 ds) :: u64) = digits_value 0 ds"
      by (simp add: unat_of_nat take_bit_nat_eq_self)
    moreover have "unat n < 2 ^ 64" "of_nat (unat n) = n" using unat_bound [of n] by simp_all
    ultimately show ?thesis unfolding val by metis
  qed
  also have "\<dots> \<longleftrightarrow> ?r"
    using plus by (cases s) (auto simp: ds_def)
  finally show ?thesis .
qed

lemma parse_profile_iff: "parse_profile s = Inr p \<longleftrightarrow> lowercase s = lowercase (profile_name p)"
  by (cases p) (auto simp: parse_profile_def Let_def to_ascii_lowercase_def char_of_def bit_Suc_0_iff)

text \<open>
  Option values parse exactly as documented, up to case: a profile by its name, and a padding
  as \<open>none\<close>, \<open>bucket\<close> or \<open>fixed:\<close> followed by a decimal number below 2^64 with an optional plus
  sign; every profile and every padding that is written out is read back.
\<close>

theorem options_parse_exactly:
  "(parse_profile s = Inr p \<longleftrightarrow> lowercase s = lowercase (profile_name p)) \<and>
   parse_profile (profile_name p) = Inr p \<and>
   (parse_padding s = Inr NoPadding \<longleftrightarrow> lowercase s = ''none'') \<and>
   (parse_padding s = Inr Bucket \<longleftrightarrow> lowercase s = ''bucket'') \<and>
   (parse_padding s = Inr (Fixed n) \<longleftrightarrow>
      (\<exists>ds. lowercase s \<in> {''fixed:'' @ ds, ''fixed:+'' @ ds} \<and> ds \<noteq> [] \<and> list_all is_digit ds \<and>
         digits_value 0 ds = unat n)) \<and>
   parse_padding (''fixed:'' @ decimal (unat n)) = Inr (Fixed n)"
proof -
  have padding: "parse_padding s = Inr (Fixed n) \<longleftrightarrow>
      (\<exists>ds. lowercase s \<in> {''fixed:'' @ ds, ''fixed:+'' @ ds} \<and> ds \<noteq> [] \<and> list_all is_digit ds \<and>
         digits_value 0 ds = unat n)" for s
  proof -
    have "parse_padding s = Inr (Fixed n) \<longleftrightarrow> take 6 (lowercase s) = ''fixed:'' \<and> parse_usize (drop 6 (lowercase s)) = Some n"
      by (auto simp: parse_padding_def Let_def res_elims)
    also have "\<dots> \<longleftrightarrow> (\<exists>t. lowercase s = ''fixed:'' @ t \<and> parse_usize t = Some n)"
    proof -
      have "length ''fixed:'' = 6" by simp
      then show ?thesis by (metis append_eq_conv_conj append_take_drop_id)
    qed
    also have "\<dots> \<longleftrightarrow> (\<exists>ds. lowercase s \<in> {''fixed:'' @ ds, ''fixed:+'' @ ds} \<and> ds \<noteq> [] \<and> list_all is_digit ds \<and>
         digits_value 0 ds = unat n)"
      unfolding parse_usize_iff by auto
    finally show ?thesis .
  qed
  have low: "lowercase (''fixed:'' @ decimal (unat n)) = ''fixed:'' @ decimal (unat n)"
    using lowercase_digits [OF decimal_digits [THEN conjunct1]]
    by (simp add: to_ascii_lowercase_def)
  have "parse_padding (''fixed:'' @ decimal (unat n)) = Inr (Fixed n)"
    unfolding padding low using decimal_digits [of "unat n"] by blast
  moreover have "parse_padding s = Inr NoPadding \<longleftrightarrow> lowercase s = ''none''"
    "parse_padding s = Inr Bucket \<longleftrightarrow> lowercase s = ''bucket''"
    by (auto simp: parse_padding_def Let_def res_elims)
  ultimately show ?thesis using padding parse_profile_iff [of s p] parse_profile_iff [of "profile_name p" p] by blast
qed

end
