(* ===== verification/Sfx.thy ===== *)
theory Sfx
  imports Cli_Base
begin

text \<open>
  Self-extracting archives: the builders of the command line (\<open>create_sfx\<close>) and of the GUI
  (\<open>build_sfx_file\<close>), and the stub program that finds the capsule behind itself, decrypts it in
  memory and writes the plaintext (lvau-stub, main.rs). A file that is sought in is given by its
  contents and a reader.
\<close>

section \<open>Copying\<close>

text \<open>
  \<open>std::io::copy\<close>: read until the end of the data, write everything, return the number of bytes.
  The size of the copy buffer does not matter.
\<close>

definition COPY_BUF :: nat where "COPY_BUF = 8192"

function io_copy :: "nat \<Rightarrow> reader \<Rightarrow> writer \<Rightarrow> (io_error + nat) \<times> writer" where
  "io_copy n rd wr =
     (case read COPY_BUF rd of
        (Inl e, rd') \<Rightarrow> (Inl e, wr)
      | (Inr got, rd') \<Rightarrow>
          if got = [] then (Inr n, wr)
          else (case write_all got wr of
              (Inl e, wr') \<Rightarrow> (Inl e, wr')
            | (Inr _, wr') \<Rightarrow> io_copy (n + length got) rd' wr'))"
  by pat_completeness auto
termination
proof (relation "measure (\<lambda>(_, rd, _). length (r_data rd))")
  fix n rd wr r and rd' :: reader and got and x :: "(io_error + unit) \<times> writer" and q wr' and u :: unit
  assume *: "(r, rd') = read COPY_BUF rd" "r = Inr got" "got \<noteq> []"
  from *(1,2) have "read COPY_BUF rd = (Inr got, rd')" by simp
  from read_Inr(1) [OF this] *(3) show "((n + length got, rd', wr'), n, rd, wr) \<in> measure (\<lambda>(_, rd, _). length (r_data rd))"
    by (simp add: COPY_BUF_def)
qed simp

declare io_copy.simps [simp del]

definition copy_all :: "reader \<Rightarrow> writer \<Rightarrow> io_error + writer" where
  "copy_all rd wr = (case io_copy 0 rd wr of (Inl e, _) \<Rightarrow> Inl e | (Inr _, wr') \<Rightarrow> Inr wr')"

definition copy_exact_len :: "reader \<Rightarrow> writer \<Rightarrow> nat \<Rightarrow> string \<Rightarrow> cli_error + writer" where
  "copy_exact_len input output_file expected_len name =
     (case io_copy 0 input output_file of
        (Inl e, _) \<Rightarrow> Inl (CliIo e)
      | (Inr copied, output_file') \<Rightarrow>
          rbind (ensure (copied = expected_len) (CliMessage (name @ '' changed while being copied: expected '' @
            decimal expected_len @ '' bytes, copied '' @ decimal copied))) (\<lambda>_. Inr output_file'))"

text \<open>\<open>output.write_all(bytes)?\<close>\<close>

definition put_bytes :: "bytes \<Rightarrow> writer \<Rightarrow> io_error + writer" where
  "put_bytes bs wr = (case write_all bs wr of (Inl e, _) \<Rightarrow> Inl e | (Inr _, wr') \<Rightarrow> Inr wr')"

section \<open>Building\<close>

definition SFX_MAGIC :: bytes where "SFX_MAGIC = ascii ''LVAUSFX1''"

definition SFX_TRAILER_SIZE :: nat where "SFX_TRAILER_SIZE = 16"

definition sfx_commit :: "(io_error \<Rightarrow> 'e) \<Rightarrow> bool \<Rightarrow> writer \<Rightarrow> path \<Rightarrow> (world, 'e, unit) action" where
  "sfx_commit io force temp p =
     act (act_map_err io (if force then persist temp p else persist_noclobber temp p)) (\<lambda>_.
       act_map_err io (sync_path (parent_or_dot p)))"

definition assemble_sfx :: "path \<Rightarrow> path \<Rightarrow> path \<Rightarrow> bool \<Rightarrow> (world, cli_error, unit) action" where
  "assemble_sfx stub_path temp_out out_file force =
     act (act_map_err CliIo (new_in (parent_or_dot out_file))) (\<lambda>output_file.
     act (act_map_err CliIo (open_file stub_path)) (\<lambda>stub.
     act (act_map_err CliIo (metadata_of stub_path)) (\<lambda>stub_md.
     act (lift (ensure (fst stub_md) (CliMessage (''SFX stub is not a regular file: '' @ display stub_path)))) (\<lambda>_.
     act (lift (map_err CliIo (copy_all stub output_file))) (\<lambda>output_file.
     act (act_map_err CliIo (open_file temp_out)) (\<lambda>payload.
     act (act_map_err CliIo (metadata_of temp_out)) (\<lambda>payload_md.
     act (lift (copy_exact_len payload output_file (snd payload_md) ''SFX payload'')) (\<lambda>output_file.
     act (lift (map_err CliIo (put_bytes (u64_to_le_bytes (of_nat (snd payload_md))) output_file))) (\<lambda>output_file.
     act (lift (map_err CliIo (put_bytes SFX_MAGIC output_file))) (\<lambda>output_file.
     act (act_map_err CliIo sync_temp) (\<lambda>_.
     act (sfx_commit CliIo force output_file out_file) (\<lambda>_.
       act_map_err CliIo (remove_file temp_out)))))))))))))"

text \<open>Without a stub the temporary capsule is removed and nothing is built.\<close>

definition create_sfx :: "environ \<Rightarrow> path \<Rightarrow> path \<Rightarrow> bool \<Rightarrow> (world, cli_error, unit) action" where
  "create_sfx E temp_out out_file force =
     act (lift (map_err CliIo (env_exe E))) (\<lambda>exe.
     act (lift (ok_or (CliMessage ''Could not locate current executable directory'') (parent exe))) (\<lambda>exe_dir.
     let stub_path = below exe_dir [''lvau-stub''] in (\<lambda>w.
       if \<not> path_exists w stub_path
       then (Inl (CliMessage (''SFX stub not found at '' @ display stub_path @
         ''. Build lvau-stub before creating SFX archives.'')), snd (remove_file temp_out w))
       else assemble_sfx stub_path temp_out out_file force w)))"

definition build_sfx_file :: "path \<Rightarrow> path \<Rightarrow> path \<Rightarrow> bool \<Rightarrow> (world, io_error, unit) action" where
  "build_sfx_file stub_path payload_path output_path force w =
     (if path_exists w output_path \<and> \<not> force then (Inl AlreadyExists, w)
      else
       act (metadata_of payload_path) (\<lambda>payload_md.
       act (new_in (parent_or_dot output_path)) (\<lambda>temp.
       act (open_file stub_path) (\<lambda>stub.
       act (open_file payload_path) (\<lambda>payload.
       act (lift (copy_all stub temp)) (\<lambda>temp.
       case io_copy 0 payload temp of
         (Inl e, _) \<Rightarrow> fail e
       | (Inr copied, temp) \<Rightarrow>
           act (lift (ensure (copied = snd payload_md) UnexpectedEof)) (\<lambda>_.
           act (lift (put_bytes (u64_to_le_bytes (of_nat (snd payload_md))) temp)) (\<lambda>temp.
           act (lift (put_bytes SFX_MAGIC temp)) (\<lambda>temp.
           act sync_temp (\<lambda>_.
             sfx_commit id force temp output_path))))))))) w)"

section \<open>The stub\<close>

datatype stub_error = StubMessage string | StubIo string io_error

definition checked_sub_u64 :: "u64 \<Rightarrow> u64 \<Rightarrow> u64 option" where
  "checked_sub_u64 a b = (if b \<le> a then Some (a - b) else None)"

text \<open>\<open>memory n\<close> tells whether \<open>try_reserve_exact(n)\<close> succeeds; a file can be sought in anywhere.\<close>

definition extract_payload_from_reader ::
  "(nat \<Rightarrow> bool) \<Rightarrow> bytes \<Rightarrow> reader \<Rightarrow> u64 \<Rightarrow> stub_error + bytes" where
  "extract_payload_from_reader memory all rd file_len =
     rbind (ok_or (StubMessage ''File too small to be an SFX.'')
       (checked_sub_u64 file_len (of_nat SFX_TRAILER_SIZE))) (\<lambda>trailer_start.
     case read_exact SFX_TRAILER_SIZE (seek_start all trailer_start rd) of
       (Inl _, _) \<Rightarrow> Inl (StubMessage ''Failed to read trailer.'')
     | (Inr trailer, rd1) \<Rightarrow>
         rbind (ensure (drop 8 trailer = SFX_MAGIC)
           (StubMessage ''This executable does not contain a valid Lvau SFX payload.'')) (\<lambda>_.
         let payload_len = u64_from_le_bytes (take 8 trailer) in
         rbind (ok_or (StubMessage ''SFX payload length exceeds the executable size.'')
           (checked_sub_u64 trailer_start payload_len)) (\<lambda>payload_start.
         rbind (ensure (memory (unat payload_len)) (StubMessage ''Not enough memory for the SFX payload.'')) (\<lambda>_.
         case read_exact (unat payload_len) (seek_start all payload_start rd1) of
           (Inl _, _) \<Rightarrow> Inl (StubMessage ''Failed to read payload bytes.'')
         | (Inr payload, _) \<Rightarrow> Inr payload))))"

definition extract_payload ::
  "(nat \<Rightarrow> bool) \<Rightarrow> io_error + path \<Rightarrow> (world, stub_error, bytes) action" where
  "extract_payload memory current_exe =
     act (lift (map_err (StubIo '''') current_exe)) (\<lambda>exe_path.
     act (act_map_err (StubIo '''') (open_file exe_path)) (\<lambda>rd.
     act (act_map_err (StubIo '''') (metadata_of exe_path)) (\<lambda>md.
       lift (extract_payload_from_reader memory (r_data rd) rd (of_nat (snd md))))))"

text \<open>\<open>OpenOptions::new().write(true).create_new(true).open(path)\<close>\<close>

definition create_new :: "path \<Rightarrow> (world, io_error, unit) action" where
  "create_new p w =
     (if comps p = [] \<or> w_fs w (butlast (resolve w p)) \<noteq> Some Directory then (Inl NotFound, w)
      else if w_fs w (resolve w p) \<noteq> None then (Inl AlreadyExists, w)
      else (Inr (), put_file w p []))"

definition write_plaintext_no_clobber :: "path \<Rightarrow> bytes \<Rightarrow> (world, stub_error, unit) action" where
  "write_plaintext_no_clobber p plaintext w =
     (case create_new p w of
        (Inl e, w1) \<Rightarrow>
          (Inl (if e = AlreadyExists then StubMessage ''Refusing to overwrite the selected output file.''
             else StubIo ''Failed to create output file: '' e), w1)
      | (Inr _, w1) \<Rightarrow>
          (case write_all plaintext (fresh_writer (w_disk w1)) of (written, wr) \<Rightarrow>
           let w2 = put_file w1 p (w_data wr) in
           case rbind written (\<lambda>_. fst (sync_temp w2)) of
             Inl e \<Rightarrow> (Inl (StubIo ''Failed to write output file: '' e), snd (remove_file p w2))
           | Inr _ \<Rightarrow>
               (case parent p of
                  None \<Rightarrow> (Inr (), w2)
                | Some par \<Rightarrow> act_map_err (StubIo ''Failed to sync output directory: '') (sync_path par) w2)))"

datatype auth_mode = AuthPassword | AuthKeyFile

record sfx_app =
  sa_payload :: "bytes option"
  sa_payload_error :: "stub_error option"
  sa_auth_mode :: auth_mode
  sa_secret :: bytes
  sa_seed :: bytes
  sa_keyfile_path :: "path option"
  sa_out_file :: "path option"
  sa_status :: string

definition sfx_new :: "(nat \<Rightarrow> bool) \<Rightarrow> io_error + path \<Rightarrow> world \<Rightarrow> sfx_app" where
  "sfx_new memory current_exe w =
     (let (payload, payload_error) =
        (case fst (extract_payload memory current_exe w) of Inr p \<Rightarrow> (Some p, None) | Inl e \<Rightarrow> (None, Some e))
      in \<lparr>sa_payload = payload, sa_payload_error = payload_error, sa_auth_mode = AuthPassword, sa_secret = [],
        sa_seed = [], sa_keyfile_path = None, sa_out_file = None, sa_status = []\<rparr>)"

text \<open>\<open>SfxExtractorApp::decrypt\<close> takes the secret fields out of the application in both modes.\<close>

definition sfx_decrypt ::
  "prims \<Rightarrow> postcard \<Rightarrow> key_json \<Rightarrow> hybrid_json \<Rightarrow> sfx_app \<Rightarrow> bytes \<Rightarrow> world \<Rightarrow> (crypto_error + bytes) \<times> sfx_app" where
  "sfx_decrypt P S J H app payload w =
     (let app' = app\<lparr>sa_secret := [], sa_seed := []\<rparr> in
      case sa_auth_mode app of
        AuthPassword \<Rightarrow>
          (decrypt_memory_password P S payload (sa_secret app) (if sa_seed app = [] then None else Some (sa_seed app)), app')
      | AuthKeyFile \<Rightarrow>
          (rbind (ok_or DecryptionFailed (sa_keyfile_path app)) (\<lambda>key_path.
           rbind (map_err (\<lambda>_. DecryptionFailed) (fst (private_load_from_file J H key_path w))) (\<lambda>private_key.
             decrypt_memory_keypair P S payload private_key)), app'))"

definition stub_text :: "(io_error \<Rightarrow> string) \<Rightarrow> stub_error \<Rightarrow> string" where
  "stub_text io_text e = (case e of StubMessage m \<Rightarrow> m | StubIo m i \<Rightarrow> m @ io_text i)"

definition sfx_can_proceed :: "sfx_app \<Rightarrow> bool" where
  "sfx_can_proceed app \<longleftrightarrow> sa_out_file app \<noteq> None \<and>
     (sa_auth_mode app = AuthPassword \<and> sa_secret app \<noteq> [] \<or>
      sa_auth_mode app = AuthKeyFile \<and> sa_keyfile_path app \<noteq> None)"

text \<open>A click on the enabled button; an application with a payload error shows no button.\<close>

definition sfx_click ::
  "(io_error \<Rightarrow> string) \<Rightarrow> prims \<Rightarrow> postcard \<Rightarrow> key_json \<Rightarrow> hybrid_json \<Rightarrow> sfx_app \<Rightarrow> world \<Rightarrow> sfx_app \<times> world" where
  "sfx_click io_text P S J H app w =
     (if sa_payload_error app \<noteq> None \<or> \<not> sfx_can_proceed app then (app, w)
      else (case (sa_out_file app, sa_payload app) of
          (Some out_file, Some payload) \<Rightarrow>
            (case sfx_decrypt P S J H (app\<lparr>sa_payload := None\<rparr>) payload w of (decrypt_result, app1) \<Rightarrow>
             let app2 = app1\<lparr>sa_payload := Some payload\<rparr> in
             (case decrypt_result of
                Inr plaintext \<Rightarrow>
                  (case write_plaintext_no_clobber out_file plaintext w of
                     (Inr _, w1) \<Rightarrow> (app2\<lparr>sa_status := ''Extraction Successful!''\<rparr>, w1)
                   | (Inl e, w1) \<Rightarrow> (app2\<lparr>sa_status := stub_text io_text e\<rparr>, w1))
              | Inl _ \<Rightarrow>
                  (app2\<lparr>sa_status := ''Decryption Failed! Wrong password or corrupted file.''\<rparr>, w)))
        | _ \<Rightarrow> (app, w)))"

text \<open>
  What the user does in the window, between two frames. With a payload error the window shows
  nothing else, so no action has an effect; the fields of a mode are shown in that mode.
\<close>

datatype sfx_event =
  ChooseMode auth_mode | TypeSecret bytes | TypeSeed bytes | PickKeyFile path | PickOutFile path | Click

definition sfx_step ::
  "(io_error \<Rightarrow> string) \<Rightarrow> prims \<Rightarrow> postcard \<Rightarrow> key_json \<Rightarrow> hybrid_json \<Rightarrow> sfx_event \<Rightarrow> sfx_app \<times> world \<Rightarrow> sfx_app \<times> world" where
  "sfx_step io_text P S J H ev = (\<lambda>(app, w).
     if sa_payload_error app \<noteq> None then (app, w)
     else (case ev of
         ChooseMode m \<Rightarrow> (app\<lparr>sa_auth_mode := m\<rparr>, w)
       | TypeSecret s \<Rightarrow> (if sa_auth_mode app = AuthPassword then app\<lparr>sa_secret := s\<rparr> else app, w)
       | TypeSeed s \<Rightarrow> (if sa_auth_mode app = AuthPassword then app\<lparr>sa_seed := s\<rparr> else app, w)
       | PickKeyFile p \<Rightarrow> (if sa_auth_mode app = AuthKeyFile then app\<lparr>sa_keyfile_path := Some p\<rparr> else app, w)
       | PickOutFile p \<Rightarrow> (app\<lparr>sa_out_file := Some p\<rparr>, w)
       | Click \<Rightarrow> sfx_click io_text P S J H app w))"

definition sfx_session ::
  "(io_error \<Rightarrow> string) \<Rightarrow> prims \<Rightarrow> postcard \<Rightarrow> key_json \<Rightarrow> hybrid_json \<Rightarrow> sfx_event list \<Rightarrow> sfx_app \<times> world \<Rightarrow> sfx_app \<times> world" where
  "sfx_session io_text P S J H evs st = fold (sfx_step io_text P S J H) evs st"

section \<open>Lemmas on copying\<close>

lemma io_copy_Inr:
  "io_copy n rd wr = (Inr k, wr') \<Longrightarrow> k = n + length (r_data rd) \<and> w_data wr' = w_data wr @ r_data rd"
proof (induction n rd wr arbitrary: k wr' rule: io_copy.induct)
  case (1 n rd wr)
  obtain r rd1 where rd1: "read COPY_BUF rd = (r, rd1)" by fastforce
  with "1.prems" obtain got where r: "r = Inr got" by (cases r) (auto simp: io_copy.simps [of n rd wr])
  note got = read_Inr [OF rd1 [unfolded r], unfolded COPY_BUF_def, simplified]
  show ?case
  proof (cases "got = []")
    case True
    with "1.prems" rd1 r got show ?thesis by (simp add: io_copy.simps [of n rd wr])
  next
    case False
    obtain q wr1 where wr1: "write_all got wr = (q, wr1)" by fastforce
    with "1.prems" rd1 r False have q: "q = Inr ()" and rest: "io_copy (n + length got) rd1 wr1 = (Inr k, wr')"
      by (auto simp: io_copy.simps [of n rd wr] split: sum.splits)
    from "1.IH" [OF rd1 [symmetric] r False wr1 [symmetric] q rest] got(1) write_all_Inr [OF wr1 [unfolded q]]
    show ?thesis by simp
  qed
qed

lemma io_copy_quiet:
  "quiet rd \<Longrightarrow> w_room wr = None \<Longrightarrow>
     \<exists>wr'. io_copy n rd wr = (Inr (n + length (r_data rd)), wr') \<and> w_data wr' = w_data wr @ r_data rd \<and> w_room wr' = None"
proof (induction n rd wr rule: io_copy.induct)
  case (1 n rd wr)
  obtain got rd1 where rd1: "read COPY_BUF rd = (Inr got, rd1)" "quiet rd1"
    using read_quiet [OF "1.prems"(1)] by blast
  note got = read_Inr [OF rd1(1), unfolded COPY_BUF_def, simplified]
  show ?case
  proof (cases "got = []")
    case True
    with "1.prems" rd1 got show ?thesis by (simp add: io_copy.simps [of n rd wr])
  next
    case False
    obtain wr1 where wr1: "write_all got wr = (Inr (), wr1)" "w_data wr1 = w_data wr @ got" "w_room wr1 = None"
      using "1.prems"(2) by (simp add: write_all_def)
    from "1.IH" [OF rd1(1) [symmetric] refl False wr1(1) [symmetric] refl rd1(2) wr1(3)]
    show ?thesis using rd1(1) wr1 False got(1) by (simp add: io_copy.simps [of n rd wr] add.assoc)
  qed
qed

lemma copy_all_Inr: "copy_all rd wr = Inr wr' \<Longrightarrow> w_data wr' = w_data wr @ r_data rd"
  by (auto simp: copy_all_def split: prod.splits sum.splits dest: io_copy_Inr)

lemma copy_all_quiet:
  assumes "quiet rd" "w_room wr = None"
  obtains wr' where "copy_all rd wr = Inr wr'" "w_data wr' = w_data wr @ r_data rd" "w_room wr' = None"
  using io_copy_quiet [OF assms, of 0] that by (auto simp: copy_all_def)

lemma copy_exact_Inr:
  "copy_exact_len rd wr n name = Inr wr' \<Longrightarrow> w_data wr' = w_data wr @ r_data rd \<and> length (r_data rd) = n"
  by (auto simp: copy_exact_len_def res_elims split: prod.splits sum.splits dest: io_copy_Inr)

lemma copy_exact_quiet:
  assumes "quiet rd" "w_room wr = None" "length (r_data rd) = n"
  obtains wr' where "copy_exact_len rd wr n name = Inr wr'" "w_data wr' = w_data wr @ r_data rd" "w_room wr' = None"
  using io_copy_quiet [OF assms(1,2), of 0] assms(3) that by (auto simp: copy_exact_len_def)

lemma put_bytes_Inr: "put_bytes bs wr = Inr wr' \<Longrightarrow> w_data wr' = w_data wr @ bs"
  by (auto simp: put_bytes_def split: prod.splits sum.splits dest: write_all_Inr)

lemma put_bytes_unlimited:
  assumes "w_room wr = None"
  obtains wr' where "put_bytes bs wr = Inr wr'" "w_data wr' = w_data wr @ bs" "w_room wr' = None"
  using assms that by (simp add: put_bytes_def write_all_def)

text \<open>The layout of an archive: the stub, the capsule, its length, the magic.\<close>

definition sfx_image :: "bytes \<Rightarrow> bytes \<Rightarrow> bytes" where
  "sfx_image stub payload = stub @ payload @ u64_to_le_bytes (of_nat (length payload)) @ SFX_MAGIC"

section \<open>Finding the capsule\<close>

lemma length_SFX_MAGIC [simp]: "length SFX_MAGIC = 8"
  by (simp add: SFX_MAGIC_def ascii_def)

lemma u64_nat: "n < 2 ^ 64 \<Longrightarrow> unat (of_nat n :: u64) = n"
  by (simp add: unat_of_nat take_bit_nat_eq_self)

lemma checked_sub_nat:
  "a < 2 ^ 64 \<Longrightarrow> b < 2 ^ 64 \<Longrightarrow>
     checked_sub_u64 (of_nat a) (of_nat b) = (if b \<le> a then Some (of_nat (a - b)) else None)"
  by (simp add: checked_sub_u64_def word_le_nat_alt u64_nat of_nat_diff)

lemma extract_found:
  assumes rd: "quiet rd" and len: "length (sfx_image stub payload) < 2 ^ 64" and mem: "memory (length payload)"
  shows "extract_payload_from_reader memory (sfx_image stub payload) rd (of_nat (length (sfx_image stub payload))) = Inr payload"
proof -
  let ?all = "sfx_image stub payload" and ?s = "length stub" and ?p = "length payload"
  have n: "length ?all = ?s + ?p + 16" by (simp add: sfx_image_def)
  with len have lt: "?s + ?p + 16 < 2 ^ 64" by simp
  have c1: "checked_sub_u64 (of_nat (length ?all)) (of_nat SFX_TRAILER_SIZE) = Some (of_nat (?s + ?p))"
    using checked_sub_nat [of "length ?all" SFX_TRAILER_SIZE] lt n by (simp add: SFX_TRAILER_SIZE_def del: of_nat_add)
  have d1: "r_data (seek_start ?all (of_nat (?s + ?p)) rd) = u64_to_le_bytes (of_nat ?p) @ SFX_MAGIC"
    using lt by (simp add: seek_start_def u64_nat sfx_image_def del: of_nat_add)
  have q1: "quiet (seek_start ?all (of_nat (?s + ?p)) rd)" using rd by (simp add: quiet_def seek_start_def)
  obtain rd1 where rd1: "read_exact SFX_TRAILER_SIZE (seek_start ?all (of_nat (?s + ?p)) rd) =
      (Inr (u64_to_le_bytes (of_nat ?p) @ SFX_MAGIC), rd1)" "quiet rd1"
    using read_exact_quiet [OF q1, of SFX_TRAILER_SIZE] d1 by (auto simp: SFX_TRAILER_SIZE_def)
  have c2: "checked_sub_u64 (of_nat (?s + ?p)) (of_nat ?p) = Some (of_nat ?s)"
    using checked_sub_nat [of "?s + ?p" ?p] lt by (simp del: of_nat_add)
  have d2: "r_data (seek_start ?all (of_nat ?s) rd1) = payload @ u64_to_le_bytes (of_nat ?p) @ SFX_MAGIC"
    using lt by (simp add: seek_start_def u64_nat sfx_image_def)
  have q2: "quiet (seek_start ?all (of_nat ?s) rd1)" using rd1(2) by (simp add: quiet_def seek_start_def)
  obtain rd2 where rd2: "read_exact ?p (seek_start ?all (of_nat ?s) rd1) = (Inr payload, rd2)"
    using read_exact_quiet [OF q2, of ?p] d2 by auto
  have t: "drop 8 (u64_to_le_bytes (of_nat ?p) @ SFX_MAGIC) = SFX_MAGIC"
      "take 8 (u64_to_le_bytes (of_nat ?p) @ SFX_MAGIC) = u64_to_le_bytes (of_nat ?p)" by simp_all
  have u: "unat (of_nat ?p :: u64) = ?p" using lt by (simp add: u64_nat)
  show ?thesis
    unfolding extract_payload_from_reader_def
    by (simp only: c1 ok_or_simps rbind_simps rd1 prod.case sum.case t u64_le_roundtrip Let_def c2 u mem rd2 ensure_simps refl)
qed

lemma u64_to_from_le_bytes: "length bs = 8 \<Longrightarrow> u64_to_le_bytes (u64_from_le_bytes bs) = bs"
  by (metis le_bytes_le_nat u64_to_le_bytes_def unat_u64_from_le_bytes)

lemma case_res_Inr:
  "(case x of (Inl e, s) \<Rightarrow> Inl (f e s) | (Inr a, s) \<Rightarrow> g a s) = Inr y \<longleftrightarrow> (\<exists>a s. x = (Inr a, s) \<and> g a s = Inr y)"
  by (auto split: prod.splits sum.splits)

lemma extract_Inr:
  assumes ok: "extract_payload_from_reader memory all rd file_len = Inr payload"
    and len: "length all < 2 ^ 64" "file_len = of_nat (length all)"
  shows "memory (length payload) \<and> (\<exists>stub. all = sfx_image stub payload)"
proof -
  from ok obtain start trailer rd1 payload_start rd2 where
      c1: "checked_sub_u64 file_len (of_nat SFX_TRAILER_SIZE) = Some start"
    and r1: "read_exact SFX_TRAILER_SIZE (seek_start all start rd) = (Inr trailer, rd1)"
    and magic: "drop 8 trailer = SFX_MAGIC"
    and c2: "checked_sub_u64 start (u64_from_le_bytes (take 8 trailer)) = Some payload_start"
    and mem: "memory (unat (u64_from_le_bytes (take 8 trailer)))"
    and r2: "read_exact (unat (u64_from_le_bytes (take 8 trailer))) (seek_start all payload_start rd1) = (Inr payload, rd2)"
    unfolding extract_payload_from_reader_def rbind_eq_Inr ok_or_eq_Inr Let_def case_res_Inr ensure_eq_Inr by blast
  let ?n = "unat (u64_from_le_bytes (take 8 trailer))"
  from read_exact_Inr [OF r1] have t: "drop (unat start) all = trailer @ r_data rd1" "length trailer = 16"
    by (simp_all add: seek_start_def SFX_TRAILER_SIZE_def)
  from read_exact_Inr [OF r2] have p: "drop (unat payload_start) all = payload @ r_data rd2" "length payload = ?n"
    by (simp_all add: seek_start_def)
  have s: "16 \<le> length all" "unat start = length all - 16"
    using c1 len(1) checked_sub_nat [OF len(1), of SFX_TRAILER_SIZE] u64_nat [of "length all - 16"]
    unfolding len(2) by (simp_all add: SFX_TRAILER_SIZE_def del: of_nat_numeral of_nat_diff split: if_splits)
  have ps: "?n \<le> unat start" "unat payload_start = unat start - ?n"
    using c2 by (auto simp: checked_sub_u64_def word_le_nat_alt unat_sub split: if_splits)
  have "length (drop (unat start) all) = 16" using s by simp
  with t have tr: "drop (unat start) all = trailer" by simp
  have "drop (unat payload_start) all = take ?n (drop (unat payload_start) all) @ drop (unat start) all"
    using ps by (metis append_take_drop_id drop_drop le_add_diff_inverse)
  also have "take ?n (drop (unat payload_start) all) = payload" using p by simp
  finally have "all = take (unat payload_start) all @ payload @ trailer"
    using tr by (metis append_take_drop_id)
  moreover have "trailer = u64_to_le_bytes (of_nat (length payload)) @ SFX_MAGIC"
  proof -
    have "take 8 trailer = u64_to_le_bytes (of_nat ?n)"
      using t(2) by (simp add: u64_to_from_le_bytes)
    then show ?thesis using magic p(2) by (metis append_take_drop_id)
  qed
  ultimately show ?thesis using mem p(2) unfolding sfx_image_def by metis
qed

section \<open>Building and opening\<close>

lemma sync_path_cases: "sync_path p w = (fst (sync_path p w), w)"
  using pure_ops(3) by (metis prod.collapse)

interpretation sfxc: atomic_commit "sfx_commit io force" for io :: "io_error \<Rightarrow> 'e" and force
proof unfold_locales
  fix tmp p w w' and u :: unit
  assume "sfx_commit io force tmp p w = (Inr u, w')"
  then obtain w1 where "(if force then persist tmp p else persist_noclobber tmp p) w = (Inr (), w1)"
      "sync_path (parent_or_dot p) w1 = (Inr u, w')"
    unfolding sfx_commit_def by (auto simp: res_elims)
  then show "w' = put_file w p (w_data tmp) \<and> p \<noteq> Path False [] \<and> w_fs w (resolve w p) \<noteq> Some Directory"
    using pure_ops(3) [of "parent_or_dot p" w1]
    by (auto simp: persist_def persist_noclobber_def split: if_splits)
next
  fix tmp p w w' e
  assume "sfx_commit io force tmp p w = (Inl e, w')"
  then show "w' = w \<or> w' = put_file w p (w_data tmp)"
    using pure_ops(3)
    by (auto simp: sfx_commit_def act_def act_map_err_def persist_def persist_noclobber_def
        split: prod.splits sum.splits if_splits) (metis snd_conv)+
qed

lemma sfx_commit_ok:
  assumes "output_ok w p" "force \<or> w_fs w (resolve w p) = None"
  shows "sfx_commit io force tmp p w = (Inr (), put_file w p (w_data tmp))"
proof -
  from assms(1) obtain q where q: "parent p = Some q" by (auto simp: output_ok_def parent_def)
  then have dir: "w_fs w (resolve w q) = Some Directory" "q \<noteq> Path False []"
    using assms(1) by (auto simp: output_ok_def parent_or_dot_def)
  with assms(1) have "resolve w q \<noteq> resolve w p" by (auto simp: output_ok_def)
  with dir have "lookup (put_file w p (w_data tmp)) q = Some Directory" by (simp add: lookup_def w_fs_put_file)
  then show ?thesis
    using assms q
    by (auto simp: sfx_commit_def act_apply act_map_err_def persist_def persist_noclobber_def output_ok_def
        sync_path_def parent_or_dot_def)
qed

text \<open>Removing a file.\<close>

definition without_file :: "world \<Rightarrow> path \<Rightarrow> world" where
  "without_file w p = w\<lparr>w_fs := (w_fs w)(resolve w p := None)\<rparr>"

lemma without_file_sel [simp]:
  "w_cwd (without_file w p) = w_cwd w" "w_script (without_file w p) = w_script w"
  "resolve (without_file w p) q = resolve w q"
  "w_fs (without_file w p) = (w_fs w)(resolve w p := None)"
  by (simp_all add: without_file_def resolve_def)

lemma remove_file_regular:
  "lookup w p = Some (Regular bs) \<Longrightarrow> remove_file p w = (Inr (), without_file w p)"
  by (simp add: remove_file_def without_file_def)

text \<open>Where \<open>create_sfx\<close> finds the stub program.\<close>

definition stub_at :: "path \<Rightarrow> path" where
  "stub_at exe_dir = below exe_dir [''lvau-stub'']"

lemma create_sfx_ok:
  assumes exe: "env_exe E = Inr exe" "parent exe = Some exe_dir"
    and stub: "lookup w (stub_at exe_dir) = Some (Regular stub)" "calm w (stub_at exe_dir)"
    and payload: "lookup w temp = Some (Regular payload)" "calm w temp"
    and out: "output_ok w out" "force \<or> w_fs w (resolve w out) = None"
    and ne: "resolve w temp \<noteq> resolve w out"
  shows "create_sfx E temp out force w = (Inr (), without_file (put_file w out (sfx_image stub payload)) temp)"
proof -
  let ?rd = "\<lambda>p bs. \<lparr>r_data = bs, r_events = w_script w (resolve w p)\<rparr>"
  have q: "quiet (?rd (stub_at exe_dir) stub)" "quiet (?rd temp payload)"
    using stub(2) payload(2) by (auto simp: quiet_def calm_def)
  have new: "new_in (parent_or_dot out) w = (Inr (fresh_writer None), w)"
    using out(1) by (simp add: output_ok_def new_in_def)
  obtain wr1 where wr1: "copy_all (?rd (stub_at exe_dir) stub) (fresh_writer None) = Inr wr1" "w_data wr1 = stub" "w_room wr1 = None"
    using copy_all_quiet [OF q(1), of "fresh_writer None"] by auto
  obtain wr2 where wr2: "copy_exact_len (?rd temp payload) wr1 (length payload) ''SFX payload'' = Inr wr2"
      "w_data wr2 = stub @ payload" "w_room wr2 = None"
    using copy_exact_quiet [OF q(2) wr1(3), of "length payload"] wr1(2) by auto
  obtain wr3 where wr3: "put_bytes (u64_to_le_bytes (of_nat (length payload))) wr2 = Inr wr3"
      "w_data wr3 = stub @ payload @ u64_to_le_bytes (of_nat (length payload))" "w_room wr3 = None"
    using put_bytes_unlimited [OF wr2(3)] wr2(2) by (metis append.assoc)
  obtain wr4 where wr4: "put_bytes SFX_MAGIC wr3 = Inr wr4" "w_data wr4 = sfx_image stub payload"
    using put_bytes_unlimited [OF wr3(3)] wr3(2) by (metis append.assoc sfx_image_def)
  have commit: "sfx_commit CliIo force wr4 out w = (Inr (), put_file w out (sfx_image stub payload))"
    using sfx_commit_ok [OF out, of CliIo wr4] wr4(2) by simp
  have "lookup (put_file w out (sfx_image stub payload)) temp = Some (Regular payload)"
    using payload(1) ne by (auto simp: lookup_def w_fs_put_file split: if_splits)
  note rm = remove_file_regular [OF this]
  have sync: "sync_temp w = (Inr (), w)" using out(1) by (simp add: sync_temp_def output_ok_def)
  have md: "metadata_of (stub_at exe_dir) w = (Inr (True, length stub), w)" "metadata_of temp w = (Inr (True, length payload), w)"
    using stub(1) payload(1) by (simp_all add: metadata_of_def)
  show ?thesis
    unfolding create_sfx_def assemble_sfx_def stub_at_def [symmetric]
    by (simp add: exe Let_def path_exists_def stub(1) act_apply act_map_err_def new open_regular [OF stub(1)]
        open_regular [OF payload(1)] md wr1(1) wr2(1) wr3(1) wr4(1) sync commit rm)
qed

lemma build_sfx_file_ok:
  assumes stub: "lookup w stub_path = Some (Regular stub)" "calm w stub_path"
    and payload: "lookup w payload_path = Some (Regular payload)" "calm w payload_path"
    and out: "output_ok w out" "lookup w out = None \<or> force" "force \<or> w_fs w (resolve w out) = None"
  shows "build_sfx_file stub_path payload_path out force w = (Inr (), put_file w out (sfx_image stub payload))"
proof -
  let ?rd = "\<lambda>p bs. \<lparr>r_data = bs, r_events = w_script w (resolve w p)\<rparr>"
  have q: "quiet (?rd stub_path stub)" "quiet (?rd payload_path payload)"
    using stub(2) payload(2) by (auto simp: quiet_def calm_def)
  have new: "new_in (parent_or_dot out) w = (Inr (fresh_writer None), w)"
    using out(1) by (simp add: output_ok_def new_in_def)
  obtain wr1 where wr1: "copy_all (?rd stub_path stub) (fresh_writer None) = Inr wr1" "w_data wr1 = stub" "w_room wr1 = None"
    using copy_all_quiet [OF q(1), of "fresh_writer None"] by auto
  obtain wr2 where wr2: "io_copy 0 (?rd payload_path payload) wr1 = (Inr (length payload), wr2)"
      "w_data wr2 = stub @ payload" "w_room wr2 = None"
    using io_copy_quiet [OF q(2) wr1(3), of 0] wr1(2) by auto
  obtain wr3 where wr3: "put_bytes (u64_to_le_bytes (of_nat (length payload))) wr2 = Inr wr3"
      "w_data wr3 = stub @ payload @ u64_to_le_bytes (of_nat (length payload))" "w_room wr3 = None"
    using put_bytes_unlimited [OF wr2(3)] wr2(2) by (metis append.assoc)
  obtain wr4 where wr4: "put_bytes SFX_MAGIC wr3 = Inr wr4" "w_data wr4 = sfx_image stub payload"
    using put_bytes_unlimited [OF wr3(3)] wr3(2) by (metis append.assoc sfx_image_def)
  have "sfx_commit id force wr4 out w = (Inr (), put_file w out (sfx_image stub payload))"
    using sfx_commit_ok [OF out(1,3), of id wr4] wr4(2) by simp
  moreover have "sync_temp w = (Inr (), w)" using out(1) by (simp add: sync_temp_def output_ok_def)
  moreover have "metadata_of payload_path w = (Inr (True, length payload), w)"
    using payload(1) by (simp add: metadata_of_def)
  ultimately show ?thesis
    using out(2)
    by (auto simp: build_sfx_file_def path_exists_def act_apply new open_regular [OF stub(1)]
        open_regular [OF payload(1)] wr1(1) wr2(1) wr3(1) wr4(1))
qed

text \<open>The archive's own view of itself.\<close>

lemma extract_payload_image:
  assumes "lookup w exe = Some (Regular (sfx_image stub payload))" "calm w exe"
    and "length (sfx_image stub payload) < 2 ^ 64" "memory (length payload)"
  shows "extract_payload memory (Inr exe) w = (Inr payload, w)"
proof -
  have "quiet \<lparr>r_data = sfx_image stub payload, r_events = w_script w (resolve w exe)\<rparr>"
    using assms(2) by (auto simp: quiet_def calm_def)
  from extract_found [where memory = memory, OF this assms(3,4)] show ?thesis
    using assms(1) by (simp add: extract_payload_def act_apply act_map_err_def metadata_of_def)
qed

section \<open>The stub\<close>

lemma write_plaintext_keeps: "write_plaintext_no_clobber p bs w = (r, w') \<Longrightarrow> keeps_entries w w'"
proof -
  assume run: "write_plaintext_no_clobber p bs w = (r, w')"
  have one: "keeps_entries w v" if "w_fs w (resolve w p) = None" "\<And>k. k \<noteq> resolve w p \<Longrightarrow> w_fs v k = w_fs w k" for v
    using that unfolding keeps_entries_def by (metis option.distinct(1))
  have kept: "w_fs (snd (remove_file p v)) k = w_fs v k" if "k \<noteq> resolve v p" for v k
    using that by (simp add: remove_file_def split: option.splits node.splits)
  show ?thesis
  proof (cases "w_fs w (resolve w p) = None")
    case True
    show ?thesis
      by (rule one [OF True])
        (use run kept in \<open>auto simp: write_plaintext_no_clobber_def create_new_def w_fs_put_file Let_def
          act_map_err_def sync_path_def split: if_splits prod.splits sum.splits option.splits\<close>)
  next
    case False
    then show ?thesis
      using run by (auto simp: write_plaintext_no_clobber_def create_new_def split: if_splits)
  qed
qed

lemma write_plaintext_Inr:
  assumes "write_plaintext_no_clobber p bs w = (Inr u, w')"
  shows "w_fs w (resolve w p) = None \<and> w_fs w' = (w_fs w)(resolve w p \<mapsto> Regular bs)"
proof -
  obtain r wr where wr: "write_all bs (fresh_writer (w_disk w)) = (r, wr)" by fastforce
  show ?thesis
    using assms wr write_all_Inr [of bs "fresh_writer (w_disk w)" _ wr]
    by (auto simp: rbind_eq_Inr write_plaintext_no_clobber_def create_new_def w_fs_put_file act_map_err_def sync_path_def Let_def
        split: if_splits prod.splits sum.splits option.splits)
qed

lemma sfx_decrypt_app:
  "snd (sfx_decrypt P S J H app payload w) = app\<lparr>sa_secret := [], sa_seed := []\<rparr>"
  by (simp add: sfx_decrypt_def Let_def split: auth_mode.splits)

lemma sfx_click_cases:
  assumes "sfx_click io_text P S J H app w = (app', w')"
  obtains (idle) "app' = app" "w' = w" "sa_payload_error app \<noteq> None \<or> \<not> sfx_can_proceed app \<or> sa_payload app = None"
  | (failed) payload e where "sa_payload app = Some payload" "fst (sfx_decrypt P S J H app payload w) = Inl e" "w' = w"
      "app' = app\<lparr>sa_secret := [], sa_seed := [],
         sa_status := ''Decryption Failed! Wrong password or corrupted file.''\<rparr>"
  | (written) payload out plaintext r where "sa_payload app = Some payload" "sa_out_file app = Some out"
      "fst (sfx_decrypt P S J H app payload w) = Inr plaintext"
      "write_plaintext_no_clobber out plaintext w = (r, w')"
      "app' = app\<lparr>sa_secret := [], sa_seed := [],
         sa_status := (case r of Inr _ \<Rightarrow> ''Extraction Successful!'' | Inl e \<Rightarrow> stub_text io_text e)\<rparr>"
proof -
  have same: "fst (sfx_decrypt P S J H (app\<lparr>sa_payload := None\<rparr>) payload w) = fst (sfx_decrypt P S J H app payload w)" for payload
    by (simp add: sfx_decrypt_def Let_def split: auth_mode.splits)
  show ?thesis
  proof (cases "sa_payload_error app \<noteq> None \<or> \<not> sfx_can_proceed app \<or> sa_payload app = None")
    case True
    with assms idle show ?thesis by (auto simp: sfx_click_def split: option.splits)
  next
    case False
    then obtain out payload where out: "sa_out_file app = Some out" "sa_payload app = Some payload"
      by (auto simp: sfx_can_proceed_def)
    obtain r app1 where d: "sfx_decrypt P S J H (app\<lparr>sa_payload := None\<rparr>) payload w = (r, app1)" by fastforce
    have app1: "app1 = app\<lparr>sa_payload := None, sa_secret := [], sa_seed := []\<rparr>"
      using sfx_decrypt_app [of P S J H "app\<lparr>sa_payload := None\<rparr>" payload w] d by simp
    have r: "fst (sfx_decrypt P S J H app payload w) = r" using same [of payload] d by simp
    show ?thesis
    proof (cases r)
      case (Inl e)
      with False out d app1 assms have "w' = w"
          "app' = app\<lparr>sa_secret := [], sa_seed := [], sa_status := ''Decryption Failed! Wrong password or corrupted file.''\<rparr>"
        by (cases app; auto simp: sfx_click_def Let_def)+
      with failed [OF out(2)] r Inl show ?thesis by blast
    next
      case (Inr plaintext)
      obtain q w1 where q: "write_plaintext_no_clobber out plaintext w = (q, w1)" by fastforce
      with Inr False out d app1 assms have "w' = w1"
          "app' = app\<lparr>sa_secret := [], sa_seed := [],
             sa_status := (case q of Inr _ \<Rightarrow> ''Extraction Successful!'' | Inl e \<Rightarrow> stub_text io_text e)\<rparr>"
        by (cases app; auto simp: sfx_click_def Let_def split: sum.splits)+
      with written [OF out(2,1)] r Inr q show ?thesis by blast
    qed
  qed
qed

lemma write_plaintext_error_text:
  "write_plaintext_no_clobber p bs w = (Inl e, w') \<Longrightarrow> stub_text io_text e \<noteq> ''Extraction Successful!''"
  by (auto simp: write_plaintext_no_clobber_def stub_text_def act_map_err_def sync_path_def Let_def
      split: if_splits prod.splits sum.splits option.splits)

lemma sfx_click_keeps:
  assumes "sfx_click io_text P S J H app w = (app', w')"
  shows "keeps_entries w w' \<and> sa_payload app' = sa_payload app \<and> sa_payload_error app' = sa_payload_error app"
  using assms by (cases rule: sfx_click_cases) (simp_all add: write_plaintext_keeps)

lemma keeps_entries_trans: "keeps_entries u v \<Longrightarrow> keeps_entries v w \<Longrightarrow> keeps_entries u w"
  by (simp add: keeps_entries_def)

lemma sfx_step_keeps:
  "sfx_step io_text P S J H ev (app, w) = (app', w') \<Longrightarrow>
     keeps_entries w w' \<and> sa_payload app' = sa_payload app \<and> sa_payload_error app' = sa_payload_error app"
  by (cases ev) (auto simp: sfx_step_def sfx_click_keeps split: if_splits)

lemma sfx_session_keeps:
  "sfx_session io_text P S J H evs (app, w) = (app', w') \<Longrightarrow>
     keeps_entries w w' \<and> sa_payload app' = sa_payload app \<and> sa_payload_error app' = sa_payload_error app"
proof (induction evs arbitrary: app w)
  case Nil
  then show ?case by (simp add: sfx_session_def)
next
  case (Cons ev evs)
  obtain app1 w1 where st: "sfx_step io_text P S J H ev (app, w) = (app1, w1)" by fastforce
  with Cons.prems have "sfx_session io_text P S J H evs (app1, w1) = (app', w')" by (simp add: sfx_session_def)
  from Cons.IH [OF this] sfx_step_keeps [OF st] show ?case using keeps_entries_trans by metis
qed

section \<open>Properties\<close>

text \<open>
  C31: \<open>extract_payload_from_reader\<close> returns a payload exactly for archives: when the file is some
  prefix, the payload, its length as eight bytes, and the magic. Forged lengths never reach
  outside the file, and nothing but the allocation can make it refuse an archive.
\<close>

theorem extract_payload_exact:
  assumes "quiet rd" "length archive < 2 ^ 64"
  shows "extract_payload_from_reader memory archive rd (of_nat (length archive)) = Inr payload \<longleftrightarrow>
    memory (length payload) \<and>
    (\<exists>stub. archive = stub @ payload @ u64_to_le_bytes (of_nat (length payload)) @ SFX_MAGIC)"
  using extract_Inr [OF _ assms(2) refl, of memory rd payload] extract_found [OF assms(1), of _ payload memory] assms(2)
  unfolding sfx_image_def by blast

lemma capsule_of_length:
  assumes C: "ciphers_ok (cip P)" and c: "capsule_of P S e fek bs capsule"
  shows "length capsule \<le> 2 * length bs + MAX_ENVELOPE_SIZE + 100"
proof -
  from c obtain encoded ct where *: "length encoded \<le> MAX_ENVELOPE_SIZE"
      "seal_for P e (hkdf_new (cip P) None fek) bs = Inr ct" "capsule = capsule_bytes encoded ct"
    by (auto simp: capsule_of_def)
  let ?g = "if length bs = 0 then (if CURRENT_VERSION \<le> h_version (header e) then 1 else 0) else (length bs + 1048575) div 1048576"
  have "tag_size (h_algorithm (header e)) * ?g \<le> 32 * ?g" by (rule mult_le_mono1) (cases "h_algorithm (header e)"; simp add: tag_size_def)
  also have "32 * ?g \<le> length bs + 64" by (auto intro: order_trans [of _ "32 * (length bs div 1048576 + 1)"])
  finally have "length ct \<le> 2 * length bs + 64"
    using seal_payload_length [OF C *(2) [unfolded seal_for_def]] by linarith
  then show ?thesis using *(1,3) by (simp add: capsule_bytes_def)
qed

text \<open>
  C10: A capsule encrypted for a password and made into an archive by \<open>create_sfx\<close>: the archive is
  written, the temporary capsule is removed and nothing else is touched; the archive started as a
  program finds the capsule in itself, and the password decrypts it to the original file.
\<close>

theorem sfx_round_trip:
  assumes P: "ciphers_ok (cip P)" and S: "postcard_ok S"
    and enc: "encrypt_file_password P S inp temp pw seed profile pol override w = (Inr (), w1)"
    and inp: "lookup w inp = Some (Regular bs)" "length bs < 2 ^ 64"
    and exe: "env_exe E = Inr exe" "parent exe = Some exe_dir"
    and stub: "lookup w1 (below exe_dir [''lvau-stub'']) = Some (Regular stub)" "calm w1 (below exe_dir [''lvau-stub''])"
    and env: "calm w1 temp" "calm w1 out" "output_ok w1 temp" "output_ok w1 out"
    and free: "force \<or> w_fs w1 (resolve w1 out) = None" "resolve w1 temp \<noteq> resolve w1 out"
    and size: "length stub + 2 * length bs + MAX_ENVELOPE_SIZE + 116 < 2 ^ 64"
      "\<forall>n \<le> 2 * length bs + MAX_ENVELOPE_SIZE + 100. memory n"
  shows "\<exists>w2 capsule. create_sfx E temp out force w1 = (Inr (), w2) \<and>
    w_fs w2 = (w_fs w1)(resolve w1 out \<mapsto> Regular (sfx_image stub capsule), resolve w1 temp := None) \<and>
    lookup w1 temp = Some (Regular capsule) \<and>
    extract_payload memory (Inr out) w2 = (Inr capsule, w2) \<and>
    decrypt_memory_password P S capsule pw seed = Inr bs"
proof -
  obtain capsule where c: "lookup w1 temp = Some (Regular capsule)" "decrypt_memory_password P S capsule pw seed = Inr bs"
    using password_restores [OF P S enc inp env(1,3)] by blast
  obtain e fek capsule' w0 where "w1 = put_file w0 temp capsule'" "temp \<noteq> Path False []" "capsule_of P S e fek bs capsule'"
    using encrypt_file_password_Inr [OF enc [unfolded encrypt_file_password_def] P inp(1)] by metis
  then have short: "length capsule \<le> 2 * length bs + MAX_ENVELOPE_SIZE + 100"
    using capsule_of_length [OF P] lookup_put_file c(1) by (metis node.inject option.inject)
  let ?w2 = "without_file (put_file w1 out (sfx_image stub capsule)) temp"
  have "create_sfx E temp out force w1 = (Inr (), ?w2)"
    by (rule create_sfx_ok [OF exe stub [folded stub_at_def] c(1) env(1,4) free])
  moreover have "extract_payload memory (Inr out) ?w2 = (Inr capsule, ?w2)"
  proof (rule extract_payload_image)
    show "lookup ?w2 out = Some (Regular (sfx_image stub capsule))"
      using free(2) env(4) by (auto simp: lookup_def w_fs_put_file output_ok_def)
    show "calm ?w2 out" using env(2) by (simp add: calm_def)
    show "length (sfx_image stub capsule) < 2 ^ 64" "memory (length capsule)"
      using size short by (simp_all add: sfx_image_def)
  qed
  ultimately show ?thesis using c by (intro exI [of _ ?w2] exI [of _ capsule]) (simp add: w_fs_put_file)
qed

text \<open>
  C28: Whatever is typed and clicked in the stub, no file that existed is changed or removed, and
  the payload stays available. A click on the enabled button empties the password and seed fields,
  and it reports success exactly when the decrypted bytes were written under a name that was free.
\<close>

theorem stub_session_safe:
  assumes run: "sfx_session io_text P S J H evs (sfx_new memory exe w, w) = (app, w')"
    and click: "sfx_step io_text P S J H Click (app, w') = (app2, w2)"
  shows "keeps_entries w w' \<and> keeps_entries w' w2 \<and>
    sa_payload app2 = (case fst (extract_payload memory exe w) of Inr p \<Rightarrow> Some p | Inl _ \<Rightarrow> None) \<and>
    (sa_payload app \<noteq> None \<and> sfx_can_proceed app \<longrightarrow>
       sa_secret app2 = [] \<and> sa_seed app2 = [] \<and>
       (sa_status app2 = ''Extraction Successful!'' \<longleftrightarrow>
         (\<exists>payload out plaintext. sa_payload app = Some payload \<and> sa_out_file app = Some out \<and>
            fst (sfx_decrypt P S J H app payload w') = Inr plaintext \<and>
            write_plaintext_no_clobber out plaintext w' = (Inr (), w2) \<and>
            w_fs w' (resolve w' out) = None \<and> w_fs w2 = (w_fs w')(resolve w' out \<mapsto> Regular plaintext))))"
proof -
  let ?new = "sfx_new memory exe w"
  have new: "sa_payload ?new = (case fst (extract_payload memory exe w) of Inr p \<Rightarrow> Some p | Inl _ \<Rightarrow> None)"
      "sa_payload_error ?new = None \<longleftrightarrow> sa_payload ?new \<noteq> None"
    by (simp_all add: sfx_new_def split: sum.splits)
  note s = sfx_session_keeps [OF run] and c = sfx_step_keeps [OF click]
  have click_done: "sa_secret app2 = [] \<and> sa_seed app2 = [] \<and>
       (sa_status app2 = ''Extraction Successful!'' \<longleftrightarrow>
         (\<exists>payload out plaintext. sa_payload app = Some payload \<and> sa_out_file app = Some out \<and>
            fst (sfx_decrypt P S J H app payload w') = Inr plaintext \<and>
            write_plaintext_no_clobber out plaintext w' = (Inr (), w2) \<and>
            w_fs w' (resolve w' out) = None \<and> w_fs w2 = (w_fs w')(resolve w' out \<mapsto> Regular plaintext)))"
    if on: "sa_payload app \<noteq> None" "sfx_can_proceed app"
  proof -
    have "sfx_click io_text P S J H app w' = (app2, w2)"
      using click on s new(2) by (auto simp: sfx_step_def)
    then show ?thesis
    proof (cases rule: sfx_click_cases)
      case idle
      with on s new(2) show ?thesis by auto
    next
      case (failed payload e)
      then show ?thesis by auto
    next
      case (written payload out plaintext r)
      show ?thesis
      proof (cases r)
        case (Inl e)
        then show ?thesis using written write_plaintext_error_text by auto
      next
        case (Inr u)
        then show ?thesis using written write_plaintext_Inr by auto
      qed
    qed
  qed
  from s c new(1) click_done show ?thesis by simp
qed

end
