(* ===== verification/Sfx_Samples.thy ===== *)
theory Sfx_Samples
  imports Sfx Key_Samples
begin

text \<open>
  A concrete archive: the sample file encrypted into a temporary capsule beside a stub program,
  and the stub started on the result.
\<close>

definition sfx_stub :: path where "sfx_stub = sample_file ''lvau-stub''"

definition sfx_temp :: path where "sfx_temp = sample_file ''a.tmp.lvau''"

definition sfx_out :: path where "sfx_out = sample_file ''a.run''"

definition sfx_world :: world where
  "sfx_world = put_file sample_world sfx_stub [127, 69]"

definition sfx_environ :: environ where
  "sfx_environ = \<lparr>env_mode = (\<lambda>_. 0), env_exe = Inr (sample_file ''lvau''), env_now = None, env_tmp = Path True [''tmp''],
     env_temp_dir = Path True [''t''], env_version = ''1'', env_walk = (\<lambda>_ _. []), env_list = (\<lambda>_ _. Inr []),
     env_links = (\<lambda>_. \<lparr>li_symlink = (\<lambda>_. False), li_nlink = (\<lambda>_. 1), li_beyond = (\<lambda>_. Inl NotFound),
       li_canon = (\<lambda>_ _. Inl NotFound), li_denied = (\<lambda>_. None)\<rparr>),
     env_edit = (\<lambda>_. ret True)\<rparr>"

lemma sfx_run:
  obtains w1 w0 capsule where "encrypt_file_password sample_prims sample_postcard sample_in sfx_temp [1] None Fast None False sfx_world = (Inr (), w1)"
    "w1 = put_file w0 sfx_temp capsule" "same_but_rng sfx_world w0"
proof -
  have ok: "sample_dir_ok sfx_world" unfolding sfx_world_def sfx_stub_def by (rule sample_dir_ok_put) simp_all
  have "lookup sfx_world sample_in = Some (Regular [10, 20, 30])"
    by (simp add: sfx_world_def sfx_stub_def lookup_def w_fs_put_file) (simp add: sample_in_def)
  from sample_password_encrypts [OF _ this sample_dir_calm [OF ok], of sfx_temp None]
  obtain w0 capsule where "same_but_rng sfx_world w0"
      "encrypt_file_password_with_content_type sample_prims sample_postcard sample_in sfx_temp [1] None Fast None False None sfx_world =
       (Inr (), put_file w0 sfx_temp capsule)"
    using sample_dir_output [OF sample_dir_ok_rng [OF ok]] ok
    by (auto simp: sample_payload_def CHUNK_SIZE_def sfx_temp_def sample_dir_ok_def)
  with that show ?thesis by (simp add: encrypt_file_password_def)
qed

theorem sfx_round_trip_witness:
  "\<exists>w1 w2 capsule. encrypt_file_password sample_prims sample_postcard sample_in sfx_temp [1] None Fast None False sfx_world = (Inr (), w1) \<and>
     create_sfx sfx_environ sfx_temp sfx_out False w1 = (Inr (), w2) \<and>
     extract_payload (\<lambda>_. True) (Inr sfx_out) w2 = (Inr capsule, w2) \<and>
     decrypt_memory_password sample_prims sample_postcard capsule [1] None = Inr [10, 20, 30]"
proof -
  obtain w1 w0 capsule where run: "encrypt_file_password sample_prims sample_postcard sample_in sfx_temp [1] None Fast None False sfx_world = (Inr (), w1)"
      and w1: "w1 = put_file w0 sfx_temp capsule" "same_but_rng sfx_world w0"
    by (rule sfx_run)
  have ok0: "sample_dir_ok sfx_world" unfolding sfx_world_def sfx_stub_def by (rule sample_dir_ok_put) simp_all
  have ok: "sample_dir_ok w1"
    using w1(2) ok0 unfolding w1(1) sfx_temp_def same_but_rng_def
    by (intro sample_dir_ok_put) (metis sample_dir_ok_rng, simp)
  have fs: "w_fs w1 [''d'', ''lvau-stub''] = Some (Regular [127, 69])" "w_fs w1 [''d'', ''a.run''] = None"
    using same_but_rngD(1) [OF w1(2)] by (simp_all add: w1(1) w_fs_put_file sfx_temp_def sfx_world_def sfx_stub_def) (simp add: sample_world_def)
  have below: "below (Path True [''d'']) [''lvau-stub''] = sample_file ''lvau-stub''"
    by (simp add: below_def sample_file_def)
  have "\<exists>w2 capsule. create_sfx sfx_environ sfx_temp sfx_out False w1 = (Inr (), w2) \<and>
    w_fs w2 = (w_fs w1)(resolve w1 sfx_out \<mapsto> Regular (sfx_image [127, 69] capsule), resolve w1 sfx_temp := None) \<and>
    lookup w1 sfx_temp = Some (Regular capsule) \<and>
    extract_payload (\<lambda>_. True) (Inr sfx_out) w2 = (Inr capsule, w2) \<and>
    decrypt_memory_password sample_prims sample_postcard capsule [1] None = Inr [10, 20, 30]"
  proof (rule sfx_round_trip [where memory = "\<lambda>_. True", OF _ _ run, where bs = "[10, 20, 30]" and exe = "sample_file ''lvau''" and exe_dir = "Path True [''d'']"])
    show "lookup sfx_world sample_in = Some (Regular [10, 20, 30])"
      by (simp add: sfx_world_def sfx_stub_def lookup_def w_fs_put_file) (simp add: sample_in_def)
    show "lookup w1 (below (Path True [''d'']) [''lvau-stub'']) = Some (Regular [127, 69])"
      by (simp add: below lookup_def fs)
  qed (use fs ok in \<open>simp_all add: sample_dir_calm sample_dir_output sfx_environ_def sfx_out_def sfx_temp_def MAX_ENVELOPE_SIZE_def\<close>)
  then show ?thesis using run by blast
qed

theorem extract_payload_exact_witness:
  "extract_payload_from_reader (\<lambda>_. True) (127 # 69 # [7, 8] @ u64_to_le_bytes (of_nat 2) @ SFX_MAGIC)
     (cursor []) (of_nat (length (127 # 69 # [7, 8] @ u64_to_le_bytes (of_nat 2) @ SFX_MAGIC))) = Inr [7, 8]"
  by (subst extract_payload_exact) (auto simp: quiet_def cursor_def intro: exI [of _ "[127, 69]"])

lemma write_plaintext_ok:
  assumes "output_ok w p" "resolve w p = [''d'', n]" "w_fs w [''d''] = Some Directory" "w_fs w [''d'', n] = None" "parent p = Some (Path True [''d''])"
  shows "write_plaintext_no_clobber p bs w = (Inr (), put_file w p bs)"
proof -
  have put: "put_file (put_file w p []) p bs = put_file w p bs" by (simp add: put_file_def resolve_def)
  show ?thesis
    using assms
    by (simp add: write_plaintext_no_clobber_def create_new_def output_ok_def write_all_def put sync_temp_def
        act_map_err_def sync_path_def lookup_def w_fs_put_file)
qed

text \<open>The stub with its own capsule: the password, an output file, the button.\<close>

theorem stub_session_safe_witness:
  "\<exists>w app w' app2 w2. sfx_session (\<lambda>_. []) sample_prims sample_postcard sample_base64 sample_hybrid
       [TypeSecret [1], PickOutFile sample_back] (sfx_new (\<lambda>_. True) (Inr sfx_out) w, w) = (app, w') \<and>
     sfx_step (\<lambda>_. []) sample_prims sample_postcard sample_base64 sample_hybrid Click (app, w') = (app2, w2) \<and>
     sa_status app2 = ''Extraction Successful!'' \<and> sa_secret app2 = [] \<and>
     w_fs w2 = (w_fs w')(resolve w' sample_back \<mapsto> Regular [10, 20, 30])"
proof -
  obtain w1 e fek capsule where *: "lookup w1 sample_out = Some (Regular capsule)"
      "capsule_of sample_prims sample_postcard e fek [10, 20, 30] capsule"
      "unwrap_password_file_key sample_prims e [1] None = Inr fek" "plaintext_len e = 3" "output_ok w1 sample_back"
      "encrypt_file_password sample_prims sample_postcard sample_in sample_out [1] None Fast None False sample_world = (Inr (), w1)"
    using sample_capsule by metis
  obtain w0 c where w1: "same_but_rng sample_world w0" "w1 = put_file w0 sample_out c"
    using sample_password_run *(6) by auto
  have mem: "decrypt_memory_password sample_prims sample_postcard capsule [1] None = Inr [10, 20, 30]"
    unfolding decrypt_with
    by (rule decrypt_memory_capsule [OF *(2)]) (use *(3,4) in \<open>simp_all add: quiet_def cursor_def\<close>)
  define w where "w = put_file w1 sfx_out (sfx_image [127, 69] capsule)"
  have "length capsule \<le> 2 * 3 + MAX_ENVELOPE_SIZE + 100"
    using capsule_of_length [OF _ *(2)] by simp
  then have len: "length (sfx_image [127, 69] capsule) < 2 ^ 64"
    by (simp add: sfx_image_def MAX_ENVELOPE_SIZE_def)
  have calm: "calm w sfx_out"
    using w1 by (simp add: w_def calm_def same_but_rngD(3) [OF w1(1)])
  have payload: "extract_payload (\<lambda>_. True) (Inr sfx_out) w = (Inr capsule, w)"
    by (rule extract_payload_image [OF _ calm len]) (simp_all add: w_def lookup_put_file sfx_out_def)
  have fs: "w_fs w [''d''] = Some Directory" "w_fs w [''d'', ''back''] = None"
    by (simp_all add: w_def w1(2) w_fs_put_file same_but_rngD(1) [OF w1(1)] sfx_out_def)
  have "output_ok w sample_back" using *(5) by (simp add: w_def output_ok_def w_fs_put_file sfx_out_def)
  from write_plaintext_ok [OF this _ fs] have written: "write_plaintext_no_clobber sample_back [10, 20, 30] w = (Inr (), put_file w sample_back [10, 20, 30])"
    by simp
  let ?app = "sfx_new (\<lambda>_. True) (Inr sfx_out) w\<lparr>sa_secret := [1], sa_out_file := Some sample_back\<rparr>"
  have run: "sfx_session (\<lambda>_. []) sample_prims sample_postcard sample_base64 sample_hybrid
      [TypeSecret [1], PickOutFile sample_back] (sfx_new (\<lambda>_. True) (Inr sfx_out) w, w) = (?app, w)"
    by (simp add: sfx_session_def sfx_step_def sfx_new_def payload)
  obtain app2 w2 where click: "sfx_step (\<lambda>_. []) sample_prims sample_postcard sample_base64 sample_hybrid Click (?app, w) = (app2, w2)"
    by fastforce
  have app: "sa_payload ?app = Some capsule" "sa_out_file ?app = Some sample_back" "sfx_can_proceed ?app"
      "fst (sfx_decrypt sample_prims sample_postcard sample_base64 sample_hybrid ?app capsule w) = Inr [10, 20, 30]"
    by (simp_all add: sfx_new_def payload sfx_can_proceed_def sfx_decrypt_def mem)
  have "w2 = put_file w sample_back [10, 20, 30]" "sa_status app2 = ''Extraction Successful!''"
    using click by (auto simp: sfx_step_def sfx_click_def sfx_new_def payload sfx_can_proceed_def sfx_decrypt_def mem written Let_def)
  moreover have "sa_secret app2 = []" "w_fs w2 = (w_fs w)(resolve w sample_back \<mapsto> Regular [10, 20, 30])"
    using stub_session_safe [OF run click] app calculation(2) by auto
  ultimately show ?thesis using run click by blast
qed

end
