(* ===== verification/Frames.thy ===== *)
theory Frames
  imports Sfx
begin

text \<open>
  Which files an action can change: \<open>frame cwd A m\<close> says that \<open>m\<close>, started in the working
  directory \<open>cwd\<close>, whatever its outcome, changes no entry outside \<open>A\<close>; on the command line \<open>cframe\<close>
  also says that nothing behind a link is changed. The rules follow the
  structure of the definitions, so the frame of an operation is found by introduction; the locale
  \<open>atomic_commit\<close> provides the frame of every atomic write.
\<close>

named_theorems framing \<open>frames of actions\<close>

definition frame_on ::
  "('s \<Rightarrow> world) \<Rightarrow> ('s \<Rightarrow> 'b) \<Rightarrow> string list \<Rightarrow> string list set \<Rightarrow> ('s, 'e, 'a) action \<Rightarrow> bool" where
  "frame_on v u cwd A m \<longleftrightarrow> (\<forall>s. w_cwd (v s) = cwd \<longrightarrow>
     w_cwd (v (snd (m s))) = cwd \<and> u (snd (m s)) = u s \<and> (\<forall>k. k \<notin> A \<longrightarrow> w_fs (v (snd (m s))) k = w_fs (v s) k))"

abbreviation frame :: "string list \<Rightarrow> string list set \<Rightarrow> (world, 'e, 'a) action \<Rightarrow> bool" where
  "frame \<equiv> frame_on (\<lambda>w. w) (\<lambda>_. ())"

abbreviation cframe :: "string list \<Rightarrow> string list set \<Rightarrow> (console, 'e, 'a) action \<Rightarrow> bool" where
  "cframe \<equiv> frame_on c_world c_beyond"

lemma frame_def: "frame cwd A m \<longleftrightarrow> (\<forall>s. w_cwd s = cwd \<longrightarrow>
    w_cwd (snd (m s)) = cwd \<and> (\<forall>k. k \<notin> A \<longrightarrow> w_fs (snd (m s)) k = w_fs s k))"
  by (simp add: frame_on_def)

text \<open>The entry of a path, none for the empty path.\<close>

definition dest :: "string list \<Rightarrow> path \<Rightarrow> string list set" where
  "dest cwd p = (if p = Path False [] then {} else {(if absolute p then [] else cwd) @ filter (\<lambda>c. c \<noteq> ''.'') (comps p)})"

lemma dest_resolve: "p \<noteq> Path False [] \<Longrightarrow> w_cwd w = cwd \<Longrightarrow> dest cwd p = {resolve w p}"
  by (simp add: dest_def resolve_def)

text \<open>A temporary path and everything below it.\<close>

definition dest_below :: "string list \<Rightarrow> path \<Rightarrow> string list set" where
  "dest_below cwd p = {k. let r = (if absolute p then [] else cwd) @ filter (\<lambda>c. c \<noteq> ''.'') (comps p) in take (length r) k = r}"

lemma dest_below_under: "w_cwd w = cwd \<Longrightarrow> k \<in> dest_below cwd p \<longleftrightarrow> under w p k"
  by (simp add: dest_below_def under_def resolve_def Let_def)

lemma dest_in_below: "dest cwd p \<subseteq> dest_below cwd p" "dest cwd (below p ns) \<subseteq> dest_below cwd p"
  by (auto simp: dest_def dest_below_def below_def Let_def)

section \<open>Rules\<close>

lemma frame_simple [framing]:
  "frame_on v u cwd A (ret x)" "frame_on v u cwd A (lift r)" "frame_on v u cwd A (fail e)"
  by (simp_all add: frame_on_def)

lemma frame_act [framing]: "frame_on v u cwd A m \<Longrightarrow> (\<And>x. frame_on v u cwd A (f x)) \<Longrightarrow> frame_on v u cwd A (act m f)"
  unfolding frame_on_def act_def by (simp split: prod.splits sum.splits) fastforce

lemma frame_map_err [framing]: "frame_on v u cwd A m \<Longrightarrow> frame_on v u cwd A (act_map_err g m)"
  unfolding frame_on_def act_map_err_def by (simp split: prod.splits) fastforce

lemma frame_if [framing]: "frame_on v u cwd A m \<Longrightarrow> frame_on v u cwd A n \<Longrightarrow> frame_on v u cwd A (if b then m else n)"
  by simp

lemma frame_option [framing]:
  "frame_on v u cwd A m \<Longrightarrow> (\<And>y. frame_on v u cwd A (f y)) \<Longrightarrow> frame_on v u cwd A (case x of None \<Rightarrow> m | Some y \<Rightarrow> f y)"
  by (cases x) simp_all

lemma frame_sum [framing]:
  "(\<And>y. frame_on v u cwd A (f y)) \<Longrightarrow> (\<And>y. frame_on v u cwd A (g y)) \<Longrightarrow> frame_on v u cwd A (case x of Inl y \<Rightarrow> f y | Inr y \<Rightarrow> g y)"
  by (cases x) simp_all

lemma frame_prod [framing]: "(\<And>a b. frame_on v u cwd A (f a b)) \<Longrightarrow> frame_on v u cwd A (case x of (a, b) \<Rightarrow> f a b)"
  by (cases x) simp

lemma frame_Let [framing]: "(\<And>x. frame_on v u cwd A (f x)) \<Longrightarrow> frame_on v u cwd A (Let x f)"
  by simp

text \<open>An action that looks at the state first.\<close>

lemma frame_start: "(\<And>w. frame_on v u cwd A (m w)) \<Longrightarrow> (\<And>w. n w = m w w) \<Longrightarrow> frame_on v u cwd A n"
  by (simp add: frame_on_def)

lemma frame_cond [framing]:
  "frame_on v u cwd A m \<Longrightarrow> frame_on v u cwd A n \<Longrightarrow> frame_on v u cwd A (\<lambda>s. if c s then m s else n s)"
  by (simp add: frame_on_def)

lemma frame_guard:
  "(\<And>w. \<not> c w \<Longrightarrow> n w = m w) \<Longrightarrow> (\<And>w. c w \<Longrightarrow> snd (n w) = w) \<Longrightarrow> frame_on v u cwd A m \<Longrightarrow> frame_on v u cwd A n"
  unfolding frame_on_def by metis

lemma frame_mono: "frame_on v u cwd A m \<Longrightarrow> A \<subseteq> B \<Longrightarrow> frame_on v u cwd B m"
  unfolding frame_on_def by blast

lemma frame_pure: "(\<And>w. snd (m w) = w) \<Longrightarrow> frame_on v u cwd A m"
  by (simp add: frame_on_def)

lemma frame_pure_ops [framing]:
  "frame cwd A (open_file p)" "frame cwd A (metadata_of p)" "frame cwd A (sync_path p)" "frame cwd A (new_in p)"
  "frame cwd A sync_temp" "frame cwd A (fs_read p)"
  by (rule frame_pure, simp add: pure_ops fs_read_world)+

lemma frame_fill_bytes [framing]: "frame cwd A (fill_bytes n)"
  by (simp add: frame_def fill_bytes_def)

lemma frame_put:
  "comps p \<noteq> [] \<Longrightarrow> dest cwd p \<subseteq> A \<Longrightarrow> w_cwd w = cwd \<Longrightarrow> k \<notin> A \<Longrightarrow> w_fs (put_file w p bs) k = w_fs w k"
  using dest_resolve [of p w cwd] by (cases p) (auto simp: w_fs_put_file)

lemma frame_persist [framing]:
  "dest cwd p \<subseteq> A \<Longrightarrow> frame cwd A (persist tmp p)" "dest cwd p \<subseteq> A \<Longrightarrow> frame cwd A (persist_noclobber tmp p)"
  by (auto simp: frame_def persist_def persist_noclobber_def frame_put)

lemma frame_fs_write [framing]: "dest cwd p \<subseteq> A \<Longrightarrow> frame cwd A (fs_write p bs)"
  by (auto simp: frame_def fs_write_def frame_put split: prod.splits)

lemma frame_remove [framing]: "dest cwd p \<subseteq> A \<Longrightarrow> frame cwd A (remove_file p)"
proof -
  assume A: "dest cwd p \<subseteq> A"
  have "w_cwd (snd (remove_file p w)) = w_cwd w \<and> (\<forall>k. k \<notin> A \<longrightarrow> w_fs (snd (remove_file p w)) k = w_fs w k)"
    if "w_cwd w = cwd" for w
    using A dest_resolve [of p, OF _ that]
    by (cases "p = Path False []") (auto simp: remove_file_def lookup_def split: option.splits node.splits)
  then show ?thesis by (simp add: frame_def)
qed

text \<open>Steps of the command line.\<close>

lemma frame_on_world [framing]: "frame cwd A m \<Longrightarrow> cframe cwd A (on_world m)"
  unfolding frame_on_def on_world_def by (simp split: prod.splits) (metis snd_conv)

lemma frame_prints [framing]:
  "cframe cwd A (print l)" "cframe cwd A (print_lines ls)" "cframe cwd A (print_error_line l e)"
  "cframe cwd A (print_json j)" "cframe cwd A (print_success t j)" "cframe cwd A prompt_password"
  by (auto simp: frame_on_def print_def print_lines_def print_error_line_def print_json_def print_success_def prompt_password_def
      split: list.splits prod.splits)

lemma frame_steps [framing]:
  "frame cwd A m \<Longrightarrow> cframe cwd A (io_step m)" "frame cwd A m' \<Longrightarrow> cframe cwd A (crypto_step m')"
  "frame cwd A mb \<Longrightarrow> cframe cwd A (bundle_step mb)" "frame cwd A ms \<Longrightarrow> cframe cwd A (signing_step ms)"
  "frame cwd A mg \<Longrightarrow> cframe cwd A (group_step mg)" "frame cwd A m' \<Longrightarrow> cframe cwd A (crypto_step_msg t m')"
  "frame cwd A mr \<Longrightarrow> cframe cwd A (release_step_msg t mr)"
  unfolding io_step_def crypto_step_def bundle_step_def signing_step_def group_step_def crypto_step_msg_def release_step_msg_def
  by (intro framing; assumption)+

section \<open>Frames of the components\<close>

lemma frame_write_via [framing]: "(\<And>tmp. frame cwd A (commit tmp p)) \<Longrightarrow> frame cwd A (write_via io commit p bs)"
  unfolding write_via_def by (intro framing)

lemma frame_commits [framing]:
  "dest cwd p \<subseteq> A \<Longrightarrow> frame cwd A (persist_temp_file tmp p)"
  "dest cwd p \<subseteq> A \<Longrightarrow> frame cwd A (key_commit tmp p)"
  "dest cwd p \<subseteq> A \<Longrightarrow> frame cwd A (signing_commit force tmp p)"
  "dest cwd p \<subseteq> A \<Longrightarrow> frame cwd A (release_commit tmp p)"
  "dest cwd p \<subseteq> A \<Longrightarrow> frame cwd A (share_commit force tmp p)"
  "dest cwd p \<subseteq> A \<Longrightarrow> frame cwd A (sfx_commit io force tmp p)"
  unfolding persist_temp_file_def key_commit_def signing_commit_def release_commit_def share_commit_def sfx_commit_def
  by (intro framing; assumption?)+

lemma frame_encrypt [framing]:
  assumes "dest cwd out \<subseteq> A"
  shows "frame cwd A (encrypt_file_password_with_content_type P S inp out pw seed profile pol override ct)"
    "frame cwd A (encrypt_file_password P S inp out pw seed profile pol override)"
    "frame cwd A (encrypt_file_keypairs_with_content_type P S inp out pks profile pol override ct)"
    "frame cwd A (encrypt_file_keypairs P S inp out pks profile pol override)"
proof -
  have sn: "frame cwd A (draw_secondary_nonce alg)" for alg
    unfolding draw_secondary_nonce_def by (intro framing)
  have wr: "frame cwd A (wrap_recipient P fek pk)" for fek pk
    unfolding wrap_recipient_def by (intro framing)
  have wrs: "frame cwd A (wrap_recipients P fek pks)" for fek pks
    by (induction pks; simp only: wrap_recipients.simps; (intro framing wr)?; assumption?)
  have env: "frame cwd A (write_envelope_and_payload P S out e alg hk rd)" for e alg hk rd
    unfolding write_envelope_and_payload_def by (intro framing assms)
  show pw: "frame cwd A (encrypt_file_password_with_content_type P S inp out pw seed profile pol override ct)" for ct
    unfolding encrypt_file_password_with_content_type_def by (intro framing sn env)
  show kp: "frame cwd A (encrypt_file_keypairs_with_content_type P S inp out pks profile pol override ct)" for ct
    unfolding encrypt_file_keypairs_with_content_type_def by (intro framing sn wrs env)
  show "frame cwd A (encrypt_file_password P S inp out pw seed profile pol override)"
      "frame cwd A (encrypt_file_keypairs P S inp out pks profile pol override)"
    unfolding encrypt_file_password_def encrypt_file_keypairs_def by (rule pw kp)+
qed

lemma frame_decrypt [framing]:
  assumes "dest cwd out \<subseteq> A"
  shows "frame cwd A (decrypt_file_password P S inp out pw seed)" "frame cwd A (decrypt_file_keypair P S inp out sk)"
  unfolding decrypt_file_password_def decrypt_file_keypair_def write_decrypted_payload_atomic_def
  by (intro framing assms)+

lemma frame_readers [framing]:
  "frame cwd A (verify_file_password P S inp pw seed)" "frame cwd A (verify_file_keypair P S inp sk)"
  "frame cwd A (read_envelope_from_path P S inp)" "frame cwd A (read_limited n e io p)"
  "frame cwd A (private_load_from_file J H p)" "frame cwd A (public_load_from_file K J H p)"
  "frame cwd A (group_load_from_file T p)" "frame cwd A (policy_load_from_file tx from p)"
  "frame cwd A (load_verify_key D J p)" "frame cwd A (load_signing_key J p)"
  "frame cwd A (verify_signature P S D inp key)" "frame cwd A (verify_approvals P S D inp key)"
  "frame cwd A (inspect_bundle P S inp)" "frame cwd A (share_from_file C p)"
  unfolding verify_file_password_def verify_file_keypair_def read_envelope_from_path_def read_limited_def
    private_load_from_file_def public_load_from_file_def group_load_from_file_def policy_load_from_file_def
    load_verify_key_def load_signing_key_def verify_signature_def verify_approvals_def inspect_bundle_def share_from_file_def
    read_key_file_def read_recipient_group_file_def read_policy_file_def signing_read_key_file_def read_share_file_def
    refuse_existing_def
  by (intro framing)+

lemma frame_writers [framing]:
  assumes "dest cwd p \<subseteq> A"
  shows "frame cwd A (private_save_to_file J H sk p)" "frame cwd A (public_save_to_file J H pk p)"
    "frame cwd A (group_save_to_file T g p)" "frame cwd A (policy_save_to_file tx to pol p)"
    "frame cwd A (save_signing_key J key p force)" "frame cwd A (save_verify_key J key p force)"
    "frame cwd A (sign_file P S D now inp p key comment force)" "frame cwd A (add_approval_seal P S D inp p key comment force)"
    "frame cwd A (attach_release_metadata P S inp p pn v gc b)" "frame cwd A (attach_recovery_metadata P S inp p d)"
    "frame cwd A (to_file_with_force C share p force)" "frame cwd A (write_recovered_secret p bs force)"
proof -
  have r: "frame cwd A (refuse_existing p force)" for p force and A :: "string list set"
    by (rule frame_pure) (simp add: refuse_existing_def)
  note defs = private_save_to_file_def public_save_to_file_def group_save_to_file_def policy_save_to_file_def
    save_signing_key_def save_verify_key_def sign_file_def add_approval_seal_def attach_release_metadata_def
    attach_recovery_metadata_def attach_metadata_def to_file_with_force_def write_recovered_secret_def write_key_file_def
    write_private_atomic_def signing_write_atomic_def release_write_atomic_def share_write_private_atomic_def
  show "frame cwd A (private_save_to_file J H sk p)" unfolding defs by (intro framing assms)
  show "frame cwd A (public_save_to_file J H pk p)" unfolding defs by (intro framing assms)
  show "frame cwd A (group_save_to_file T g p)" unfolding defs by (intro framing assms)
  show "frame cwd A (policy_save_to_file tx to pol p)" unfolding defs by (intro framing assms)
  show "frame cwd A (save_signing_key J key p force)" unfolding defs by (intro framing assms r)
  show "frame cwd A (save_verify_key J key p force)" unfolding defs by (intro framing assms r)
  show "frame cwd A (sign_file P S D now inp p key comment force)" unfolding defs by (intro framing assms r)
  show "frame cwd A (add_approval_seal P S D inp p key comment force)" unfolding defs by (intro framing assms r)
  show "frame cwd A (attach_release_metadata P S inp p pn v gc b)" unfolding defs by (intro framing assms)
  show "frame cwd A (attach_recovery_metadata P S inp p d)" unfolding defs by (intro framing assms)
  show "frame cwd A (to_file_with_force C share p force)" unfolding defs by (intro framing assms)
  show "frame cwd A (write_recovered_secret p bs force)" unfolding defs by (intro framing assms)
qed


section \<open>Bundles and archives\<close>

text \<open>Inside a temporary directory.\<close>

lemma frame_remove_below:
  "w_cwd w = cwd \<Longrightarrow> dest_below cwd tmp \<subseteq> A \<Longrightarrow>
     w_cwd (remove_below tmp w) = cwd \<and> (\<forall>k. k \<notin> A \<longrightarrow> w_fs (remove_below tmp w) k = w_fs w k)"
  by (auto simp: remove_below_def dest_below_under under_def)

lemma frame_with_temp [framing]:
  assumes "frame cwd A m" "dest_below cwd tmp \<subseteq> A"
  shows "frame cwd A (with_temp_dir tmp m)" "frame cwd A (with_temp_file tmp bs m)"
proof -
  have self: "resolve w tmp \<in> A" if "w_cwd w = cwd" for w
    using assms(2) dest_below_under [OF that, of "resolve w tmp" tmp] by auto
  have step: "w_cwd w2 = cwd \<and> (\<forall>k. k \<notin> A \<longrightarrow> w_fs w2 k = w_fs w k)"
    if w1: "w_cwd w1 = cwd" "\<And>k. k \<notin> A \<Longrightarrow> w_fs w1 k = w_fs w k" and w2: "w2 = remove_below tmp (snd (m w1))" for w w1 w2
  proof -
    have a: "w_cwd (snd (m w1)) = cwd" "\<forall>k. k \<notin> A \<longrightarrow> w_fs (snd (m w1)) k = w_fs w1 k"
      using assms(1) w1(1) unfolding frame_def by blast+
    from frame_remove_below [OF a(1) assms(2)] a(2) w1(2) show ?thesis by (simp add: w2)
  qed
  show "frame cwd A (with_temp_dir tmp m)"
    unfolding frame_def
  proof (intro allI impI)
    fix w :: world assume cwd: "w_cwd w = cwd"
    show "w_cwd (snd (with_temp_dir tmp m w)) = cwd \<and> (\<forall>k. k \<notin> A \<longrightarrow> w_fs (snd (with_temp_dir tmp m w)) k = w_fs w k)"
      by (rule step [of "w\<lparr>w_fs := (w_fs w)(resolve w tmp \<mapsto> Directory)\<rparr>"])
        (use self [OF cwd] cwd in \<open>auto simp: with_temp_dir_def split: prod.splits\<close>)
  qed
  show "frame cwd A (with_temp_file tmp bs m)"
    unfolding frame_def
  proof (intro allI impI)
    fix w :: world assume cwd: "w_cwd w = cwd"
    show "w_cwd (snd (with_temp_file tmp bs m w)) = cwd \<and> (\<forall>k. k \<notin> A \<longrightarrow> w_fs (snd (with_temp_file tmp bs m w)) k = w_fs w k)"
      by (rule step [of "put_file w tmp bs"])
        (use self [OF cwd] cwd in \<open>auto simp: with_temp_file_def w_fs_put_file split: prod.splits\<close>)
  qed
qed

lemma frame_bundles [framing]:
  assumes "dest_below cwd tmp \<subseteq> A"
  shows "frame cwd A (decrypt_and_open P S B tmp inp pw)"
    "frame cwd A (list_bundle P S B tmp inp pw)" "frame cwd A (verify_bundle P S B tmp inp pw)"
    "frame cwd A (diff_bundles P S B tmp p pw p' pw')"
proof -
  have d: "dest cwd (payload_name tmp) \<subseteq> A"
    using dest_in_below(2) [of cwd tmp] assms unfolding payload_name_def by blast
  have op: "frame cwd A (open_payload B p)" for p by (rule frame_pure) (rule open_payload_world)
  show o: "frame cwd A (decrypt_and_open P S B tmp inp pw)" for inp pw
    unfolding decrypt_and_open_def by (intro framing op d assms)
  have l: "frame cwd A (list_bundle P S B tmp inp pw)" for inp pw
    unfolding list_bundle_def by (intro framing o)
  then show "frame cwd A (list_bundle P S B tmp inp pw)" .
  show "frame cwd A (verify_bundle P S B tmp inp pw)" unfolding verify_bundle_def by (intro framing o)
  show "frame cwd A (diff_bundles P S B tmp p pw p' pw')" unfolding diff_bundles_def by (intro framing l)
qed


lemma frame_sources:
  "frame cwd A (collect_sources B walk in_dir links)" "frame cwd A (copy_sources B sources wr)"
proof -
  have h: "frame cwd A (hash_file B p)" for B p
    unfolding hash_file_def by (intro framing)
  have hs: "frame cwd A (hash_sources B ps)" for B ps
    by (induction ps rule: hash_sources.induct; simp only: hash_sources.simps; (intro framing h)?; assumption?)
  show "frame cwd A (collect_sources B walk in_dir links)"
    by (rule frame_start [where m = "\<lambda>w. if lookup w in_dir \<noteq> Some Directory then fail (InputDirNotFound (display in_dir))
        else act (lift (collect_paths in_dir links walk)) (\<lambda>paths. hash_sources B (sort_key fst paths))"])
      (intro framing hs, simp add: collect_sources_def)
  have c: "frame cwd A (copy_source_checked B s wr)" for B s wr
    unfolding copy_source_checked_def by (intro framing)
  show "frame cwd A (copy_sources B sources wr)"
    by (induction B sources wr rule: copy_sources.induct; simp only: copy_sources.simps; (intro framing c)?; assumption?)
qed

lemma frame_pack [framing]:
  assumes "dest cwd out \<subseteq> A" "dest_below cwd tmp \<subseteq> A"
  shows "frame cwd A (pack_directory P S B ver now walk tmp in_dir out cred profile links pad force pol override)"
proof -
  have e: "frame cwd A (bundle_encrypt P S tmp out cred profile pol override)"
    unfolding bundle_encrypt_def by (cases cred) (simp_all add: frame_encrypt assms)
  show ?thesis
    apply (rule frame_guard [where c = "\<lambda>w. path_exists w out \<and> \<not> force"])
      apply (subst pack_directory_def, subst if_not_P, assumption, rule refl)
     apply (simp add: pack_directory_def)
    apply (intro framing frame_sources e assms)
    done
qed


section \<open>From frames to files\<close>

text \<open>What was there stays when nothing was there under the names that may change.\<close>

lemma frame_keeps:
  assumes "cframe cwd A m" "m c = (r, c')" "w_cwd (c_world c) = cwd" "\<forall>k \<in> A. w_fs (c_world c) k = None"
  shows "keeps_entries (c_world c) (c_world c') \<and> w_cwd (c_world c') = cwd"
  using assms unfolding frame_on_def keeps_entries_def by (metis option.distinct(1) snd_conv)

end
