(* ===== verification/Cli_Crypt.thy ===== *)
theory Cli_Crypt
  imports Frames
begin

text \<open>
  The commands on capsules and keys of lvau-cli (main.rs): one definition per arm of \<open>run\<close>, over
  the state \<open>console\<close>. The progress bar and the length it is created with have no effect and are
  left out; so is the text of prompts.
\<close>

section \<open>Formatting\<close>

text \<open>\<open>std::str::from_utf8(&header.magic).unwrap_or("????")\<close>\<close>

definition magic_text :: "bytes \<Rightarrow> string" where
  "magic_text m = (if utf8_valid m then map (\<lambda>b. char_of (unat b)) m else ''????'')"

fun content_name :: "content_type \<Rightarrow> string" where
  "content_name SingleFile = ''SingleFile''"
| "content_name Bundle = ''Bundle''"

definition bool_text :: "bool \<Rightarrow> string" where
  "bool_text b = (if b then ''true'' else ''false'')"

definition option_bool_debug :: "bool option \<Rightarrow> string" where
  "option_bool_debug x = (case x of None \<Rightarrow> ''None'' | Some b \<Rightarrow> ''Some('' @ bool_text b @ '')'')"

fun status_name :: "preflight_status \<Rightarrow> string" where
  "status_name PfOk = ''Ok''"
| "status_name PfWarn = ''Warn''"
| "status_name PfFail = ''Fail''"

definition some_line :: "string \<Rightarrow> string option \<Rightarrow> string list" where
  "some_line prefix x = (case x of None \<Rightarrow> [] | Some s \<Rightarrow> [prefix @ s])"

text \<open>A section that is printed when it is not empty; the heading starts with a line break.\<close>

definition section_lines :: "string \<Rightarrow> string \<Rightarrow> string list \<Rightarrow> string list" where
  "section_lines heading mark xs = (if xs = [] then [] else [[], heading] @ map ((@) mark) xs)"

definition kdf_line :: "kdf_params option \<Rightarrow> string" where
  "kdf_line k = (case k of
       Some (Argon2id m t p _) \<Rightarrow> ''KDF:       Argon2id (m='' @ decimal (unat m) @ '' KiB, t='' @ decimal (unat t) @
         '', p='' @ decimal (unat p) @ '')''
     | None \<Rightarrow> ''KDF:       None (keypair-based)'')"

definition recipient_line :: "nat \<times> recipient \<Rightarrow> string" where
  "recipient_line = (\<lambda>(i, r). ''  ['' @ decimal i @ ''] '' @
     (case r of RPassword _ _ \<Rightarrow> ''Password (FEK wrapped)'' | RX25519MlkemHybrid _ _ _ \<Rightarrow> ''X25519 + ML-KEM-768 hybrid''))"

definition inspect_lines :: "envelope \<Rightarrow> string list" where
  "inspect_lines e =
     [''Lvau envelope metadata'',
      ''Magic:     '' @ magic_text (h_magic (header e)),
      ''Version:   '' @ decimal (unat (h_version (header e))),
      ''Profile:   '' @ profile_name (h_profile (header e)),
      ''Algorithm: '' @ algorithm_name (h_algorithm (header e)),
      kdf_line (h_kdf (header e)),
      ''Recipients: '' @ decimal (length (h_recipients (header e)))] @
     map recipient_line (enumerate 0 (h_recipients (header e))) @
     some_line ''Content:   '' (map_option content_name (e_content_type e)) @
     some_line ''Label:     '' (public_label e) @
     (case e_signature e of
        Some sig \<Rightarrow> [''Signed:    yes'', ''Signer:    '' @ hex_bytes (sig_fingerprint sig)]
      | None \<Rightarrow> [''Signed:    no'']) @
     (case e_release e of
        None \<Rightarrow> []
      | Some rm \<Rightarrow> [''Release Metadata:''] @ some_line ''  Project: '' (rel_project_name rm) @
          some_line ''  Version: '' (rel_version rm) @ some_line ''  Commit:  '' (rel_git_commit rm) @
          some_line ''  Built:   '' (rel_build_timestamp rm)) @
     (if recovery_metadata e \<noteq> None then [''Recovery Metadata: Present''] else [])"

definition release_json :: "release_metadata \<Rightarrow> json" where
  "release_json rm = JObject
     [(''project_name'', json_option JString (rel_project_name rm)), (''version'', json_option JString (rel_version rm)),
      (''git_commit'', json_option JString (rel_git_commit rm)),
      (''build_timestamp'', json_option JString (rel_build_timestamp rm))]"

definition kdf_json :: "kdf_params \<Rightarrow> json" where
  "kdf_json k = (case k of Argon2id m t p _ \<Rightarrow> JObject
     [(''algorithm'', JString ''Argon2id''), (''m_cost'', JNumber (unat m)), (''t_cost'', JNumber (unat t)),
      (''p_cost'', JNumber (unat p))])"

definition recipient_json :: "nat \<times> recipient \<Rightarrow> json" where
  "recipient_json = (\<lambda>(i, r). JObject
     [(''index'', JNumber i),
      (''kind'', JString (case r of RPassword _ _ \<Rightarrow> ''Password'' | RX25519MlkemHybrid _ _ _ \<Rightarrow> ''X25519+ML-KEM-768''))])"

text \<open>\<open>InspectResult\<close>\<close>

definition inspect_json :: "envelope \<Rightarrow> json" where
  "inspect_json e = JObject
     [(''magic'', JString (magic_text (h_magic (header e)))),
      (''version'', JNumber (unat (h_version (header e)))),
      (''profile'', JString (profile_name (h_profile (header e)))),
      (''algorithm'', JString (algorithm_name (h_algorithm (header e)))),
      (''kdf'', json_option kdf_json (h_kdf (header e))),
      (''recipient_count'', JNumber (length (h_recipients (header e)))),
      (''recipients'', JArray (map recipient_json (enumerate 0 (h_recipients (header e))))),
      (''content_type'', json_option (JString \<circ> content_name) (e_content_type e)),
      (''public_label'', json_option JString (public_label e)),
      (''signed'', JBool (e_signature e \<noteq> None)),
      (''signer_fingerprint'', json_option (JString \<circ> hex_bytes \<circ> sig_fingerprint) (e_signature e)),
      (''release_metadata'', json_option release_json (e_release e)),
      (''has_recovery_metadata'', JBool (recovery_metadata e \<noteq> None))]"

text \<open>The derived \<open>Serialize\<close> of \<open>PreflightResult\<close> and \<open>FullReport\<close>\<close>

definition preflight_json :: "preflight_result \<Rightarrow> json" where
  "preflight_json r = JObject
     [(''status'', JString (status_name (pf_status r))),
      (''parse_ok'', JBool (parse_ok r)), (''parse_error'', json_option JString (parse_error r)),
      (''version'', JNumber (unat (pf_version r))), (''content_type'', JString (pf_content_type r)),
      (''profile'', JString (pf_profile r)), (''algorithm'', JString (pf_algorithm r)),
      (''public_hash_ok'', JBool (public_hash_ok r)),
      (''signature_present'', JBool (signature_present r)),
      (''signature_valid'', json_option JBool (signature_valid r)),
      (''signer_fingerprint'', json_option JString (pf_signer_fingerprint r)),
      (''policy_ok'', json_option JBool (policy_ok r)),
      (''policy_violations'', json_strings (policy_violations r)),
      (''policy_warnings'', json_strings (policy_warnings r)),
      (''policy_overridden'', JBool (pf_policy_overridden r)),
      (''approvals'', json_strings (pf_approvals r)),
      (''recipient_count'', JNumber (recipient_count r)),
      (''has_recovery_metadata'', JBool (has_recovery_metadata r)),
      (''has_release_metadata'', JBool (has_release_metadata r)),
      (''experimental_flags'', json_strings (experimental_flags r)),
      (''file_size_ok'', JBool (file_size_ok r)),
      (''errors'', json_strings (pf_errors r)), (''warnings'', json_strings (pf_warnings r))]"

definition report_json :: "full_report \<Rightarrow> json" where
  "report_json r = JObject
     [(''file_path'', JString (rp_file_path r)), (''preflight'', preflight_json (rp_preflight r)),
      (''decryption_successful'', json_option JBool (rp_decryption_successful r)),
      (''file_count'', json_option JNumber (rp_file_count r)), (''timestamp'', JString (rp_timestamp r))]"

definition preflight_lines :: "path \<Rightarrow> preflight_result \<Rightarrow> string list" where
  "preflight_lines in_file res =
     [''Preflight Report for: '' @ display in_file, ''==========================================='',
      ''Status: '' @ status_name (pf_status res), ''Parse OK: '' @ bool_text (parse_ok res)] @
     some_line ''Parse Error: '' (parse_error res) @
     (if \<not> parse_ok res then [] else
       [''Version: '' @ decimal (unat (pf_version res)), ''Content Type: '' @ pf_content_type res,
        ''Security Profile: '' @ pf_profile res, ''Algorithm: '' @ pf_algorithm res,
        ''Recipient Slots: '' @ decimal (recipient_count res),
        ''Public Hash OK: '' @ bool_text (public_hash_ok res),
        ''Signature Present: '' @ bool_text (signature_present res)] @
       some_line ''Signer Fingerprint: '' (pf_signer_fingerprint res) @
       some_line ''Signature Valid: '' (map_option bool_text (signature_valid res)) @
       [''Has Recovery Metadata: '' @ bool_text (has_recovery_metadata res),
        ''Has Release Metadata: '' @ bool_text (has_release_metadata res),
        ''Policy Overridden: '' @ bool_text (pf_policy_overridden res)] @
       some_line ''Policy Checked: '' (map_option (\<lambda>p. if p then ''PASS'' else ''FAIL'') (policy_ok res)) @
       (if experimental_flags res = [] then []
        else [''Experimental Flags: '' @ join_comma (experimental_flags res)]) @
       (if pf_approvals res = [] then []
        else [''Approvals ('' @ decimal (length (pf_approvals res)) @ '' seals):''] @ map ((@) ''- '') (pf_approvals res))) @
     section_lines ''Errors:'' ''- [ERROR] '' (pf_errors res) @
     section_lines ''Warnings:'' ''- [WARN]  '' (pf_warnings res) @
     section_lines ''Policy Violations:'' ''- [FAIL]  '' (policy_violations res) @
     section_lines ''Policy Warnings:'' ''- [WARN]  '' (policy_warnings res)"

definition report_lines :: "full_report \<Rightarrow> string list" where
  "report_lines rep =
     (let rule = ''=================================================='' ; pf = rp_preflight rep in
      [rule, ''             Lvau Verification Report             '', rule,
       ''File: '' @ rp_file_path rep, ''Time: '' @ rp_timestamp rep, [], ''--- Preflight Summary ---'',
       ''Version: '' @ decimal (unat (pf_version pf)), ''Content: '' @ pf_content_type pf,
       ''Profile: '' @ pf_profile pf, ''Valid Signature: '' @ option_bool_debug (signature_valid pf),
       ''Policy OK: '' @ option_bool_debug (policy_ok pf), [], ''--- Decryption Check ---''] @
      (case rp_decryption_successful rep of
         Some True \<Rightarrow> [''Status: SUCCESS''] @ some_line ''Extracted Files: '' (map_option decimal (rp_file_count rep))
       | Some False \<Rightarrow> [''Status: FAILED (Invalid key/password or tampered payload)'']
       | None \<Rightarrow> [''Status: SKIPPED (No credentials provided)'']) @
      section_lines ''--- Errors ---'' ''- '' (pf_errors pf) @
      section_lines ''--- Warnings ---'' ''- '' (pf_warnings pf) @ [rule])"

section \<open>Shared steps\<close>

definition check :: "(world, cli_error, 'a) action \<Rightarrow> (console, cli_error, 'a) action" where
  "check m = on_world m"

definition load_policy :: "crates \<Rightarrow> path \<Rightarrow> (console, cli_error, capsule_policy) action" where
  "load_policy X p = on_world (act_map_err (\<lambda>e. CliMessage (''Failed to load policy: '' @ e))
     (policy_load_from_file (cr_io_text X) (cr_from_policy X) p))"

text \<open>\<open>match policy { Some(p) => Some(load(&p)?), None => None }\<close>, and the same for a verify key.\<close>

definition optional :: "('a \<Rightarrow> (console, 'e, 'b) action) \<Rightarrow> 'a option \<Rightarrow> (console, 'e, 'b option) action" where
  "optional load x = (case x of None \<Rightarrow> ret None | Some a \<Rightarrow> act (load a) (\<lambda>b. ret (Some b)))"

definition load_group_keys :: "crates \<Rightarrow> path \<Rightarrow> (console, cli_error, hybrid_public_key list) action" where
  "load_group_keys X p =
     act (group_step (group_load_from_file (cr_groups X) p)) (\<lambda>group.
       lift (map_err CliCrypto (extract_public_keys (cr_mlkem X) (cr_base64 X) group)))"

definition one_of_two :: "bool \<Rightarrow> bool \<Rightarrow> string \<Rightarrow> string \<Rightarrow> cli_error + unit" where
  "one_of_two has_password has_pub password_name key_name =
     rbind (ensure (\<not> (has_password \<and> has_pub))
       (CliMessage (''Cannot use '' @ password_name @ '' and '' @ key_name @ '' together.''))) (\<lambda>_.
     ensure (has_password \<or> has_pub)
       (CliMessage (''Must provide either '' @ password_name @ '' or '' @ key_name @ ''.'')))"

section \<open>Keys\<close>

definition keygen :: "crates \<Rightarrow> path \<Rightarrow> bool \<Rightarrow> (console, cli_error, unit) action" where
  "keygen X out_base force =
     (let priv_path = with_extension out_base ''lvau-key''; pub_path = with_extension out_base ''lvau-pub'' in
      act (check (ensure_output_available priv_path force)) (\<lambda>_.
      act (check (ensure_output_available pub_path force)) (\<lambda>_.
      act (print ''Generating experimental X25519 + ML-KEM-768 hybrid keypair...'') (\<lambda>_.
      act (crypto_step (generate_keypair (cr_prims X) (cr_mlkem X))) (\<lambda>(priv_key, pub_key).
      act (crypto_step (private_save_to_file (cr_base64 X) (cr_hybrid X) priv_key priv_path)) (\<lambda>_.
      act (crypto_step (public_save_to_file (cr_base64 X) (cr_hybrid X) pub_key pub_path)) (\<lambda>_.
        print_lines [''Private key: '' @ display priv_path, ''Public key:  '' @ display pub_path])))))))"

section \<open>Encrypting and decrypting\<close>

record credentials =
  use_password :: bool
  password_file :: "path option"
  priv_key_file :: "path option"
  use_seed :: bool
  seed_file :: "path option"

record encrypt_args =
  ea_in_file :: path
  ea_out_file :: path
  ea_password :: bool
  ea_password_file :: "path option"
  ea_pub_key :: "path option"
  ea_recipient_group :: "path option"
  ea_profile :: string
  ea_seed :: bool
  ea_seed_file :: "path option"
  ea_sfx :: bool
  ea_force :: bool
  ea_policy :: "path option"
  ea_override :: bool

text \<open>The capsule of an archive is first written beside it.\<close>

definition sfx_temp_path :: "path \<Rightarrow> path" where
  "sfx_temp_path out_file = with_extension out_file ''tmp.lvau''"

definition encrypt_recipients :: "crates \<Rightarrow> encrypt_args \<Rightarrow> (console, cli_error, hybrid_public_key list) action" where
  "encrypt_recipients X a =
     act (case ea_pub_key a of
         None \<Rightarrow> ret []
       | Some p \<Rightarrow> act (crypto_step (public_load_from_file (cr_mlkem X) (cr_base64 X) (cr_hybrid X) p)) (\<lambda>k. ret [k])) (\<lambda>pubs.
     act (case ea_recipient_group a of None \<Rightarrow> ret [] | Some g \<Rightarrow> load_group_keys X g) (\<lambda>group_keys.
       ret (pubs @ group_keys)))"

definition encrypt_to ::
  "crates \<Rightarrow> environ \<Rightarrow> encrypt_args \<Rightarrow> path \<Rightarrow> security_profile \<Rightarrow> capsule_policy option \<Rightarrow> (console, cli_error, unit) action" where
  "encrypt_to X E a temp_out sec_profile pol =
     (if ea_pub_key a \<noteq> None \<or> ea_recipient_group a \<noteq> None
      then act (encrypt_recipients X a) (\<lambda>pubs.
        crypto_step (encrypt_file_keypairs (cr_prims X) (cr_postcard X) (ea_in_file a) temp_out pubs sec_profile pol (ea_override a)))
      else act (required_password E (ea_password a) (ea_password_file a) True) (\<lambda>pwd.
        act (seed_secret E (ea_seed a) (ea_seed_file a)) (\<lambda>seed_val.
        crypto_step (encrypt_file_password (cr_prims X) (cr_postcard X) (ea_in_file a) temp_out pwd seed_val sec_profile pol
          (ea_override a)))))"

definition encrypt :: "crates \<Rightarrow> environ \<Rightarrow> encrypt_args \<Rightarrow> (console, cli_error, unit) action" where
  "encrypt X E a =
     act (check (ensure_input_file (ea_in_file a))) (\<lambda>_.
     act (check (ensure_distinct_file_paths (ea_in_file a) (ea_out_file a))) (\<lambda>_.
     act (check (ensure_output_available (ea_out_file a) (ea_force a))) (\<lambda>_.
     act (lift (one_of_two (ea_password a \<or> ea_password_file a \<noteq> None)
       (ea_pub_key a \<noteq> None \<or> ea_recipient_group a \<noteq> None)
       ''--password/--password-file'' ''--pub-key/--recipient-group'')) (\<lambda>_.
     act (lift (parse_profile (ea_profile a))) (\<lambda>sec_profile.
     let temp_out = (if ea_sfx a then sfx_temp_path (ea_out_file a) else ea_out_file a) in
     act (if ea_sfx a then check (ensure_output_available temp_out True) else ret ()) (\<lambda>_.
     act (optional (load_policy X) (ea_policy a)) (\<lambda>pol.
     act (encrypt_to X E a temp_out sec_profile pol) (\<lambda>_.
     act (if ea_sfx a then check (create_sfx E temp_out (ea_out_file a) (ea_force a)) else ret ()) (\<lambda>_.
       print (''Encrypted: '' @ display (ea_out_file a)))))))))))"

definition decrypt :: "crates \<Rightarrow> environ \<Rightarrow> path \<Rightarrow> path \<Rightarrow> credentials \<Rightarrow> bool \<Rightarrow> (console, cli_error, unit) action" where
  "decrypt X E in_file out_file cr force =
     act (check (ensure_input_file in_file)) (\<lambda>_.
     act (check (ensure_distinct_file_paths in_file out_file)) (\<lambda>_.
     act (check (ensure_output_available out_file force)) (\<lambda>_.
     act (lift (require_one_mode (use_password cr) (password_file cr) (priv_key_file cr \<noteq> None)
       ''--password/--password-file'' ''--priv-key'')) (\<lambda>_.
     act (case priv_key_file cr of
         Some priv_path \<Rightarrow>
           act (crypto_step (private_load_from_file (cr_base64 X) (cr_hybrid X) priv_path)) (\<lambda>pk.
             crypto_step (decrypt_file_keypair (cr_prims X) (cr_postcard X) in_file out_file pk))
       | None \<Rightarrow>
           act (required_password E (use_password cr) (password_file cr) False) (\<lambda>pwd.
           act (seed_secret E (use_seed cr) (seed_file cr)) (\<lambda>seed_val.
             crypto_step (decrypt_file_password (cr_prims X) (cr_postcard X) in_file out_file pwd seed_val)))) (\<lambda>_.
       print (''Decrypted: '' @ display out_file))))))"

section \<open>Looking at capsules\<close>

definition inspect :: "crates \<Rightarrow> path \<Rightarrow> bool \<Rightarrow> (console, cli_error, unit) action" where
  "inspect X in_file json =
     act (check (ensure_input_file in_file)) (\<lambda>_.
     act (crypto_step (read_envelope_from_path (cr_prims X) (cr_postcard X) in_file)) (\<lambda>e.
       if json then print_success ''inspect'' (inspect_json e) else print_lines (inspect_lines e)))"

definition verify :: "crates \<Rightarrow> environ \<Rightarrow> path \<Rightarrow> credentials \<Rightarrow> bool \<Rightarrow> (console, cli_error, unit) action" where
  "verify X E in_file cr json =
     act (check (ensure_input_file in_file)) (\<lambda>_.
     act (lift (require_one_mode (use_password cr) (password_file cr) (priv_key_file cr \<noteq> None)
       ''--password/--password-file'' ''--priv-key'')) (\<lambda>_.
     act (case priv_key_file cr of
         Some priv_path \<Rightarrow>
           act (crypto_step (private_load_from_file (cr_base64 X) (cr_hybrid X) priv_path)) (\<lambda>pk.
             crypto_step (verify_file_keypair (cr_prims X) (cr_postcard X) in_file pk))
       | None \<Rightarrow>
           act (required_password E (use_password cr) (password_file cr) False) (\<lambda>pwd.
           act (seed_secret E (use_seed cr) (seed_file cr)) (\<lambda>seed_val.
             crypto_step (verify_file_password (cr_prims X) (cr_postcard X) in_file pwd seed_val)))) (\<lambda>_.
       if json then print_success ''verify'' (JObject [(''file'', JString (display in_file))]) else print (''Verification successful: '' @ display in_file))))"

text \<open>A step that cannot fail.\<close>

definition total_step :: "(world \<Rightarrow> 'a \<times> world) \<Rightarrow> (console, 'e, 'a) action" where
  "total_step m c = (case m (c_world c) of (x, w) \<Rightarrow> (Inr x, c\<lparr>c_world := w\<rparr>))"

definition preflight :: "crates \<Rightarrow> path \<Rightarrow> path option \<Rightarrow> path option \<Rightarrow> bool \<Rightarrow> (console, cli_error, unit) action" where
  "preflight X in_file verify_key policy json =
     act (check (ensure_input_file in_file)) (\<lambda>_.
     act (optional (\<lambda>p. signing_step (load_verify_key (cr_ed X) (cr_base64 X) p)) verify_key) (\<lambda>vkey.
     act (optional (load_policy X) policy) (\<lambda>pol.
     act (total_step (run_preflight (cr_crypto_text X) (cr_prims X) (cr_postcard X) (cr_ed X) in_file vkey pol)) (\<lambda>res.
     act (if json then print_success ''preflight'' (preflight_json res) else print_lines (preflight_lines in_file res)) (\<lambda>_.
       lift (ensure (pf_status res \<noteq> PfFail) (CliExit 1)))))))"

definition report ::
  "crates \<Rightarrow> environ \<Rightarrow> path \<Rightarrow> path option \<Rightarrow> path option \<Rightarrow> credentials \<Rightarrow> bool \<Rightarrow> (console, cli_error, unit) action" where
  "report X E in_file verify_key policy cr json =
     act (check (ensure_input_file in_file)) (\<lambda>_.
     act (optional (\<lambda>p. signing_step (load_verify_key (cr_ed X) (cr_base64 X) p)) verify_key) (\<lambda>vkey.
     act (optional (load_policy X) policy) (\<lambda>pol.
     act (case priv_key_file cr of
         Some pk_path \<Rightarrow>
           act (crypto_step (private_load_from_file (cr_base64 X) (cr_hybrid X) pk_path)) (\<lambda>pk. ret (Some (DcKeypair pk)))
       | None \<Rightarrow>
           if use_password cr \<or> password_file cr \<noteq> None
           then act (password_secret E (use_password cr) (password_file cr) False) (\<lambda>pwd.
             ret (map_option (\<lambda>p. DcPassword p None) pwd))
           else ret None) (\<lambda>cred.
     act (total_step (generate_report (cr_crypto_text X) (cr_prims X) (cr_postcard X) (cr_ed X) (cr_bundle X) (env_tmp E)
       (env_now E) in_file vkey pol cred)) (\<lambda>rep.
       if json then print_success ''report'' (report_json rep) else print_lines (report_lines rep))))))"

end
