(* ===== verification/Cli_Artifacts.thy ===== *)
theory Cli_Artifacts
  imports Cli_Crypt
begin

text \<open>
  The commands on policies, bundles, signatures, metadata, groups, shares and secrets of
  lvau-cli (main.rs), one definition per arm of \<open>run\<close>. Extraction works on the
  tree of the output directory (Bundle\_Extract.thy), taken from the file system and written back.
\<close>

section \<open>Policies\<close>

text \<open>
  The printed form of a policy is the text of the TOML crate; a panic of its \<open>unwrap\<close> is an error here.
\<close>

definition policy_inspect :: "crates \<Rightarrow> path \<Rightarrow> (console, cli_error, unit) action" where
  "policy_inspect X in_file =
     act (load_policy X in_file) (\<lambda>pol.
     act (print (''Policy File: '' @ display in_file)) (\<lambda>_.
     act (lift (map_err CliMessage (cr_to_policy X pol))) (\<lambda>toml.
       print (map (\<lambda>b. char_of (unat b)) toml))))"

definition lint_lines :: "path \<Rightarrow> path \<Rightarrow> policy_result \<Rightarrow> string list" where
  "lint_lines in_file policy r =
     [''Linting artifact '' @ display in_file @ '' against '' @ display policy] @
     (if is_valid r then [''Result: PASS'']
      else ''Result: FAIL'' # map (\<lambda>v. ''- [VIOLATION] '' @ rule v @ '': '' @ message v) (violations r)) @
     map (\<lambda>x. ''- [WARNING] '' @ rule x @ '': '' @ message x) (warnings r)"

text \<open>\<open>json!({ "rule": v.rule, "message": v.message })\<close>\<close>

definition lint_json :: "policy_result \<Rightarrow> json" where
  "lint_json r =
     (let item = (\<lambda>v. JObject [(''rule'', JString (rule v)), (''message'', JString (message v))]) in
      JObject [(''valid'', JBool (is_valid r)), (''violations'', JArray (map item (violations r))),
        (''warnings'', JArray (map item (warnings r)))])"

definition policy_lint :: "crates \<Rightarrow> path \<Rightarrow> path \<Rightarrow> bool \<Rightarrow> (console, cli_error, unit) action" where
  "policy_lint X in_file policy json =
     act (load_policy X policy) (\<lambda>pol.
     act (crypto_step (read_envelope_from_path (cr_prims X) (cr_postcard X) in_file)) (\<lambda>e.
     let result = lint_envelope e pol in
     act (if json then print_success ''policy.lint'' (lint_json result) else print_lines (lint_lines in_file policy result)) (\<lambda>_.
       lift (ensure (is_valid result) (CliExit 1)))))"

definition policy_create :: "crates \<Rightarrow> path \<Rightarrow> bool \<Rightarrow> (console, cli_error, unit) action" where
  "policy_create X out_file force =
     act (check (ensure_output_available out_file force)) (\<lambda>_.
     act (on_world (act_map_err (\<lambda>e. CliMessage (''Failed to save policy: '' @ e))
       (policy_save_to_file (cr_io_text X) (cr_to_policy X) default_policy out_file))) (\<lambda>_.
       print (''Created default policy at '' @ display out_file)))"

section \<open>Bundles\<close>

record pack_args =
  pa_in_dir :: path
  pa_out_file :: path
  pa_password :: bool
  pa_password_file :: "path option"
  pa_recipient_group :: "path option"
  pa_profile :: string
  pa_allow_symlinks :: bool
  pa_metadata_profile :: string
  pa_pad :: string
  pa_public_label :: "string option"
  pa_force :: bool
  pa_policy :: "path option"
  pa_override :: bool

text \<open>The options \<open>metadata_profile\<close> and \<open>public_label\<close> are accepted and not used, as in the code.\<close>

definition bundle_pack :: "crates \<Rightarrow> environ \<Rightarrow> pack_args \<Rightarrow> (console, cli_error, unit) action" where
  "bundle_pack X E a c =
     (if lookup (c_world c) (pa_in_dir a) \<noteq> Some Directory
      then (Inl (CliMessage (''Input directory does not exist: '' @ display (pa_in_dir a))), c)
      else
     act (check (ensure_output_available (pa_out_file a) (pa_force a))) (\<lambda>_.
     act (lift (one_of_two (pa_password a \<or> pa_password_file a \<noteq> None) (pa_recipient_group a \<noteq> None)
       ''--password/--password-file'' ''--recipient-group'')) (\<lambda>_.
     act (case pa_recipient_group a of
         Some g \<Rightarrow> act (load_group_keys X g) (\<lambda>keys. ret (CredKeypairs keys))
       | None \<Rightarrow> act (required_password E (pa_password a) (pa_password_file a) True) (\<lambda>pwd. ret (CredPassword pwd None))) (\<lambda>credential.
     act (lift (parse_profile (pa_profile a))) (\<lambda>sec_profile.
     act (lift (parse_padding (pa_pad a))) (\<lambda>padding.
     act (optional (load_policy X) (pa_policy a)) (\<lambda>pol.
     act (\<lambda>c. bundle_step (pack_directory (cr_prims X) (cr_postcard X) (cr_bundle X) (env_version E) (env_now E)
         (env_walk E (c_world c) (pa_in_dir a)) (env_tmp E) (pa_in_dir a) (pa_out_file a) credential sec_profile
         (pa_allow_symlinks a) padding (pa_force a) pol (pa_override a)) c) (\<lambda>manifest.
       print (''Bundle created: '' @ display (pa_out_file a) @ '' ('' @ decimal (length (entries manifest)) @ '' files)'')))))))) c)"

definition bundle_inspect_lines :: "envelope_header \<Rightarrow> content_type option \<Rightarrow> string option \<Rightarrow> string list" where
  "bundle_inspect_lines hdr ct lbl =
     [''Bundle envelope metadata'', ''Magic:     '' @ magic_text (h_magic hdr),
      ''Version:   '' @ decimal (unat (h_version hdr)), ''Profile:   '' @ profile_name (h_profile hdr),
      ''Algorithm: '' @ algorithm_name (h_algorithm hdr)] @
     some_line ''Content:   '' (map_option content_name ct) @ some_line ''Label:     '' lbl @
     [''(File names are encrypted in the payload)'']"

definition bundle_inspect_json :: "envelope_header \<Rightarrow> content_type option \<Rightarrow> string option \<Rightarrow> json" where
  "bundle_inspect_json hdr ct lbl = JObject
     [(''magic'', JString (magic_text (h_magic hdr))), (''version'', JNumber (unat (h_version hdr))),
      (''profile'', JString (profile_name (h_profile hdr))), (''algorithm'', JString (algorithm_name (h_algorithm hdr))),
      (''content_type'', json_option (JString \<circ> content_name) ct), (''public_label'', json_option JString lbl)]"

definition bundle_inspect :: "crates \<Rightarrow> path \<Rightarrow> bool \<Rightarrow> (console, cli_error, unit) action" where
  "bundle_inspect X in_file json =
     act (check (ensure_input_file in_file)) (\<lambda>_.
     act (bundle_step (inspect_bundle (cr_prims X) (cr_postcard X) in_file)) (\<lambda>(hdr, ct, lbl).
       if json then print_json (bundle_inspect_json hdr ct lbl) else print_lines (bundle_inspect_lines hdr ct lbl)))"

definition entry_line :: "bundle_entry \<Rightarrow> string" where
  "entry_line en = ''  '' @ relative_path en @ '' ('' @ decimal (unat (be_size en)) @ '' bytes)''"

definition bundle_list_json :: "bundle_manifest \<Rightarrow> json" where
  "bundle_list_json m = JObject
     [(''file_count'', JNumber (length (entries m))),
      (''entries'', JArray (map (\<lambda>en. JObject [(''path'', JString (relative_path en)), (''size'', JNumber (unat (be_size en))),
        (''blake3'', JString (hex_bytes (blake3_hash en)))]) (entries m)))]"

definition bundle_list :: "crates \<Rightarrow> environ \<Rightarrow> path \<Rightarrow> bool \<Rightarrow> path option \<Rightarrow> bool \<Rightarrow> (console, cli_error, unit) action" where
  "bundle_list X E in_file password pw_file json =
     act (check (ensure_input_file in_file)) (\<lambda>_.
     act (required_password E password pw_file False) (\<lambda>pwd.
     act (bundle_step (list_bundle (cr_prims X) (cr_postcard X) (cr_bundle X) (env_tmp E) in_file pwd)) (\<lambda>manifest.
       if json then print_json (bundle_list_json manifest)
       else print_lines ((''Bundle contents ('' @ decimal (length (entries manifest)) @ '' files):'') #
         map entry_line (entries manifest)))))"

definition size_text :: "u64 option \<Rightarrow> string" where
  "size_text n = decimal (case n of None \<Rightarrow> 0 | Some k \<Rightarrow> unat k)"

definition diff_line :: "file_diff \<Rightarrow> string list" where
  "diff_line d = (case fd_status d of
       Added \<Rightarrow> [''+ '' @ fd_path d @ '' ('' @ size_text (new_size d) @ '' bytes)'']
     | Removed \<Rightarrow> [''- '' @ fd_path d @ '' ('' @ size_text (old_size d) @ '' bytes)'']
     | Modified \<Rightarrow> [''~ '' @ fd_path d @ '' ('' @ size_text (old_size d) @ '' -> '' @ size_text (new_size d) @ '' bytes)'']
     | Unchanged \<Rightarrow> [])"

definition diff_lines :: "path \<Rightarrow> path \<Rightarrow> diff_report \<Rightarrow> string list" where
  "diff_lines old_path new_path r =
     (let rule = ''--------------------------------------------------'' in
      [''Diff Report:'', ''Old: '' @ display old_path, ''New: '' @ display new_path, rule] @
      concat (map diff_line (diff_files r)) @
      [rule, ''Summary: '' @ decimal (added_count r) @ '' added, '' @ decimal (removed_count r) @ '' removed, '' @
        decimal (modified_count r) @ '' modified, '' @ decimal (unchanged_count r) @ '' unchanged''])"

text \<open>The derived \<open>Serialize\<close> of \<open>DiffReport\<close>\<close>

fun diff_status_name :: "diff_status \<Rightarrow> string" where
  "diff_status_name Added = ''Added''"
| "diff_status_name Removed = ''Removed''"
| "diff_status_name Modified = ''Modified''"
| "diff_status_name Unchanged = ''Unchanged''"

definition size_json :: "u64 option \<Rightarrow> json" where "size_json = json_option (\<lambda>n. JNumber (unat n))"

definition diff_json :: "diff_report \<Rightarrow> json" where
  "diff_json r = JObject
     [(''files'', JArray (map (\<lambda>d. JObject [(''path'', JString (fd_path d)), (''status'', JString (diff_status_name (fd_status d))),
        (''old_size'', size_json (old_size d)), (''new_size'', size_json (new_size d))]) (diff_files r))),
      (''added_count'', JNumber (added_count r)), (''removed_count'', JNumber (removed_count r)),
      (''modified_count'', JNumber (modified_count r)), (''unchanged_count'', JNumber (unchanged_count r))]"

definition bundle_diff ::
  "crates \<Rightarrow> environ \<Rightarrow> path \<Rightarrow> path \<Rightarrow> bool \<Rightarrow> path option \<Rightarrow> bool \<Rightarrow> path option \<Rightarrow> bool \<Rightarrow> (console, cli_error, unit) action" where
  "bundle_diff X E old_path new_path old_password old_password_file new_password new_password_file json =
     act (check (ensure_input_file old_path)) (\<lambda>_.
     act (check (ensure_input_file new_path)) (\<lambda>_.
     act (password_secret E old_password old_password_file False) (\<lambda>old_opt.
     act (lift (ok_or (CliMessage ''Missing old password'') old_opt)) (\<lambda>old_pwd.
     act (password_secret E new_password new_password_file False) (\<lambda>new_opt.
     act (lift (ok_or (CliMessage ''Missing new password'') new_opt)) (\<lambda>new_pwd.
     act (bundle_step (diff_bundles (cr_prims X) (cr_postcard X) (cr_bundle X) (env_tmp E) old_path old_pwd new_path new_pwd)) (\<lambda>r.
       if json then print_success ''bundle-diff'' (diff_json r) else print_lines (diff_lines old_path new_path r))))))))"

definition bundle_verify :: "crates \<Rightarrow> environ \<Rightarrow> path \<Rightarrow> bool \<Rightarrow> path option \<Rightarrow> (console, cli_error, unit) action" where
  "bundle_verify X E in_file password pw_file =
     act (check (ensure_input_file in_file)) (\<lambda>_.
     act (required_password E password pw_file False) (\<lambda>pwd.
     act (bundle_step (verify_bundle (cr_prims X) (cr_postcard X) (cr_bundle X) (env_tmp E) in_file pwd)) (\<lambda>manifest.
       print (''Bundle verified: '' @ decimal (length (entries manifest)) @ '' files''))))"

definition extract_lines :: "path \<Rightarrow> bool \<Rightarrow> bundle_manifest \<Rightarrow> string list" where
  "extract_lines out_dir dry_run m =
     (if dry_run
      then (''Dry run: would extract '' @ decimal (length (entries m)) @ '' files to '' @ display out_dir) #
        map entry_line (entries m)
      else [''Extracted '' @ decimal (length (entries m)) @ '' files to '' @ display out_dir])"

text \<open>The option \<open>allow_symlinks\<close> is accepted and not used, as in \<open>extract_bundle\<close>.\<close>

definition bundle_extract ::
  "crates \<Rightarrow> environ \<Rightarrow> path \<Rightarrow> path \<Rightarrow> bool \<Rightarrow> path option \<Rightarrow> bool \<Rightarrow> bool \<Rightarrow> bool \<Rightarrow> (console, cli_error, unit) action" where
  "bundle_extract X E in_file out_dir password pw_file allow_symlinks dry_run force =
     act (check (ensure_input_file in_file)) (\<lambda>_.
     act (required_password E password pw_file False) (\<lambda>pwd.
     act (if dry_run then ret () else on_target E out_dir (act_map_err CliIo (create_output_dir out_dir))) (\<lambda>_.
     act (on_target E out_dir (act_map_err (\<lambda>e. CliCause '''' (CauseBundle e))
       (extract_bundle (cr_prims X) (cr_postcard X) (cr_bundle X) (env_tmp E) in_file out_dir pwd force dry_run))) (\<lambda>manifest.
       print_lines (extract_lines out_dir dry_run manifest)))))"

section \<open>Groups, metadata\<close>

definition group_list :: "crates \<Rightarrow> path \<Rightarrow> (console, cli_error, unit) action" where
  "group_list X name =
     act (group_step (group_load_from_file (cr_groups X) name)) (\<lambda>g.
       print_lines ([''Group: '' @ group_name g, ''Recipients: '' @ decimal (length (group_recipients g))] @
         map (\<lambda>(i, r). ''  ['' @ decimal i @ ''] '' @ gr_name r) (enumerate 1 (group_recipients g))))"

definition group_create_command :: "crates \<Rightarrow> string \<Rightarrow> path \<Rightarrow> (console, cli_error, unit) action" where
  "group_create_command X name p =
     act (group_step (group_create (cr_groups X) name p)) (\<lambda>_. print (''Created empty recipient group at '' @ name))"

definition group_add_command :: "crates \<Rightarrow> string \<Rightarrow> path \<Rightarrow> path \<Rightarrow> (console, cli_error, unit) action" where
  "group_add_command X name p pub_key =
     act (group_step (group_add (cr_groups X) (cr_hybrid X) p pub_key)) (\<lambda>_.
       print (''Added key '' @ display pub_key @ '' to group '' @ name))"

definition group_remove_command :: "crates \<Rightarrow> string \<Rightarrow> path \<Rightarrow> string \<Rightarrow> (console, cli_error, unit) action" where
  "group_remove_command X name p fingerprint =
     act (group_step (group_remove (cr_groups X) p fingerprint)) (\<lambda>removed.
       print (if removed then ''Removed recipient '' @ fingerprint @ '' from group '' @ name
         else ''Recipient '' @ fingerprint @ '' not found in group '' @ name))"

definition release_attach ::
  "crates \<Rightarrow> path \<Rightarrow> path \<Rightarrow> string option \<Rightarrow> string option \<Rightarrow> string option \<Rightarrow> string option \<Rightarrow> bool \<Rightarrow> (console, cli_error, unit) action" where
  "release_attach X in_file out_file project_name version git_commit build_timestamp force =
     act (check (ensure_input_file in_file)) (\<lambda>_.
     act (check (ensure_output_available out_file force)) (\<lambda>_.
     act (release_step_msg ''Failed to attach release metadata: ''
       (attach_release_metadata (cr_prims X) (cr_postcard X) in_file out_file project_name version git_commit build_timestamp)) (\<lambda>_.
       print (''Attached release metadata to '' @ display out_file))))"

definition recovery_attach :: "crates \<Rightarrow> path \<Rightarrow> path \<Rightarrow> string \<Rightarrow> bool \<Rightarrow> (console, cli_error, unit) action" where
  "recovery_attach X in_file out_file data force =
     act (check (ensure_input_file in_file)) (\<lambda>_.
     act (check (ensure_output_available out_file force)) (\<lambda>_.
     act (release_step_msg ''Failed to attach recovery metadata: ''
       (attach_recovery_metadata (cr_prims X) (cr_postcard X) in_file out_file (ascii data))) (\<lambda>_.
       print (''Attached recovery metadata to '' @ display out_file))))"

section \<open>Signatures\<close>

definition sign_keygen :: "crates \<Rightarrow> path \<Rightarrow> bool \<Rightarrow> (console, cli_error, unit) action" where
  "sign_keygen X out_base force =
     (let sign_path = with_extension out_base ''lvau-sign''; verify_path = with_extension out_base ''lvau-verify'' in
      act (check (ensure_output_available sign_path force)) (\<lambda>_.
      act (check (ensure_output_available verify_path force)) (\<lambda>_.
      act (print ''Generating Ed25519 signing keypair...'') (\<lambda>_.
      act (crypto_step (generate_signing_keypair (cr_ed X))) (\<lambda>(signing_key, verify_key).
      act (signing_step (save_signing_key (cr_base64 X) signing_key sign_path force)) (\<lambda>_.
      act (signing_step (save_verify_key (cr_base64 X) verify_key verify_path force)) (\<lambda>_.
        print_lines [''Signing key:  '' @ display sign_path, ''Verify key:   '' @ display verify_path,
          ''Fingerprint:  '' @ hex_bytes (key_fingerprint (cr_prims X) verify_key)])))))))"

definition sign ::
  "crates \<Rightarrow> environ \<Rightarrow> path \<Rightarrow> path \<Rightarrow> path \<Rightarrow> string option \<Rightarrow> bool \<Rightarrow> (console, cli_error, unit) action" where
  "sign X E in_file signing_key out_file comment force =
     act (check (ensure_input_file in_file)) (\<lambda>_.
     act (check (ensure_input_file signing_key)) (\<lambda>_.
     act (check (ensure_output_available out_file force)) (\<lambda>_.
     act (signing_step (load_signing_key (cr_base64 X) signing_key)) (\<lambda>key.
     act (signing_step (sign_file (cr_prims X) (cr_postcard X) (cr_ed X) (env_now E) in_file out_file key comment force)) (\<lambda>_.
       print (''Signed: '' @ display out_file))))))"

text \<open>\<open>match verify(..) { Ok(..) => print, Err(..) => print and exit(1) }\<close>\<close>

definition verify_signature_command :: "crates \<Rightarrow> path \<Rightarrow> path \<Rightarrow> (console, cli_error, unit) action" where
  "verify_signature_command X in_file verify_key =
     act (check (ensure_input_file in_file)) (\<lambda>_.
     act (check (ensure_input_file verify_key)) (\<lambda>_.
     act (signing_step (load_verify_key (cr_ed X) (cr_base64 X) verify_key)) (\<lambda>key.
     act (total_step (verify_signature (cr_prims X) (cr_postcard X) (cr_ed X) in_file key)) (\<lambda>res.
       case res of
         Inr fingerprint \<Rightarrow> print_lines [''Signature valid.'', ''Signer fingerprint: '' @ hex_bytes fingerprint]
       | Inl NotSigned \<Rightarrow> act (print ''File is not signed.'') (\<lambda>_. fail (CliExit 1))
       | Inl e \<Rightarrow> act (print_error_line ''Signature verification failed: '' (CauseSigning e)) (\<lambda>_. fail (CliExit 1))))))"

definition approve ::
  "crates \<Rightarrow> path \<Rightarrow> path \<Rightarrow> path \<Rightarrow> string option \<Rightarrow> bool \<Rightarrow> (console, cli_error, unit) action" where
  "approve X in_file out_file signing_key comment force =
     act (check (ensure_input_file in_file)) (\<lambda>_.
     act (check (ensure_input_file signing_key)) (\<lambda>_.
     act (check (ensure_output_available out_file force)) (\<lambda>_.
     act (signing_step (load_signing_key (cr_base64 X) signing_key)) (\<lambda>key.
     act (signing_step (add_approval_seal (cr_prims X) (cr_postcard X) (cr_ed X) in_file out_file key comment force)) (\<lambda>_.
       print (''Approval seal added: '' @ display out_file))))))"

definition approvals_command :: "crates \<Rightarrow> path \<Rightarrow> path \<Rightarrow> (console, cli_error, unit) action" where
  "approvals_command X in_file verify_key =
     act (check (ensure_input_file in_file)) (\<lambda>_.
     act (check (ensure_input_file verify_key)) (\<lambda>_.
     act (signing_step (load_verify_key (cr_ed X) (cr_base64 X) verify_key)) (\<lambda>key.
     act (total_step (verify_approvals (cr_prims X) (cr_postcard X) (cr_ed X) in_file key)) (\<lambda>res.
       case res of
         Inr True \<Rightarrow> print ''Valid approval seal found from this key.''
       | Inr False \<Rightarrow> act (print ''No valid approval seal found from this key.'') (\<lambda>_. fail (CliExit 1))
       | Inl e \<Rightarrow> act (print_error_line ''Error checking approvals: '' (CauseSigning e)) (\<lambda>_. fail (CliExit 1))))))"

section \<open>Shares\<close>

definition share_path :: "path \<Rightarrow> path \<Rightarrow> recovery_share \<Rightarrow> path" where
  "share_path in_file out_dir share =
     below out_dir [(case file_stem in_file of None \<Rightarrow> ''secret'' | Some s \<Rightarrow> s) @ ''.'' @
       decimal (unat (sh_index share)) @ ''.lvau-share'']"

text \<open>The loops stop at the first error.\<close>

fun for_each :: "('a \<Rightarrow> ('s, 'e, unit) action) \<Rightarrow> 'a list \<Rightarrow> ('s, 'e, unit) action" where
  "for_each f [] = ret ()"
| "for_each f (x # xs) = act (f x) (\<lambda>_. for_each f xs)"

definition write_share :: "crates \<Rightarrow> recovery_share \<Rightarrow> path \<Rightarrow> (console, cli_error, unit) action" where
  "write_share X share p =
     act (crypto_step_msg ''Failed to write share: '' (to_file_with_force (cr_shares X) share p False)) (\<lambda>_.
       print (''Generated share: '' @ display p))"

definition recovery_split ::
  "crates \<Rightarrow> path \<Rightarrow> byte \<Rightarrow> byte \<Rightarrow> path \<Rightarrow> (console, cli_error, unit) action" where
  "recovery_split X in_file shares threshold out_dir =
     act (check (ensure_input_file in_file)) (\<lambda>_.
     act (\<lambda>c. if path_exists (c_world c) out_dir then ret () c else io_step (create_dir_all out_dir) c) (\<lambda>_.
     act (io_step (fs_read in_file)) (\<lambda>secret_data.
     act (crypto_step_msg ''Failed to split secret: '' (split_secret (cr_sharks X) secret_data shares threshold)) (\<lambda>generated_shares.
     let share_outputs = map (\<lambda>share. (share, share_path in_file out_dir share)) generated_shares in
     act (for_each (\<lambda>(_, p). check (ensure_output_available p False)) share_outputs) (\<lambda>_.
     act (for_each (\<lambda>(share, p). write_share X share p) share_outputs) (\<lambda>_.
       print (''Successfully generated '' @ decimal (unat shares) @ '' shares (threshold: '' @ decimal (unat threshold) @
         '') in '' @ display out_dir)))))))"

text \<open>Unreadable shares are skipped with a warning.\<close>

fun load_shares ::
  "crates \<Rightarrow> (io_error + path) list \<Rightarrow> (console, cli_error, recovery_share list) action" where
  "load_shares X [] = ret []"
| "load_shares X (Inl e # rest) = fail (CliIo e)"
| "load_shares X (Inr p # rest) =
     (if extension p = Some ''lvau-share''
      then act (total_step (share_from_file (cr_shares X) p)) (\<lambda>r.
        (case r of
           Inr share \<Rightarrow> act (load_shares X rest) (\<lambda>shares. ret (share # shares))
         | Inl e \<Rightarrow> act (print_error_line (''Warning: Failed to load share '' @ display p @ '': '') (CauseCrypto e))
             (\<lambda>_. load_shares X rest)))
      else load_shares X rest)"

definition recovery_combine :: "crates \<Rightarrow> environ \<Rightarrow> path \<Rightarrow> path \<Rightarrow> bool \<Rightarrow> (console, cli_error, unit) action" where
  "recovery_combine X E shares_dir out_file force =
     act (check (ensure_output_available out_file force)) (\<lambda>_.
     act (\<lambda>c. (map_err CliIo (env_list E (c_world c) shares_dir), c)) (\<lambda>dir_entries.
     act (load_shares X dir_entries) (\<lambda>loaded_shares.
     act (lift (ensure (loaded_shares \<noteq> []) (CliMessage ''No valid .lvau-share files found in directory''))) (\<lambda>_.
     act (lift (map_err (\<lambda>e. CliCause ''Failed to combine shares: '' (CauseCrypto e))
       (combine_shares (cr_prims X) (cr_sharks X) loaded_shares))) (\<lambda>recovered.
     act (crypto_step (write_recovered_secret out_file recovered force)) (\<lambda>_.
       print (''Successfully recovered secret to '' @ display out_file)))))))"

definition recovery_inspect :: "crates \<Rightarrow> path \<Rightarrow> (console, cli_error, unit) action" where
  "recovery_inspect X in_file =
     act (check (ensure_input_file in_file)) (\<lambda>_.
     act (crypto_step_msg ''Failed to read share: '' (share_from_file (cr_shares X) in_file)) (\<lambda>share.
       print_lines [''Recovery Share:'', ''  Version:     '' @ decimal (unat (sh_version share)),
         ''  Index:       '' @ decimal (unat (sh_index share)),
         ''  Threshold:   '' @ decimal (unat (sh_threshold share)),
         ''  Fingerprint: '' @ hex_bytes (sh_fingerprint share),
         ''  Data Length: '' @ decimal (length (sh_data share)) @ '' bytes'']))"

section \<open>Secrets\<close>

text \<open>\<open>in_file.with_extension(format!("{}.lvau", extension or ""))\<close>\<close>

definition secret_out_path :: "path \<Rightarrow> path" where
  "secret_out_path in_file =
     with_extension in_file ((case extension in_file of None \<Rightarrow> '''' | Some ext \<Rightarrow> ext) @ ''.lvau'')"

definition local_policy :: "crates \<Rightarrow> (console, cli_error, capsule_policy option) action" where
  "local_policy X c =
     (let pol_path = Path False [''.lvau-policy.toml''] in
      if path_exists (c_world c) pol_path
      then act (on_world (act_map_err (\<lambda>e. CliMessage (''Failed to load local policy: '' @ e))
        (policy_load_from_file (cr_io_text X) (cr_from_policy X) pol_path))) (\<lambda>pol. ret (Some pol)) c
      else (Inr None, c))"

definition secret_encrypt :: "crates \<Rightarrow> path \<Rightarrow> (console, cli_error, unit) action" where
  "secret_encrypt X in_file =
     act (check (ensure_input_file in_file)) (\<lambda>_.
     let out_file = secret_out_path in_file in
     act prompt_password (\<lambda>pwd.
     act prompt_password (\<lambda>confirm.
     act (lift (ensure (pwd = confirm) (CliMessage ''Passwords do not match''))) (\<lambda>_.
     act (local_policy X) (\<lambda>pol.
     act (crypto_step_msg ''Crypto error: ''
       (encrypt_file_password (cr_prims X) (cr_postcard X) in_file out_file pwd None Balanced pol False)) (\<lambda>_.
       print (''Secret encrypted to '' @ display out_file)))))))"

definition secret_decrypt :: "crates \<Rightarrow> path \<Rightarrow> (console, cli_error, unit) action" where
  "secret_decrypt X in_file =
     act (check (ensure_input_file in_file)) (\<lambda>_.
     let out_file = with_extension in_file [] in
     act (check (ensure_output_available out_file False)) (\<lambda>_.
     act prompt_password (\<lambda>pwd.
     act (crypto_step_msg ''Crypto error: '' (decrypt_file_password (cr_prims X) (cr_postcard X) in_file out_file pwd None)) (\<lambda>_.
       print (''Secret decrypted to '' @ display out_file)))))"

text \<open>The temporary directory disappears whatever happens inside.\<close>

definition in_temp_dir :: "path \<Rightarrow> (console, 'e, 'a) action \<Rightarrow> (console, 'e, 'a) action" where
  "in_temp_dir tmp m c =
     (case m (c\<lparr>c_world := (c_world c)\<lparr>w_fs := (w_fs (c_world c))(resolve (c_world c) tmp \<mapsto> Directory)\<rparr>\<rparr>) of
        (r, c1) \<Rightarrow> (r, c1\<lparr>c_world := remove_below tmp (c_world c1)\<rparr>))"

text \<open>\<open>in_file.file_name().unwrap()\<close> cannot fail for an existing file.\<close>

definition secret_edit :: "crates \<Rightarrow> environ \<Rightarrow> path \<Rightarrow> (console, cli_error, unit) action" where
  "secret_edit X E in_file =
     act (check (ensure_input_file in_file)) (\<lambda>_.
     act prompt_password (\<lambda>pwd.
       in_temp_dir (env_tmp E)
        (let temp_file = below (env_tmp E) [the (file_name in_file)] in
         act (crypto_step_msg ''Crypto error: '' (decrypt_file_password (cr_prims X) (cr_postcard X) in_file temp_file pwd None)) (\<lambda>_.
         act (on_world (act_map_err (\<lambda>e. CliMessage (''Failed to launch editor: '' @ cr_io_text X e)) (env_edit E temp_file))) (\<lambda>success.
         act (lift (ensure success (CliMessage ''Editor exited with non-zero status. Changes aborted.''))) (\<lambda>_.
         act (local_policy X) (\<lambda>pol.
         act (crypto_step_msg ''Crypto error: ''
           (encrypt_file_password (cr_prims X) (cr_postcard X) temp_file in_file pwd None Balanced pol False)) (\<lambda>_.
           print (''Secret '' @ display in_file @ '' updated successfully.''))))))))) "

definition secret_print :: "crates \<Rightarrow> environ \<Rightarrow> path \<Rightarrow> (console, cli_error, unit) action" where
  "secret_print X E in_file =
     act (check (ensure_input_file in_file)) (\<lambda>_.
     act prompt_password (\<lambda>pwd.
       in_temp_dir (env_tmp E)
        (let temp_file = below (env_tmp E) [''print.tmp''] in
         act (crypto_step_msg ''Crypto error: '' (decrypt_file_password (cr_prims X) (cr_postcard X) in_file temp_file pwd None)) (\<lambda>_.
         act (io_step (fs_read temp_file)) (\<lambda>content.
         act (lift (ensure (utf8_valid content) (CliIo InvalidData))) (\<lambda>_.
           print (map (\<lambda>b. char_of (unat b)) content)))))))"

section \<open>Diagnostics\<close>

text \<open>Operating system and architecture are constants of the build.\<close>

definition doctor :: "environ \<Rightarrow> string \<Rightarrow> string \<Rightarrow> (console, cli_error, unit) action" where
  "doctor E os arch =
     act (print_lines [''Lvau Diagnostics'', ''----------------'', ''Version: '' @ env_version E, ''OS: '' @ os, ''Arch: '' @ arch]) (\<lambda>_.
     let exe_path = (case env_exe E of Inr p \<Rightarrow> p | Inl _ \<Rightarrow> Path False [''unknown'']);
         stub_path = below (parent_or_dot exe_path) [''lvau-stub''] in
     act (print (''Executable path: '' @ display exe_path)) (\<lambda>_.
     act (\<lambda>c. print (''SFX Stub available: '' @ bool_text (path_exists (c_world c) stub_path)) c) (\<lambda>_.
     act (total_step (\<lambda>w.
       let test_file = Path True (w_cwd w @ [''.lvau-write-test'']) in
       (case fs_write test_file (ascii ''test'') w of (r, w1) \<Rightarrow>
          if is_ok r then (True, snd (remove_file test_file w1)) else (False, w1)))) (\<lambda>writable.
       print (''Current directory writable: '' @ bool_text writable)))))"

end
