(* ===== verification/Cli_Run.thy ===== *)
theory Cli_Run
  imports Cli_Artifacts
begin

text \<open>
  The rest of lvau-cli (main.rs): the self-test, the command type with its dispatch \<open>run\<close>, and
  \<open>main\<close>. A session is any sequence of invocations on one file system.
\<close>

section \<open>Self-test\<close>

text \<open>\<open>let _ = fs::remove_file(path);\<close> for the files of a test\<close>

definition discard_all :: "path list \<Rightarrow> (world, 'e, unit) action" where
  "discard_all ps w = (Inr (), fold (\<lambda>p w. snd (remove_file p w)) ps w)"

definition test_path :: "environ \<Rightarrow> string \<Rightarrow> path" where
  "test_path E name = below (env_temp_dir E) [name]"

definition io_world :: "(world, io_error, 'a) action \<Rightarrow> (world, cli_error, 'a) action" where
  "io_world = act_map_err CliIo"

definition crypto_world :: "(world, crypto_error, 'a) action \<Rightarrow> (world, cli_error, 'a) action" where
  "crypto_world = act_map_err CliCrypto"

definition test_encrypt :: "crates \<Rightarrow> path \<Rightarrow> path \<Rightarrow> (world, cli_error, unit) action" where
  "test_encrypt X in_path enc_path = crypto_world (encrypt_file_password (cr_prims X) (cr_postcard X) in_path enc_path
     (ascii ''testpass'') None Fast None False)"

definition password_test :: "crates \<Rightarrow> path \<Rightarrow> path \<Rightarrow> path \<Rightarrow> bytes \<Rightarrow> string \<Rightarrow> (world, cli_error, unit) action" where
  "password_test X in_path enc_path dec_path data mismatch =
     act (io_world (fs_write in_path data)) (\<lambda>_.
     act (test_encrypt X in_path enc_path) (\<lambda>_.
     act (crypto_world (decrypt_file_password (cr_prims X) (cr_postcard X) enc_path dec_path (ascii ''testpass'') None)) (\<lambda>_.
     act (io_world (fs_read dec_path)) (\<lambda>dec_data.
     act (discard_all [in_path, enc_path, dec_path]) (\<lambda>_.
       lift (ensure (dec_data = data) (CliMessage mismatch)))))))"

text \<open>A test that expects decryption to fail, after \<open>tamper\<close> has changed the capsule.\<close>

definition rejection_test ::
  "crates \<Rightarrow> path \<Rightarrow> path \<Rightarrow> path \<Rightarrow> bytes \<Rightarrow> (world, cli_error, unit) action \<Rightarrow> bytes \<Rightarrow> string \<Rightarrow> (world, cli_error, unit) action" where
  "rejection_test X in_path enc_path dec_path data tamper pwd expected =
     act (io_world (fs_write in_path data)) (\<lambda>_.
     act (test_encrypt X in_path enc_path) (\<lambda>_.
     act tamper (\<lambda>_.
     act (\<lambda>w. case decrypt_file_password (cr_prims X) (cr_postcard X) enc_path dec_path pwd None w of (r, w1) \<Rightarrow> (Inr r, w1)) (\<lambda>res.
     act (discard_all [in_path, enc_path, dec_path]) (\<lambda>_.
       lift (ensure (\<not> is_ok res) (CliMessage expected)))))))"

text \<open>\<open>enc_data[len - 1] ^= 1\<close>\<close>

definition flip_last :: "bytes \<Rightarrow> bytes" where
  "flip_last bs = (if bs = [] then [] else butlast bs @ [last bs XOR 1])"

definition tamper_file :: "path \<Rightarrow> (world, cli_error, unit) action" where
  "tamper_file enc_path =
     act (io_world (fs_read enc_path)) (\<lambda>enc_data. io_world (fs_write enc_path (flip_last enc_data)))"

definition keypair_test :: "crates \<Rightarrow> path \<Rightarrow> path \<Rightarrow> path \<Rightarrow> bytes \<Rightarrow> (world, cli_error, unit) action" where
  "keypair_test X in_path enc_path dec_path data =
     act (io_world (fs_write in_path data)) (\<lambda>_.
     act (crypto_world (generate_keypair (cr_prims X) (cr_mlkem X))) (\<lambda>(priv_key, pub_key).
     act (crypto_world (encrypt_file_keypairs (cr_prims X) (cr_postcard X) in_path enc_path [pub_key] Fast None False)) (\<lambda>_.
     act (crypto_world (decrypt_file_keypair (cr_prims X) (cr_postcard X) enc_path dec_path priv_key)) (\<lambda>_.
     act (io_world (fs_read dec_path)) (\<lambda>dec_data.
     act (discard_all [in_path, enc_path, dec_path]) (\<lambda>_.
       lift (ensure (dec_data = data) (CliMessage ''Data mismatch''))))))))"

definition self_tests :: "crates \<Rightarrow> environ \<Rightarrow> (string \<times> (world, cli_error, unit) action) list" where
  "self_tests X E =
     [(''password_roundtrip'', password_test X (test_path E ''lvau_test_in_pw.bin'') (test_path E ''lvau_test_enc_pw.lvau'')
         (test_path E ''lvau_test_dec_pw.bin'') (ascii ''hello world password test'') ''Data mismatch''),
      (''wrong_password_rejection'', rejection_test X (test_path E ''lvau_test_in_wp.bin'') (test_path E ''lvau_test_enc_wp.lvau'')
         (test_path E ''lvau_test_dec_wp.bin'') (ascii ''hello world password test'') (ret ()) (ascii ''wrongpass'')
         ''Expected decryption to fail''),
      (''tamper_detection'', rejection_test X (test_path E ''lvau_test_in_t.bin'') (test_path E ''lvau_test_enc_t.lvau'')
         (test_path E ''lvau_test_dec_t.bin'') (ascii ''hello world password test'')
         (tamper_file (test_path E ''lvau_test_enc_t.lvau'')) (ascii ''testpass'') ''Expected tamper detection to fail''),
      (''streaming_large_file'', password_test X (test_path E ''lvau_test_in_lf.bin'') (test_path E ''lvau_test_enc_lf.lvau'')
         (test_path E ''lvau_test_dec_lf.bin'') (replicate 2500000 0x42) ''Data mismatch on large file''),
      (''keypair_roundtrip'', keypair_test X (test_path E ''lvau_test_in_kp.bin'') (test_path E ''lvau_test_enc_kp.lvau'')
         (test_path E ''lvau_test_dec_kp.bin'') (ascii ''hello world keypair test''))]"

text \<open>The \<open>Display\<close> of an error; a message that quotes another error ends before it.\<close>

definition cli_text :: "crates \<Rightarrow> cli_error \<Rightarrow> string" where
  "cli_text X e = (case e of CliMessage m \<Rightarrow> m | CliCause m _ \<Rightarrow> m | CliIo i \<Rightarrow> cr_io_text X i
     | CliCrypto c \<Rightarrow> cr_crypto_text X c | CliExit _ \<Rightarrow> [])"

definition pad_right :: "nat \<Rightarrow> string \<Rightarrow> string" where
  "pad_right n s = s @ replicate (n - length s) CHR '' ''"

fun run_tests ::
  "crates \<Rightarrow> (string \<times> (world, cli_error, unit) action) list \<Rightarrow> nat \<Rightarrow> nat \<Rightarrow> (console, cli_error, nat \<times> nat) action" where
  "run_tests X [] passed failed = ret (passed, failed)"
| "run_tests X ((name, test) # rest) passed failed =
     act (total_step test) (\<lambda>res.
     act (print (''Test '' @ pad_right 30 name @ '' ... '' @
       (case res of Inr _ \<Rightarrow> ''OK'' | Inl e \<Rightarrow> ''FAILED ('' @ cli_text X e @ '')''))) (\<lambda>_.
       if is_ok res then run_tests X rest (passed + 1) failed else run_tests X rest passed (failed + 1)))"

definition run_self_test :: "crates \<Rightarrow> environ \<Rightarrow> (console, cli_error, unit) action" where
  "run_self_test X E =
     act (run_tests X (self_tests X E) 0 0) (\<lambda>(passed, failed).
     act (print_lines [[], ''Self-test summary: '' @ decimal passed @ '' passed, '' @ decimal failed @ '' failed'']) (\<lambda>_.
       lift (ensure (failed = 0) (CliMessage ''One or more self-tests failed''))))"

section \<open>Dispatch\<close>

text \<open>
  The commands after the parsing of the arguments: \<open>Commands\<close> and its subcommands with their
  arguments. The two names of a group command are the text and the path of the same argument, and
  those of \<open>Doctor\<close> are constants of the build.
\<close>

datatype policy_action =
    PolicyInspect path
  | PolicyLint path path bool
  | PolicyCreate path bool

datatype bundle_action =
    BundlePack pack_args
  | BundleInspect path bool
  | BundleDiff path path bool "path option" bool "path option" bool
  | BundleList path bool "path option" bool
  | BundleExtract path path bool "path option" bool bool bool
  | BundleVerify path bool "path option"

datatype group_action =
    GroupCreate string path
  | GroupAdd string path path
  | GroupRemove string path string
  | GroupList path

datatype recipients_action = RecipientGroups group_action

datatype release_action =
    ReleaseAttach path path "string option" "string option" "string option" "string option" bool

datatype recovery_action =
    RecoveryAttach path path string bool
  | RecoverySplit path byte byte path
  | RecoveryCombine path path bool
  | RecoveryInspect path

datatype secret_action =
    SecretEncrypt path
  | SecretDecrypt path
  | SecretEdit path
  | SecretPrint path

datatype command =
    Keygen path bool
  | Encrypt encrypt_args
  | Decrypt path path credentials bool
  | Inspect path bool
  | Verify path credentials bool
  | Preflight path "path option" "path option" bool
  | Report path "path option" "path option" credentials bool
  | Policies policy_action
  | Bundles bundle_action
  | Recipients recipients_action
  | Releases release_action
  | Recoveries recovery_action
  | Secrets secret_action
  | SignKeygen path bool
  | Sign path path path "string option" bool
  | VerifySignature path path
  | Approve path path path "string option" bool
  | Approvals path path
  | SelfTest
  | Doctor string string

fun run_policy :: "crates \<Rightarrow> policy_action \<Rightarrow> (console, cli_error, unit) action" where
  "run_policy X (PolicyInspect in_file) = policy_inspect X in_file"
| "run_policy X (PolicyLint in_file pol json) = policy_lint X in_file pol json"
| "run_policy X (PolicyCreate out_file force) = policy_create X out_file force"

fun run_bundle :: "crates \<Rightarrow> environ \<Rightarrow> bundle_action \<Rightarrow> (console, cli_error, unit) action" where
  "run_bundle X E (BundlePack a) = bundle_pack X E a"
| "run_bundle X E (BundleInspect in_file json) = bundle_inspect X in_file json"
| "run_bundle X E (BundleList in_file pw pf json) = bundle_list X E in_file pw pf json"
| "run_bundle X E (BundleDiff p q pw pf pw' pf' json) = bundle_diff X E p q pw pf pw' pf' json"
| "run_bundle X E (BundleExtract in_file out_dir pw pf links dry force) = bundle_extract X E in_file out_dir pw pf links dry force"
| "run_bundle X E (BundleVerify in_file pw pf) = bundle_verify X E in_file pw pf"

fun run_group :: "crates \<Rightarrow> group_action \<Rightarrow> (console, cli_error, unit) action" where
  "run_group X (GroupCreate name p) = group_create_command X name p"
| "run_group X (GroupAdd name p k) = group_add_command X name p k"
| "run_group X (GroupRemove name p fp) = group_remove_command X name p fp"
| "run_group X (GroupList p) = group_list X p"

fun run_release :: "crates \<Rightarrow> release_action \<Rightarrow> (console, cli_error, unit) action" where
  "run_release X (ReleaseAttach i p pn v g b force) = release_attach X i p pn v g b force"

fun run_recovery :: "crates \<Rightarrow> environ \<Rightarrow> recovery_action \<Rightarrow> (console, cli_error, unit) action" where
  "run_recovery X E (RecoveryAttach i p d force) = recovery_attach X i p d force"
| "run_recovery X E (RecoverySplit i n t d) = recovery_split X i n t d"
| "run_recovery X E (RecoveryCombine d p force) = recovery_combine X E d p force"
| "run_recovery X E (RecoveryInspect i) = recovery_inspect X i"

fun run_secret :: "crates \<Rightarrow> environ \<Rightarrow> secret_action \<Rightarrow> (console, cli_error, unit) action" where
  "run_secret X E (SecretEncrypt i) = secret_encrypt X i"
| "run_secret X E (SecretDecrypt i) = secret_decrypt X i"
| "run_secret X E (SecretEdit i) = secret_edit X E i"
| "run_secret X E (SecretPrint i) = secret_print X E i"

fun run :: "crates \<Rightarrow> environ \<Rightarrow> command \<Rightarrow> (console, cli_error, unit) action" where
  "run X E (Keygen out_base force) = keygen X out_base force"
| "run X E (Encrypt a) = encrypt X E a"
| "run X E (Decrypt in_file out_file cr force) = decrypt X E in_file out_file cr force"
| "run X E (Inspect in_file json) = inspect X in_file json"
| "run X E (Verify in_file cr json) = verify X E in_file cr json"
| "run X E (Preflight in_file key pol json) = preflight X in_file key pol json"
| "run X E (Report in_file key pol cr json) = report X E in_file key pol cr json"
| "run X E (Policies a) = run_policy X a"
| "run X E (Bundles a) = run_bundle X E a"
| "run X E (Recipients (RecipientGroups a)) = run_group X a"
| "run X E (Releases a) = run_release X a"
| "run X E (Recoveries a) = run_recovery X E a"
| "run X E (Secrets a) = run_secret X E a"
| "run X E (SignKeygen b force) = sign_keygen X b force"
| "run X E (Sign i k p cm force) = sign X E i k p cm force"
| "run X E (VerifySignature i k) = verify_signature_command X i k"
| "run X E (Approve i p k cm force) = approve X i p k cm force"
| "run X E (Approvals i k) = approvals_command X i k"
| "run X E SelfTest = act (print ''Running self-test...'') (\<lambda>_. run_self_test X E)"
| "run X E (Doctor os arch) = doctor E os arch"

text \<open>
  \<open>main\<close>: the exit status; \<open>eprintln!("error: {error}")\<close> unless the command has ended the process
  itself. The text of a quoted error stays a value.
\<close>

definition error_line :: "crates \<Rightarrow> cli_error \<Rightarrow> out_line" where
  "error_line X e = (case e of
       CliCause m cause \<Rightarrow> ErrorLine (''error: '' @ m) cause
     | _ \<Rightarrow> ErrorText (''error: '' @ cli_text X e))"

definition main :: "crates \<Rightarrow> environ \<Rightarrow> command \<Rightarrow> console \<Rightarrow> nat \<times> console" where
  "main X E cmd c =
     (case run X E cmd c of
        (Inr _, c1) \<Rightarrow> (0, c1)
      | (Inl (CliExit n), c1) \<Rightarrow> (n, c1)
      | (Inl e, c1) \<Rightarrow> (1, c1\<lparr>c_out := c_out c1 @ [error_line X e]\<rparr>))"

end
