(* ===== verification/Extract_Frames.thy ===== *)
theory Extract_Frames
  imports Frames Extract_Correct
begin

text \<open>
  Which files extraction can change, on the file system of the world: the entries under the
  temporary name, the missing directories on the way to the output directory, and the output
  directory with what is below it; nothing behind a link.
\<close>

section \<open>The names of an output directory\<close>

definition key_of :: "string list \<Rightarrow> path \<Rightarrow> string list" where
  "key_of cwd p = (if absolute p then [] else cwd) @ filter (\<lambda>c. c \<noteq> ''.'') (comps p)"

lemma key_of_resolve: "w_cwd w = cwd \<Longrightarrow> key_of cwd p = resolve w p"
  by (simp add: key_of_def resolve_def)

text \<open>A directory, the directories on the way to it, and everything in it; none for the empty path.\<close>

definition out_targets :: "string list \<Rightarrow> path \<Rightarrow> string list set" where
  "out_targets cwd d =
     (if d = Path False [] then {} else {k. (\<exists>i. k = take i (key_of cwd d)) \<or> (\<exists>n. k = key_of cwd d @ n)})"

lemma under_split: "under w p q \<longleftrightarrow> (\<exists>n. q = resolve w p @ n)"
  by (auto simp: under_def) (metis append_take_drop_id)

lemma write_back_fs:
  "w_fs (write_back d (w, x)) q =
     (if d \<noteq> Path False [] \<and> under w d q then map_option node_back (x_tree x (drop (length (resolve w d)) q)) else w_fs w q)"
  by (simp add: write_back_def)

lemma write_back_sel [simp]: "w_cwd (write_back d (w, x)) = w_cwd w" "resolve (write_back d (w, x)) p = resolve w p"
  by (simp_all add: write_back_def resolve_def)

section \<open>Steps on a world and a tree\<close>

text \<open>
  A step that works under the temporary name, then makes the way to the output directory, and
  changes the tree as an extraction may.
\<close>

definition tree_step :: "path \<Rightarrow> bool \<Rightarrow> path \<Rightarrow> (world \<times> xworld, 'e, 'a) action \<Rightarrow> bool" where
  "tree_step tmp force d m \<longleftrightarrow> (\<forall>w x r w' x'. m (w, x) = (r, w', x') \<longrightarrow> (\<exists>w1 fs.
     w_cwd w1 = w_cwd w \<and> (\<forall>k. \<not> under w tmp k \<longrightarrow> w_fs w1 k = w_fs w k) \<and>
     dirs_made (butlast (resolve w d)) w1 w' \<and> (d = Path False [] \<longrightarrow> w' = w1) \<and> extracted fs force x x'))"

lemma tree_step_map_err: "tree_step tmp force d m \<Longrightarrow> tree_step tmp force d (act_map_err g m)"
  unfolding tree_step_def act_map_err_def by (auto split: prod.splits)

lemma tree_step_create: "tree_step tmp force d (create_output_dir d)"
  unfolding tree_step_def
proof (intro allI impI)
  fix w x r w' x' assume run: "create_output_dir d (w, x) = (r, w', x')"
  note made = create_output_dir_made [OF run]
  show "\<exists>w1 fs. w_cwd w1 = w_cwd w \<and> (\<forall>k. \<not> under w tmp k \<longrightarrow> w_fs w1 k = w_fs w k) \<and>
      dirs_made (butlast (resolve w d)) w1 w' \<and> (d = Path False [] \<longrightarrow> w' = w1) \<and> extracted fs force x x'"
    using made(1,2,4) by (intro exI [of _ w] exI [of _ "{}"]) auto
qed

lemma tree_step_extract: "tree_step tmp force d (extract_bundle P S B tmp inp d pw force dry_run)"
  unfolding tree_step_def
proof (intro allI impI)
  fix w x r w' x' assume run: "extract_bundle P S B tmp inp d pw force dry_run (w, x) = (r, w', x')"
  obtain q w1 where q: "decrypt_and_open P S B tmp inp pw w = (q, w1)" by fastforce
  have "frame (w_cwd w) (dest_below (w_cwd w) tmp) (decrypt_and_open P S B tmp inp pw)" by (intro framing subset_refl)
  with q have w1: "w_cwd w1 = w_cwd w" "\<forall>k. \<not> under w tmp k \<longrightarrow> w_fs w1 k = w_fs w k"
    unfolding frame_def by (metis snd_conv, metis snd_conv dest_below_under)
  have res: "resolve w1 d = resolve w d" using w1(1) by (simp add: resolve_def)
  have "\<exists>fs. dirs_made (butlast (resolve w1 d)) w1 w' \<and> (d = Path False [] \<longrightarrow> w' = w1) \<and> extracted fs force x x'"
  proof (cases "w' = w1 \<and> x' = x")
    case True
    then show ?thesis by (intro exI [of _ "{}"]) simp
  next
    case False
    then obtain b where "extract_verified d force dry_run b (w1, x) = (r, w', x')"
      using run q by (auto simp: extract_bundle_def split: sum.splits)
    note v = extract_verified_extracted [OF this]
    from v(1) False have "\<not> dry_run" by blast
    with v(2) obtain s x1 where s: "create_output_dir d (w1, x) = (s, w', x1)"
        and e: "extracted (files_of (db_all b) (db_data_start b) (entries (db_manifest b))) force x1 x'" by auto
    note made = create_output_dir_made [OF s]
    from extracted_trans [OF made(2) e] made(1,4) show ?thesis by blast
  qed
  with w1 show "\<exists>w1 fs. w_cwd w1 = w_cwd w \<and> (\<forall>k. \<not> under w tmp k \<longrightarrow> w_fs w1 k = w_fs w k) \<and>
      dirs_made (butlast (resolve w d)) w1 w' \<and> (d = Path False [] \<longrightarrow> w' = w1) \<and> extracted fs force x x'"
    unfolding res by blast
qed

section \<open>On the file system\<close>

lemma on_target_obtain:
  assumes "tree_step tmp force d m" "on_target E d m c = (r, c')"
  obtains w1 w x fs where "w_cwd w1 = w_cwd (c_world c)"
    "\<forall>k. \<not> under (c_world c) tmp k \<longrightarrow> w_fs w1 k = w_fs (c_world c) k"
    "dirs_made (butlast (resolve (c_world c) d)) w1 w" "d = Path False [] \<longrightarrow> w = w1"
    "extracted fs force (tree_of (env_links E (c_world c)) (c_world c) d) x"
    "c_world c' = write_back d (w, x)" "c_beyond c' = c_beyond c"
proof -
  obtain w x where run: "m (c_world c, tree_of (env_links E (c_world c)) (c_world c) d) = (r, w, x)"
      and c': "c_world c' = write_back d (w, x)" "c_beyond c' = c_beyond c @ map ((@) (resolve w d)) (x_changed x)"
    using assms(2) by (auto simp: on_target_def split: prod.splits)
  with assms(1) [unfolded tree_step_def, rule_format, OF run] obtain w1 fs where *:
      "w_cwd w1 = w_cwd (c_world c)" "\<forall>k. \<not> under (c_world c) tmp k \<longrightarrow> w_fs w1 k = w_fs (c_world c) k"
      "dirs_made (butlast (resolve (c_world c) d)) w1 w" "d = Path False [] \<longrightarrow> w = w1"
      "extracted fs force (tree_of (env_links E (c_world c)) (c_world c) d) x" by blast
  then have "x_changed x = []" by (simp add: extracted_def tree_of_def)
  then show ?thesis using that * c' by simp
qed

lemma frame_on_target:
  assumes m: "tree_step tmp force d m" and A: "dest_below cwd tmp \<subseteq> A" "out_targets cwd d \<subseteq> A"
  shows "cframe cwd A (on_target E d m)"
  unfolding frame_on_def
proof (intro allI impI)
  fix c :: console assume cwd: "w_cwd (c_world c) = cwd"
  obtain r c' where run: "on_target E d m c = (r, c')" by fastforce
  obtain w1 w x fs where *: "w_cwd w1 = w_cwd (c_world c)"
      "\<forall>k. \<not> under (c_world c) tmp k \<longrightarrow> w_fs w1 k = w_fs (c_world c) k"
      "dirs_made (butlast (resolve (c_world c) d)) w1 w" "d = Path False [] \<longrightarrow> w = w1"
      "extracted fs force (tree_of (env_links E (c_world c)) (c_world c) d) x"
      "c_world c' = write_back d (w, x)" "c_beyond c' = c_beyond c"
    by (rule on_target_obtain [OF m run], rule that; assumption)
  have key: "key_of cwd d = resolve (c_world c) d" "resolve w d = resolve (c_world c) d" "w_cwd w = cwd"
    using cwd dirs_made_sel [OF *(3)] *(1) by (simp_all add: key_of_resolve resolve_def)
  have "w_fs (c_world c') k = w_fs (c_world c) k" if k: "k \<notin> A" for k
  proof -
    have k1: "w_fs w1 k = w_fs (c_world c) k" using *(2) k A(1) dest_below_under [OF cwd] by blast
    show ?thesis
    proof (cases "d = Path False []")
      case True
      then show ?thesis using *(4,6) k1 by (simp add: write_back_def)
    next
      case False
      then have out: "k \<noteq> take i (resolve (c_world c) d)" "k \<noteq> resolve (c_world c) d @ n" for i n
        using k A(2) by (auto simp: out_targets_def key(1) split: if_splits)
      have "w_fs w k = w_fs w1 k"
        using *(3) out(1) unfolding dirs_made_def by (metis butlast_conv_take take_take)
      moreover have "\<not> under w d k" using out(2) by (simp add: under_split key(2))
      ultimately show ?thesis using *(6) k1 by (simp add: write_back_fs)
    qed
  qed
  then show "w_cwd (c_world (snd (on_target E d m c))) = cwd \<and> c_beyond (snd (on_target E d m c)) = c_beyond c \<and>
      (\<forall>k. k \<notin> A \<longrightarrow> w_fs (c_world (snd (on_target E d m c))) k = w_fs (c_world c) k)"
    using run *(6,7) key(3) by simp
qed

text \<open>Without force, what is there stays, under the temporary name apart.\<close>

lemma on_target_keeps:
  assumes m: "tree_step tmp False d m" and run: "on_target E d m c = (r, c')"
  shows "w_cwd (c_world c') = w_cwd (c_world c) \<and>
    (\<forall>k n. \<not> under (c_world c) tmp k \<longrightarrow> w_fs (c_world c) k = Some n \<longrightarrow> w_fs (c_world c') k = Some n)"
proof -
  let ?x = "tree_of (env_links E (c_world c)) (c_world c) d"
  obtain w1 w x fs where *: "w_cwd w1 = w_cwd (c_world c)"
      "\<forall>k. \<not> under (c_world c) tmp k \<longrightarrow> w_fs w1 k = w_fs (c_world c) k"
      "dirs_made (butlast (resolve (c_world c) d)) w1 w" "d = Path False [] \<longrightarrow> w = w1" "extracted fs False ?x x"
      "c_world c' = write_back d (w, x)" "c_beyond c' = c_beyond c"
    by (rule on_target_obtain [OF m run], rule that; assumption)
  have res: "resolve w d = resolve (c_world c) d" "w_cwd w = w_cwd (c_world c)"
    using dirs_made_sel [OF *(3)] *(1) by (simp_all add: resolve_def)
  have "w_fs (c_world c') k = Some n" if k: "\<not> under (c_world c) tmp k" "w_fs (c_world c) k = Some n" for k n
  proof (cases "d \<noteq> Path False [] \<and> under w d k")
    case True
    then obtain j where j: "k = resolve (c_world c) d @ j" by (auto simp: under_split res)
    then have x: "x_tree ?x j = Some (node_view (env_links E (c_world c)) k n)" using True k by (simp add: tree_of_def)
    from extracted_at [OF *(5), of j] have "x_tree x j = x_tree ?x j" by (auto simp: x change_ok_def may_replace_def)
    with True x j show ?thesis by (simp add: *(6) write_back_fs res)
  next
    case False
    have "w_fs w1 k = Some n" using k *(2) by simp
    from dirs_made_keeps [OF *(3) this] False show ?thesis by (auto simp: *(6) write_back_fs)
  qed
  with res show ?thesis by (simp add: *(6))
qed

end
