(* ===== verification/Cli_Safety.thy ===== *)
theory Cli_Safety
  imports Cli_Run Extract_Frames
begin

text \<open>
  What the commands of lvau-cli can do to files: the entries each command can change, whatever its
  outcome, and that a session without the replacing commands changes nothing that exists.
\<close>

section \<open>Frames of the shared steps\<close>

lemma frame_total_step [framing]:
  assumes "\<And>w. w_cwd w = cwd \<Longrightarrow> w_cwd (snd (m w)) = cwd \<and> (\<forall>k. k \<notin> A \<longrightarrow> w_fs (snd (m w)) k = w_fs w k)"
  shows "cframe cwd A (total_step m)"
  using assms by (auto simp: frame_on_def total_step_def split: prod.splits) (metis snd_conv)+

lemma frame_total_action:
  "frame cwd A m \<Longrightarrow> w_cwd w = cwd \<Longrightarrow> w_cwd (snd (m w)) = cwd \<and> (\<forall>k. k \<notin> A \<longrightarrow> w_fs (snd (m w)) k = w_fs w k)"
  by (simp add: frame_def)

lemma frame_checks [framing]:
  "cframe cwd A (check (ensure_input_file p))" "cframe cwd A (check (ensure_distinct_file_paths p q))"
  "cframe cwd A (check (ensure_output_available p force))"
proof -
  have c: "snd (canonicalize p w) = w" for p w by (simp add: canonicalize_def)
  have d: "frame cwd A (ensure_distinct_file_paths p q)"
    by (rule frame_pure) (use c in \<open>auto simp: ensure_distinct_file_paths_def act_def act_map_err_def canonicalize_def
      split: prod.splits sum.splits\<close>)
  show "cframe cwd A (check (ensure_input_file p))" "cframe cwd A (check (ensure_output_available p force))"
    unfolding check_def by (rule frame_on_world, rule frame_pure, simp add: ensure_input_file_def ensure_output_available_def)+
  show "cframe cwd A (check (ensure_distinct_file_paths p q))"
    unfolding check_def by (rule frame_on_world [OF d])
qed

lemma frame_secrets [framing]:
  "cframe cwd A (password_secret E pw pf cf)" "cframe cwd A (seed_secret E s sf)" "cframe cwd A (required_password E pw pf cf)"
proof -
  have r: "frame cwd A (read_secret_file E p)" for p
    by (rule frame_start [where m = "\<lambda>w0. act (act_map_err CliIo (open_file p)) (\<lambda>rd.
       act (act_map_err CliIo (metadata_of p)) (\<lambda>m.
       act (lift (ensure (fst m) (CliMessage (''Secret file is not a regular file: '' @ display p)))) (\<lambda>_.
       act (lift (ensure (snd m \<le> MAX_SECRET_FILE_SIZE) (CliMessage (too_large p)))) (\<lambda>_.
       act (lift (ensure (env_mode E (resolve w0 p) AND 0x3F = 0)
         (CliMessage (''Secret file permissions are too broad: '' @ display p @ '' (use chmod 600)'')))) (\<lambda>_.
       act (lift (map_err CliIo (fst (fill (MAX_SECRET_FILE_SIZE + 1) [] rd)))) (\<lambda>bs.
       act (lift (ensure (utf8_valid bs) (CliIo InvalidData))) (\<lambda>_.
       act (lift (ensure (length bs \<le> MAX_SECRET_FILE_SIZE) (CliMessage (too_large p)))) (\<lambda>_.
         ret (trim_line_ends bs)))))))))"])
      (intro framing, simp add: read_secret_file_def)
  show p: "cframe cwd A (password_secret E pw pf cf)" for pw pf cf
    unfolding password_secret_def by (intro framing r)
  show "cframe cwd A (seed_secret E s sf)"
    unfolding seed_secret_def by (intro framing r)
  show "cframe cwd A (required_password E pw pf cf)"
    unfolding required_password_def by (intro framing p)
qed

lemma frame_loads [framing]:
  "cframe cwd A (load_policy X p)" "cframe cwd A (load_group_keys X p)"
  "(\<And>a. cframe cwd A (load a)) \<Longrightarrow> cframe cwd A (optional load x)"
  unfolding load_policy_def load_group_keys_def optional_def by (intro framing; simp)+

lemma frame_local_policy [framing]: "cframe cwd A (local_policy X)"
  by (rule frame_start [where m = "\<lambda>c. if path_exists (c_world c) (Path False [''.lvau-policy.toml''])
      then act (on_world (act_map_err (\<lambda>e. CliMessage (''Failed to load local policy: '' @ e))
        (policy_load_from_file (cr_io_text X) (cr_from_policy X) (Path False [''.lvau-policy.toml''])))) (\<lambda>pol. ret (Some pol))
      else ret None"])
    (intro framing, simp add: local_policy_def Let_def)

section \<open>Frames of the commands\<close>

lemma frame_keygen:
  "dest cwd (with_extension b ''lvau-key'') \<subseteq> A \<Longrightarrow> dest cwd (with_extension b ''lvau-pub'') \<subseteq> A \<Longrightarrow>
     cframe cwd A (keygen X b force)"
  unfolding keygen_def generate_keypair_def Let_def by (intro framing)

lemma frame_encrypt_to: "dest cwd out \<subseteq> A \<Longrightarrow> cframe cwd A (encrypt_to X E a out prof pol)"
  unfolding encrypt_to_def encrypt_recipients_def by (intro framing)

lemma frame_create_sfx:
  assumes "dest cwd temp \<subseteq> A" "dest cwd out \<subseteq> A"
  shows "frame cwd A (create_sfx E temp out force)"
proof -
  have a: "frame cwd A (assemble_sfx q temp out force)" for q
    unfolding assemble_sfx_def by (intro framing assms)
  have r: "frame cwd A (\<lambda>w. (Inl e, snd (remove_file temp w)))" for e :: cli_error
    using frame_remove [OF assms(1)] by (simp add: frame_def)
  show ?thesis unfolding create_sfx_def Let_def by (intro framing a r)
qed

lemma frame_encrypt_command:
  assumes "dest cwd (ea_out_file a) \<subseteq> A" "ea_sfx a \<Longrightarrow> dest cwd (sfx_temp_path (ea_out_file a)) \<subseteq> A"
  shows "cframe cwd A (encrypt X E a)"
proof (cases "ea_sfx a")
  case True
  have "frame cwd A (create_sfx E (sfx_temp_path (ea_out_file a)) (ea_out_file a) (ea_force a))"
    by (rule frame_create_sfx [OF assms(2) [OF True] assms(1)])
  from frame_on_world [OF this] show ?thesis
    unfolding encrypt_def Let_def if_P [OF True] check_def [symmetric]
    by (intro framing frame_encrypt_to assms True) (simp_all add: check_def)
next
  case False
  then show ?thesis
    unfolding encrypt_def Let_def if_not_P [OF False] by (intro framing frame_encrypt_to assms)
qed

lemma frame_decrypt_command: "dest cwd out \<subseteq> A \<Longrightarrow> cframe cwd A (decrypt X E inp out cr force)"
  unfolding decrypt_def by (intro framing)

lemma report_decryption_world: "snd (report_decryption P S inp cred w) = w"
  using verify_world by (cases cred) (auto simp: report_decryption_def split: prod.splits, (metis snd_conv)+)

lemma frame_report_count:
  assumes "dest_below cwd tmp \<subseteq> A" "w_cwd w = cwd"
  shows "w_cwd (snd (report_file_count P S B tmp inp pf ok cred w)) = cwd \<and>
    (\<forall>k. k \<notin> A \<longrightarrow> w_fs (snd (report_file_count P S B tmp inp pf ok cred w)) k = w_fs w k)"
proof -
  have "frame cwd A (list_bundle P S B tmp inp pw)" for pw by (intro framing assms)
  from frame_total_action [OF this assms(2)] have l: "w_cwd w' = cwd \<and> (\<forall>k. k \<notin> A \<longrightarrow> w_fs w' k = w_fs w k)"
    if "list_bundle P S B tmp inp pw w = (r, w')" for pw r w'
    using that by (metis snd_conv)
  show ?thesis
    using assms(2) by (auto simp: report_file_count_def dest: l split: decrypt_credential.split prod.split sum.split)
qed

lemma frame_generate_report:
  assumes "dest_below cwd tmp \<subseteq> A" "w_cwd w = cwd"
  shows "w_cwd (snd (generate_report t P S D B tmp now inp key pol cred w)) = cwd \<and>
    (\<forall>k. k \<notin> A \<longrightarrow> w_fs (snd (generate_report t P S D B tmp now inp key pol cred w)) k = w_fs w k)"
proof -
  obtain pf where pf: "run_preflight t P S D inp key pol w = (pf, w)"
    using run_preflight_world [of t P S D inp key pol w] by (metis prod.collapse)
  show ?thesis
  proof (cases cred)
    case None
    then show ?thesis using pf assms(2) by (simp add: generate_report_def)
  next
    case (Some cr)
    obtain ok where ok: "report_decryption P S inp cr w = (ok, w)"
      using report_decryption_world [of P S inp cr w] by (metis prod.collapse)
    from frame_report_count [OF assms, of P S B inp pf ok cr] show ?thesis
      using Some pf ok by (auto simp: generate_report_def split: prod.splits)
  qed
qed

lemma frame_report:
  "dest_below cwd (env_tmp E) \<subseteq> A \<Longrightarrow> cframe cwd A (report X E inp key pol cr json)"
  unfolding report_def by (intro framing frame_generate_report)

lemma frame_lookers:
  "cframe cwd A (inspect X inp json)" "cframe cwd A (verify X E inp cr json)" "cframe cwd A (preflight X inp key pol json)"
  "cframe cwd A (policy_inspect X inp)" "cframe cwd A (policy_lint X inp p json)" "cframe cwd A (bundle_inspect X inp json)"
  "cframe cwd A (group_list X q)" "cframe cwd A (recovery_inspect X inp)"
proof -
  show "cframe cwd A (preflight X inp key pol json)"
    unfolding preflight_def by (intro framing) (simp add: run_preflight_world)
qed (unfold inspect_def verify_def policy_inspect_def policy_lint_def bundle_inspect_def group_list_def recovery_inspect_def Let_def,
     (intro framing)+)

lemma frame_signature_lookers:
  "cframe cwd A (verify_signature_command X inp q)" "cframe cwd A (approvals_command X inp q)"
proof -
  have v: "w_cwd (snd (verify_signature P S D inp key w)) = cwd \<and> (\<forall>k. k \<notin> A \<longrightarrow> w_fs (snd (verify_signature P S D inp key w)) k = w_fs w k)"
      "w_cwd (snd (verify_approvals P S D inp key w)) = cwd \<and> (\<forall>k. k \<notin> A \<longrightarrow> w_fs (snd (verify_approvals P S D inp key w)) k = w_fs w k)"
    if "w_cwd w = cwd" for P S D key w
    by (rule frame_total_action [OF _ that], intro framing)+
  show "cframe cwd A (verify_signature_command X inp q)"
    unfolding verify_signature_command_def
    by (intro framing v; (simp split: signing_error.split sum.split)?; intro conjI allI impI framing)
  show "cframe cwd A (approvals_command X inp q)"
    unfolding approvals_command_def
    by (intro framing v; (simp split: bool.split sum.split)?; intro conjI allI impI framing)
qed

lemma frame_bundle_lookers:
  assumes "dest_below cwd (env_tmp E) \<subseteq> A"
  shows "cframe cwd A (bundle_list X E inp pw pf json)" "cframe cwd A (bundle_verify X E inp pw pf)"
    "cframe cwd A (bundle_diff X E p q pw pf pw' pf' json)"
  unfolding bundle_list_def bundle_verify_def bundle_diff_def by (intro framing assms)+

lemma frame_extract_command:
  assumes "dest_below cwd (env_tmp E) \<subseteq> A" "out_targets cwd out_dir \<subseteq> A"
  shows "cframe cwd A (bundle_extract X E inp out_dir pw pf links dry_run force)"
  unfolding bundle_extract_def
  by (intro framing frame_on_target [where tmp = "env_tmp E" and force = force] tree_step_map_err tree_step_create
      tree_step_extract assms)

lemma frame_pack_command:
  assumes "dest cwd (pa_out_file a) \<subseteq> A" "dest_below cwd (env_tmp E) \<subseteq> A"
  shows "cframe cwd A (bundle_pack X E a)"
proof -
  have p: "cframe cwd A (\<lambda>c. bundle_step (pack_directory P S B v now (env_walk E (c_world c) d) (env_tmp E) d (pa_out_file a) cred prof
      links pad force pol ov) c)" for P S B v now d cred prof links pad force pol ov
    by (rule frame_start [where m = "\<lambda>c. bundle_step (pack_directory P S B v now (env_walk E (c_world c) d) (env_tmp E) d
      (pa_out_file a) cred prof links pad force pol ov)"]) (intro framing assms, rule refl)
  show ?thesis
    apply (rule frame_guard [where c = "\<lambda>c. lookup (c_world c) (pa_in_dir a) \<noteq> Some Directory"])
      apply (subst bundle_pack_def, subst if_not_P, assumption, rule refl)
     apply (simp add: bundle_pack_def)
    apply (intro framing p)
    done
qed

lemma frame_writing_commands:
  assumes "dest cwd p \<subseteq> A"
  shows "cframe cwd A (policy_create X p force)" "cframe cwd A (group_create_command X n p)"
    "cframe cwd A (group_add_command X n p k)" "cframe cwd A (group_remove_command X n p fp)"
    "cframe cwd A (release_attach X i p pn v gc b force)" "cframe cwd A (recovery_attach X i p d force)"
    "cframe cwd A (sign X E i k p cm force)" "cframe cwd A (approve X i p k cm force)"
proof -
  have g: "frame cwd A (group_create T n p)" for T
    by (rule frame_start [where m = "\<lambda>w. if path_exists w p then fail (GroupMessage (''Group file already exists: '' @ n))
        else group_save_to_file T \<lparr>group_name = n, group_description = Some ''Created by lvau-cli'', group_recipients = []\<rparr> p"])
      (intro framing assms, simp add: group_create_def)
  show "cframe cwd A (policy_create X p force)" unfolding policy_create_def by (intro framing assms)
  show "cframe cwd A (group_create_command X n p)" unfolding group_create_command_def by (intro framing g)
  show "cframe cwd A (group_add_command X n p k)" unfolding group_add_command_def group_add_def by (intro framing assms)
  show "cframe cwd A (group_remove_command X n p fp)" unfolding group_remove_command_def group_remove_def by (intro framing assms)
  show "cframe cwd A (release_attach X i p pn v gc b force)" unfolding release_attach_def by (intro framing assms)
  show "cframe cwd A (recovery_attach X i p d force)" unfolding recovery_attach_def by (intro framing assms)
  show "cframe cwd A (sign X E i k p cm force)" unfolding sign_def by (intro framing assms)
  show "cframe cwd A (approve X i p k cm force)" unfolding approve_def by (intro framing assms)
qed


lemma frame_sign_keygen:
  "dest cwd (with_extension b ''lvau-sign'') \<subseteq> A \<Longrightarrow> dest cwd (with_extension b ''lvau-verify'') \<subseteq> A \<Longrightarrow>
     cframe cwd A (sign_keygen X b force)"
  unfolding sign_keygen_def generate_signing_keypair_def Let_def by (intro framing)

lemma frame_load_shares: "cframe cwd A (load_shares X es)"
proof (induction es)
  case Nil
  show ?case by (simp only: load_shares.simps) (intro framing)
next
  case (Cons en es)
  have s: "w_cwd (snd (share_from_file C q w)) = cwd \<and> (\<forall>k. k \<notin> A \<longrightarrow> w_fs (snd (share_from_file C q w)) k = w_fs w k)"
    if "w_cwd w = cwd" for C q w
    by (rule frame_total_action [OF _ that], intro framing)
  show ?case by (cases en; simp only: load_shares.simps; intro framing s Cons.IH)
qed

lemma frame_list_step: "cframe cwd A (\<lambda>c. (map_err CliIo (env_list E (c_world c) d), c))"
  by (simp add: frame_on_def)

lemma frame_combine: "dest cwd p \<subseteq> A \<Longrightarrow> cframe cwd A (recovery_combine X E d p force)"
  unfolding recovery_combine_def by (intro framing frame_list_step frame_load_shares)

lemma frame_secret_commands:
  "dest cwd (secret_out_path i) \<subseteq> A \<Longrightarrow> cframe cwd A (secret_encrypt X i)"
  "dest cwd (with_extension i []) \<subseteq> A \<Longrightarrow> cframe cwd A (secret_decrypt X i)"
  unfolding secret_encrypt_def secret_decrypt_def Let_def by (intro framing; assumption?)+

lemma frame_in_temp_dir [framing]:
  assumes "cframe cwd A m" "dest_below cwd tmp \<subseteq> A"
  shows "cframe cwd A (in_temp_dir tmp m)"
  unfolding frame_on_def
proof (intro allI impI)
  fix c :: console assume cwd: "w_cwd (c_world c) = cwd"
  let ?c1 = "c\<lparr>c_world := (c_world c)\<lparr>w_fs := (w_fs (c_world c))(resolve (c_world c) tmp \<mapsto> Directory)\<rparr>\<rparr>"
  have self: "resolve (c_world c) tmp \<in> A"
    using assms(2) dest_below_under [OF cwd, of "resolve (c_world c) tmp" tmp] by auto
  have a: "w_cwd (c_world (snd (m ?c1))) = cwd" "\<forall>k. k \<notin> A \<longrightarrow> w_fs (c_world (snd (m ?c1))) k = w_fs (c_world ?c1) k"
      "c_beyond (snd (m ?c1)) = c_beyond c"
    using assms(1) cwd unfolding frame_on_def by simp_all
  from frame_remove_below [OF a(1) assms(2)] a(2,3) self
  show "w_cwd (c_world (snd (in_temp_dir tmp m c))) = cwd \<and> c_beyond (snd (in_temp_dir tmp m c)) = c_beyond c \<and>
      (\<forall>k. k \<notin> A \<longrightarrow> w_fs (c_world (snd (in_temp_dir tmp m c))) k = w_fs (c_world c) k)"
    by (auto simp: in_temp_dir_def split: prod.splits)
qed

lemma frame_secret_print:
  assumes "dest_below cwd (env_tmp E) \<subseteq> A"
  shows "cframe cwd A (secret_print X E i)"
proof -
  have "dest cwd (below (env_tmp E) [''print.tmp'']) \<subseteq> A" using dest_in_below(2) assms by blast
  then show ?thesis unfolding secret_print_def Let_def by (intro framing assms)
qed

text \<open>The editor may change the file it is given, and nothing else.\<close>

lemma frame_secret_edit:
  assumes "dest_below cwd (env_tmp E) \<subseteq> A" "dest cwd i \<subseteq> A"
    and editor: "\<And>p. frame cwd (dest cwd p) (env_edit E p)"
  shows "cframe cwd A (secret_edit X E i)"
proof -
  have t: "dest cwd (below (env_tmp E) ns) \<subseteq> A" for ns using dest_in_below(2) assms(1) by blast
  from frame_mono [OF editor this] show ?thesis
    unfolding secret_edit_def Let_def by (intro framing assms t)
qed

lemma dest_cwd: "dest cwd (Path True (cwd @ ns)) = {filter (\<lambda>c. c \<noteq> ''.'') (cwd @ ns)}"
  by (simp add: dest_def)

lemma frame_doctor:
  assumes "dest cwd (Path True (cwd @ [''.lvau-write-test''])) \<subseteq> A"
  shows "cframe cwd A (doctor E os arch)"
proof -
  let ?t = "Path True (cwd @ [''.lvau-write-test''])"
  have w: "w_cwd (snd (case fs_write ?t (ascii ''test'') w of (r, w1) \<Rightarrow>
          if is_ok r then (True, snd (remove_file ?t w1)) else (False, w1))) = cwd \<and>
      (\<forall>k. k \<notin> A \<longrightarrow> w_fs (snd (case fs_write ?t (ascii ''test'') w of (r, w1) \<Rightarrow>
          if is_ok r then (True, snd (remove_file ?t w1)) else (False, w1))) k = w_fs w k)" if cwd: "w_cwd w = cwd" for w
  proof -
    obtain r w1 where w1: "fs_write ?t (ascii ''test'') w = (r, w1)" by fastforce
    with frame_total_action [OF frame_fs_write [OF assms] cwd, of "ascii ''test''"]
    have a: "w_cwd w1 = cwd" "\<forall>k. k \<notin> A \<longrightarrow> w_fs w1 k = w_fs w k" by simp_all
    from frame_total_action [OF frame_remove [OF assms] a(1)] a w1 show ?thesis by simp
  qed
  have s: "cframe cwd A (\<lambda>c. print (''SFX Stub available: '' @ bool_text (path_exists (c_world c) q)) c)" for q
    by (simp add: frame_on_def print_def)
  show ?thesis
    unfolding doctor_def
    apply (rule frame_act, intro framing)
    apply (unfold Let_def)
    apply (intro framing s)
    subgoal for _ _ _ w using w [of w] by (simp add: Let_def cong: if_cong)
    done
qed


text \<open>The self-test writes its own files in the directory for temporary files.\<close>

definition test_names :: "string list" where
  "test_names = [''lvau_test_in_pw.bin'', ''lvau_test_enc_pw.lvau'', ''lvau_test_dec_pw.bin'',
     ''lvau_test_in_wp.bin'', ''lvau_test_enc_wp.lvau'', ''lvau_test_dec_wp.bin'',
     ''lvau_test_in_t.bin'', ''lvau_test_enc_t.lvau'', ''lvau_test_dec_t.bin'',
     ''lvau_test_in_lf.bin'', ''lvau_test_enc_lf.lvau'', ''lvau_test_dec_lf.bin'',
     ''lvau_test_in_kp.bin'', ''lvau_test_enc_kp.lvau'', ''lvau_test_dec_kp.bin'']"

lemma frame_discard_all [framing]:
  assumes "\<And>p. p \<in> set ps \<Longrightarrow> dest cwd p \<subseteq> A"
  shows "frame cwd A (discard_all ps)"
proof -
  have "w_cwd (fold (\<lambda>p w. snd (remove_file p w)) ps w) = cwd \<and>
      (\<forall>k. k \<notin> A \<longrightarrow> w_fs (fold (\<lambda>p w. snd (remove_file p w)) ps w) k = w_fs w k)" if "w_cwd w = cwd" for w
    using assms that
  proof (induction ps arbitrary: w)
    case Nil
    then show ?case by simp
  next
    case (Cons p ps)
    from frame_total_action [OF frame_remove [OF Cons.prems(1) [of p]] Cons.prems(2)]
    have a: "w_cwd (snd (remove_file p w)) = cwd" "\<forall>k. k \<notin> A \<longrightarrow> w_fs (snd (remove_file p w)) k = w_fs w k" by simp_all
    from Cons.IH [OF _ a(1)] Cons.prems(1) a(2) show ?case by simp
  qed
  then show ?thesis by (simp add: frame_def discard_all_def)
qed

lemma frame_catch: "frame cwd A m \<Longrightarrow> frame cwd A (\<lambda>w. case m w of (r, w1) \<Rightarrow> (Inr r, w1))"
  unfolding frame_def by (simp split: prod.splits) (metis snd_conv)

lemma frame_tamper: "dest cwd e \<subseteq> A \<Longrightarrow> frame cwd A (tamper_file e)"
  unfolding tamper_file_def io_world_def by (intro framing)

lemma frame_self_tests:
  assumes "dest cwd i \<subseteq> A" "dest cwd e \<subseteq> A" "dest cwd d \<subseteq> A"
  shows "frame cwd A (password_test X i e d bs m)" "frame cwd A (keypair_test X i e d bs)"
    "frame cwd A t \<Longrightarrow> frame cwd A (rejection_test X i e d bs t pw m)"
proof -
  have all: "\<And>p. p \<in> set [i, e, d] \<Longrightarrow> dest cwd p \<subseteq> A" using assms by auto
  show "frame cwd A (password_test X i e d bs m)"
    unfolding password_test_def io_world_def test_encrypt_def crypto_world_def by (intro framing assms all)
  show "frame cwd A (keypair_test X i e d bs)"
    unfolding keypair_test_def io_world_def crypto_world_def generate_keypair_def by (intro framing assms all)
  show "frame cwd A (rejection_test X i e d bs t pw m)" if "frame cwd A t"
    unfolding rejection_test_def io_world_def test_encrypt_def crypto_world_def by (intro framing assms all frame_catch that)
qed


lemma frame_self_test:
  assumes "\<And>n. n \<in> set test_names \<Longrightarrow> dest cwd (test_path E n) \<subseteq> A"
  shows "cframe cwd A (run_self_test X E)"
proof -
  have "list_all (\<lambda>nt. frame cwd A (snd nt)) (self_tests X E)"
    unfolding self_tests_def list.pred_inject snd_conv
    by (intro conjI list.pred_inject(1) frame_self_tests frame_tamper frame_simple assms; simp add: test_names_def)
  then have tests: "frame cwd A t" if "(name, t) \<in> set (self_tests X E)" for name t
    using that by (auto simp: list_all_iff)
  have run: "cframe cwd A (run_tests X ts passed failed)"
    if "\<And>name t. (name, t) \<in> set ts \<Longrightarrow> frame cwd A t" for ts passed failed
    using that
  proof (induction ts arbitrary: passed failed)
    case Nil
    show ?case by (simp only: run_tests.simps) (intro framing)
  next
    case (Cons p ts)
    obtain name t where p: "p = (name, t)" by fastforce
    from Cons.prems [of name t] p have t: "frame cwd A t" by simp
    have "cframe cwd A (run_tests X ts passed failed)" for passed failed
      by (rule Cons.IH) (use Cons.prems in auto)
    then show ?case
      unfolding p run_tests.simps by (intro framing frame_total_action [OF t])
  qed
  show ?thesis
    unfolding run_self_test_def by (intro framing run) (use tests in blast)
qed

section \<open>Splitting\<close>

lemma make_dirs_frame:
  assumes "make_dirs [] cs w = (r, w')"
  shows "w_cwd w' = w_cwd w \<and> keeps_entries w w' \<and> (\<forall>k. (\<forall>i. k \<noteq> take i cs) \<longrightarrow> w_fs w' k = w_fs w k)"
proof -
  from make_dirs_made [OF assms] have m: "dirs_made cs w w'" by simp
  from dirs_made_sel [OF m] dirs_made_keeps [OF m] show ?thesis
    using m unfolding keeps_entries_def dirs_made_def by metis
qed

definition split_targets :: "string list \<Rightarrow> path \<Rightarrow> string list set" where
  "split_targets cwd d = {k. (\<exists>i. k = take i (key_of cwd d)) \<or> (\<exists>n. k = key_of cwd d @ n \<and> length n \<le> 1)}"

lemma frame_for_each:
  "(\<And>x. x \<in> set xs \<Longrightarrow> frame_on v u cwd A (f x)) \<Longrightarrow> frame_on v u cwd A (for_each f xs)"
proof (induction xs)
  case Nil
  show ?case by (simp only: for_each.simps) (intro framing)
next
  case (Cons x xs)
  then show ?case by (simp only: for_each.simps) (intro framing; simp)
qed

lemma frame_split_secret: "frame cwd A (split_secret K secret n t)"
  unfolding split_secret_def by (intro framing)

lemma frame_write_share: "dest cwd p \<subseteq> A \<Longrightarrow> cframe cwd A (write_share X share p)"
  unfolding write_share_def by (intro framing)

lemma dest_share: "dest cwd (share_path i d share) \<subseteq> split_targets cwd d"
  by (auto simp: dest_def share_path_def below_def split_targets_def key_of_def)

lemma frame_split_command: "cframe cwd (split_targets cwd d) (recovery_split X i n t d)"
proof -
  have mk: "frame cwd (split_targets cwd d) (create_dir_all d)"
    unfolding frame_def create_dir_all_def
  proof (intro allI impI)
    fix w :: world assume cwd: "w_cwd w = cwd"
    obtain r w' where run: "make_dirs [] (resolve w d) w = (r, w')" by fastforce
    from make_dirs_frame [OF run] cwd show "w_cwd (snd (make_dirs [] (resolve w d) w)) = cwd \<and>
        (\<forall>k. k \<notin> split_targets cwd d \<longrightarrow> w_fs (snd (make_dirs [] (resolve w d) w)) k = w_fs w k)"
      using run by (auto simp: split_targets_def key_of_resolve [OF cwd])
  qed
  have e: "cframe cwd (split_targets cwd d) (\<lambda>c. if path_exists (c_world c) d then ret () c else io_step (create_dir_all d) c)"
    by (intro framing mk)
  have c: "cframe cwd (split_targets cwd d) (for_each (\<lambda>(_, p). check (ensure_output_available p False)) xs)" for xs
    by (rule frame_for_each) (intro framing)
  have w: "cframe cwd (split_targets cwd d) (for_each (\<lambda>(share, p). write_share X share p) (map (\<lambda>s. (s, share_path i d s)) gs))" for gs
    by (rule frame_for_each) (auto intro!: frame_write_share subsetD [OF dest_share])
  show ?thesis
    unfolding recovery_split_def Let_def by (intro framing e c w frame_split_secret)
qed

section \<open>What a command can change\<close>

definition targets :: "environ \<Rightarrow> string list \<Rightarrow> command \<Rightarrow> string list set" where
  "targets E cwd cmd = (case cmd of
       Keygen b _ \<Rightarrow> dest cwd (with_extension b ''lvau-key'') \<union> dest cwd (with_extension b ''lvau-pub'')
     | Encrypt a \<Rightarrow> dest cwd (ea_out_file a) \<union> (if ea_sfx a then dest cwd (sfx_temp_path (ea_out_file a)) else {})
     | Decrypt _ out _ _ \<Rightarrow> dest cwd out
     | Report _ _ _ _ _ \<Rightarrow> dest_below cwd (env_tmp E)
     | Policies (PolicyCreate p _) \<Rightarrow> dest cwd p
     | Bundles (BundlePack a) \<Rightarrow> dest cwd (pa_out_file a) \<union> dest_below cwd (env_tmp E)
     | Bundles (BundleList _ _ _ _) \<Rightarrow> dest_below cwd (env_tmp E)
     | Bundles (BundleDiff _ _ _ _ _ _ _) \<Rightarrow> dest_below cwd (env_tmp E)
     | Bundles (BundleExtract _ d _ _ _ _ _) \<Rightarrow> dest_below cwd (env_tmp E) \<union> out_targets cwd d
     | Bundles (BundleVerify _ _ _) \<Rightarrow> dest_below cwd (env_tmp E)
     | Recipients (RecipientGroups (GroupCreate _ p)) \<Rightarrow> dest cwd p
     | Recipients (RecipientGroups (GroupAdd _ p _)) \<Rightarrow> dest cwd p
     | Recipients (RecipientGroups (GroupRemove _ p _)) \<Rightarrow> dest cwd p
     | Releases (ReleaseAttach _ p _ _ _ _ _) \<Rightarrow> dest cwd p
     | Recoveries (RecoveryAttach _ p _ _) \<Rightarrow> dest cwd p
     | Recoveries (RecoverySplit _ _ _ d) \<Rightarrow> split_targets cwd d
     | Recoveries (RecoveryCombine _ p _) \<Rightarrow> dest cwd p
     | Secrets (SecretEncrypt i) \<Rightarrow> dest cwd (secret_out_path i)
     | Secrets (SecretDecrypt i) \<Rightarrow> dest cwd (with_extension i [])
     | Secrets (SecretEdit i) \<Rightarrow> dest cwd i \<union> dest_below cwd (env_tmp E)
     | Secrets (SecretPrint _) \<Rightarrow> dest_below cwd (env_tmp E)
     | SignKeygen b _ \<Rightarrow> dest cwd (with_extension b ''lvau-sign'') \<union> dest cwd (with_extension b ''lvau-verify'')
     | Sign _ _ p _ _ \<Rightarrow> dest cwd p
     | Approve _ p _ _ _ \<Rightarrow> dest cwd p
     | Doctor _ _ \<Rightarrow> dest cwd (Path True (cwd @ [''.lvau-write-test'']))
     | SelfTest \<Rightarrow> (\<Union>n \<in> set test_names. dest cwd (test_path E n))
     | _ \<Rightarrow> {})"

lemma frame_run:
  assumes editor: "\<And>p. frame cwd (dest cwd p) (env_edit E p)"
  shows "cframe cwd (targets E cwd cmd) (run X E cmd)"
proof (cases cmd)
  case SelfTest
  have "cframe cwd (targets E cwd cmd) (run_self_test X E)"
    by (rule frame_self_test) (auto simp: targets_def SelfTest)
  then show ?thesis unfolding SelfTest run.simps by (intro framing)
next
  case (Encrypt a)
  then show ?thesis by (simp add: targets_def frame_encrypt_command)
next
  case (Policies a)
  then show ?thesis by (cases a) (simp_all add: targets_def frame_lookers frame_writing_commands)
next
  case (Bundles a)
  then show ?thesis by (cases a) (simp_all add: targets_def frame_pack_command frame_bundle_lookers frame_extract_command frame_lookers)
next
  case (Recipients r)
  obtain a where r: "r = RecipientGroups a" by (cases r)
  show ?thesis unfolding Recipients r by (cases a) (simp_all add: targets_def frame_writing_commands frame_lookers)
next
  case (Releases a)
  then show ?thesis by (cases a) (simp add: targets_def frame_writing_commands)
next
  case (Recoveries a)
  then show ?thesis
    by (cases a) (simp_all add: targets_def frame_writing_commands frame_split_command frame_combine frame_lookers)
next
  case (Secrets a)
  then show ?thesis
    by (cases a) (simp_all add: targets_def frame_secret_commands frame_secret_print frame_secret_edit [OF _ _ editor])
qed (simp_all add: targets_def frame_keygen frame_decrypt_command frame_report frame_lookers frame_signature_lookers
      frame_writing_commands frame_sign_keygen frame_doctor)

section \<open>Commands that replace nothing\<close>

text \<open>
  The rules for an action that leaves every existing entry as it is, in a world in which the name
  for temporary objects is fresh: reading steps first, then the check of the output, then steps
  that only change the output.
\<close>

definition spares :: "environ \<Rightarrow> (console, 'e, 'a) action \<Rightarrow> bool" where
  "spares E m \<longleftrightarrow> (\<forall>c r c'. fresh_name (c_world c) (env_tmp E) \<longrightarrow> m c = (r, c') \<longrightarrow>
     keeps_entries (c_world c) (c_world c'))"

lemma fresh_below: "fresh_name w tmp \<Longrightarrow> \<forall>k \<in> dest_below (w_cwd w) tmp. w_fs w k = None"
  by (simp add: fresh_name_def dest_below_under)

lemma spares_frame:
  assumes "\<And>cwd. cframe cwd (dest_below cwd (env_tmp E)) m"
  shows "spares E m"
  unfolding spares_def
  using frame_keeps [OF assms _ refl fresh_below] by blast

lemma spares_read: "(\<And>cwd. cframe cwd {} m) \<Longrightarrow> spares E m"
  by (rule spares_frame) (rule frame_mono, auto)

lemma spares_prefix:
  assumes "\<And>cwd. cframe cwd {} m" "\<And>x. spares E (f x)"
  shows "spares E (act m f)"
  unfolding spares_def
proof (intro allI impI)
  fix c r c' assume fresh: "fresh_name (c_world c) (env_tmp E)" and run: "act m f c = (r, c')"
  obtain q c1 where c1: "m c = (q, c1)" by fastforce
  have same: "w_cwd (c_world c1) = w_cwd (c_world c)" "w_fs (c_world c1) = w_fs (c_world c)"
    using assms(1) [of "w_cwd (c_world c)"] c1 unfolding frame_on_def by (metis snd_conv, fastforce)
  then have fresh1: "fresh_name (c_world c1) (env_tmp E)"
    using fresh by (simp add: fresh_name_def under_def resolve_def)
  show "keeps_entries (c_world c) (c_world c')"
  proof (cases q)
    case (Inl e)
    then show ?thesis using run c1 same by (simp add: act_def keeps_entries_def)
  next
    case (Inr x)
    then have "f x c1 = (r, c')" using run c1 by (simp add: act_def)
    then show ?thesis using assms(2) [of x] fresh1 same unfolding spares_def keeps_entries_def by metis
  qed
qed

lemma output_check:
  "check (ensure_output_available p False) c =
     (if path_exists (c_world c) p
      then (Inl (CliMessage (''Output file already exists: '' @ display p @ ''. Use --force to replace it.'')), c)
      else (Inr (), c))"
  by (cases c) (simp add: check_def on_world_def ensure_output_available_def)

lemma free_dest: "\<not> path_exists w p \<Longrightarrow> w_cwd w = cwd \<Longrightarrow> k \<in> dest cwd p \<Longrightarrow> w_fs w k = None"
  by (auto simp: path_exists_def lookup_def dest_def resolve_def split: if_splits)

lemma spares_checked:
  assumes "\<And>cwd. cframe cwd (dest cwd p \<union> dest_below cwd (env_tmp E)) m"
  shows "spares E (act (check (ensure_output_available p False)) (\<lambda>_. m))"
  unfolding spares_def
proof (intro allI impI)
  fix c r c' assume fresh: "fresh_name (c_world c) (env_tmp E)"
    and run: "act (check (ensure_output_available p False)) (\<lambda>_. m) c = (r, c')"
  show "keeps_entries (c_world c) (c_world c')"
  proof (cases "path_exists (c_world c) p")
    case True
    then show ?thesis using run by (simp add: act_apply output_check)
  next
    case False
    then have "m c = (r, c')" using run by (simp add: act_apply output_check)
    moreover have "\<forall>k \<in> dest (w_cwd (c_world c)) p \<union> dest_below (w_cwd (c_world c)) (env_tmp E). w_fs (c_world c) k = None"
      using free_dest [OF False refl] fresh_below [OF fresh] by blast
    ultimately show ?thesis using frame_keeps [OF assms _ refl] by blast
  qed
qed

lemma spares_checked_both:
  assumes "\<And>cwd. cframe cwd (dest cwd p \<union> dest cwd q) m"
  shows "spares E (act (check (ensure_output_available p False)) (\<lambda>_. act (check (ensure_output_available q False)) (\<lambda>_. m)))"
  unfolding spares_def
proof (intro allI impI)
  fix c r c' assume run: "act (check (ensure_output_available p False)) (\<lambda>_.
      act (check (ensure_output_available q False)) (\<lambda>_. m)) c = (r, c')"
  show "keeps_entries (c_world c) (c_world c')"
  proof (cases "path_exists (c_world c) p \<or> path_exists (c_world c) q")
    case True
    then show ?thesis using run by (auto simp: act_apply output_check split: if_splits)
  next
    case False
    then have "m c = (r, c')" using run by (simp add: act_apply output_check)
    moreover have "\<forall>k \<in> dest (w_cwd (c_world c)) p \<union> dest (w_cwd (c_world c)) q. w_fs (c_world c) k = None"
      using False free_dest [of "c_world c" p] free_dest [of "c_world c" q] by blast
    ultimately show ?thesis using frame_keeps [OF assms _ refl] by blast
  qed
qed

text \<open>
  Commands that are not asked to replace anything: no \<open>--force\<close>, no \<open>--sfx\<close>, and none of the
  commands that rewrite a file by themselves.
\<close>

definition careful :: "command \<Rightarrow> bool" where
  "careful cmd = (case cmd of
       Keygen _ force \<Rightarrow> \<not> force
     | Encrypt a \<Rightarrow> \<not> ea_force a \<and> \<not> ea_sfx a
     | Decrypt _ _ _ force \<Rightarrow> \<not> force
     | Policies (PolicyCreate _ force) \<Rightarrow> \<not> force
     | Bundles (BundlePack a) \<Rightarrow> \<not> pa_force a
     | Bundles (BundleExtract _ _ _ _ _ _ force) \<Rightarrow> \<not> force
     | Recipients (RecipientGroups (GroupAdd _ _ _)) \<Rightarrow> False
     | Recipients (RecipientGroups (GroupRemove _ _ _)) \<Rightarrow> False
     | Releases (ReleaseAttach _ _ _ _ _ _ force) \<Rightarrow> \<not> force
     | Recoveries (RecoveryAttach _ _ _ force) \<Rightarrow> \<not> force
     | Recoveries (RecoveryCombine _ _ force) \<Rightarrow> \<not> force
     | Secrets (SecretEncrypt _) \<Rightarrow> False
     | Secrets (SecretEdit _) \<Rightarrow> False
     | SignKeygen _ force \<Rightarrow> \<not> force
     | Sign _ _ _ _ force \<Rightarrow> \<not> force
     | Approve _ _ _ _ force \<Rightarrow> \<not> force
     | Doctor _ _ \<Rightarrow> False
     | SelfTest \<Rightarrow> False
     | _ \<Rightarrow> True)"

lemma spares_keygens: "spares E (keygen X b False)" "spares E (sign_keygen X b False)"
  unfolding keygen_def sign_keygen_def generate_keypair_def generate_signing_keypair_def Let_def
  by (rule spares_checked_both, intro framing Un_upper1 Un_upper2)+

lemma spares_encrypt:
  assumes "\<not> ea_sfx a" "\<not> ea_force a"
  shows "spares E (encrypt X E a)"
proof -
  have f: "ea_force a = False" using assms(2) by simp
  show ?thesis
    unfolding encrypt_def Let_def if_not_P [OF assms(1)] f
    by (rule spares_prefix, intro framing, rule spares_prefix, intro framing, rule spares_checked)
      (intro framing frame_encrypt_to Un_upper1)
qed

lemma spares_decrypt: "spares E (decrypt X E i p cr False)"
  unfolding decrypt_def
  by (rule spares_prefix, intro framing, rule spares_prefix, intro framing, rule spares_checked)
    (intro framing Un_upper1)

lemma spares_writers:
  "spares E (policy_create X p False)" "spares E (recovery_combine X E d p False)"
  "spares E (release_attach X i p pn v gc b False)" "spares E (recovery_attach X i p dd False)"
  "spares E (sign X E i k p cm False)" "spares E (approve X i p k cm False)" "spares E (secret_decrypt X i)"
proof -
  show "spares E (policy_create X p False)"
    unfolding policy_create_def by (rule spares_checked) (intro framing Un_upper1)
  show "spares E (recovery_combine X E d p False)"
    unfolding recovery_combine_def by (rule spares_checked) (intro framing frame_load_shares frame_list_step Un_upper1)
  show "spares E (release_attach X i p pn v gc b False)"
    unfolding release_attach_def by (rule spares_prefix, intro framing, rule spares_checked) (intro framing Un_upper1)
  show "spares E (recovery_attach X i p dd False)"
    unfolding recovery_attach_def by (rule spares_prefix, intro framing, rule spares_checked) (intro framing Un_upper1)
  show "spares E (sign X E i k p cm False)"
    unfolding sign_def
    by (rule spares_prefix, intro framing, rule spares_prefix, intro framing, rule spares_checked) (intro framing Un_upper1)
  show "spares E (approve X i p k cm False)"
    unfolding approve_def
    by (rule spares_prefix, intro framing, rule spares_prefix, intro framing, rule spares_checked) (intro framing Un_upper1)
  show "spares E (secret_decrypt X i)"
    unfolding secret_decrypt_def Let_def
    by (rule spares_prefix, intro framing, rule spares_checked) (intro framing Un_upper1)
qed

lemma spares_pack:
  assumes "\<not> pa_force a"
  shows "spares E (bundle_pack X E a)"
proof -
  have f: "pa_force a = False" using assms by simp
  have p: "cframe cwd (dest cwd (pa_out_file a) \<union> dest_below cwd (env_tmp E)) (bundle_pack X E a)" for cwd
    by (rule frame_pack_command) auto
  show ?thesis
    unfolding spares_def
  proof (intro allI impI)
    fix c r c' assume fresh: "fresh_name (c_world c) (env_tmp E)" and run: "bundle_pack X E a c = (r, c')"
    show "keeps_entries (c_world c) (c_world c')"
    proof (cases "path_exists (c_world c) (pa_out_file a)")
      case True
      then have "c' = c" using run by (auto simp: bundle_pack_def f act_apply output_check split: if_splits)
      then show ?thesis by simp
    next
      case False
      then have "\<forall>k \<in> dest (w_cwd (c_world c)) (pa_out_file a) \<union> dest_below (w_cwd (c_world c)) (env_tmp E). w_fs (c_world c) k = None"
        using free_dest [OF False refl] fresh_below [OF fresh] by blast
      then show ?thesis using frame_keeps [OF p run refl] by blast
    qed
  qed
qed

text \<open>
  Splitting and extracting make directories, so their steps are followed one by one: each leaves
  what is there, outside a given set of names.
\<close>

definition keeping :: "(string list \<Rightarrow> string list set) \<Rightarrow> (console, 'e, 'a) action \<Rightarrow> bool" where
  "keeping A m \<longleftrightarrow> (\<forall>c r c'. m c = (r, c') \<longrightarrow> w_cwd (c_world c') = w_cwd (c_world c) \<and>
     (\<forall>k n. k \<notin> A (w_cwd (c_world c)) \<longrightarrow> w_fs (c_world c) k = Some n \<longrightarrow> w_fs (c_world c') k = Some n))"

lemma keeping_act:
  assumes "keeping A m" "\<And>x. keeping A (f x)"
  shows "keeping A (act m f)"
  unfolding keeping_def
proof (intro allI impI)
  fix c r c' assume run: "act m f c = (r, c')"
  obtain q c1 where q: "m c = (q, c1)" by fastforce
  with run have "c' = c1 \<or> (\<exists>x. f x c1 = (r, c'))" by (cases q) (auto simp: act_def)
  with assms q show "w_cwd (c_world c') = w_cwd (c_world c) \<and>
      (\<forall>k n. k \<notin> A (w_cwd (c_world c)) \<longrightarrow> w_fs (c_world c) k = Some n \<longrightarrow> w_fs (c_world c') k = Some n)"
    unfolding keeping_def by metis
qed

lemma keeping_frame: "(\<And>cwd. cframe cwd (A cwd) m) \<Longrightarrow> keeping A m"
  unfolding keeping_def frame_on_def by (metis snd_conv)

lemma keeping_spares:
  assumes "keeping (\<lambda>cwd. dest_below cwd (env_tmp E)) m"
  shows "spares E m"
  unfolding spares_def keeps_entries_def
  using assms fresh_below unfolding keeping_def by (metis option.distinct(1))

lemma spares_extract: "spares E (bundle_extract X E inp out_dir pw pf links dry_run False)"
proof (rule keeping_spares)
  let ?A = "\<lambda>cwd. dest_below cwd (env_tmp E)"
  have t: "keeping ?A (on_target E out_dir m)" if "tree_step (env_tmp E) False out_dir m"
    for m :: "(world \<times> xworld, cli_error, 'x) action"
    unfolding keeping_def using on_target_keeps [OF that, of E] by (simp add: dest_below_under)
  have mk: "keeping ?A (if dry_run then ret () else on_target E out_dir (act_map_err CliIo (create_output_dir out_dir)))"
    using t [OF tree_step_map_err [OF tree_step_create]] by (simp add: keeping_def ret_def)
  show "keeping ?A (bundle_extract X E inp out_dir pw pf links dry_run False)"
    unfolding bundle_extract_def
    by (intro keeping_act mk t tree_step_map_err tree_step_extract; rule keeping_frame; intro framing)
qed

lemma spares_group_create: "spares E (group_create_command X n p)"
  unfolding spares_def
proof (intro allI impI)
  fix c r c' assume run: "group_create_command X n p c = (r, c')"
  show "keeps_entries (c_world c) (c_world c')"
  proof (cases "path_exists (c_world c) p")
    case True
    then have "c_world c' = c_world c"
      using run by (auto simp: group_create_command_def group_step_def on_world_def group_create_def act_apply act_map_err_def)
    then show ?thesis by simp
  next
    case False
    have g: "cframe (w_cwd (c_world c)) (dest (w_cwd (c_world c)) p) (group_create_command X n p)"
      by (rule frame_writing_commands) simp
    show ?thesis using frame_keeps [OF g run refl] free_dest [OF False refl] by blast
  qed
qed

lemma checks_passed:
  "for_each (\<lambda>(s, p). check (ensure_output_available p False)) xs c = (r, c') \<Longrightarrow>
     c' = c \<and> (r = Inr () \<longrightarrow> (\<forall>(s, p) \<in> set xs. \<not> path_exists (c_world c) p))"
  by (induction xs) (auto simp: act_apply output_check split: if_splits)

lemma keeping_checked_all:
  assumes "\<And>cwd. cframe cwd (\<Union>(s, p) \<in> set xs. dest cwd p) m"
  shows "keeping A (act (for_each (\<lambda>(s, p). check (ensure_output_available p False)) xs) (\<lambda>_. m))"
  unfolding keeping_def
proof (intro allI impI)
  fix c r c' assume run: "act (for_each (\<lambda>(s, p). check (ensure_output_available p False)) xs) (\<lambda>_. m) c = (r, c')"
  obtain q c1 where q: "for_each (\<lambda>(s, p). check (ensure_output_available p False)) xs c = (q, c1)" by fastforce
  note ch = checks_passed [OF q]
  have "keeps_entries (c_world c) (c_world c') \<and> w_cwd (c_world c') = w_cwd (c_world c)"
  proof (cases q)
    case (Inl e)
    then show ?thesis using run q ch by (simp add: act_apply)
  next
    case (Inr u)
    then have m: "m c = (r, c')" using run q ch by (simp add: act_apply)
    have "\<forall>k \<in> (\<Union>(s, p) \<in> set xs. dest (w_cwd (c_world c)) p). w_fs (c_world c) k = None"
    proof
      fix k assume "k \<in> (\<Union>(s, p) \<in> set xs. dest (w_cwd (c_world c)) p)"
      then obtain s p where p: "(s, p) \<in> set xs" "k \<in> dest (w_cwd (c_world c)) p" by auto
      then have "\<not> path_exists (c_world c) p" using ch Inr by auto
      from free_dest [OF this refl p(2)] show "w_fs (c_world c) k = None" .
    qed
    then show ?thesis using frame_keeps [OF assms m refl] by blast
  qed
  then show "w_cwd (c_world c') = w_cwd (c_world c) \<and>
      (\<forall>k n. k \<notin> A (w_cwd (c_world c)) \<longrightarrow> w_fs (c_world c) k = Some n \<longrightarrow> w_fs (c_world c') k = Some n)"
    by (simp add: keeps_entries_def)
qed

lemma spares_split: "spares E (recovery_split X i n t d)"
proof (rule keeping_spares)
  let ?A = "\<lambda>cwd. dest_below cwd (env_tmp E)"
  have mk: "keeping ?A (\<lambda>c. if path_exists (c_world c) d then ret () c else io_step (create_dir_all d) c)"
    unfolding keeping_def
  proof (intro allI impI)
    fix c r c' assume run: "(if path_exists (c_world c) d then ret () c else io_step (create_dir_all d) c) = (r :: cli_error + unit, c')"
    obtain q w' where "make_dirs [] (resolve (c_world c) d) (c_world c) = (q, w')" by fastforce
    with run make_dirs_frame [OF this] show "w_cwd (c_world c') = w_cwd (c_world c) \<and>
        (\<forall>k n. k \<notin> ?A (w_cwd (c_world c)) \<longrightarrow> w_fs (c_world c) k = Some n \<longrightarrow> w_fs (c_world c') k = Some n)"
      by (auto simp: keeps_entries_def io_step_def on_world_def create_dir_all_def act_map_err_def split: if_splits)
  qed
  have wr: "keeping ?A (act (for_each (\<lambda>(s, p). check (ensure_output_available p False)) xs)
      (\<lambda>_. act (for_each (\<lambda>(share, p). write_share X share p) xs) (\<lambda>_. print l)))" for xs l
  proof (rule keeping_checked_all)
    fix cwd
    have "cframe cwd (\<Union>(s, p) \<in> set xs. dest cwd p) (for_each (\<lambda>(share, p). write_share X share p) xs)"
      by (rule frame_for_each) (clarsimp, rule frame_write_share, auto)
    then show "cframe cwd (\<Union>(s, p) \<in> set xs. dest cwd p)
        (act (for_each (\<lambda>(share, p). write_share X share p) xs) (\<lambda>_. print l))"
      by (intro framing)
  qed
  show "keeping ?A (recovery_split X i n t d)"
    unfolding recovery_split_def Let_def
    by (intro keeping_act mk wr; rule keeping_frame; intro framing frame_split_secret)
qed

lemma careful_spares: "careful cmd \<Longrightarrow> spares E (run X E cmd)"
proof (cases cmd)
  case (Encrypt a)
  assume "careful cmd"
  then show ?thesis using spares_encrypt Encrypt by (simp add: careful_def)
next
  case (Policies a)
  assume "careful cmd"
  then show ?thesis unfolding Policies
    by (cases a) (simp_all add: careful_def spares_writers spares_read [OF frame_lookers(4)] spares_read [OF frame_lookers(5)])
next
  case (Bundles a)
  assume "careful cmd"
  then show ?thesis unfolding Bundles
    by (cases a) (simp_all add: careful_def spares_pack spares_read [OF frame_lookers(6)]
      spares_frame [OF frame_bundle_lookers(1) [OF subset_refl]] spares_frame [OF frame_bundle_lookers(2) [OF subset_refl]]
      spares_frame [OF frame_bundle_lookers(3) [OF subset_refl]] spares_extract)
next
  case (Recipients r)
  obtain a where r: "r = RecipientGroups a" by (cases r)
  assume "careful cmd"
  then show ?thesis unfolding Recipients r
    by (cases a) (simp_all add: careful_def spares_group_create spares_read [OF frame_lookers(7)])
next
  case (Releases a)
  assume "careful cmd"
  then show ?thesis unfolding Releases by (cases a) (simp add: careful_def spares_writers)
next
  case (Recoveries a)
  assume "careful cmd"
  then show ?thesis unfolding Recoveries
    by (cases a) (simp_all add: careful_def spares_writers spares_split spares_read [OF frame_lookers(8)])
next
  case (Secrets a)
  assume "careful cmd"
  then show ?thesis unfolding Secrets
    by (cases a) (simp_all add: careful_def spares_writers spares_frame [OF frame_secret_print [OF subset_refl]])
qed (simp_all add: careful_def spares_keygens spares_decrypt spares_writers
      spares_read [OF frame_lookers(1)] spares_read [OF frame_lookers(2)] spares_read [OF frame_lookers(3)]
      spares_read [OF frame_signature_lookers(1)] spares_read [OF frame_signature_lookers(2)]
      spares_frame [OF frame_report [OF subset_refl]])

section \<open>Properties\<close>

text \<open>
  A session: one invocation after the other on the same files; between them the user types, so
  only the world is passed on.
\<close>

inductive session :: "crates \<Rightarrow> (environ \<Rightarrow> command \<Rightarrow> bool) \<Rightarrow> world \<Rightarrow> world \<Rightarrow> bool" for X ok where
  session_start: "session X ok w w"
| session_step: "session X ok w w1 \<Longrightarrow> ok E cmd \<Longrightarrow> fresh_name w1 (env_tmp E) \<Longrightarrow>
     main X E cmd \<lparr>c_world = w1, c_beyond = [], c_typed = typed, c_out = []\<rparr> = (status, c2) \<Longrightarrow> session X ok w (c_world c2)"

lemma main_run: "main X E cmd c = (n, c') \<Longrightarrow> \<exists>r c1. run X E cmd c = (r, c1) \<and> c_world c' = c_world c1 \<and> c_beyond c' = c_beyond c1"
  by (auto simp: main_def split: prod.splits sum.splits cli_error.splits)

text \<open>
  C11: Whatever its outcome, a command of lvau-cli changes no file but those it names: its outputs,
  the temporary directory it works in and removes again, the fixed names of the self-test and of the
  doctor, for a split the output directory, its parents and its entries, and for an extraction the
  missing parents of the output directory, the output directory and what is below it; nothing is
  changed behind a link or outside through \<open>..\<close>, whatever names a bundle holds. The editor that
  a secret is edited with is assumed to change only the file it is given.
\<close>

theorem commands_change_only_targets:
  assumes editor: "\<And>p. frame (w_cwd (c_world c)) (dest (w_cwd (c_world c)) p) (env_edit E p)"
    and main: "main X E cmd c = (status, c')"
  shows "c_beyond c' = c_beyond c \<and>
    (\<forall>k. k \<notin> targets E (w_cwd (c_world c)) cmd \<longrightarrow> w_fs (c_world c') k = w_fs (c_world c) k)"
proof -
  obtain r c1 where r: "run X E cmd c = (r, c1)" "c_world c' = c_world c1" "c_beyond c' = c_beyond c1"
    using main_run [OF main] by blast
  have "cframe (w_cwd (c_world c)) (targets E (w_cwd (c_world c)) cmd) (run X E cmd)"
    by (rule frame_run [OF editor])
  with r(1) show ?thesis unfolding frame_on_def r(2,3) by (metis snd_conv)
qed

text \<open>
  C12: A session of commands that are not asked to replace anything (no \<open>--force\<close>, no \<open>--sfx\<close>, no
  secret encrypt or edit, no change of a group, no self-test or doctor) leaves every file and
  directory that existed before it as it was, those in the output directories of its extractions too, whatever commands fail on the way.
\<close>

theorem careful_session_keeps_files:
  assumes "session X (\<lambda>E cmd. careful cmd) w w'"
  shows "keeps_entries w w'"
  using assms
proof (induction rule: session.induct)
  case (session_start w)
  then show ?case by simp
next
  case (session_step w w1 E cmd typed status c2)
  obtain r c1 where run: "run X E cmd \<lparr>c_world = w1, c_beyond = [], c_typed = typed, c_out = []\<rparr> = (r, c1)" "c_world c2 = c_world c1"
    using main_run [OF session_step.hyps(4)] by blast
  with careful_spares [OF session_step.hyps(2), of E X] session_step.hyps(3) have "keeps_entries w1 (c_world c2)"
    unfolding spares_def by (metis console.select_convs(1))
  then show ?case using session_step.IH keeps_entries_trans by blast
qed

end
