(* ===== verification/Cli_Correct.thy ===== *)
theory Cli_Correct
  imports Cli_Safety Sfx_Samples
begin

text \<open>
  Functional properties of the commands of lvau-cli: round trips through the command line, and
  what some commands do with names.
\<close>

section \<open>Successful steps\<close>

named_theorems step_elims \<open>inversion of successful steps of the command line\<close>

lemma on_world_Inr [step_elims]: "on_world m c = (Inr x, c') \<longleftrightarrow> (\<exists>w. m (c_world c) = (Inr x, w) \<and> c' = c\<lparr>c_world := w\<rparr>)"
  by (auto simp: on_world_def split: prod.splits)

lemma steps_Inr [step_elims]:
  "io_step mi c = (Inr xi, c') \<longleftrightarrow> (\<exists>w. mi (c_world c) = (Inr xi, w) \<and> c' = c\<lparr>c_world := w\<rparr>)"
  "crypto_step m c = (Inr x, c') \<longleftrightarrow> (\<exists>w. m (c_world c) = (Inr x, w) \<and> c' = c\<lparr>c_world := w\<rparr>)"
  "crypto_step_msg t m c = (Inr x, c') \<longleftrightarrow> (\<exists>w. m (c_world c) = (Inr x, w) \<and> c' = c\<lparr>c_world := w\<rparr>)"
  by (auto simp: io_step_def crypto_step_def crypto_step_msg_def on_world_Inr res_elims)

lemma print_Inr [step_elims]:
  "print l c = (Inr u, c') \<longleftrightarrow> c' = c\<lparr>c_out := c_out c @ [Line l]\<rparr>"
  "print_lines ls c = (Inr u, c') \<longleftrightarrow> c' = c\<lparr>c_out := c_out c @ map Line ls\<rparr>"
  by (auto simp: print_def print_lines_def)

lemma checks_Inr [step_elims]:
  "check (ensure_input_file p) c = (Inr u, c') \<longleftrightarrow> is_regular (c_world c) p \<and> c' = c"
  "check (ensure_output_available p force) c = (Inr u, c') \<longleftrightarrow> (path_exists (c_world c) p \<longrightarrow> force) \<and> c' = c"
  by (cases c; auto simp: check_def on_world_def ensure_input_file_def ensure_output_available_def res_elims)+

lemma distinct_Inr [step_elims]:
  "check (ensure_distinct_file_paths p q) c = (Inr u, c') \<Longrightarrow> c' = c"
  by (cases c) (auto simp: check_def on_world_def ensure_distinct_file_paths_def res_elims canonicalize_def
      act_def act_map_err_def split: if_splits prod.splits sum.splits)

lemma distinct_ok:
  "lookup (c_world c) p \<noteq> None \<Longrightarrow> resolve (c_world c) p \<noteq> resolve (c_world c) q \<Longrightarrow>
     check (ensure_distinct_file_paths p q) c = (Inr (), c)"
  by (cases "p = q"; cases c) (auto simp: check_def on_world_def ensure_distinct_file_paths_def canonicalize_def act_apply
      act_map_err_def path_exists_def)

lemma load_policy_Inr: "load_policy X p c = (Inr pol, c') \<Longrightarrow> c' = c"
proof -
  assume run: "load_policy X p c = (Inr pol, c')"
  then obtain bs w where "read_policy_file (cr_io_text X) p (c_world c) = (Inr bs, w)" "c' = c\<lparr>c_world := w\<rparr>"
    by (auto simp: load_policy_def policy_load_from_file_def step_elims res_elims)
  then show ?thesis using read_limited_Inr by (cases c) (fastforce simp: read_policy_file_def)
qed

lemma optional_Inr:
  "optional load x c = (Inr y, c') \<Longrightarrow> (\<And>a b d. load a c = (Inr b, d) \<Longrightarrow> d = c) \<Longrightarrow> c' = c"
  by (auto simp: optional_def res_elims split: option.splits)

section \<open>Secrets from files\<close>

text \<open>Reading a secret file depends on nothing but that file.\<close>

text \<open>A step that only reads, and gives the same result in two worlds.\<close>

definition agrees :: "('e + 'a) \<times> 's \<Rightarrow> 's \<Rightarrow> ('e + 'a) \<times> 's \<Rightarrow> 's \<Rightarrow> bool" where
  "agrees x w x' w' \<longleftrightarrow> (\<exists>r. x = (r, w) \<and> x' = (r, w'))"

lemma agrees_act:
  "agrees (m w) w (m' w') w' \<Longrightarrow> (\<And>x. agrees (f x w) w (f' x w') w') \<Longrightarrow> agrees (act m f w) w (act m' f' w') w'"
  unfolding agrees_def by (fastforce simp: act_apply split: sum.splits)

lemma agrees_step:
  "agrees (lift r w) w (lift r w') w'" "agrees (ret x w) w (ret x w') w'"
  "agrees (m w) w (m' w') w' \<Longrightarrow> agrees (act_map_err h m w) w (act_map_err h m' w') w'"
  unfolding agrees_def by (auto simp: lift_def ret_def act_map_err_def)

lemma agrees_open:
  assumes "lookup w' p = lookup w p" "w_script w' = w_script w" "resolve w' p = resolve w p" "w_dir_size w' = w_dir_size w"
  shows "agrees (open_file p w) w (open_file p w') w'" "agrees (metadata_of p w) w (metadata_of p w') w'"
  using assms by (auto simp: agrees_def open_file_def metadata_of_def split: option.splits node.splits)

lemma read_secret_same:
  assumes "lookup w' p = lookup w p" "w_script w' = w_script w" "w_cwd w' = w_cwd w" "w_dir_size w' = w_dir_size w"
    and run: "read_secret_file E p w = (Inr s, v)"
  shows "read_secret_file E p w' = (Inr s, w')"
proof -
  have r: "resolve w' p = resolve w p" using assms(3) by (simp add: resolve_def)
  have "agrees (read_secret_file E p w) w (read_secret_file E p w') w'"
    unfolding read_secret_file_def r
    by (intro agrees_act agrees_step agrees_open assms r)
  then show ?thesis using run by (auto simp: agrees_def)
qed

lemma secret_from_file:
  assumes "read_secret_file E p (c_world c) = (Inr s, c_world c)"
  shows "required_password E pw (Some p) cf c = (Inr s, c)" "seed_secret E sd (Some p) c = (Inr (Some s), c)"
  using assms by (simp_all add: required_password_def password_secret_def seed_secret_def on_world_def act_apply)

lemma reads_nothing:
  "required_password E pw (Some p) cf c = (Inr s, c') \<Longrightarrow> c' = c \<and> read_secret_file E p (c_world c) = (Inr s, c_world c)"
  "seed_secret E sd (Some p) c = (Inr so, c') \<Longrightarrow>
     c' = c \<and> (\<exists>s. so = Some s \<and> read_secret_file E p (c_world c) = (Inr s, c_world c))"
  "seed_secret E False None c = (Inr so, c') \<Longrightarrow> c' = c \<and> so = None"
  using read_secret_same [of "c_world c" p "c_world c" E]
  by (cases c; auto simp: required_password_def password_secret_def seed_secret_def step_elims res_elims; fastforce)+

lemma encrypt_Inr:
  assumes "encrypt X E a c = (Inr (), c')" "ea_password_file a = Some pf" "\<not> ea_sfx a" "ea_seed a \<longrightarrow> ea_seed_file a \<noteq> None"
  obtains pwd seed profile pol where
    "read_secret_file E pf (c_world c) = (Inr pwd, c_world c)"
    "case ea_seed_file a of None \<Rightarrow> seed = None
       | Some p \<Rightarrow> \<exists>s. seed = Some s \<and> read_secret_file E p (c_world c) = (Inr s, c_world c)"
    "encrypt_file_password (cr_prims X) (cr_postcard X) (ea_in_file a) (ea_out_file a) pwd seed profile pol (ea_override a)
       (c_world c) = (Inr (), c_world c')"
proof -
  have none: "ea_pub_key a = None" "ea_recipient_group a = None"
    using assms(1,2) by (auto simp: encrypt_def one_of_two_def res_elims)
  from assms(1,3) obtain u c1 c2 c3 profile pol where
    "check (ensure_distinct_file_paths (ea_in_file a) (ea_out_file a)) c = (Inr u, c1)"
    "optional (load_policy X) (ea_policy a) c1 = (Inr pol, c2)"
    "encrypt_to X E a (ea_out_file a) profile pol c2 = (Inr (), c3)" "c_world c' = c_world c3"
    by (auto simp: encrypt_def Let_def res_elims step_elims)
  note runs = this
  have c2: "c2 = c" using distinct_Inr [OF runs(1)] optional_Inr [OF runs(2) load_policy_Inr] by simp
  from runs(3,4) obtain pwd c4 seed c5 where s: "required_password E (ea_password a) (Some pf) True c = (Inr pwd, c4)"
      "seed_secret E (ea_seed a) (ea_seed_file a) c4 = (Inr seed, c5)"
      "encrypt_file_password (cr_prims X) (cr_postcard X) (ea_in_file a) (ea_out_file a) pwd seed profile pol (ea_override a)
         (c_world c5) = (Inr (), c_world c')"
    unfolding c2 encrypt_to_def by (auto simp: none assms(2) res_elims step_elims)
  have c4: "c4 = c" "read_secret_file E pf (c_world c) = (Inr pwd, c_world c)" using reads_nothing(1) [OF s(1)] by simp_all
  show ?thesis
  proof (cases "ea_seed_file a")
    case None
    then show ?thesis using that [OF c4(2), of seed] s(2,3) c4(1) reads_nothing(3) [of E c seed c5] assms(4) by simp
  next
    case (Some p)
    then show ?thesis using that [OF c4(2), of seed] s(2,3) c4(1) reads_nothing(2) [of E "ea_seed a" p c seed c5] by auto
  qed
qed

lemma seed_ok:
  assumes "case sf of None \<Rightarrow> seed = None | Some p \<Rightarrow> \<exists>s. seed = Some s \<and> read_secret_file E p (c_world c) = (Inr s, c_world c)"
  shows "seed_secret E False sf c = (Inr seed, c)"
proof (cases sf)
  case None
  then show ?thesis using assms by (simp add: seed_secret_def ret_def)
next
  case (Some p)
  then show ?thesis using assms by (auto simp: secret_from_file)
qed

lemma decrypt_ok:
  assumes "lookup (c_world c) inp = Some (Regular capsule)" "resolve (c_world c) inp \<noteq> resolve (c_world c) out"
    and free: "path_exists (c_world c) out \<longrightarrow> force"
    and pwd: "read_secret_file E pf (c_world c) = (Inr pwd, c_world c)"
    and seed: "case sf of None \<Rightarrow> seed = None | Some p \<Rightarrow> \<exists>s. seed = Some s \<and> read_secret_file E p (c_world c) = (Inr s, c_world c)"
    and dec: "decrypt_file_password (cr_prims X) (cr_postcard X) inp out pwd seed (c_world c) = (Inr (), w)"
  shows "decrypt X E inp out \<lparr>use_password = False, password_file = Some pf, priv_key_file = None, use_seed = False, seed_file = sf\<rparr>
    force c = (Inr (), c\<lparr>c_world := w, c_out := c_out c @ [Line (''Decrypted: '' @ display out)]\<rparr>)"
proof -
  have checks: "check (ensure_input_file inp) c = (Inr (), c)" "check (ensure_output_available out force) c = (Inr (), c)"
      "check (ensure_distinct_file_paths inp out) c = (Inr (), c)"
    using assms(1,2) free by (simp_all add: checks_Inr is_regular_def distinct_ok)
  have s: "seed_secret E False sf c = (Inr seed, c)" by (rule seed_ok [OF seed])
  show ?thesis
    by (simp add: decrypt_def act_apply checks require_one_mode_def lift_def secret_from_file [OF pwd] s
        crypto_step_def on_world_def act_map_err_def dec print_def)
qed

lemma encrypt_ok:
  assumes inp: "lookup (c_world c) (ea_in_file a) = Some (Regular bs)"
      "resolve (c_world c) (ea_in_file a) \<noteq> resolve (c_world c) (ea_out_file a)"
    and free: "path_exists (c_world c) (ea_out_file a) \<longrightarrow> ea_force a"
    and args: "ea_pub_key a = None" "ea_recipient_group a = None" "ea_policy a = None" "parse_profile (ea_profile a) = Inr prof"
    and pwd: "ea_password_file a = Some pf" "read_secret_file E pf (c_world c) = (Inr pwd, c_world c)"
    and seed: "\<not> ea_seed a" "case ea_seed_file a of None \<Rightarrow> seed = None
      | Some p \<Rightarrow> \<exists>s. seed = Some s \<and> read_secret_file E p (c_world c) = (Inr s, c_world c)"
    and enc: "encrypt_file_password (cr_prims X) (cr_postcard X) (ea_in_file a)
      (if ea_sfx a then sfx_temp_path (ea_out_file a) else ea_out_file a) pwd seed prof None (ea_override a) (c_world c) = (Inr (), w1)"
    and sfx: "if ea_sfx a then create_sfx E (sfx_temp_path (ea_out_file a)) (ea_out_file a) (ea_force a) w1 = (Inr (), w2) else w2 = w1"
  shows "encrypt X E a c = (Inr (), c\<lparr>c_world := w2, c_out := c_out c @ [Line (''Encrypted: '' @ display (ea_out_file a))]\<rparr>)"
proof -
  have checks: "check (ensure_input_file (ea_in_file a)) c = (Inr (), c)"
      "check (ensure_output_available (ea_out_file a) (ea_force a)) c = (Inr (), c)"
      "check (ensure_output_available p True) c = (Inr (), c)"
      "check (ensure_distinct_file_paths (ea_in_file a) (ea_out_file a)) c = (Inr (), c)" for p
    using inp free by (simp_all add: checks_Inr is_regular_def distinct_ok)
  have sd: "seed_secret E (ea_seed a) (ea_seed_file a) c = (Inr seed, c)" using seed_ok [OF seed(2)] seed(1) by simp
  have to: "encrypt_to X E a (if ea_sfx a then sfx_temp_path (ea_out_file a) else ea_out_file a) prof None c = (Inr (), c\<lparr>c_world := w1\<rparr>)"
    by (simp add: encrypt_to_def args pwd(1) act_apply secret_from_file [OF pwd(2)] sd crypto_step_def on_world_def act_map_err_def enc)
  show ?thesis
    using to sfx by (cases "ea_sfx a")
      (simp_all add: encrypt_def Let_def act_apply checks lift_def one_of_two_def args pwd(1) optional_def ret_def print_def
        check_def [of "create_sfx E t out f" for t out f] on_world_def)
qed

lemma encrypt_keeps_secret:
  assumes "encrypt_file_password P S inp out pwd seed profile pol override w = (Inr (), w1)"
    "ciphers_ok (cip P)" "lookup w inp = Some (Regular bs)"
    and "resolve w p \<noteq> resolve w out" "read_secret_file E p w = (Inr s, w)"
  shows "read_secret_file E p w1 = (Inr s, w1)"
proof -
  obtain w0 capsule where w1: "w1 = put_file w0 out capsule" "same_but_rng w w0" "out \<noteq> Path False []"
    using encrypt_file_password_Inr [OF assms(1) [unfolded encrypt_file_password_def] assms(2,3)] by metis
  obtain n where w0: "w0 = w\<lparr>w_rng_pos := n\<rparr>" using w1(2) unfolding same_but_rng_def by metis
  have r: "resolve w0 q = resolve w q" for q by (simp add: resolve_def w0)
  show ?thesis
    by (rule read_secret_same [OF _ _ _ _ assms(5)]; use assms(4) in \<open>simp add: w1(1) lookup_def w_fs_put_file r\<close>; simp add: w0)
qed

section \<open>Round trip\<close>

text \<open>
  C3: What \<open>lvau encrypt --password-file\<close> writes, \<open>lvau decrypt\<close> with the same secret files restores.
\<close>

theorem cli_password_round_trip:
  assumes P: "ciphers_ok (cip (cr_prims X))" and S: "postcard_ok (cr_postcard X)"
    and enc: "run X E (Encrypt a) c = (Inr (), c1)" "ea_password_file a = Some pf" "\<not> ea_sfx a"
      "ea_seed a \<longrightarrow> ea_seed_file a \<noteq> None"
    and inp: "lookup (c_world c) (ea_in_file a) = Some (Regular bs)" "length bs < 2 ^ 64"
    and secrets: "\<forall>p \<in> {pf} \<union> set_option (ea_seed_file a). resolve (c_world c) p \<noteq> resolve (c_world c) (ea_out_file a)"
    and env: "calm (c_world c1) (ea_out_file a)" "output_ok (c_world c1) back"
    and new: "resolve (c_world c1) (ea_out_file a) \<noteq> resolve (c_world c1) back" "path_exists (c_world c1) back \<longrightarrow> force"
  shows "main X E (Decrypt (ea_out_file a) back \<lparr>use_password = False, password_file = Some pf, priv_key_file = None,
      use_seed = False, seed_file = ea_seed_file a\<rparr> force) c1 =
    (0, c1\<lparr>c_world := put_file (c_world c1) back bs, c_out := c_out c1 @ [Line (''Decrypted: '' @ display back)]\<rparr>)"
proof -
  obtain pwd seed profile pol where s: "read_secret_file E pf (c_world c) = (Inr pwd, c_world c)"
      "case ea_seed_file a of None \<Rightarrow> seed = None
         | Some p \<Rightarrow> \<exists>s. seed = Some s \<and> read_secret_file E p (c_world c) = (Inr s, c_world c)"
      "encrypt_file_password (cr_prims X) (cr_postcard X) (ea_in_file a) (ea_out_file a) pwd seed profile pol (ea_override a)
         (c_world c) = (Inr (), c_world c1)"
    by (rule encrypt_Inr [OF enc(1) [unfolded run.simps] enc(2-4)])
  note kept = encrypt_keeps_secret [OF s(3) P inp(1)]
  have pw: "read_secret_file E pf (c_world c1) = (Inr pwd, c_world c1)" using kept s(1) secrets by blast
  have sd: "case ea_seed_file a of None \<Rightarrow> seed = None
     | Some p \<Rightarrow> \<exists>s. seed = Some s \<and> read_secret_file E p (c_world c1) = (Inr s, c_world c1)"
    using kept s(2) secrets by (cases "ea_seed_file a") auto
  have "decrypt_file_password (cr_prims X) (cr_postcard X) (ea_out_file a) back pwd seed (c_world c1) =
      (Inr (), put_file (c_world c1) back bs)" and
    "\<exists>capsule. lookup (c_world c1) (ea_out_file a) = Some (Regular capsule)"
    using password_restores [OF P S s(3) inp env] by auto
  then show ?thesis
    using decrypt_ok [OF _ new pw sd] by (auto simp: main_def)
qed

section \<open>Names of secrets\<close>

lemma rsplit_dot_append: "CHR ''.'' \<notin> set b \<Longrightarrow> rsplit_dot (a @ ''.'' @ b) = Some (a, b)"
proof -
  assume b: "CHR ''.'' \<notin> set b"
  then have "takeWhile (\<lambda>c. c \<noteq> CHR ''.'') (rev b @ CHR ''.'' # rev a) = rev b"
      "dropWhile (\<lambda>c. c \<noteq> CHR ''.'') (rev b @ CHR ''.'' # rev a) = CHR ''.'' # rev a"
    by (subst takeWhile_append2 dropWhile_append2; auto)+
  then show ?thesis by (simp add: rsplit_dot_def)
qed

lemma rsplit_dot_Some:
  assumes "rsplit_dot s = Some (a, b)"
  shows "s = a @ ''.'' @ b" "CHR ''.'' \<notin> set b"
proof -
  have dot: "CHR ''.'' \<in> set s" and a: "a = rev (tl (dropWhile (\<lambda>c. c \<noteq> CHR ''.'') (rev s)))"
    and b: "b = rev (takeWhile (\<lambda>c. c \<noteq> CHR ''.'') (rev s))"
    using assms by (auto simp: rsplit_dot_def split: if_splits)
  from dot have "dropWhile (\<lambda>c. c \<noteq> CHR ''.'') (rev s) \<noteq> []" by simp
  from hd_dropWhile [OF this] this obtain r where r: "dropWhile (\<lambda>c. c \<noteq> CHR ''.'') (rev s) = CHR ''.'' # r"
    by (cases "dropWhile (\<lambda>c. c \<noteq> CHR ''.'') (rev s)") simp_all
  have "rev s = rev b @ CHR ''.'' # rev a"
    using takeWhile_dropWhile_id [of "\<lambda>c. c \<noteq> CHR ''.''" "rev s"] by (simp add: r a b)
  from arg_cong [OF this, of rev] show "s = a @ ''.'' @ b" by simp
  show "CHR ''.'' \<notin> set b" unfolding b by (auto dest: set_takeWhileD)
qed

text \<open>The name that \<open>secret decrypt\<close> gives back.\<close>

definition secret_back :: "path \<Rightarrow> path" where
  "secret_back p = (if extension p = None then Path (absolute p) (butlast (comps p) @ [the (file_name p) @ ''.'']) else p)"

lemma secret_names:
  assumes n: "file_name p = Some n"
  obtains before where "secret_out_path p = Path (absolute p) (butlast (comps p) @ [before @ ''.lvau''])" "before \<noteq> []"
    "with_extension (secret_out_path p) [] = secret_back p" "before @ ''.lvau'' \<noteq> n" "n \<noteq> ''.''"
proof -
  have last: "comps p \<noteq> []" "last (comps p) = n" "n \<noteq> ''.''" "n \<noteq> ''..''"
    using n by (auto simp: file_name_def split: if_splits)
  have stem: "stem_and_extension (b @ ''.lvau'') = (b, Some ''lvau'')" if "b \<noteq> []" for b
    using rsplit_dot_append [of "''lvau''" b] that by (simp add: stem_and_extension_def)
  have back_path: "with_extension (Path (absolute p) (butlast (comps p) @ [b @ ''.lvau''])) [] =
      Path (absolute p) (butlast (comps p) @ [b])" if "b \<noteq> []" for b
    using that stem [OF that] by (cases b) (auto simp: with_extension_def file_stem_def file_name_def)
  show ?thesis
  proof (cases "extension p")
    case None
    then have out: "secret_out_path p = Path (absolute p) (butlast (comps p) @ [(n @ ''.'') @ ''.lvau''])"
      using n by (auto simp: secret_out_path_def with_extension_def file_stem_def extension_def stem_and_extension_def
          split: option.splits if_splits)
    show ?thesis
      by (rule that [OF out]) (use back_path [of "n @ ''.''"] None n last(3) in \<open>simp_all add: out secret_back_def\<close>)
  next
    case (Some ext)
    then obtain stem where s: "rsplit_dot n = Some (stem, ext)" "stem \<noteq> []" "file_stem p = Some stem"
      using n by (auto simp: extension_def file_stem_def stem_and_extension_def split: option.splits if_splits)
    have n_eq: "n = stem @ ''.'' @ ext" by (rule rsplit_dot_Some(1) [OF s(1)])
    have out: "secret_out_path p = Path (absolute p) (butlast (comps p) @ [n @ ''.lvau''])"
      using s Some by (simp add: secret_out_path_def with_extension_def n_eq)
    have "Path (absolute p) (butlast (comps p) @ [n]) = p"
      using last by (metis append_butlast_last_id path.collapse)
    then show ?thesis
      by (intro that [OF out]) (use back_path [of n] Some last(3) n_eq s(2) in \<open>simp_all add: out secret_back_def\<close>)
  qed
qed

lemma secret_names_apart:
  assumes "file_name p = Some n"
  shows "resolve w (secret_out_path p) \<noteq> resolve w p" "secret_out_path p \<noteq> Path False []"
proof -
  obtain before where s: "secret_out_path p = Path (absolute p) (butlast (comps p) @ [before @ ''.lvau''])"
      "before \<noteq> []" "before @ ''.lvau'' \<noteq> n" "n \<noteq> ''.''"
    using secret_names [OF assms] by metis
  have c: "butlast (comps p) @ [n] = comps p"
    using assms by (auto simp: file_name_def split: if_splits)
  have "filter (\<lambda>c. c \<noteq> ''.'') (butlast (comps p) @ [n]) = filter (\<lambda>c. c \<noteq> ''.'') (butlast (comps p)) @ [n]"
    using s(4) by simp
  then have "filter (\<lambda>c. c \<noteq> ''.'') (comps p) = filter (\<lambda>c. c \<noteq> ''.'') (butlast (comps p)) @ [n]"
    by (simp only: c)
  then show "resolve w (secret_out_path p) \<noteq> resolve w p"
    using s(2,3) by (cases before) (auto simp: resolve_def s(1))
  show "secret_out_path p \<noteq> Path False []" by (simp add: s(1))
qed

lemma local_policy_Inr: "local_policy X c = (Inr pol, c') \<Longrightarrow> c' = c"
  using load_policy_Inr [of X "Path False [''.lvau-policy.toml'']" c]
  by (auto simp: local_policy_def load_policy_def Let_def step_elims res_elims split: if_splits)

lemma prompt_Inr [step_elims]:
  "prompt_password c = (Inr pw, c') \<longleftrightarrow> (\<exists>ts. c_typed c = Inr pw # ts \<and> c' = c\<lparr>c_typed := ts\<rparr>)"
  by (auto simp: prompt_password_def res_elims split: list.splits)

lemma secret_encrypt_Inr:
  assumes "secret_encrypt X p c = (Inr (), c')"
  obtains pw ts pol where "c_typed c = Inr pw # Inr pw # ts" "c_typed c' = ts"
    "encrypt_file_password (cr_prims X) (cr_postcard X) p (secret_out_path p) pw None Balanced pol False (c_world c) =
      (Inr (), c_world c')"
proof -
  from assms obtain pw ts pol c2 c3 where s: "c_typed c = Inr pw # Inr pw # ts"
      "local_policy X (c\<lparr>c_typed := ts\<rparr>) = (Inr pol, c2)"
      "encrypt_file_password (cr_prims X) (cr_postcard X) p (secret_out_path p) pw None Balanced pol False (c_world c2) =
        (Inr (), c_world c')" "c_typed c' = c_typed c2"
    by (auto simp: secret_encrypt_def Let_def res_elims step_elims)
  from s(2) have "c2 = c\<lparr>c_typed := ts\<rparr>" by (rule local_policy_Inr)
  with s that show ?thesis by simp
qed

text \<open>
  C29: What \<open>secret encrypt\<close> writes, \<open>secret decrypt\<close> restores once the plaintext is gone: in its
  place when its name has an extension, and otherwise (\<open>.env\<close>, \<open>id\<close>) under its name with a dot at
  the end.
\<close>

theorem secret_round_trip:
  assumes P: "ciphers_ok (cip (cr_prims X))" and S: "postcard_ok (cr_postcard X)"
    and enc: "run X E (Secrets (SecretEncrypt p)) c = (Inr (), c1)"
    and inp: "lookup (c_world c) p = Some (Regular bs)" "length bs < 2 ^ 64" "file_name p \<noteq> None"
    and gone: "w2 = without_file (c_world c1) p" "calm w2 (secret_out_path p)"
    and target: "\<not> path_exists w2 (secret_back p)" "output_ok w2 (secret_back p)"
  shows "\<exists>pw ts. c_typed c = Inr pw # Inr pw # ts \<and>
    run X E (Secrets (SecretDecrypt (secret_out_path p))) (c1\<lparr>c_world := w2, c_typed := [Inr pw]\<rparr>) =
      (Inr (), c1\<lparr>c_world := put_file w2 (secret_back p) bs, c_typed := [],
         c_out := c_out c1 @ [Line (''Secret decrypted to '' @ display (secret_back p))]\<rparr>)"
proof -
  obtain pw ts pol where t: "c_typed c = Inr pw # Inr pw # ts"
      "encrypt_file_password (cr_prims X) (cr_postcard X) p (secret_out_path p) pw None Balanced pol False (c_world c) =
        (Inr (), c_world c1)"
    using secret_encrypt_Inr [OF enc [unfolded run.simps run_secret.simps]] by metis
  obtain n where n: "file_name p = Some n" using inp(3) by blast
  obtain e fek capsule w0 where cap: "c_world c1 = put_file w0 (secret_out_path p) capsule"
      "capsule_of (cr_prims X) (cr_postcard X) e fek bs capsule"
      "unwrap_password_file_key (cr_prims X) e pw None = Inr fek" "plaintext_len e = of_nat (length bs)"
    using encrypt_file_password_Inr [OF t(2) [unfolded encrypt_file_password_def] P inp(1)] by metis
  have there: "lookup w2 (secret_out_path p) = Some (Regular capsule)"
    using secret_names_apart [OF n] by (simp add: gone(1) cap(1) lookup_def w_fs_put_file)
  have dec: "decrypt_file_password (cr_prims X) (cr_postcard X) (secret_out_path p) (secret_back p) pw None w2 =
      (Inr (), put_file w2 (secret_back p) bs)"
    unfolding decrypt_with
    by (rule decrypt_file_capsule [where unlock = "\<lambda>e. unwrap_password_file_key (cr_prims X) e pw None",
        OF cap(2) S P there gone(2) cap(3,4) inp(2) target(2)])
  have named: "with_extension (secret_out_path p) [] = secret_back p" using secret_names [OF n] by metis
  have "is_regular w2 (secret_out_path p)" using there by (simp add: is_regular_def)
  then show ?thesis
    using t(1) target(1) by (intro exI [of _ pw] exI [of _ ts])
      (simp add: secret_decrypt_def Let_def named act_apply check_def on_world_def ensure_input_file_def ensure_output_available_def
        lift_def prompt_password_def crypto_step_msg_def act_map_err_def dec print_def)
qed

section \<open>Keys under a bare name\<close>

lemma frame_act_stop:
  assumes "frame_on v u cwd A m" "\<And>s x s'. m s \<noteq> (Inr x, s')"
  shows "frame_on v u cwd A (act m f)"
proof -
  have "snd (act m f s) = snd (m s)" for s
    using assms(2) [of s] by (cases "m s"; cases "fst (m s)") (auto simp: act_apply)
  then show ?thesis using assms(1) by (simp add: frame_on_def)
qed

lemma private_save_bare: "private_save_to_file J H sk (Path False [n]) w \<noteq> (Inr u, w')"
  by (auto simp: private_save_to_file_def write_key_file_def write_via_def key_commit_def parent_or_dot_def parent_def
      sync_path_def lookup_def Let_def res_elims)

lemma with_extension_bare: "\<exists>m. with_extension (Path False [n]) ext = Path False [m]"
  by (simp add: with_extension_def split: option.splits)

text \<open>
  \<open>lvau keygen\<close> with a bare name as base never succeeds: it fails after the private key is in
  place, at the sync of the empty parent path, and the public key is never written.
\<close>

theorem keygen_bare_name_fails:
  assumes run: "run X E (Keygen (Path False [n]) force) c = (r, c')"
  shows "r \<noteq> Inr () \<and> (\<forall>k. k \<noteq> resolve (c_world c) (with_extension (Path False [n]) ''lvau-key'') \<longrightarrow>
    w_fs (c_world c') k = w_fs (c_world c) k)"
proof -
  obtain m where m: "with_extension (Path False [n]) ''lvau-key'' = Path False [m]" using with_extension_bare by blast
  have never: "crypto_step (private_save_to_file (cr_base64 X) (cr_hybrid X) sk (Path False [m])) s \<noteq> (Inr x, s')" for sk s x s'
    using private_save_bare by (auto simp: step_elims)
  let ?A = "dest (w_cwd (c_world c)) (Path False [m])"
  have "cframe (w_cwd (c_world c)) ?A (keygen X (Path False [n]) force)"
    unfolding keygen_def Let_def m generate_keypair_def
    by (rule frame_act, intro framing, rule frame_act, intro framing, rule frame_act, intro framing,
        rule frame_act, intro framing, rule frame_prod, rule frame_act_stop [OF _ never]) (intro framing subset_refl)
  moreover have "\<exists>e. r = Inl e"
  proof (rule ccontr)
    assume "\<nexists>e. r = Inl e"
    then obtain u where "r = Inr u" by (cases r) auto
    then show False using run never by (auto simp: keygen_def Let_def m res_elims split: prod.splits)
  qed
  ultimately show ?thesis
    using run by (auto simp: frame_on_def m dest_def resolve_def split: if_splits)
qed

section \<open>The temporary capsule of an archive\<close>

text \<open>A step that, when it succeeds, leaves nothing at an entry.\<close>

definition clears :: "('s \<Rightarrow> world) \<Rightarrow> string list \<Rightarrow> string list \<Rightarrow> ('s, 'e, 'a) action \<Rightarrow> bool" where
  "clears v cwd k m \<longleftrightarrow> (\<forall>s x s'. w_cwd (v s) = cwd \<longrightarrow> m s = (Inr x, s') \<longrightarrow> w_fs (v s') k = None)"

lemma clears_after: "frame_on v u cwd UNIV m \<Longrightarrow> (\<And>x. clears v cwd k (f x)) \<Longrightarrow> clears v cwd k (act m f)"
  unfolding clears_def frame_on_def by (auto simp: res_elims)

lemma clears_before: "clears v cwd k m \<Longrightarrow> (\<And>x. frame_on v u cwd {} (f x)) \<Longrightarrow> frame_on v u cwd UNIV m \<Longrightarrow> clears v cwd k (act m f)"
  unfolding clears_def frame_on_def by (auto simp: res_elims) (metis snd_conv)

lemma clears_remove:
  assumes "k = (if absolute p then [] else cwd) @ filter (\<lambda>c. c \<noteq> ''.'') (comps p)"
  shows "clears (\<lambda>w. w) cwd k (act_map_err g (remove_file p))"
  using assms by (auto simp: clears_def remove_file_def resolve_def res_elims split: option.splits node.splits if_splits)

lemma clears_create_sfx:
  assumes k: "k = (if absolute temp then [] else cwd) @ filter (\<lambda>c. c \<noteq> ''.'') (comps temp)"
  shows "clears (\<lambda>w. w) cwd k (create_sfx E temp out force)"
proof -
  have a: "clears (\<lambda>w. w) cwd k (assemble_sfx q temp out force)" for q
    unfolding assemble_sfx_def by (rule clears_after [where u = "\<lambda>_. ()"], intro framing subset_UNIV)+ (rule clears_remove [OF k])
  have "clears (\<lambda>w. w) cwd k (\<lambda>w. if b w then (Inl e, h w) else assemble_sfx q temp out force w)" for b h q and e :: cli_error
    using a [of q] by (auto simp: clears_def)
  then show ?thesis
    unfolding create_sfx_def Let_def by (intro clears_after [where u = "\<lambda>_. ()"] framing)
qed

text \<open>
  \<open>encrypt --sfx\<close> builds its capsule under a fixed name beside the archive, with the extension
  \<open>.tmp.lvau\<close>, and removes it. A successful command leaves nothing under that name, even when a file
  of the user was there, or the input itself, and even without \<open>--force\<close>.
\<close>

theorem sfx_clears_temporary_name:
  assumes "run X E (Encrypt a) c = (Inr (), c')" "ea_sfx a"
  shows "w_fs (c_world c') (resolve (c_world c) (sfx_temp_path (ea_out_file a))) = None"
proof -
  let ?temp = "sfx_temp_path (ea_out_file a)" and ?k = "resolve (c_world c) (sfx_temp_path (ea_out_file a))"
  have "clears (\<lambda>w. w) (w_cwd (c_world c)) ?k (create_sfx E ?temp (ea_out_file a) (ea_force a))"
    by (rule clears_create_sfx) (simp add: resolve_def)
  then have sfx: "clears c_world (w_cwd (c_world c)) ?k (check (create_sfx E ?temp (ea_out_file a) (ea_force a)))"
    by (auto simp: clears_def check_def step_elims)
  have fr: "cframe (w_cwd (c_world c)) UNIV (check (create_sfx E ?temp (ea_out_file a) (ea_force a)))"
    unfolding check_def by (intro framing frame_create_sfx subset_UNIV)
  have "clears c_world (w_cwd (c_world c)) ?k (encrypt X E a)"
    unfolding encrypt_def Let_def if_P [OF assms(2)]
    by (rule clears_after [where u = c_beyond], intro framing frame_encrypt_to subset_UNIV)+ (rule clears_before [OF sfx _ fr]; intro framing)
  with assms(1) show ?thesis by (simp add: clears_def)
qed

end
