(* ===== verification/Cli_Samples.thy ===== *)
theory Cli_Samples
  imports Cli_Correct Bundle_Samples Signing_Samples Extract_Samples
begin

text \<open>
  Concrete command lines: archives, capsules and secrets in the sample directory, with a password
  in a file.
\<close>

section \<open>Secret files\<close>

lemma secret_file_cases:
  assumes input: "lookup w p = Some (Regular bs)" "calm w p"
  shows "read_secret_file E p w =
    (if MAX_SECRET_FILE_SIZE < length bs then Inl (CliMessage (too_large p))
     else if env_mode E (resolve w p) AND 0x3F \<noteq> 0
     then Inl (CliMessage (''Secret file permissions are too broad: '' @ display p @ '' (use chmod 600)''))
     else if \<not> utf8_valid bs then Inl (CliIo InvalidData)
     else Inr (trim_line_ends bs), w)"
proof -
  let ?rd = "\<lparr>r_data = bs, r_events = w_script w (resolve w p)\<rparr>"
  have "quiet ?rd" using input(2) by (simp add: quiet_def calm_def)
  then obtain rd' where "fill (MAX_SECRET_FILE_SIZE + 1) [] ?rd = (Inr (take (MAX_SECRET_FILE_SIZE + 1) bs), rd')"
    using fill_quiet_eq [of ?rd "MAX_SECRET_FILE_SIZE + 1"] by auto
  then show ?thesis
    using input(1) by (simp add: read_secret_file_def act_apply act_map_err_def metadata_of_def lift_def ret_def)
qed

lemma trim_line_ends_iff:
  "trim_line_ends bs = s \<longleftrightarrow> (\<exists>tail. bs = s @ tail \<and> set tail \<subseteq> {13, 10} \<and> (s = [] \<or> last s \<notin> {13, 10}))"
proof
  let ?P = "\<lambda>b :: 8 word. b = 13 \<or> b = 10"
  assume s: "trim_line_ends bs = s"
  have "bs = rev (dropWhile ?P (rev bs)) @ rev (takeWhile ?P (rev bs))"
    by (metis rev_append rev_rev_ident takeWhile_dropWhile_id)
  moreover have "set (rev (takeWhile ?P (rev bs))) \<subseteq> {13, 10}"
    by (auto dest: set_takeWhileD)
  moreover have "s = [] \<or> \<not> ?P (last s)"
    using hd_dropWhile [of ?P "rev bs"] s by (auto simp: trim_line_ends_def last_rev)
  ultimately show "\<exists>tail. bs = s @ tail \<and> set tail \<subseteq> {13, 10} \<and> (s = [] \<or> last s \<notin> {13, 10})"
    using s by (intro exI [of _ "rev (takeWhile ?P (rev bs))"]) (auto simp: trim_line_ends_def)
next
  assume "\<exists>tail. bs = s @ tail \<and> set tail \<subseteq> {13, 10} \<and> (s = [] \<or> last s \<notin> {13, 10})"
  then obtain t where t: "bs = s @ t" "set t \<subseteq> {13, 10}" "s = [] \<or> last s \<notin> {13, 10}" by blast
  have "dropWhile (\<lambda>b. b = 13 \<or> b = 10) (rev t @ rev s) = dropWhile (\<lambda>b. b = 13 \<or> b = 10) (rev s)"
    using t(2) by (intro dropWhile_append2) auto
  then show "trim_line_ends bs = s"
    using t(1,3) by (cases s rule: rev_cases) (simp_all add: trim_line_ends_def)
qed

lemma group_bits: "(m :: nat) AND 0x3F = 0 \<longleftrightarrow> (\<forall>i < 6. \<not> bit m i)"
proof -
  have "(0x3F :: nat) = mask 6" by (simp add: mask_eq_exp_minus_1)
  then have "m AND 0x3F = take_bit 6 m" by (simp add: take_bit_eq_mask)
  then show ?thesis by (auto simp: bit_eq_iff bit_take_bit_iff)
qed

text \<open>
  C30: A secret file is accepted exactly when it is a regular file of at most 64 KiB of UTF-8 whose
  mode gives its group and others nothing (the six low bits are clear), and the secret is its
  contents without the carriage returns and line feeds at the end, and without anything else
  missing. A missing file, a directory or special file, a larger file, a file open to others and
  invalid UTF-8 are refused, each with its own error, and nothing is changed.
\<close>

theorem secret_file_exact:
  assumes "calm w p"
  shows "snd (read_secret_file E p w) = w \<and>
    (\<forall>s. fst (read_secret_file E p w) = Inr s \<longleftrightarrow> (\<exists>tail.
      lookup w p = Some (Regular (s @ tail)) \<and> length (s @ tail) \<le> 65536 \<and>
      (\<forall>i < 6. \<not> bit (env_mode E (resolve w p)) i) \<and> utf8_valid (s @ tail) \<and>
      set tail \<subseteq> {13, 10} \<and> (s = [] \<or> last s \<notin> {13, 10}))) \<and>
    (lookup w p = None \<longrightarrow> fst (read_secret_file E p w) = Inl (CliIo NotFound)) \<and>
    (lookup w p = Some Directory \<or> lookup w p = Some Special \<longrightarrow>
      fst (read_secret_file E p w) = Inl (CliMessage (''Secret file is not a regular file: '' @ display p))) \<and>
    (\<forall>bs. lookup w p = Some (Regular bs) \<longrightarrow>
      (65536 < length bs \<longrightarrow> fst (read_secret_file E p w) =
        Inl (CliMessage (''Secret file is too large: '' @ display p @ '' (maximum 65536 bytes)''))) \<and>
      (length bs \<le> 65536 \<and> (\<exists>i < 6. bit (env_mode E (resolve w p)) i) \<longrightarrow> fst (read_secret_file E p w) =
        Inl (CliMessage (''Secret file permissions are too broad: '' @ display p @ '' (use chmod 600)''))) \<and>
      (length bs \<le> 65536 \<and> (\<forall>i < 6. \<not> bit (env_mode E (resolve w p)) i) \<and> \<not> utf8_valid bs \<longrightarrow>
        fst (read_secret_file E p w) = Inl (CliIo InvalidData)))"
proof -
  have max: "MAX_SECRET_FILE_SIZE = 65536" by (simp add: MAX_SECRET_FILE_SIZE_def)
  have dec: "decimal 65536 = ''65536''"
    by (simp add: decimal.simps [of 65536] decimal.simps [of 6553] decimal.simps [of 655] decimal.simps [of 65]
        decimal.simps [of 6]) code_simp
  show ?thesis
  proof (cases "\<exists>bs. lookup w p = Some (Regular bs)")
    case True
    then obtain bs where bs: "lookup w p = Some (Regular bs)" by blast
    note cases = secret_file_cases [OF bs assms, of E, unfolded group_bits max]
    have iff: "fst (read_secret_file E p w) = Inr s \<longleftrightarrow> length bs \<le> 65536 \<and> (\<forall>i < 6. \<not> bit (env_mode E (resolve w p)) i) \<and>
        utf8_valid bs \<and> trim_line_ends bs = s" for s
      unfolding cases fst_conv by (auto split: if_split)
    have acc: "fst (read_secret_file E p w) = Inr s \<longleftrightarrow> (\<exists>tail. lookup w p = Some (Regular (s @ tail)) \<and>
        length (s @ tail) \<le> 65536 \<and> (\<forall>i < 6. \<not> bit (env_mode E (resolve w p)) i) \<and> utf8_valid (s @ tail) \<and>
        set tail \<subseteq> {13, 10} \<and> (s = [] \<or> last s \<notin> {13, 10}))" for s
      unfolding iff trim_line_ends_iff bs option.inject node.inject by blast
    have errs: "snd (read_secret_file E p w) = w"
        "65536 < length bs \<Longrightarrow> fst (read_secret_file E p w) =
          Inl (CliMessage (''Secret file is too large: '' @ display p @ '' (maximum 65536 bytes)''))"
        "length bs \<le> 65536 \<Longrightarrow> \<exists>i < 6. bit (env_mode E (resolve w p)) i \<Longrightarrow> fst (read_secret_file E p w) =
          Inl (CliMessage (''Secret file permissions are too broad: '' @ display p @ '' (use chmod 600)''))"
        "length bs \<le> 65536 \<Longrightarrow> \<forall>i < 6. \<not> bit (env_mode E (resolve w p)) i \<Longrightarrow> \<not> utf8_valid bs \<Longrightarrow>
          fst (read_secret_file E p w) = Inl (CliIo InvalidData)"
      unfolding cases too_large_def max dec by simp_all
    show ?thesis
      using acc errs bs by simp
  next
    case False
    then have "lookup w p = None \<or> lookup w p = Some Directory \<or> lookup w p = Some Special"
      by (cases "lookup w p"; cases "the (lookup w p)") auto
    then show ?thesis
      by (auto simp: read_secret_file_def act_apply act_map_err_def open_file_def metadata_of_def lift_def)
  qed
qed

section \<open>The sample command line\<close>

definition sample_crates :: crates where
  "sample_crates = \<lparr>cr_prims = sample_prims, cr_postcard = sample_postcard, cr_ed = sample_ed, cr_base64 = sample_base64,
     cr_mlkem = sample_mlkem, cr_hybrid = sample_hybrid, cr_groups = sample_toml, cr_io_text = (\<lambda>_. []),
     cr_crypto_text = (\<lambda>_. []), cr_from_policy = (\<lambda>_. Inl []), cr_to_policy = (\<lambda>_. Inl []),
     cr_bundle = sample_bundle_prims, cr_shares = sample_shares, cr_sharks = sample_sharks\<rparr>"

definition cli_world :: world where
  "cli_world = put_file (put_file sfx_world (sample_file ''pw'') [1, 10]) sfx_temp [42]"

definition cli_console :: console where
  "cli_console = \<lparr>c_world = cli_world, c_beyond = [], c_typed = [], c_out = []\<rparr>"

definition cli_args :: "bool \<Rightarrow> encrypt_args" where
  "cli_args sfx = \<lparr>ea_in_file = sample_in, ea_out_file = sfx_out, ea_password = False,
     ea_password_file = Some (sample_file ''pw''), ea_pub_key = None, ea_recipient_group = None, ea_profile = ''Fast'',
     ea_seed = False, ea_seed_file = None, ea_sfx = sfx, ea_force = False, ea_policy = None, ea_override = False\<rparr>"

lemma cli_args_sel [simp]:
  "ea_in_file (cli_args s) = sample_in" "ea_out_file (cli_args s) = sfx_out"
  "ea_password_file (cli_args s) = Some (sample_file ''pw'')" "ea_pub_key (cli_args s) = None"
  "ea_recipient_group (cli_args s) = None" "ea_profile (cli_args s) = ''Fast''" "\<not> ea_seed (cli_args s)"
  "ea_seed_file (cli_args s) = None" "ea_sfx (cli_args s) = s" "\<not> ea_force (cli_args s)" "ea_policy (cli_args s) = None"
  "\<not> ea_override (cli_args s)"
  by (simp_all add: cli_args_def)

lemma cli_world_ok: "sample_dir_ok cli_world"
  by (simp add: cli_world_def sfx_world_def sfx_stub_def sfx_temp_def sample_dir_ok_put)

lemma cli_files [simp]:
  "lookup cli_world sample_in = Some (Regular [10, 20, 30])" "lookup cli_world (sample_file ''pw'') = Some (Regular [1, 10])"
  "lookup cli_world (sample_file ''lvau-stub'') = Some (Regular [127, 69])" "lookup cli_world sfx_temp = Some (Regular [42])"
  "lookup cli_world sfx_out = None" "lookup cli_world sample_back = None"
  by (simp_all add: cli_world_def sfx_world_def sfx_stub_def sfx_temp_def sfx_out_def lookup_def w_fs_put_file
      sample_world_def) (simp_all add: sample_in_def sample_back_def)

lemma cli_world_fresh: "fresh_name cli_world (Path True [''tmp''])"
proof -
  have t: "w_fs cli_world (''tmp'' # k) = None" for k
    by (simp add: cli_world_def sfx_world_def sfx_stub_def sfx_temp_def w_fs_put_file sample_world_def)
  have "w_fs cli_world k = None" if "take 1 k = [''tmp'']" for k using that t by (cases k) auto
  moreover have "resolve cli_world (Path True [''tmp'']) = [''tmp'']" by (simp add: resolve_def)
  ultimately show ?thesis by (simp add: fresh_name_def under_def)
qed

lemma cli_password: "read_secret_file sfx_environ (sample_file ''pw'') cli_world = (Inr [1], cli_world)"
proof -
  have "utf8_valid [1, 10]" by code_simp
  then show ?thesis
    using secret_file_cases [OF cli_files(2) sample_dir_calm [OF cli_world_ok], of sfx_environ]
    by (simp add: sfx_environ_def MAX_SECRET_FILE_SIZE_def trim_line_ends_def)
qed

lemma sfx_temp_name: "sfx_temp_path sfx_out = sfx_temp"
  by code_simp

lemma cli_encrypts:
  assumes out: "out \<in> {sfx_out, sfx_temp}"
  obtains w0 capsule where "same_but_rng cli_world w0" "sample_dir_ok (put_file w0 out capsule)"
    "encrypt_file_password sample_prims sample_postcard sample_in out [1] None Fast None False cli_world =
       (Inr (), put_file w0 out capsule)"
proof -
  obtain n where n: "out = sample_file n" "n \<noteq> ''.''" using out by (auto simp: sfx_out_def sfx_temp_def)
  have "output_ok (cli_world\<lparr>w_rng_pos := i\<rparr>) out" for i
    unfolding n(1) by (rule sample_dir_output [OF sample_dir_ok_rng [OF cli_world_ok] n(2)])
  then obtain w0 capsule where w: "same_but_rng cli_world w0"
      "encrypt_file_password sample_prims sample_postcard sample_in out [1] None Fast None False cli_world =
       (Inr (), put_file w0 out capsule)"
    using sample_password_encrypts [OF _ cli_files(1) sample_dir_calm [OF cli_world_ok], of out None] cli_world_ok
    by (auto simp: sample_payload_def CHUNK_SIZE_def sample_dir_ok_def encrypt_file_password_def)
  have "sample_dir_ok w0" using w(1) cli_world_ok unfolding same_but_rng_def by (metis sample_dir_ok_rng)
  then have "sample_dir_ok (put_file w0 out capsule)" unfolding n(1) by (rule sample_dir_ok_put [OF _ n(2)])
  with that w show ?thesis by blast
qed

lemma sample_profile: "parse_profile ''Fast'' = Inr Fast"
  by code_simp

lemma cli_sel [simp]:
  "c_world cli_console = cli_world" "cr_prims sample_crates = sample_prims" "cr_postcard sample_crates = sample_postcard"
  "\<not> path_exists cli_world sfx_out" "resolve w sfx_out = [''d'', ''a.run'']" "resolve w sfx_temp = [''d'', ''a.tmp.lvau'']"
  by (simp_all add: cli_console_def sample_crates_def path_exists_def) (simp_all add: sfx_out_def sfx_temp_def)

text \<open>\<open>lvau encrypt --password-file /d/pw /d/in /d/a.run\<close>\<close>

lemma cli_encrypt_run:
  obtains w0 capsule where "same_but_rng cli_world w0" "sample_dir_ok (put_file w0 sfx_out capsule)"
    "encrypt sample_crates sfx_environ (cli_args False) cli_console =
      (Inr (), cli_console\<lparr>c_world := put_file w0 sfx_out capsule, c_out := [Line (''Encrypted: '' @ display sfx_out)]\<rparr>)"
proof -
  obtain w0 capsule where w: "same_but_rng cli_world w0" "sample_dir_ok (put_file w0 sfx_out capsule)"
      "encrypt_file_password sample_prims sample_postcard sample_in sfx_out [1] None Fast None False cli_world =
       (Inr (), put_file w0 sfx_out capsule)"
    by (rule cli_encrypts [of sfx_out]) simp_all
  have "encrypt sample_crates sfx_environ (cli_args False) cli_console =
      (Inr (), cli_console\<lparr>c_world := put_file w0 sfx_out capsule,
        c_out := c_out cli_console @ [Line (''Encrypted: '' @ display (ea_out_file (cli_args False)))]\<rparr>)"
    by (rule encrypt_ok [where bs = "[10, 20, 30]" and pwd = "[1]" and seed = None]; use w(3) cli_password sample_profile in simp)
  then show ?thesis using that w by (simp add: cli_console_def)
qed

text \<open>\<open>lvau encrypt --sfx ...\<close> beside a file of the user with the temporary name.\<close>

lemma cli_sfx_run:
  "\<exists>c'. run sample_crates sfx_environ (Encrypt (cli_args True)) cli_console = (Inr (), c')"
proof -
  obtain w0 capsule where w: "same_but_rng cli_world w0" "sample_dir_ok (put_file w0 sfx_temp capsule)"
      "encrypt_file_password sample_prims sample_postcard sample_in sfx_temp [1] None Fast None False cli_world =
       (Inr (), put_file w0 sfx_temp capsule)"
    by (rule cli_encrypts [of sfx_temp]) simp_all
  let ?w = "put_file w0 sfx_temp capsule"
  have stub: "stub_at (Path True [''d'']) = sample_file ''lvau-stub''"
    by (simp add: stub_at_def below_def sample_file_def)
  have there: "lookup ?w (sample_file ''lvau-stub'') = Some (Regular [127, 69])"
    using cli_files(3) same_but_rngD(1) [OF w(1)] by (simp add: lookup_def w_fs_put_file)
  have free: "w_fs ?w [''d'', ''a.run''] = None"
    using cli_files(5) same_but_rngD(1) [OF w(1)] by (simp add: lookup_def w_fs_put_file) (simp add: sfx_out_def)
  have temp: "sfx_temp \<noteq> Path False []" by (simp add: sfx_temp_def)
  have "create_sfx sfx_environ sfx_temp sfx_out False ?w =
      (Inr (), without_file (put_file ?w sfx_out (sfx_image [127, 69] capsule)) sfx_temp)"
  proof (rule create_sfx_ok [where exe = "sample_file ''lvau''" and exe_dir = "Path True [''d'']"])
    show "output_ok ?w sfx_out" unfolding sfx_out_def by (rule sample_dir_output [OF w(2)]) simp
    show "lookup ?w sfx_temp = Some (Regular capsule)" using temp lookup_put_file by simp
    show "calm ?w (stub_at (Path True [''d'']))" "calm ?w sfx_temp" by (rule sample_dir_calm [OF w(2)])+
  qed (use there free in \<open>simp_all add: stub sfx_environ_def\<close>)
  then have "encrypt sample_crates sfx_environ (cli_args True) cli_console = (Inr (), cli_console\<lparr>c_world :=
      without_file (put_file ?w sfx_out (sfx_image [127, 69] capsule)) sfx_temp,
      c_out := c_out cli_console @ [Line (''Encrypted: '' @ display (ea_out_file (cli_args True)))]\<rparr>)"
    by (intro encrypt_ok [where bs = "[10, 20, 30]" and pwd = "[1]" and seed = None];
      use w(3) cli_password sample_profile sfx_temp_name in simp)
  then show ?thesis by simp
qed

theorem sfx_clears_temporary_name_witness:
  "\<exists>c'. run sample_crates sfx_environ (Encrypt (cli_args True)) cli_console = (Inr (), c') \<and>
     lookup cli_world sfx_temp = Some (Regular [42]) \<and> w_fs (c_world c') [''d'', ''a.tmp.lvau''] = None"
proof -
  obtain c' where run: "run sample_crates sfx_environ (Encrypt (cli_args True)) cli_console = (Inr (), c')"
    using cli_sfx_run by blast
  from sfx_clears_temporary_name [OF this] have "w_fs (c_world c') [''d'', ''a.tmp.lvau''] = None"
    by (simp add: sfx_temp_name)
  with run show ?thesis by simp
qed

theorem cli_password_round_trip_witness:
  "\<exists>c1. run sample_crates sfx_environ (Encrypt (cli_args False)) cli_console = (Inr (), c1) \<and>
     main sample_crates sfx_environ (Decrypt sfx_out sample_back \<lparr>use_password = False, password_file = Some (sample_file ''pw''),
         priv_key_file = None, use_seed = False, seed_file = None\<rparr> False) c1 =
       (0, c1\<lparr>c_world := put_file (c_world c1) sample_back [10, 20, 30],
          c_out := c_out c1 @ [Line (''Decrypted: '' @ display sample_back)]\<rparr>)"
proof -
  obtain w0 capsule where w: "same_but_rng cli_world w0" "sample_dir_ok (put_file w0 sfx_out capsule)"
    and enc: "encrypt sample_crates sfx_environ (cli_args False) cli_console =
      (Inr (), cli_console\<lparr>c_world := put_file w0 sfx_out capsule, c_out := [Line (''Encrypted: '' @ display sfx_out)]\<rparr>)"
    by (rule cli_encrypt_run)
  let ?c = "cli_console\<lparr>c_world := put_file w0 sfx_out capsule, c_out := [Line (''Encrypted: '' @ display sfx_out)]\<rparr>"
  have run: "run sample_crates sfx_environ (Encrypt (cli_args False)) cli_console = (Inr (), ?c)" using enc by simp
  have back_name: "sample_back = sample_file ''back''" by (simp add: sample_back_def sample_file_def)
  have free: "lookup (put_file w0 sfx_out capsule) sample_back = None"
    using cli_files(6) same_but_rngD(1) [OF w(1)] by (simp add: lookup_def w_fs_put_file split: if_splits)
  have "main sample_crates sfx_environ (Decrypt (ea_out_file (cli_args False)) sample_back \<lparr>use_password = False,
         password_file = Some (sample_file ''pw''), priv_key_file = None, use_seed = False, seed_file = ea_seed_file (cli_args False)\<rparr> False) ?c =
       (0, ?c\<lparr>c_world := put_file (c_world ?c) sample_back [10, 20, 30],
          c_out := c_out ?c @ [Line (''Decrypted: '' @ display sample_back)]\<rparr>)"
  proof (rule cli_password_round_trip [OF _ _ run])
    show "calm (c_world ?c) (ea_out_file (cli_args False))" using sample_dir_calm [OF w(2)] by simp
    show "output_ok (c_world ?c) sample_back"
      using sample_dir_output [OF w(2), of "''back''"] by (simp add: back_name)
  qed (use free in \<open>simp_all add: path_exists_def\<close>)
  then show ?thesis using run by (intro exI [of _ ?c]) simp
qed

text \<open>\<open>lvau secret encrypt /d/in\<close>: a name without an extension.\<close>

definition secret_console :: console where
  "secret_console = \<lparr>c_world = sample_world, c_beyond = [], c_typed = [Inr [1], Inr [1]], c_out = []\<rparr>"

lemma secret_sample_names:
  "secret_out_path sample_in = sample_file ''in..lvau''" "secret_back sample_in = sample_file ''in.''" "file_name sample_in = Some ''in''"
  by code_simp+

lemma secret_run:
  obtains w0 capsule where "same_but_rng sample_world w0" "sample_dir_ok (put_file w0 (sample_file ''in..lvau'') capsule)"
    "run sample_crates sfx_environ (Secrets (SecretEncrypt sample_in)) secret_console =
      (Inr (), secret_console\<lparr>c_world := put_file w0 (sample_file ''in..lvau'') capsule, c_typed := [],
        c_out := [Line (''Secret encrypted to '' @ display (sample_file ''in..lvau''))]\<rparr>)"
proof -
  let ?out = "sample_file ''in..lvau''"
  have "output_ok (sample_world\<lparr>w_rng_pos := i\<rparr>) ?out" for i
    by (rule sample_dir_output [OF sample_dir_ok_rng [OF sample_dir_ok_world]]) simp
  then obtain w0 capsule where w: "same_but_rng sample_world w0"
      "encrypt_file_password sample_prims sample_postcard sample_in ?out [1] None Balanced None False sample_world =
       (Inr (), put_file w0 ?out capsule)"
    using sample_password_encrypts_with [of sample_world sample_in "[10, 20, 30]" Balanced 65536 2 1 ?out None]
    by (auto simp: sample_payload_def CHUNK_SIZE_def encrypt_file_password_def profile_algorithm_def)
  have "sample_dir_ok w0" using w(1) sample_dir_ok_world unfolding same_but_rng_def by (metis sample_dir_ok_rng)
  then have ok: "sample_dir_ok (put_file w0 ?out capsule)" by (rule sample_dir_ok_put) simp
  have "w_fs sample_world [''.lvau-policy.toml''] = None" by (simp add: sample_world_def)
  then have pol: "\<not> path_exists sample_world (Path False [''.lvau-policy.toml''])"
    by (simp add: path_exists_def lookup_def resolve_def) (simp add: sample_world_def)
  have reg: "is_regular sample_world sample_in" by (simp add: is_regular_def)
  show ?thesis
    by (rule that [OF w(1) ok])
      (simp add: secret_encrypt_def Let_def secret_console_def secret_sample_names act_apply check_def on_world_def ensure_input_file_def
        prompt_password_def lift_def local_policy_def Let_def pol crypto_step_msg_def act_map_err_def w(2) print_def reg)
qed

theorem secret_round_trip_witness:
  "\<exists>c1 w2. run sample_crates sfx_environ (Secrets (SecretEncrypt sample_in)) secret_console = (Inr (), c1) \<and>
     w2 = without_file (c_world c1) sample_in \<and>
     run sample_crates sfx_environ (Secrets (SecretDecrypt (sample_file ''in..lvau''))) (c1\<lparr>c_world := w2, c_typed := [Inr [1]]\<rparr>) =
      (Inr (), c1\<lparr>c_world := put_file w2 (sample_file ''in.'') [10, 20, 30], c_typed := [],
         c_out := c_out c1 @ [Line (''Secret decrypted to '' @ display (sample_file ''in.''))]\<rparr>)"
proof -
  obtain w0 capsule where w: "same_but_rng sample_world w0" "sample_dir_ok (put_file w0 (sample_file ''in..lvau'') capsule)"
    and run: "run sample_crates sfx_environ (Secrets (SecretEncrypt sample_in)) secret_console =
      (Inr (), secret_console\<lparr>c_world := put_file w0 (sample_file ''in..lvau'') capsule, c_typed := [],
        c_out := [Line (''Secret encrypted to '' @ display (sample_file ''in..lvau''))]\<rparr>)"
    by (rule secret_run)
  let ?c = "secret_console\<lparr>c_world := put_file w0 (sample_file ''in..lvau'') capsule, c_typed := [],
        c_out := [Line (''Secret encrypted to '' @ display (sample_file ''in..lvau''))]\<rparr>"
  let ?w2 = "without_file (c_world ?c) sample_in"
  have ok: "sample_dir_ok ?w2" using w(2) by (simp add: sample_dir_ok_def without_file_def)
  have free: "\<not> path_exists ?w2 (sample_file ''in.'')"
    using same_but_rngD(1) [OF w(1)] by (simp add: path_exists_def lookup_def w_fs_put_file sample_world_def)
  have "\<exists>pw ts. c_typed secret_console = Inr pw # Inr pw # ts \<and>
    run sample_crates sfx_environ (Secrets (SecretDecrypt (secret_out_path sample_in))) (?c\<lparr>c_world := ?w2, c_typed := [Inr pw]\<rparr>) =
      (Inr (), ?c\<lparr>c_world := put_file ?w2 (secret_back sample_in) [10, 20, 30], c_typed := [],
         c_out := c_out ?c @ [Line (''Secret decrypted to '' @ display (secret_back sample_in))]\<rparr>)"
  proof (rule secret_round_trip [OF _ _ run _ _ _ refl])
    show "lookup (c_world secret_console) sample_in = Some (Regular [10, 20, 30])" by (simp add: secret_console_def)
    show "calm ?w2 (secret_out_path sample_in)" by (rule sample_dir_calm [OF ok])
    show "output_ok ?w2 (secret_back sample_in)" unfolding secret_sample_names by (rule sample_dir_output [OF ok]) simp
  qed (use free in \<open>simp_all add: secret_sample_names\<close>)
  moreover have "c_typed secret_console = [Inr [1], Inr [1]]" by (simp add: secret_console_def)
  ultimately show ?thesis using run unfolding secret_sample_names by (intro exI [of _ ?c] exI [of _ ?w2]) auto
qed

text \<open>\<open>lvau keygen --out-base id\<close> in a working directory that is the root: the private key is there.\<close>

theorem keygen_bare_name_fails_witness:
  "\<exists>r c'. run sample_crates sfx_environ (Keygen (Path False [''id'']) False) \<lparr>c_world = sample_world, c_beyond = [], c_typed = [], c_out = []\<rparr> =
      (r, c') \<and> r \<noteq> Inr () \<and> w_fs (c_world c') [''id.lvau-pub''] = None"
proof -
  obtain r c' where run: "run sample_crates sfx_environ (Keygen (Path False [''id'']) False)
      \<lparr>c_world = sample_world, c_beyond = [], c_typed = [], c_out = []\<rparr> = (r, c')" by fastforce
  have name: "resolve sample_world (with_extension (Path False [''id'']) ''lvau-key'') = [''id.lvau-key'']" by code_simp
  have "w_fs sample_world [''id.lvau-pub''] = None" by (simp add: sample_world_def)
  with keygen_bare_name_fails [OF run] have "r \<noteq> Inr () \<and> w_fs (c_world c') [''id.lvau-pub''] = None"
    by (simp add: name)
  with run show ?thesis by blast
qed

text \<open>An editor that does nothing.\<close>

theorem commands_change_only_targets_witness:
  "\<exists>c'. main sample_crates sfx_environ (Encrypt (cli_args False)) cli_console = (0, c') \<and>
     w_fs (c_world c') [''d'', ''in''] = Some (Regular [10, 20, 30])"
proof -
  obtain c' where run: "main sample_crates sfx_environ (Encrypt (cli_args False)) cli_console = (0, c')"
    by (rule cli_encrypt_run) (simp add: main_def)
  have "frame (w_cwd (c_world cli_console)) (dest (w_cwd (c_world cli_console)) p) (env_edit sfx_environ p)" for p
    by (simp add: sfx_environ_def frame_on_def ret_def)
  from commands_change_only_targets [OF this run]
  have "w_fs (c_world c') [''d'', ''in''] = w_fs (c_world cli_console) [''d'', ''in'']"
    by (simp add: targets_def dest_def sfx_out_def)
  moreover have "w_fs cli_world [''d'', ''in''] = Some (Regular [10, 20, 30])"
    using cli_files(1) by (simp add: lookup_def split: if_splits)
  ultimately show ?thesis using run by simp
qed

theorem careful_session_keeps_files_witness:
  "\<exists>w'. session sample_crates (\<lambda>E cmd. careful cmd) cli_world w' \<and> w_fs w' [''d'', ''in''] = Some (Regular [10, 20, 30]) \<and>
     (\<exists>capsule. w_fs w' [''d'', ''a.run''] = Some (Regular capsule))"
proof -
  obtain w0 capsule where enc: "encrypt sample_crates sfx_environ (cli_args False) cli_console =
      (Inr (), cli_console\<lparr>c_world := put_file w0 sfx_out capsule, c_out := [Line (''Encrypted: '' @ display sfx_out)]\<rparr>)"
    by (rule cli_encrypt_run)
  let ?c = "cli_console\<lparr>c_world := put_file w0 sfx_out capsule, c_out := [Line (''Encrypted: '' @ display sfx_out)]\<rparr>"
  have "main sample_crates sfx_environ (Encrypt (cli_args False)) \<lparr>c_world = cli_world, c_beyond = [], c_typed = [], c_out = []\<rparr> = (0, ?c)"
    using enc by (simp add: main_def cli_console_def)
  moreover have "fresh_name cli_world (env_tmp sfx_environ)"
    using cli_world_fresh by (simp add: sfx_environ_def)
  ultimately have s: "session sample_crates (\<lambda>E cmd. careful cmd) cli_world (c_world ?c)"
    by (intro session_step [OF session_start, of _ sfx_environ "Encrypt (cli_args False)"]) (simp_all add: careful_def)
  have "w_fs cli_world [''d'', ''in''] = Some (Regular [10, 20, 30])"
    using cli_files(1) by (simp add: lookup_def split: if_splits)
  with careful_session_keeps_files [OF s] have "w_fs (c_world ?c) [''d'', ''in''] = Some (Regular [10, 20, 30])"
    by (simp add: keeps_entries_def)
  with s show ?thesis by (intro exI [of _ "c_world ?c"]) (simp add: w_fs_put_file)
qed

theorem secret_file_exact_witness: "read_secret_file sfx_environ (sample_file ''pw'') cli_world = (Inr [1], cli_world)"
proof -
  have bits: "\<forall>i < 6. \<not> bit (env_mode sfx_environ (resolve cli_world (sample_file ''pw''))) i"
    unfolding group_bits [symmetric] by (simp add: sfx_environ_def)
  have "utf8_valid ([1] @ [10])" by code_simp
  then have ok: "\<exists>tail. lookup cli_world (sample_file ''pw'') = Some (Regular ([1] @ tail)) \<and> length ([1] @ tail) \<le> 65536 \<and>
      (\<forall>i < 6. \<not> bit (env_mode sfx_environ (resolve cli_world (sample_file ''pw''))) i) \<and> utf8_valid ([1] @ tail) \<and>
      set tail \<subseteq> {13, 10} \<and> ([1] = [] \<or> last [1] \<notin> {13, 10 :: 8 word})"
    using bits by (intro exI [of _ "[10]"]) simp
  from secret_file_exact [where w = cli_world and p = "sample_file ''pw''" and E = sfx_environ, OF sample_dir_calm [OF cli_world_ok]]
  have "fst (read_secret_file sfx_environ (sample_file ''pw'') cli_world) = Inr [1]"
      "snd (read_secret_file sfx_environ (sample_file ''pw'') cli_world) = cli_world"
    using ok by blast+
  then show ?thesis by (metis prod.collapse)
qed

end
