(* ===== verification/Cli_Extract.thy ===== *)
theory Cli_Extract
  imports Cli_Samples Extract_Samples
begin

text \<open>
  What \<open>lvau bundle extract\<close> may change in the file system: the steps on the output directory after the
  shared steps of the command line, with the confinement of \<open>extract_bundle\<close>.
\<close>

lemma read_secret_world: "snd (read_secret_file E p w) = w"
proof -
  have "agrees (read_secret_file E p w) w (read_secret_file E p w) w"
    unfolding read_secret_file_def by (intro agrees_act agrees_step agrees_open refl)
  then show ?thesis by (auto simp: agrees_def)
qed

lemma required_password_world:
  "required_password E pw pf cf c = (r, c1) \<Longrightarrow> c_world c1 = c_world c"
  using read_secret_world [of E _ "c_world c"]
  by (auto simp: required_password_def password_secret_def prompt_password_def act_def on_world_def lift_def ret_def
      split: option.splits prod.splits sum.splits if_splits list.splits) (metis snd_conv)+

lemma required_password_beyond:
  "required_password E pw pf cf c = (r, c1) \<Longrightarrow> c_beyond c1 = c_beyond c"
  by (auto simp: required_password_def password_secret_def prompt_password_def act_def on_world_def lift_def ret_def
      split: option.splits prod.splits sum.splits if_splits list.splits)

lemma act_assoc: "act (act m f) g = act m (\<lambda>x. act (f x) g)"
  by (rule ext) (simp add: act_def split: prod.split sum.split)

section \<open>The output directory and its parents\<close>

lemma write_back_tree: "write_back d (w, tree_of L w d) = w"
proof -
  have "w_fs (write_back d (w, tree_of L w d)) q = w_fs w q" for q
    by (cases "w_fs w q") (auto simp: write_back_fs tree_of_def under_split)
  then have "w_fs (write_back d (w, tree_of L w d)) = w_fs w" by (rule ext)
  then show ?thesis by (simp add: write_back_def split: if_splits)
qed

lemma dirs_made_write_back:
  assumes made: "dirs_made (butlast (resolve w d)) w w1"
    and tree: "\<forall>k. x_tree x k = x_tree (tree_of L w d) k \<or>
      k = [] \<and> x_tree (tree_of L w d) k = None \<and> x_tree x k = Some XDir"
  shows "dirs_made (resolve w d) w (write_back d (w1, x))"
proof -
  obtain f where f: "w1 = w\<lparr>w_fs := f\<rparr>" using made by (auto simp: dirs_made_def)
  then have res: "resolve w1 d = resolve w d" by (simp add: resolve_def)
  have "\<exists>g. write_back d (w1, x) = w\<lparr>w_fs := g\<rparr>" unfolding f write_back_def by (auto simp: f)
  moreover have "w_fs (write_back d (w1, x)) q = w_fs w q \<or>
      w_fs w q = None \<and> w_fs (write_back d (w1, x)) q = Some Directory \<and> (\<exists>i. q = take i (resolve w d))" for q
  proof (cases "d \<noteq> Path False [] \<and> under w1 d q")
    case True
    then obtain j where j: "q = resolve w d @ j" by (auto simp: under_split res)
    have t: "x_tree (tree_of L w d) j = map_option (node_view L q) (w_fs w q)" using True j by (simp add: tree_of_def)
    have b: "w_fs (write_back d (w1, x)) q = map_option node_back (x_tree x j)" using True j by (simp add: write_back_fs res)
    have "map_option node_back (map_option (node_view L q) (w_fs w q)) = w_fs w q" by (cases "w_fs w q") simp_all
    with tree [rule_format, of j] t b j show ?thesis by (auto intro: exI [of _ "length (resolve w d)"])
  next
    case False
    then have "w_fs (write_back d (w1, x)) q = w_fs w1 q" by (auto simp: write_back_fs)
    then show ?thesis using made unfolding dirs_made_def by (metis butlast_conv_take take_take)
  qed
  ultimately show ?thesis by (simp add: dirs_made_def)
qed

text \<open>The first step of the command: the output directory and its missing parents.\<close>

lemma on_target_create:
  assumes run: "on_target E d (act_map_err g (create_output_dir d)) c = (r, c')"
  shows "c_beyond c' = c_beyond c" "dirs_made (resolve (c_world c) d) (c_world c) (c_world c')"
    "r = Inr u \<Longrightarrow> d = Path False [] \<or> x_tree (tree_of L (c_world c') d) [] \<noteq> None"
proof -
  let ?x = "tree_of (env_links E (c_world c)) (c_world c) d"
  obtain q w x where q: "create_output_dir d (c_world c, ?x) = (q, w, x)" by (metis prod_cases3)
  have c': "c_world c' = write_back d (w, x)" "c_beyond c' = c_beyond c @ map ((@) (resolve w d)) (x_changed x)"
      "r = map_err g q"
    using run q by (auto simp: on_target_def act_map_err_def)
  note made = create_output_dir_made [OF q]
  have "x_changed x = []" using made(2) by (simp add: extracted_def tree_of_def)
  then show "c_beyond c' = c_beyond c" using c'(2) by simp
  have tree: "\<forall>k. x_tree x k = x_tree ?x k \<or> k = [] \<and> x_tree ?x k = None \<and> x_tree x k = Some XDir"
    using made(3) by (cases "x = ?x") (auto simp: set_node_def)
  from dirs_made_write_back [OF made(1) tree] show "dirs_made (resolve (c_world c) d) (c_world c) (c_world c')"
    by (simp add: c'(1))
  show "d = Path False [] \<or> x_tree (tree_of L (c_world c') d) [] \<noteq> None" if "r = Inr u"
  proof (cases "d = Path False []")
    case False
    have "x_tree x [] \<noteq> None"
      using q False that c'(3) by (cases q)
        (auto simp: create_output_dir_def create_dir_def set_node_def map_err_def split: option.splits sum.splits prod.splits xnode.splits if_splits)
    with False show ?thesis by (auto simp: tree_of_def c'(1) write_back_fs under_def)
  qed simp
qed

text \<open>
  C9: \<open>bundle extract\<close> changes nothing behind a link or outside through \<open>..\<close>, and a dry run changes nothing
  at all. Before the capsule is authenticated and every entry verified, at most the output directory and
  its missing parents are created; after that the output directory changes as \<open>extracted\<close> allows
  (a free name may become a directory on the way to a file of the manifest, and the name of a file of the
  manifest, if it was free or by force a file with a single link, gets exactly the bytes of that entry),
  and every other file of the file system is as it was.
\<close>

theorem extract_command_confined:
  assumes C: "ciphers_ok (cip (cr_prims X))" and fr: "fresh_name (c_world c) (env_tmp E)"
    and out: "\<not> under (c_world c) (env_tmp E) (resolve (c_world c) out_dir)"
    and run: "run X E (Bundles (BundleExtract inp out_dir pw pf links dry_run force)) c = (r, c')"
  shows "c_beyond c' = c_beyond c \<and> (dry_run \<longrightarrow> c_world c' = c_world c) \<and>
    (dirs_made (resolve (c_world c) out_dir) (c_world c) (c_world c') \<or>
     \<not> dry_run \<and> (\<exists>w1 x encoded ct e fek pwd payload start m.
      dirs_made (resolve (c_world c) out_dir) (c_world c) w1 \<and>
      lookup (c_world c) inp = Some (Regular (capsule_bytes encoded ct)) \<and>
      decode_envelope_bytes (cr_prims X) (cr_postcard X) encoded = Inr e \<and>
      unwrap_password_file_key (cr_prims X) e pwd None = Inr fek \<and>
      seal_for (cr_prims X) e (hkdf_new (cip (cr_prims X)) None fek) payload = Inr ct \<and>
      payload_of (cr_bundle X) payload m (unat start) \<and> verified (cr_bundle X) payload start m \<and>
      extracted (files_of payload start (entries m)) force (tree_of (env_links E w1) w1 out_dir) x \<and>
      c_world c' = write_back out_dir (w1, x)))"
proof -
  let ?prefix = "act (check (ensure_input_file inp)) (\<lambda>_. required_password E pw pf False)"
  let ?mk = "if dry_run then ret () else on_target E out_dir (act_map_err CliIo (create_output_dir out_dir))"
  let ?ex = "\<lambda>pwd. extract_bundle (cr_prims X) (cr_postcard X) (cr_bundle X) (env_tmp E) inp out_dir pwd force dry_run"
  have split_run: "act ?prefix (\<lambda>pwd. act ?mk (\<lambda>_. act (on_target E out_dir (act_map_err (\<lambda>e. CliCause [] (CauseBundle e)) (?ex pwd)))
      (\<lambda>manifest. print_lines (extract_lines out_dir dry_run manifest)))) c = (r, c')"
    using run by (simp add: bundle_extract_def act_assoc)
  obtain q c1 where q: "?prefix c = (q, c1)" by fastforce
  have c1: "c_world c1 = c_world c" "c_beyond c1 = c_beyond c"
    using q required_password_world required_password_beyond
    by (cases "is_regular (c_world c) inp"; auto simp: act_apply check_def on_world_def ensure_input_file_def)+
  show ?thesis
  proof (cases q)
    case (Inl e)
    then show ?thesis using split_run q c1 by (simp add: act_apply)
  next
    case (Inr pwd)
    have reg: "is_regular (c_world c) inp"
      using q Inr by (cases "is_regular (c_world c) inp") (simp_all add: act_apply check_def on_world_def ensure_input_file_def)
    obtain d c2 where d: "?mk c1 = (d, c2)" by fastforce
    let ?w = "c_world c2" and ?x = "tree_of (env_links E (c_world c2)) (c_world c2) out_dir"
    have mkdir: "on_target E out_dir (act_map_err CliIo (create_output_dir out_dir)) c1 = (d, c2)" if "\<not> dry_run"
      using d that by simp
    have dry: "c2 = c1" if dry_run using d that by (simp add: ret_def)
    have c2: "c_beyond c2 = c_beyond c" "dirs_made (resolve (c_world c) out_dir) (c_world c) ?w" "dry_run \<Longrightarrow> ?w = c_world c"
      using on_target_create(1,2) [OF mkdir] dry c1 by (cases dry_run; simp)+
    have root: "out_dir = Path False [] \<or> x_tree ?x [] \<noteq> None" if "d = Inr u" "\<not> dry_run" for u
      by (rule on_target_create(3) [OF mkdir]; fact that)
    show ?thesis
    proof (cases d)
      case Inl1: (Inl e)
      then show ?thesis using split_run q Inr d c2 by (simp add: act_apply ret_def)
    next
      case Inr1: (Inr u)
      obtain s w x where s: "?ex pwd (?w, ?x) = (s, w, x)" by (metis prod_cases3)
      have c': "c_world c' = write_back out_dir (w, x)" "c_beyond c' = c_beyond c @ map ((@) (resolve w out_dir)) (x_changed x)"
        using split_run q Inr d Inr1 s c2(1) by (cases s; auto simp: act_apply on_target_def act_map_err_def print_lines_def)+
      have free: "w_fs ?w k = None" if k: "under ?w (env_tmp E) k" for k
      proof -
        have res: "resolve ?w (env_tmp E) = resolve (c_world c) (env_tmp E)" using dirs_made_sel [OF c2(2)] by simp
        have "k \<noteq> take i (resolve (c_world c) out_dir)" for i
        proof
          assume ki: "k = take i (resolve (c_world c) out_dir)"
          with k obtain j where "take i (resolve (c_world c) out_dir) = resolve (c_world c) (env_tmp E) @ j"
            by (auto simp: under_split res)
          then have "resolve (c_world c) out_dir = resolve (c_world c) (env_tmp E) @ j @ drop i (resolve (c_world c) out_dir)"
            by (metis append.assoc append_take_drop_id)
          with out show False by (auto simp: under_split)
        qed
        moreover have "w_fs (c_world c) k = None" using fr k res by (simp add: fresh_name_def under_def)
        ultimately show ?thesis using c2(2) unfolding dirs_made_def by metis
      qed
      with fr have "fresh_name ?w (env_tmp E)" by (simp add: fresh_name_def)
      from extract_confined [OF C this s] show ?thesis
      proof (elim disjE conjE exE)
        assume "w = ?w" "x = ?x"
        then have "c_world c' = ?w" "c_beyond c' = c_beyond c" using c' by (simp_all add: write_back_tree) (simp add: tree_of_def)
        with c2 show ?thesis by auto
      next
        fix encoded ct e fek payload start m q' x1
        assume nd: "\<not> dry_run" and l: "lookup ?w inp = Some (Regular (capsule_bytes encoded ct))"
          and *: "decode_envelope_bytes (cr_prims X) (cr_postcard X) encoded = Inr e"
            "unwrap_password_file_key (cr_prims X) e pwd None = Inr fek"
            "seal_for (cr_prims X) e (hkdf_new (cip (cr_prims X)) None fek) payload = Inr ct"
            "payload_of (cr_bundle X) payload m (unat start)" "verified (cr_bundle X) payload start m"
          and mk: "create_output_dir out_dir (?w, ?x) = (q', w, x1)"
          and e: "extracted (files_of payload start (entries m)) force x1 x"
        have same: "w = ?w" "x1 = ?x" using create_output_dir_made(4) [OF mk] root [OF Inr1 nd] by simp_all
        obtain bs where bs: "lookup (c_world c) inp = Some (Regular bs)"
          using reg by (auto simp: is_regular_def split: option.splits node.splits)
        have "lookup ?w inp = lookup (c_world c) inp"
          using bs dirs_made_keeps [OF c2(2)] dirs_made_sel [OF c2(2)] by (auto simp: lookup_def split: if_splits)
        then have l: "lookup (c_world c) inp = Some (Regular (capsule_bytes encoded ct))" using l by simp
        have "x_changed x = []" using e same(2) by (simp add: extracted_def tree_of_def)
        then have fin: "c_beyond c' = c_beyond c" "c_world c' = write_back out_dir (?w, x)" using c' same(1) by simp_all
        show ?thesis
          using fin(1) nd c2(2) l * e [unfolded same(2)] fin(2) by blast
      qed
    qed
  qed
qed

text \<open>The sample bundle, extracted into its own directory with the password typed.\<close>

definition extract_environ :: environ where
  "extract_environ = sfx_environ\<lparr>env_tmp := sample_scratch\<rparr>"

definition extract_dir :: path where "extract_dir = Path True [''d'']"

lemma extract_dir_tree:
  assumes "pack_directory sample_prims sample_postcard sample_bundle_prims ''1'' None (sample_walk ''a'' ''b'') sample_tmp
      sample_dir sample_out (CredPassword [1] None) Fast False NoPadding False None False (bundle_world ''a'' ''b'') = (r, w1)"
    and "w_disk w1 = None" "w_sync w1"
  shows "empty_target (tree_of (env_links extract_environ w1) w1 extract_dir)"
proof -
  let ?A = "dest [] sample_out \<union> dest_below [] sample_tmp"
  have "frame [] ?A (pack_directory sample_prims sample_postcard sample_bundle_prims ''1'' None (sample_walk ''a'' ''b'') sample_tmp
      sample_dir sample_out (CredPassword [1] None) Fast False NoPadding False None False)"
    by (rule frame_pack) auto
  from frame_total_action [OF this, of "bundle_world ''a'' ''b''"] assms(1)
  have "\<forall>k. k \<notin> ?A \<longrightarrow> w_fs w1 k = w_fs (bundle_world ''a'' ''b'') k"
    by (simp add: bundle_world_def [THEN arg_cong [of _ _ w_cwd]])
  moreover have "[''d''] \<notin> ?A" "[''d'', ''a''] \<notin> ?A" "[''d'', ''b''] \<notin> ?A"
    by (simp_all add: dest_def dest_below_def sample_out_def sample_tmp_def)
  ultimately have "w_fs w1 [''d''] = Some Directory" "w_fs w1 [''d'', ''a''] = None" "w_fs w1 [''d'', ''b''] = None"
    by (simp_all add: bundle_world_def)
  moreover have "resolve w1 extract_dir = [''d'']" by (simp add: extract_dir_def resolve_def)
  ultimately show ?thesis
    using assms(2,3) by (simp add: empty_target_def tree_of_def node_view_def extract_dir_def)
qed

theorem extract_command_confined_witness:
  "\<exists>c c'. main sample_crates extract_environ (Bundles (BundleExtract sample_out extract_dir True None False False False)) c = (0, c') \<and>
     c_beyond c' = c_beyond c"
proof -
  obtain w1 where pack: "pack_directory sample_prims sample_postcard sample_bundle_prims ''1'' None (sample_walk ''a'' ''b'') sample_tmp
      sample_dir sample_out (CredPassword [1] None) Fast False NoPadding False None False (bundle_world ''a'' ''b'') =
      (Inr (sample_manifest ''a'' ''b''), w1)" and tmp: "temp_ok w1 sample_scratch"
    and any: "\<forall>x out_dir. empty_target x \<longrightarrow> (\<exists>x'. extract_bundle sample_prims sample_postcard sample_bundle_prims sample_scratch
      sample_out out_dir [1] False False (w1, x) = (Inr (sample_manifest ''a'' ''b''), w1, x') \<and> x_changed x' = x_changed x)"
    using sample_extract_any .
  let ?x = "tree_of (env_links extract_environ w1) w1 extract_dir"
  have x: "empty_target ?x" using extract_dir_tree [OF pack] tmp by (simp add: temp_ok_def)
  with any obtain x' where ext: "extract_bundle sample_prims sample_postcard sample_bundle_prims sample_scratch sample_out extract_dir
      [1] False False (w1, ?x) = (Inr (sample_manifest ''a'' ''b''), w1, x')" by blast
  have fresh: "fresh_name w1 (env_tmp extract_environ)" using tmp by (simp add: temp_ok_def extract_environ_def)
  obtain b w2 where opened: "decrypt_and_open sample_prims sample_postcard sample_bundle_prims sample_scratch sample_out [1] w1 = (Inr b, w2)"
    using ext by (auto simp: extract_bundle_def split: prod.splits sum.splits)
  have "fresh_name w1 sample_scratch" using tmp by (simp add: temp_ok_def)
  from decrypt_and_open_Inr(2) [OF sample_prims_ok(2) this opened] have reg: "is_regular w1 sample_out"
    by (auto simp: is_regular_def)
  have dir: "create_output_dir extract_dir (w1, ?x) = (Inr (), w1, ?x)"
    using x by (simp add: create_output_dir_def empty_target_def)
  let ?c = "\<lparr>c_world = w1, c_beyond = [], c_typed = [Inr [1]], c_out = []\<rparr>"
  have tgt: "on_target extract_environ extract_dir (act_map_err CliIo (create_output_dir extract_dir)) (?c\<lparr>c_typed := []\<rparr>) =
      (Inr (), ?c\<lparr>c_typed := []\<rparr>)"
    using dir by (simp add: on_target_def act_map_err_def write_back_tree) (simp add: tree_of_def)
  obtain c' where run: "run sample_crates extract_environ (Bundles (BundleExtract sample_out extract_dir True None False False False)) ?c =
      (Inr (), c')"
    using ext reg tgt by (simp add: bundle_extract_def act_apply check_def on_world_def ensure_input_file_def required_password_def
      password_secret_def prompt_password_def lift_def ret_def)
      (simp add: sample_crates_def on_target_def act_map_err_def print_lines_def extract_environ_def)
  have "\<not> under w1 (env_tmp extract_environ) (resolve w1 extract_dir)"
    by (simp add: extract_environ_def extract_dir_def sample_scratch_def under_def resolve_def)
  then have "c_beyond c' = c_beyond ?c"
    using extract_command_confined [OF _ _ _ run] fresh by (simp add: sample_crates_def)
  with run show ?thesis by (intro exI [of _ ?c] exI [of _ c']) (simp add: main_def)
qed

end
