(* ===== verification/Cli_Outcome.thy ===== *)
theory Cli_Outcome
  imports Cli_Extract
begin

text \<open>
  What a command of lvau-cli tells its caller: the exit status and what is printed. \<open>prints P m\<close>
  says that \<open>m\<close> only adds to what has been printed, and that \<open>P\<close> holds of its result and the new
  lines; as for frames, the rules follow the structure of the definitions.
\<close>

section \<open>Rules\<close>

definition prints :: "('e + 'a \<Rightarrow> out_line list \<Rightarrow> bool) \<Rightarrow> (console, 'e, 'a) action \<Rightarrow> bool" where
  "prints P m \<longleftrightarrow> (\<forall>c. \<exists>new. c_out (snd (m c)) = c_out c @ new \<and> P (fst (m c)) new)"

text \<open>A result that does not end the process.\<close>

definition stays :: "cli_error + 'a \<Rightarrow> bool" where
  "stays r \<longleftrightarrow> (\<forall>n. r \<noteq> Inl (CliExit n))"

definition no_exit :: "('s, cli_error, 'a) action \<Rightarrow> bool" where
  "no_exit m \<longleftrightarrow> (\<forall>s. stays (fst (m s)))"

text \<open>Nothing printed; and: the process ends by itself only with status 1 and after some output.\<close>

definition silent :: "cli_error + 'a \<Rightarrow> out_line list \<Rightarrow> bool" where
  "silent r new \<longleftrightarrow> new = [] \<and> stays r"

definition told :: "cli_error + 'a \<Rightarrow> out_line list \<Rightarrow> bool" where
  "told r new \<longleftrightarrow> (\<forall>n. r = Inl (CliExit n) \<longrightarrow> n = 1 \<and> new \<noteq> [])"

definition spoken :: "cli_error + 'a \<Rightarrow> out_line list \<Rightarrow> bool" where
  "spoken r new \<longleftrightarrow> is_ok r \<and> new \<noteq> []"

named_theorems stay_rules \<open>steps that do not end the process\<close>
named_theorems silent_rules \<open>steps that print nothing\<close>
named_theorems told_rules \<open>steps whose exit has a reason on the console\<close>

lemma stays_simps [simp]:
  "stays (Inr x)" "stays (Inl (CliMessage m))" "stays (Inl (CliIo i))" "stays (Inl (CliCrypto e))" "stays (Inl (CliCause m k))"
  "\<not> stays (Inl (CliExit n))"
  by (simp_all add: stays_def)

lemma stays_values [stay_rules]:
  "stays (ensure b (CliMessage m))" "stays (ensure b (CliIo i))" "stays (ok_or (CliMessage m) x)"
  "stays (map_err CliIo ri)" "stays (map_err CliCrypto rc)" "stays (map_err CliMessage rm)"
  "stays (map_err (\<lambda>e. CliMessage (f e)) r)" "stays (map_err (\<lambda>e. CliCause t (k e)) r)"
  "stays (parse_profile s)" "stays (parse_padding s)" "stays (one_of_two h p a b')" "stays (require_one_mode sel pf kf a b')"
  by (auto simp: ensure_def ok_or_def map_err_def parse_profile_def parse_padding_def one_of_two_def require_one_mode_def
      rbind_def Let_def split: option.split sum.split bool.split)

lemma no_exit_simple [stay_rules]: "no_exit (ret x)" "stays r \<Longrightarrow> no_exit (lift r)"
  by (simp_all add: no_exit_def ret_def lift_def)

lemma no_exit_act [stay_rules]: "no_exit m \<Longrightarrow> (\<And>x. no_exit (f x)) \<Longrightarrow> no_exit (act m f)"
  unfolding no_exit_def act_def stays_def by (simp split: prod.split sum.split) (metis fst_conv)

lemma no_exit_map_err [stay_rules]:
  "no_exit (act_map_err CliIo mi)" "no_exit (act_map_err CliCrypto mc)" "no_exit (act_map_err (\<lambda>e. CliMessage (f e)) m)"
  "no_exit (act_map_err (\<lambda>e. CliCause t (k e)) m)"
  by (auto simp: no_exit_def act_map_err_def map_err_def split: prod.split sum.split)

lemma no_exit_branches [stay_rules]:
  "no_exit m \<Longrightarrow> no_exit n \<Longrightarrow> no_exit (if b then m else n)"
  "no_exit m \<Longrightarrow> (\<And>y. no_exit (f y)) \<Longrightarrow> no_exit (case x of None \<Rightarrow> m | Some y \<Rightarrow> f y)"
  "(\<And>a b. no_exit (g a b)) \<Longrightarrow> no_exit (case p of (a, b) \<Rightarrow> g a b)"
  "no_exit m \<Longrightarrow> no_exit n \<Longrightarrow> no_exit (\<lambda>s. if q s then m s else n s)"
  by (auto simp: no_exit_def split: option.split prod.split)

lemma prints_mono: "prints P m \<Longrightarrow> (\<And>r new. P r new \<Longrightarrow> Q r new) \<Longrightarrow> prints Q m"
  unfolding prints_def by blast

lemma prints_act:
  assumes "prints P m" "\<And>x. prints Q (f x)"
    "\<And>e new. P (Inl e) new \<Longrightarrow> R (Inl e) new" "\<And>x new r more. P (Inr x) new \<Longrightarrow> Q r more \<Longrightarrow> R r (new @ more)"
  shows "prints R (act m f)"
  unfolding prints_def
proof
  fix c
  obtain r c1 where m: "m c = (r, c1)" by fastforce
  with assms(1) obtain new where new: "c_out c1 = c_out c @ new" "P r new" unfolding prints_def by (metis fst_conv snd_conv)
  show "\<exists>new. c_out (snd (act m f c)) = c_out c @ new \<and> R (fst (act m f c)) new"
  proof (cases r)
    case (Inl e)
    then show ?thesis using m new assms(3) by (auto simp: act_def)
  next
    case (Inr x)
    obtain more where "c_out (snd (f x c1)) = c_out c1 @ more" "Q (fst (f x c1)) more"
      using assms(2) [of x] unfolding prints_def by blast
    then show ?thesis using m new Inr assms(4) [of x new] by (auto simp: act_def)
  qed
qed

lemma prints_branches [silent_rules, told_rules]:
  "prints P m \<Longrightarrow> prints P n \<Longrightarrow> prints P (if b then m else n)"
  "prints P m \<Longrightarrow> (\<And>y. prints P (f y)) \<Longrightarrow> prints P (case x of None \<Rightarrow> m | Some y \<Rightarrow> f y)"
  "(\<And>y. prints P (h y)) \<Longrightarrow> (\<And>y. prints P (f y)) \<Longrightarrow> prints P (case z of Inl y \<Rightarrow> h y | Inr y \<Rightarrow> f y)"
  "(\<And>a b. prints P (g a b)) \<Longrightarrow> prints P (case p of (a, b) \<Rightarrow> g a b)"
  "(\<And>y. prints P (f y)) \<Longrightarrow> prints P (Let v f)"
  "prints P m \<Longrightarrow> prints P n \<Longrightarrow> prints P (\<lambda>s. if q s then m s else n s)"
  by (auto simp: prints_def split: option.split sum.split prod.split)

lemma prints_start: "(\<And>c. prints P (m c)) \<Longrightarrow> (\<And>c. n c = m c c) \<Longrightarrow> prints P n"
  by (simp add: prints_def)

section \<open>Steps that print nothing\<close>

lemma silent_simple [silent_rules]: "prints silent (ret x)" "stays r \<Longrightarrow> prints silent (lift r)"
  by (simp_all add: prints_def silent_def ret_def lift_def)

lemma silent_act [silent_rules]: "prints silent m \<Longrightarrow> (\<And>x. prints silent (f x)) \<Longrightarrow> prints silent (act m f)"
  by (erule prints_act [where Q = silent]) (auto simp: silent_def stays_def)

lemma silent_on_world [silent_rules]: "no_exit m \<Longrightarrow> prints silent (on_world m)"
  by (auto simp: prints_def silent_def on_world_def no_exit_def split: prod.split) (metis fst_conv)

lemma silent_steps [silent_rules]:
  "prints silent (io_step mi)" "prints silent (crypto_step mc)" "prints silent (bundle_step mb)" "prints silent (signing_step ms)"
  "prints silent (group_step mg)" "prints silent (crypto_step_msg t mc)" "prints silent (release_step_msg t mr)"
  unfolding io_step_def crypto_step_def bundle_step_def signing_step_def group_step_def crypto_step_msg_def release_step_msg_def
  by (intro silent_rules stay_rules)+

lemma silent_total [silent_rules]: "prints silent (total_step m)"
  by (simp add: prints_def silent_def total_step_def split: prod.split)

lemma silent_target [silent_rules]:
  "prints silent (on_target E d (act_map_err CliIo m))"
  "prints silent (on_target E d (act_map_err (\<lambda>e. CliCause t (CauseBundle e)) n))"
  by (auto simp: prints_def silent_def on_target_def act_map_err_def map_err_def split: prod.split sum.split)

lemma silent_prompt [silent_rules]: "prints silent prompt_password"
  by (auto simp: prints_def silent_def prompt_password_def map_err_def split: list.split sum.split)

lemma silent_checks [silent_rules]:
  "prints silent (check (ensure_input_file p))" "prints silent (check (ensure_distinct_file_paths p q))"
  "prints silent (check (ensure_output_available p force))"
proof -
  have "no_exit (ensure_distinct_file_paths p q)"
    unfolding no_exit_def ensure_distinct_file_paths_def
    using no_exit_act [of "act_map_err CliIo (canonicalize p)"] 
    by (auto simp: ensure_def act_def act_map_err_def map_err_def lift_def split: prod.split sum.split)
  moreover have "no_exit (ensure_input_file p)" "no_exit (ensure_output_available p force)"
    by (simp_all add: no_exit_def ensure_input_file_def ensure_output_available_def ensure_def)
  ultimately show "prints silent (check (ensure_input_file p))" "prints silent (check (ensure_distinct_file_paths p q))"
    "prints silent (check (ensure_output_available p force))"
    unfolding check_def by (auto intro: silent_on_world)
qed

lemma silent_secrets [silent_rules]:
  "prints silent (password_secret E pw pf cf)" "prints silent (seed_secret E s sf)" "prints silent (required_password E pw pf cf)"
proof -
  have r: "no_exit (read_secret_file E p)" for p
    using no_exit_def stays_def
    by (auto simp: no_exit_def read_secret_file_def act_def act_map_err_def map_err_def lift_def ensure_def ret_def
        split: prod.split sum.split)
  show pw: "prints silent (password_secret E pw pf cf)" for pw pf cf
    unfolding password_secret_def by (intro silent_rules stay_rules r)
  show "prints silent (seed_secret E s sf)"
    unfolding seed_secret_def by (intro silent_rules stay_rules r)
  show "prints silent (required_password E pw pf cf)"
    unfolding required_password_def by (intro silent_rules stay_rules pw)
qed

lemma silent_optional [silent_rules]: "(\<And>a. prints silent (load a)) \<Longrightarrow> prints silent (optional load x)"
  unfolding optional_def by (intro silent_rules)

lemma silent_loads [silent_rules]:
  "prints silent (load_policy X p)" "prints silent (load_group_keys X p)" "prints silent (local_policy X)"
proof -
  show "prints silent (load_policy X p)" unfolding load_policy_def by (intro silent_rules stay_rules)
  show "prints silent (load_group_keys X p)" unfolding load_group_keys_def by (intro silent_rules stay_rules)
  show "prints silent (local_policy X)"
    by (rule prints_start [where m = "\<lambda>c. if path_exists (c_world c) (Path False [''.lvau-policy.toml''])
        then act (on_world (act_map_err (\<lambda>e. CliMessage (''Failed to load local policy: '' @ e))
          (policy_load_from_file (cr_io_text X) (cr_from_policy X) (Path False [''.lvau-policy.toml''])))) (\<lambda>pol. ret (Some pol))
        else ret None"])
      (intro silent_rules stay_rules, simp add: local_policy_def Let_def)
qed

section \<open>Exits\<close>

lemma told_silent: "prints silent m \<Longrightarrow> prints told m"
  by (erule prints_mono) (auto simp: silent_def told_def stays_def)

lemma told_act: "prints told m \<Longrightarrow> (\<And>x. prints told (f x)) \<Longrightarrow> prints told (act m f)"
  by (erule prints_act [where Q = told]) (auto simp: told_def)

lemma told_prints [told_rules]:
  "prints told (print l)" "prints told (print_lines ls)" "prints told (print_error_line l e)"
  "prints told (print_success t d)" "prints told (print_json d)"
  by (auto simp: prints_def told_def print_def print_lines_def print_error_line_def print_success_def print_json_def)

text \<open>After a step that prints something, an exit with status 1 is in order.\<close>

lemma told_exit:
  "prints spoken m \<Longrightarrow> prints told (act m (\<lambda>_. lift (ensure b (CliExit 1))))"
  "prints spoken m \<Longrightarrow> prints told (act m (\<lambda>_. fail (CliExit 1)))"
  by (erule prints_act [where Q = "\<lambda>r new. new = [] \<and> (\<forall>n. r = Inl (CliExit n) \<longrightarrow> n = 1)"];
      auto simp: prints_def lift_def ensure_def fail_def spoken_def told_def)+

lemma spoken_prints:
  "prints spoken (print l)" "prints spoken (print_lines (l # ls))" "prints spoken (print_lines ((l # ls) @ ls'))"
  "prints spoken (print_error_line l e)" "prints spoken (print_success t d)" "prints spoken (print_json d)"
  by (auto simp: prints_def spoken_def print_def print_lines_def print_error_line_def print_success_def print_json_def)

lemma told_bind:
  "(\<And>x. prints told (f x)) \<Longrightarrow> prints told (act (print l) f)"
  "(\<And>x. prints told (f x)) \<Longrightarrow> prints told (act (print_lines ls) f)"
  "(\<And>x. prints told (f x)) \<Longrightarrow> prints told (act (print_error_line l e) f)"
  by (intro told_act told_prints; assumption)+

lemma told_step: "prints silent m \<Longrightarrow> (\<And>x. prints told (f x)) \<Longrightarrow> prints told (act m f)"
  by (rule told_act [OF told_silent])

text \<open>A report of several lines has at least one.\<close>

lemma spoken_reports:
  "prints spoken (print_lines (preflight_lines i res))" "prints spoken (print_lines (lint_lines i p r))"
  by (auto simp: prints_def spoken_def print_lines_def preflight_lines_def lint_lines_def)

section \<open>Every command\<close>

lemma stays_create_sfx [stay_rules]: "no_exit (create_sfx E temp out force)"
proof -
  have len: "stays (copy_exact_len rd wr n name)" for rd wr n name
    by (auto simp: copy_exact_len_def ensure_def rbind_def split: prod.split sum.split)
  have a: "no_exit (assemble_sfx q temp out force)" for q
    unfolding assemble_sfx_def sfx_commit_def by (intro stay_rules len)
  have r: "no_exit (\<lambda>w. (Inl (CliMessage m), h w))" for m and h :: "world \<Rightarrow> world"
    by (simp add: no_exit_def)
  show ?thesis unfolding create_sfx_def Let_def by (intro stay_rules a r)
qed

lemma silent_encrypt_to [silent_rules]:
  "prints silent (encrypt_to X E a out prof pol)" "prints silent (check (create_sfx E temp out force))"
  unfolding encrypt_to_def encrypt_recipients_def check_def by (intro silent_rules stay_rules)+

lemmas telling = told_exit told_bind told_step prints_branches told_prints spoken_prints spoken_reports silent_rules stay_rules

lemma told_crypt:
  "prints told (keygen X b force)" "prints told (encrypt X E a)" "prints told (decrypt X E i p cr force)"
  "prints told (inspect X i json)" "prints told (verify X E i cr json)" "prints told (preflight X i key pol json)"
  "prints told (report X E i key pol cr json)"
  unfolding keygen_def encrypt_def decrypt_def inspect_def verify_def preflight_def report_def Let_def
  by (rule telling)+

lemma told_policy: "prints told (run_policy X a)"
  by (cases a; simp only: run_policy.simps policy_inspect_def policy_lint_def policy_create_def Let_def;
      ((rule telling)+)?)

lemma told_pack: "prints told (bundle_pack X E a)"
proof -
  have walk: "prints silent (\<lambda>c. bundle_step (pack_directory P S B v now (env_walk E (c_world c) d) t d out cred prof
      links pad force pol ov) c)" for P S B v now d t out cred prof links pad force pol ov
    by (rule prints_start [where m = "\<lambda>c. bundle_step (pack_directory P S B v now (env_walk E (c_world c) d) t d out cred prof
      links pad force pol ov)"]) (rule silent_rules, rule refl)
  have none: "prints told (\<lambda>c. if q c then (Inl (CliMessage t), c) else m c)" if "prints told m"
    for q t and m :: "(console, cli_error, unit) action"
    using that by (auto simp: prints_def told_def)
  show ?thesis
    unfolding bundle_pack_def
    by (rule none) ((rule walk | rule telling)+)
qed

lemma told_bundle: "prints told (run_bundle X E a)"
  by (cases a; simp only: run_bundle.simps told_pack bundle_inspect_def bundle_list_def bundle_diff_def bundle_extract_def
      bundle_verify_def; ((rule telling)+)?)

lemma told_signatures:
  "prints told (sign_keygen X b force)" "prints told (sign X E i k p cm force)" "prints told (approve X i p k cm force)"
  "prints told (verify_signature_command X i k)" "prints told (approvals_command X i k)"
proof -
  have v: "prints told (case e of NotSigned \<Rightarrow> act (print a) (\<lambda>_. fail (CliExit 1))
      | e' \<Rightarrow> act (print_error_line t (CauseSigning e')) (\<lambda>_. fail (CliExit 1)))" for a t e
    by (cases e; simp only: signing_error.case; rule told_exit; rule spoken_prints)
  show "prints told (verify_signature_command X i k)"
    unfolding verify_signature_command_def
    by ((rule v | rule telling)+)
  have b: "prints told (case r of True \<Rightarrow> m | False \<Rightarrow> n)" if "prints told m" "prints told n"
    for r and m n :: "(console, cli_error, unit) action"
    using that by (cases r) simp_all
  show "prints told (approvals_command X i k)"
    unfolding approvals_command_def
    by ((rule b | rule telling)+)
qed (unfold sign_keygen_def sign_def approve_def Let_def, (rule telling)+)

lemma told_for_each: "(\<And>x. prints told (f x)) \<Longrightarrow> prints told (for_each f xs)"
  by (induction xs) (simp_all only: for_each.simps told_act told_silent [OF silent_simple(1)])

lemma told_load_shares: "prints told (load_shares X es)"
proof (induction es)
  case Nil
  show ?case by (simp only: load_shares.simps, rule told_silent, rule silent_rules)
next
  case (Cons en es)
  have f: "prints told (fail (CliIo e))" for e by (simp add: prints_def told_def fail_def)
  have r: "prints told (act (load_shares X es) (\<lambda>shares. ret (share # shares)))" for share
    by (rule told_act [OF Cons.IH told_silent]) (rule silent_rules)
  show ?case
    by (cases en; simp only: load_shares.simps;
      ((rule f | rule Cons.IH | rule r | rule telling)+))
qed

lemma told_recovery: "prints told (run_recovery X E a)"
proof (cases a)
  case (RecoverySplit i n t d)
  have mk: "prints told (\<lambda>c. if path_exists (c_world c) d then ret () c else io_step (create_dir_all d) c)"
    by (rule told_silent) (rule prints_branches(6); rule silent_rules)
  have w: "prints told (write_share X share p)" for share p
    unfolding write_share_def by (rule telling)+
  show ?thesis
    unfolding RecoverySplit run_recovery.simps recovery_split_def Let_def
    by ((rule mk told_act [OF mk] | rule told_act [OF told_for_each] | rule w | rule told_silent [OF silent_checks(3)] | rule telling)+)
next
  case (RecoveryCombine d p force)
  have l: "prints silent (\<lambda>c. (map_err CliIo (env_list E (c_world c) d), c))"
    by (simp add: prints_def silent_def map_err_def split: sum.split)
  show ?thesis
    unfolding RecoveryCombine run_recovery.simps recovery_combine_def
    by ((rule l | rule told_act [OF told_load_shares] | rule telling)+)
qed (simp only: run_recovery.simps recovery_attach_def recovery_inspect_def; (rule telling)+)+

lemma told_group: "prints told (run_group X a)"
  by (cases a; simp only: run_group.simps group_create_command_def group_add_command_def group_remove_command_def group_list_def;
      (rule telling)+)

lemma told_release: "prints told (run_release X a)"
  by (cases a; simp only: run_release.simps release_attach_def; (rule telling)+)

lemma told_in_temp_dir:
  assumes "prints told m"
  shows "prints told (in_temp_dir tmp m)"
  unfolding prints_def
proof
  fix c :: console
  let ?c1 = "c\<lparr>c_world := (c_world c)\<lparr>w_fs := (w_fs (c_world c))(resolve (c_world c) tmp \<mapsto> Directory)\<rparr>\<rparr>"
  obtain r c2 where m: "m ?c1 = (r, c2)" by fastforce
  moreover obtain new where "c_out (snd (m ?c1)) = c_out ?c1 @ new \<and> told (fst (m ?c1)) new"
    using assms unfolding prints_def by blast
  ultimately have "c_out c2 = c_out c @ new" "told r new" by simp_all
  with m show "\<exists>new. c_out (snd (in_temp_dir tmp m c)) = c_out c @ new \<and> told (fst (in_temp_dir tmp m c)) new"
    by (simp add: in_temp_dir_def)
qed

lemma told_secret: "prints told (run_secret X E a)"
  by (cases a; simp only: run_secret.simps secret_encrypt_def secret_decrypt_def secret_edit_def secret_print_def Let_def;
      ((rule told_in_temp_dir | rule telling)+))

lemma told_self_test: "prints told (run_self_test X E)"
proof -
  have "prints told (run_tests X ts passed failed)" for ts passed failed
  proof (induction ts arbitrary: passed failed)
    case Nil
    show ?case by (simp only: run_tests.simps, rule told_silent, rule silent_rules)
  next
    case (Cons t ts)
    show ?case
      by (cases t; simp only: run_tests.simps; ((rule Cons.IH | rule telling)+))
  qed
  note tests = this
  show ?thesis
    unfolding run_self_test_def by ((rule told_act [OF tests] | rule told_silent [OF silent_simple(2)] | rule telling)+)
qed

lemma told_doctor: "prints told (doctor E os arch)"
proof -
  have p: "prints told (\<lambda>c. print (t c) c)" for t :: "console \<Rightarrow> string"
    by (simp add: prints_def told_def print_def)
  show ?thesis
    unfolding doctor_def Let_def by ((rule told_act [OF p] | rule telling)+)
qed

lemma told_run: "prints told (run X E cmd)"
proof (cases cmd)
  case (Recipients r)
  then show ?thesis by (cases r) (simp add: told_group)
next
  case SelfTest
  show ?thesis unfolding SelfTest run.simps by (rule told_bind told_self_test)+
qed (simp_all add: told_crypt told_policy told_bundle told_release told_recovery told_secret told_signatures told_doctor)

section \<open>Documents\<close>

text \<open>
  The documents of the eight commands that take \<open>--json\<close>: six wear the shared envelope, with their
  name as the command; \<open>bundle inspect\<close> and \<open>bundle list\<close> print an object with fields of their own.
\<close>

datatype json_form = Enveloped string | Bare "string list"

fun has_form :: "json_form \<Rightarrow> json \<Rightarrow> bool" where
  "has_form (Enveloped name) doc \<longleftrightarrow> (\<exists>data. doc = json_envelope name data)"
| "has_form (Bare names) doc \<longleftrightarrow> (\<exists>fs. doc = JObject fs \<and> map fst fs = names)"

fun enveloped :: "json_form \<Rightarrow> bool" where
  "enveloped (Enveloped name) \<longleftrightarrow> name \<noteq> []"
| "enveloped (Bare names) \<longleftrightarrow> False"

lemma bare_schema: "map fst fs = names \<Longrightarrow> ''schema_version'' \<notin> set names \<Longrightarrow> \<not> schema_v1 (JObject fs)"
proof -
  assume "map fst fs = names" "''schema_version'' \<notin> set names"
  then have "\<not> has_fields fs (''schema_version'' # ns)" for ns
    unfolding has_fields_def set_map [symmetric] by (metis list.set_intros(1))
  then show ?thesis by (simp add: schema_v1_def schema_ok_document_def schema_error_document_def)
qed

text \<open>
  A command that prints a document: it fails before it prints anything, or it prints exactly one
  document of its form; only where \<open>judges\<close> holds it may still end with status 1.
\<close>

definition documented :: "bool \<Rightarrow> json_form \<Rightarrow> cli_error + unit \<Rightarrow> out_line list \<Rightarrow> bool" where
  "documented judges form r new \<longleftrightarrow>
     new = [] \<and> \<not> is_ok r \<and> stays r \<or>
     (\<exists>doc. new = [JsonDocument doc] \<and> has_form form doc) \<and> (r = Inr () \<or> judges \<and> r = Inl (CliExit 1))"

lemma documented_print: "prints (documented v (Enveloped name)) (print_success name data)"
  by (auto simp: prints_def documented_def print_success_def print_json_def)

lemma documented_bare: "has_form (Bare names) doc \<Longrightarrow> prints (documented v (Bare names)) (print_json doc)"
  by (auto simp: prints_def documented_def print_json_def)

lemma documented_verdict:
  "prints (documented True (Enveloped name)) (act (print_success name data) (\<lambda>_. lift (ensure b (CliExit 1))))"
  by (auto simp: prints_def documented_def print_success_def print_json_def act_def lift_def ensure_def)

lemma documented_step: "prints silent m \<Longrightarrow> (\<And>x. prints (documented v form) (f x)) \<Longrightarrow> prints (documented v form) (act m f)"
  by (erule prints_act [where Q = "documented v form"]) (auto simp: silent_def documented_def stays_def)

lemma documented_triple: "(\<And>a b d. prints Q (f a b d)) \<Longrightarrow> prints Q (case x of (a, b, d) \<Rightarrow> f a b d)"
  by (cases x) simp

lemmas documenting = documented_verdict documented_print documented_bare documented_step documented_triple silent_rules stay_rules

definition inspect_fields :: "string list" where
  "inspect_fields = [''magic'', ''version'', ''profile'', ''algorithm'', ''content_type'', ''public_label'']"

definition list_fields :: "string list" where
  "list_fields = [''file_count'', ''entries'']"

fun json_command :: "command \<Rightarrow> (json_form \<times> bool) option" where
  "json_command (Inspect _ json) = (if json then Some (Enveloped ''inspect'', False) else None)"
| "json_command (Verify _ _ json) = (if json then Some (Enveloped ''verify'', False) else None)"
| "json_command (Preflight _ _ _ json) = (if json then Some (Enveloped ''preflight'', True) else None)"
| "json_command (Report _ _ _ _ json) = (if json then Some (Enveloped ''report'', False) else None)"
| "json_command (Policies (PolicyLint _ _ json)) = (if json then Some (Enveloped ''policy.lint'', True) else None)"
| "json_command (Bundles (BundleDiff _ _ _ _ _ _ json)) = (if json then Some (Enveloped ''bundle-diff'', False) else None)"
| "json_command (Bundles (BundleInspect _ json)) = (if json then Some (Bare inspect_fields, False) else None)"
| "json_command (Bundles (BundleList _ _ _ json)) = (if json then Some (Bare list_fields, False) else None)"
| "json_command _ = None"

lemma documented_commands:
  "prints (documented False (Enveloped ''inspect'')) (inspect X i True)"
  "prints (documented False (Enveloped ''verify'')) (verify X E i cr True)"
  "prints (documented True (Enveloped ''preflight'')) (preflight X i key pol True)"
  "prints (documented False (Enveloped ''report'')) (report X E i key pol cr True)"
  "prints (documented True (Enveloped ''policy.lint'')) (policy_lint X i p True)"
  "prints (documented False (Enveloped ''bundle-diff'')) (bundle_diff X E p q pw pf pw' pf' True)"
  "prints (documented False (Bare inspect_fields)) (bundle_inspect X i True)"
  "prints (documented False (Bare list_fields)) (bundle_list X E i pw pf True)"
proof -
  have shapes: "has_form (Bare inspect_fields) (bundle_inspect_json h ct l)" "has_form (Bare list_fields) (bundle_list_json m)" for h ct l m
    by (simp_all add: bundle_inspect_json_def bundle_list_json_def inspect_fields_def list_fields_def)
  show "prints (documented False (Bare inspect_fields)) (bundle_inspect X i True)"
    "prints (documented False (Bare list_fields)) (bundle_list X E i pw pf True)"
    unfolding bundle_inspect_def bundle_list_def if_True by ((rule shapes | rule documenting)+)
qed (unfold inspect_def verify_def preflight_def report_def policy_lint_def bundle_diff_def Let_def if_True, ((rule documenting)+))

lemma documented_run: "json_command cmd = Some (form, v) \<Longrightarrow> prints (documented v form) (run X E cmd)"
  by (cases cmd rule: json_command.cases)
    (auto simp: documented_commands split: if_splits)

text \<open>The same command without \<open>--json\<close>\<close>

fun without_json :: "command \<Rightarrow> command" where
  "without_json (Inspect i _) = Inspect i False"
| "without_json (Verify i cr _) = Verify i cr False"
| "without_json (Preflight i key pol _) = Preflight i key pol False"
| "without_json (Report i key pol cr _) = Report i key pol cr False"
| "without_json (Policies (PolicyLint i p _)) = Policies (PolicyLint i p False)"
| "without_json (Bundles (BundleDiff p q pw pf pw' pf' _)) = Bundles (BundleDiff p q pw pf pw' pf' False)"
| "without_json (Bundles (BundleInspect i _)) = Bundles (BundleInspect i False)"
| "without_json (Bundles (BundleList i pw pf _)) = Bundles (BundleList i pw pf False)"
| "without_json cmd = cmd"

definition same_effect :: "(console, 'e, 'a) action \<Rightarrow> (console, 'e, 'a) action \<Rightarrow> bool" where
  "same_effect m n \<longleftrightarrow> (\<forall>c. fst (m c) = fst (n c) \<and> (\<exists>ls. snd (m c) = snd (n c)\<lparr>c_out := ls\<rparr>))"

lemma same_effect_act: "(\<And>x. same_effect (f x) (g x)) \<Longrightarrow> same_effect (act m f) (act m g)"
  unfolding same_effect_def act_def
  by (auto split: prod.split sum.split) (metis console.surjective console.update_convs(4))

lemma same_effect_print:
  "same_effect (print_success name data) (print_lines ls)" "same_effect (print_success name data) (print l)"
  "same_effect (act (print_success name data) (\<lambda>_. lift r)) (act (print_lines ls) (\<lambda>_. lift r))"
  "same_effect (print_json doc) (print_lines ls)"
  by (auto simp: same_effect_def print_success_def print_json_def print_lines_def print_def act_def lift_def split: sum.split
      intro: exI [of _ "c_out _ @ _"])

lemma same_effect_triple:
  "(\<And>a b d. same_effect (f a b d) (g a b d)) \<Longrightarrow> same_effect (case x of (a, b, d) \<Rightarrow> f a b d) (case x of (a, b, d) \<Rightarrow> g a b d)"
  by (cases x) simp

lemma same_effect_commands:
  "same_effect (inspect X i True) (inspect X i False)" "same_effect (verify X E i cr True) (verify X E i cr False)"
  "same_effect (preflight X i key pol True) (preflight X i key pol False)"
  "same_effect (report X E i key pol cr True) (report X E i key pol cr False)"
  "same_effect (policy_lint X i p True) (policy_lint X i p False)"
  "same_effect (bundle_diff X E p q pw pf pw' pf' True) (bundle_diff X E p q pw pf pw' pf' False)"
  "same_effect (bundle_inspect X i True) (bundle_inspect X i False)"
  "same_effect (bundle_list X E i pw pf True) (bundle_list X E i pw pf False)"
  unfolding inspect_def verify_def preflight_def report_def policy_lint_def bundle_diff_def bundle_inspect_def bundle_list_def
    Let_def if_True if_False
  by ((rule same_effect_print | rule same_effect_act | rule same_effect_triple)+)

lemma same_effect_run: "json_command cmd \<noteq> None \<Longrightarrow> same_effect (run X E cmd) (run X E (without_json cmd))"
  by (cases cmd rule: json_command.cases) (auto simp: same_effect_commands split: if_splits)

section \<open>Properties\<close>

text \<open>
  C15: A command ends with status 0 exactly when it returns without an error, and otherwise with status 1;
  what was printed stays, and a failure is never without output: the error line of \<open>main\<close> is the last
  line, unless the command printed its verdict itself before it ended the process.
\<close>

theorem failures_are_reported:
  assumes run: "run X E cmd c = (r, c1)" and main: "main X E cmd c = (status, c')"
  shows "status = (if is_ok r then 0 else 1) \<and> c_world c' = c_world c1 \<and>
    (\<exists>new. c_out c1 = c_out c @ new \<and>
      (case r of
         Inr _ \<Rightarrow> c' = c1
       | Inl (CliExit _) \<Rightarrow> c' = c1 \<and> new \<noteq> []
       | Inl e \<Rightarrow> c_out c' = c_out c @ new @ [error_line X e]))"
proof -
  obtain new where new: "c_out c1 = c_out c @ new" "told r new"
    using told_run [of X E cmd] run unfolding prints_def by (metis fst_conv snd_conv)
  show ?thesis
  proof (cases r)
    case (Inr u)
    then show ?thesis using run main new by (simp add: main_def)
  next
    case (Inl e)
    show ?thesis
    proof (cases e)
      case (CliExit n)
      then show ?thesis using run main new Inl by (simp add: main_def told_def)
    qed (use run main new Inl in \<open>auto simp: main_def\<close>)
  qed
qed

text \<open>
  C14: Each of the eight commands with \<open>--json\<close> prints exactly one document or, when it fails, no document
  but one error line; only the negative verdict of \<open>preflight\<close> and \<open>policy lint\<close> gives a document with
  status 1. The documents of \<open>inspect\<close>, \<open>verify\<close>, \<open>preflight\<close>, \<open>report\<close>, \<open>policy lint\<close> (under the name
  \<open>policy.lint\<close>, where docs/JSON_OUTPUT.md says \<open>policy-lint\<close>) and \<open>bundle diff\<close> are valid under the published
  schema; those of \<open>bundle inspect\<close> and \<open>bundle list\<close> have fields of their own and are not. Status and
  effects are those of the command without \<open>--json\<close>.
\<close>

theorem json_output_contract:
  assumes cmd: "json_command cmd = Some (form, judges)" and main: "main X E cmd c = (status, c')"
  shows "((status = 1 \<and> (\<exists>e. c_out c' = c_out c @ [error_line X e])) \<or>
      (status = 0 \<or> judges \<and> status = 1) \<and>
        (\<exists>doc. c_out c' = c_out c @ [JsonDocument doc] \<and> has_form form doc \<and> (schema_v1 doc \<longleftrightarrow> enveloped form))) \<and>
    (\<exists>ls. main X E (without_json cmd) c = (status, c'\<lparr>c_out := ls\<rparr>))"
proof -
  obtain r c1 where run: "run X E cmd c = (r, c1)" by fastforce
  obtain new where new: "c_out c1 = c_out c @ new" "documented judges form r new"
    using documented_run [OF cmd, of X E] run unfolding prints_def by (metis fst_conv snd_conv)
  have schema: "schema_v1 doc \<longleftrightarrow> enveloped form" if "has_form form doc" for doc
  proof (cases form)
    case (Enveloped name)
    then show ?thesis using that by (auto simp: json_envelope_schema)
  next
    case (Bare names)
    then have "''schema_version'' \<notin> set names"
      using cmd by (cases cmd rule: json_command.cases) (auto simp: inspect_fields_def list_fields_def split: if_splits)
    then show ?thesis using that Bare bare_schema by auto
  qed
  obtain d where text_run: "run X E (without_json cmd) c = (r, d)" "\<exists>ls. c1 = d\<lparr>c_out := ls\<rparr>"
  proof -
    have "same_effect (run X E cmd) (run X E (without_json cmd))" by (rule same_effect_run) (simp add: cmd)
    then have "fst (run X E (without_json cmd) c) = r" "\<exists>ls. c1 = snd (run X E (without_json cmd) c)\<lparr>c_out := ls\<rparr>"
      using run unfolding same_effect_def by (metis fst_conv, metis snd_conv)
    then show ?thesis using that by (metis prod.collapse)
  qed
  then have "d = c1\<lparr>c_out := c_out d\<rparr>" by auto
  then obtain ls where d: "d = c1\<lparr>c_out := ls\<rparr>" by blast
  have text_main: "\<exists>ls. main X E (without_json cmd) c = (status, c'\<lparr>c_out := ls\<rparr>)"
    using text_run(1) main run unfolding d by (auto simp: main_def split: sum.splits cli_error.splits)
  from new(2) show ?thesis
  proof (unfold documented_def, elim disjE conjE)
    assume quiet: "new = []" "\<not> is_ok r" "stays r"
    then obtain e where "r = Inl e" by (cases r) auto
    then have "status = 1 \<and> c_out c' = c_out c @ [error_line X e]"
      using main run new(1) quiet by (cases e) (auto simp: main_def)
    then show ?thesis using text_main by blast
  next
    assume "\<exists>doc. new = [JsonDocument doc] \<and> has_form form doc" "r = Inr ()"
    then show ?thesis using main run new(1) text_main schema by (auto simp: main_def)
  next
    assume "\<exists>doc. new = [JsonDocument doc] \<and> has_form form doc" "judges" "r = Inl (CliExit 1)"
    then show ?thesis using main run new(1) text_main schema by (auto simp: main_def)
  qed
qed

text \<open>A file that is not there, and a document about a file that is no capsule.\<close>

theorem failures_are_reported_witness:
  "\<exists>c'. main sample_crates sfx_environ (Inspect (sample_file ''no'') False) cli_console = (1, c') \<and>
     c_out c' = [ErrorText ''error: Input file does not exist: /d/no'']"
proof -
  let ?e = "CliMessage ''Input file does not exist: /d/no''"
  have "lookup cli_world (sample_file ''no'') = None"
    by code_simp
  then have "check (ensure_input_file (sample_file ''no'')) cli_console = (Inl ?e, cli_console)"
    by (simp add: check_def on_world_def ensure_input_file_def is_regular_def cli_console_def sample_file_def display_def ensure_def)
  then have run: "run sample_crates sfx_environ (Inspect (sample_file ''no'') False) cli_console = (Inl ?e, cli_console)"
    by (simp add: inspect_def act_def)
  obtain status c' where main: "main sample_crates sfx_environ (Inspect (sample_file ''no'') False) cli_console = (status, c')"
    by fastforce
  from failures_are_reported [OF run main] main show ?thesis
    by (simp add: error_line_def cli_text_def cli_console_def)
qed

theorem json_output_contract_witness:
  "\<exists>status c' data. main sample_crates sfx_environ (Preflight sample_in None None True) cli_console = (status, c') \<and>
     c_out c' = [JsonDocument (json_envelope ''preflight'' data)] \<and> schema_v1 (json_envelope ''preflight'' data) \<and> status \<le> 1"
proof -
  obtain status c' where main: "main sample_crates sfx_environ (Preflight sample_in None None True) cli_console = (status, c')"
    by fastforce
  have "is_regular cli_world sample_in" using cli_files(1) by (simp add: is_regular_def)
  with main obtain data where d: "c_out c' = [JsonDocument data]"
    by (auto simp: main_def preflight_def act_apply check_def on_world_def ensure_input_file_def cli_console_def optional_def ret_def
        total_step_def print_success_def print_json_def lift_def ensure_def split: prod.splits if_splits)
  have no: "error_line sample_crates e \<noteq> JsonDocument j" for e j by (cases e) (simp_all add: error_line_def)
  have "json_command (Preflight sample_in None None True) = Some (Enveloped ''preflight'', True)" by simp
  from json_output_contract [OF this main] d main no [symmetric] show ?thesis
    by (auto simp: cli_console_def)
qed

end
