(* ===== verification/Password.thy ===== *)
theory Password
  imports Capsule
begin

text \<open>
  Password hashing apart from capsules (crypto/password.rs). Nothing in the repository calls it; its
  costs are the defaults of the argon2 crate, which are a parameter here.
\<close>

definition generate_salt :: "(world, crypto_error, bytes) action" where
  "generate_salt = fill_bytes 16"

definition derive_key :: "prims \<Rightarrow> u32 \<times> u32 \<times> u32 \<Rightarrow> bytes \<Rightarrow> bytes \<Rightarrow> crypto_error + bytes" where
  "derive_key P default_costs password salt =
     (case default_costs of (m, t, p) \<Rightarrow>
        rbind (ensure (argon2_params_ok P m t p) EncryptionFailed) (\<lambda>_.
          ok_or DecryptionFailed (argon2_hash P None (m, t, p) password salt)))"

text \<open>
  Where the costs are accepted it is the derivation that capsules use for a password without a
  seed, at these costs: a key stretched here unlocks exactly what one stretched there does.
\<close>

lemma derive_key_master_key:
  assumes "argon2_params_ok P m t p"
  shows "derive_key P (m, t, p) password salt = derive_master_key P password None (Argon2id m t p salt)"
  using assms by (simp add: derive_key_def derive_master_key_def)

end
