(* ===== verification/Policy_Enforced.thy ===== *)
theory Policy_Enforced
  imports Preflight_Samples
begin

text \<open>
  A policy given to encryption: from the linter over the two encryption functions to the preflight
  of the capsule they write.
\<close>

lemma fresh_capsule_demands:
  assumes "unannotated e" "satisfies e pol"
  shows "\<not> require_signature pol \<and> \<not> require_recovery pol \<and> \<not> created_by_required pol \<and>
    require_approval_signatures_min pol = 0"
  using assms by (auto simp: unannotated_def satisfies_def)

lemma read_capsule_at:
  assumes "capsule_of P S e fek bs capsule" "postcard_ok S" "lookup w p = Some (Regular capsule)" "calm w p"
  shows "fst (read_envelope_from_path P S p w) = Inr e"
proof -
  have "quiet \<lparr>r_data = capsule, r_events = w_script w (resolve w p)\<rparr>"
    using assms(4) by (simp add: quiet_def calm_def)
  from open_capsule [OF assms(1,2) this] obtain rd' where
    "read_envelope P S \<lparr>r_data = capsule, r_events = w_script w (resolve w p)\<rparr> = Inr (e, rd')" by auto
  with assms(3) show ?thesis by (simp add: read_envelope_from_path_def act_def act_map_err_def open_file_def node_bytes_def)
qed

lemma encryption_under_policy:
  assumes C: "ciphers_ok (cip P)" and inp: "lookup w inp = Some (Regular bs)"
    and run: "encrypt_file_password P S inp out pw seed profile (Some pol) override w = (Inr (), w') \<or>
      encrypt_file_keypairs P S inp out pks profile (Some pol) override w = (Inr (), w')"
  obtains e fek capsule where "capsule_of P S e fek bs capsule" "lookup w' out = Some (Regular capsule)"
    "unannotated e" "policy_overridden e = override" "override \<or> satisfies e pol"
  using run
proof
  assume "encrypt_file_password P S inp out pw seed profile (Some pol) override w = (Inr (), w')"
  from encrypt_file_password_Inr [OF this [unfolded encrypt_file_password_def] C inp] obtain e fek capsule w0 where
    "w' = put_file w0 out capsule" "out \<noteq> Path False []" "capsule_of P S e fek bs capsule"
    "policy_overridden e = override" "\<not> override \<longrightarrow> is_valid (lint_envelope e pol)" "unannotated e" by metis
  then show ?thesis using that [of e fek capsule] lookup_put_file lint_valid_iff by auto
next
  assume "encrypt_file_keypairs P S inp out pks profile (Some pol) override w = (Inr (), w')"
  from encrypt_file_keypairs_Inr [OF this [unfolded encrypt_file_keypairs_def] inp] obtain e fek capsule w0 where
    "w' = put_file w0 out capsule" "out \<noteq> Path False []" "capsule_of P S e fek bs capsule"
    "policy_overridden e = override" "\<not> override \<longrightarrow> is_valid (lint_envelope e pol)" "unannotated e" by metis
  then show ?thesis using that [of e fek capsule] lookup_put_file lint_valid_iff by auto
qed

text \<open>
  C13: A capsule that was encrypted under a policy, for a password or for key pairs, meets the policy or
  carries the override flag, and never fails the preflight under that policy, whatever verifying key
  is given. Without an override no policy that demands something attached later (a signature, an
  approval, recovery or release metadata) lets encryption succeed.
\<close>

theorem policy_enforced:
  assumes C: "ciphers_ok (cip P)" and S: "postcard_ok S" and inp: "lookup w inp = Some (Regular bs)"
    and run: "encrypt_file_password P S inp out pw seed profile (Some pol) override w = (Inr (), w') \<or>
      encrypt_file_keypairs P S inp out pks profile (Some pol) override w = (Inr (), w')"
    and calm: "calm w' out"
  shows "(\<exists>e. fst (read_envelope_from_path P S out w') = Inr e \<and> policy_overridden e = override \<and>
      (override \<or> satisfies e pol)) \<and>
    pf_status (fst (run_preflight crypto_text P S D out key (Some pol) w')) \<noteq> PfFail \<and>
    (override \<or> \<not> require_signature pol \<and> \<not> require_recovery pol \<and> \<not> created_by_required pol \<and>
      require_approval_signatures_min pol = 0)"
proof -
  obtain e fek capsule where e: "capsule_of P S e fek bs capsule" "lookup w' out = Some (Regular capsule)"
      "unannotated e" "policy_overridden e = override" "override \<or> satisfies e pol"
    using encryption_under_policy [OF C inp run] .
  have read: "fst (read_envelope_from_path P S out w') = Inr e" by (rule read_capsule_at [OF e(1) S e(2) calm])
  have "pf_status (fst (run_preflight crypto_text P S D out key (Some pol) w')) \<noteq> PfFail"
    using e(3-5) by (auto simp: preflight_status [OF read] unannotated_def)
  then show ?thesis using read e(4,5) fresh_capsule_demands [OF e(3)] by blast
qed

text \<open>The sample capsule, encrypted under the default policy.\<close>

lemma default_policy_satisfied: "satisfies e default_policy"
  by (simp add: satisfies_def default_policy_def names_ok_def)

lemma finish_default_policy: "finish_envelope P S (Some default_policy) override e = finish_envelope P S None override e"
  using default_policy_satisfied lint_valid_iff by (simp add: finish_envelope_def Let_def)

theorem policy_enforced_witness:
  "\<exists>w' e. encrypt_file_password sample_prims sample_postcard sample_in sample_out [1] None Fast (Some default_policy) False
      sample_world = (Inr (), w') \<and> fst (read_envelope_from_path sample_prims sample_postcard sample_out w') = Inr e \<and>
     satisfies e default_policy \<and>
     pf_status (fst (run_preflight (\<lambda>_. []) sample_prims sample_postcard sample_ed sample_out None (Some default_policy) w')) \<noteq> PfFail"
proof -
  obtain w0 capsule where w: "same_but_rng sample_world w0"
      "encrypt_file_password sample_prims sample_postcard sample_in sample_out [1] None Fast None False sample_world =
       (Inr (), put_file w0 sample_out capsule)"
    using sample_password_run by blast
  then have run: "encrypt_file_password sample_prims sample_postcard sample_in sample_out [1] None Fast (Some default_policy) False
      sample_world = (Inr (), put_file w0 sample_out capsule)"
    by (simp add: encrypt_file_password_def encrypt_file_password_with_content_type_def finish_default_policy)
  obtain n where "w0 = sample_world\<lparr>w_rng_pos := n\<rparr>" using w(1) unfolding same_but_rng_def by metis
  then have calm: "calm (put_file w0 sample_out capsule) sample_out" by (simp add: calm_def)
  from policy_enforced [OF _ sample_postcard_ok sample_lookup disjI1 [OF run] calm, of "\<lambda>_. []" sample_ed None] run
  show ?thesis by auto
qed

end
