(* ===== verification/Gui.thy ===== *)
theory Gui
  imports Cli_Run
begin

text \<open>
  The desktop application (lvau-gui, main.rs): its log buffer, the fields of the window, the
  background task with the channel it reports on, the polling of that channel at each frame, and
  the actions of the user. Drawing is not modelled; file dialogs are inputs of the actions. The text
  of the secret fields and of the log is its UTF-8 encoding.
\<close>

section \<open>The log buffer\<close>

definition MAX_GUI_LOG_BYTES :: nat where "MAX_GUI_LOG_BYTES = 64 * 1024"

datatype log_level = LogError | LogWarn | LogInfo | LogDebug | LogTrace

fun level_name :: "log_level \<Rightarrow> string" where
  "level_name LogError = ''ERROR''"
| "level_name LogWarn = ''WARN''"
| "level_name LogInfo = ''INFO''"
| "level_name LogDebug = ''DEBUG''"
| "level_name LogTrace = ''TRACE''"

text \<open>\<open>metadata.level() <= log::Level::Debug\<close>: everything but traces.\<close>

definition log_enabled :: "log_level \<Rightarrow> bool" where "log_enabled l \<longleftrightarrow> l \<noteq> LogTrace"

text \<open>\<open>str::is_char_boundary\<close>\<close>

definition is_char_boundary :: "bytes \<Rightarrow> nat \<Rightarrow> bool" where
  "is_char_boundary bs i \<longleftrightarrow> i = 0 \<or> i = length bs \<or> (i < length bs \<and> \<not> cont (bs ! i))"

text \<open>\<open>while !logs.is_char_boundary(remove) { remove += 1; }\<close>, started inside the text.\<close>

function next_boundary :: "bytes \<Rightarrow> nat \<Rightarrow> nat" where
  "next_boundary bs i = (if is_char_boundary bs i \<or> length bs < i then i else next_boundary bs (i + 1))"
  by pat_completeness auto
termination by (relation "measure (\<lambda>(bs, i). Suc (length bs) - i)") auto

declare next_boundary.simps [simp del]

definition gui_log :: "log_level \<Rightarrow> bytes \<Rightarrow> bytes \<Rightarrow> bytes" where
  "gui_log level args logs =
     (if \<not> log_enabled level then logs
      else let logs1 = logs @ ascii (''['' @ level_name level @ ''] '') @ args @ [10] in
        if MAX_GUI_LOG_BYTES < length logs1
        then drop (next_boundary logs1 (length logs1 - MAX_GUI_LOG_BYTES)) logs1
        else logs1)"

section \<open>State\<close>

datatype operation_mode = EncryptMode | DecryptMode | InspectMode

datatype gui_credential = GuiPassword bytes bytes | GuiKeyFile path

datatype gui_task =
    TaskInspect path
  | TaskCrypto operation_mode gui_credential path path security_profile bool bool

text \<open>\<open>Result<String, String>\<close> has its error on the left.\<close>

datatype gui_message = Progress u64 | Finished "string + string"

text \<open>The receiving end of the channel: the messages in it, and whether the sender is alive.\<close>

record channel =
  ch_queue :: "gui_message list"
  ch_open :: bool

record gui_app =
  g_mode :: operation_mode
  g_auth_mode :: auth_mode
  g_in_file :: "path option"
  g_secret :: bytes
  g_secret_confirmation :: bytes
  g_seed :: bytes
  g_show_secrets :: bool
  g_keyfile_path :: "path option"
  g_status :: string
  g_profile :: security_profile
  g_sfx :: bool
  g_force_overwrite :: bool
  g_logs :: bytes
  g_worker :: "channel option"
  g_busy :: bool
  g_processed_bytes :: u64

definition gui_new :: "bytes \<Rightarrow> gui_app" where
  "gui_new logs = \<lparr>g_mode = EncryptMode, g_auth_mode = AuthPassword, g_in_file = None, g_secret = [],
     g_secret_confirmation = [], g_seed = [], g_show_secrets = False, g_keyfile_path = None, g_status = [],
     g_profile = Balanced, g_sfx = False, g_force_overwrite = False, g_logs = logs, g_worker = None, g_busy = False,
     g_processed_bytes = 0\<rparr>"

section \<open>The background task\<close>

definition start_task :: "gui_app \<Rightarrow> gui_app" where
  "start_task app = app\<lparr>g_worker := Some \<lparr>ch_queue = [], ch_open = True\<rparr>, g_busy := True, g_processed_bytes := 0,
     g_status := ''Processing...''\<rparr>"

text \<open>
  The loop of \<open>poll_worker\<close>: progress messages are counted until a result, the end of the queue, or
  a dead sender; \<open>try_recv\<close> reports a dead sender only once the queue is empty.
\<close>

fun receive :: "gui_message list \<Rightarrow> bool \<Rightarrow> u64 \<Rightarrow> u64 \<times> (string + string) option \<times> gui_message list" where
  "receive [] alive n = (n, if alive then None else Some (Inl ''Background operation ended unexpectedly''), [])"
| "receive (Progress b # q) alive n = receive q alive b"
| "receive (Finished r # q) alive n = (n, Some r, q)"

definition outcome :: "string + string \<Rightarrow> string" where
  "outcome r = (case r of Inr m \<Rightarrow> ''Success: '' @ m | Inl e \<Rightarrow> ''Error: '' @ e)"

definition poll_worker :: "gui_app \<Rightarrow> gui_app" where
  "poll_worker app =
     (case g_worker app of
        None \<Rightarrow> app
      | Some ch \<Rightarrow>
          (case receive (ch_queue ch) (ch_open ch) (g_processed_bytes app) of
             (n, None, q) \<Rightarrow> app\<lparr>g_processed_bytes := n, g_worker := Some (ch\<lparr>ch_queue := q\<rparr>)\<rparr>
           | (n, Some r, q) \<Rightarrow> app\<lparr>g_processed_bytes := n, g_busy := False, g_worker := None, g_status := outcome r\<rparr>))"

section \<open>Starting an operation\<close>

definition clear_sensitive_fields :: "gui_app \<Rightarrow> gui_app" where
  "clear_sensitive_fields app = app\<lparr>g_secret := [], g_secret_confirmation := [], g_seed := []\<rparr>"

definition validate_password_fields :: "operation_mode \<Rightarrow> bytes \<Rightarrow> bytes \<Rightarrow> string + unit" where
  "validate_password_fields mode password confirmation =
     (if password = [] then Inl ''Enter a password''
      else if mode = EncryptMode
      then if confirmation = [] then Inl ''Confirm the password''
        else if password \<noteq> confirmation then Inl ''Password confirmation does not match''
        else Inr ()
      else Inr ())"

definition validation_error :: "gui_app \<Rightarrow> string option" where
  "validation_error app =
     (if g_in_file app = None then Some ''Select an input file''
      else if g_mode app = InspectMode then None
      else case g_auth_mode app of
          AuthPassword \<Rightarrow>
            (case validate_password_fields (g_mode app) (g_secret app) (g_secret_confirmation app) of
               Inl e \<Rightarrow> Some e
             | Inr _ \<Rightarrow> None)
        | AuthKeyFile \<Rightarrow> (if g_keyfile_path app = None then Some ''Select the required key file'' else None))"

definition selected_credential :: "gui_app \<Rightarrow> gui_credential option" where
  "selected_credential app =
     (case g_auth_mode app of
        AuthPassword \<Rightarrow> (if g_secret app \<noteq> [] then Some (GuiPassword (g_secret app) (g_seed app)) else None)
      | AuthKeyFile \<Rightarrow> map_option GuiKeyFile (g_keyfile_path app))"

text \<open>\<open>strip_suffix(".lvau")\<close>\<close>

definition strip_suffix :: "string \<Rightarrow> string \<Rightarrow> string option" where
  "strip_suffix suf s =
     (if length suf \<le> length s \<and> drop (length s - length suf) s = suf then Some (take (length s - length suf) s) else None)"

definition suggested_output_name :: "path \<Rightarrow> operation_mode \<Rightarrow> bool \<Rightarrow> string" where
  "suggested_output_name inp mode sfx =
     (let name = (case file_name inp of Some n \<Rightarrow> if n = [] then ''output'' else n | None \<Rightarrow> ''output'') in
      case mode of
        EncryptMode \<Rightarrow> if sfx then name @ ''.exe'' else name @ ''.lvau''
      | DecryptMode \<Rightarrow>
          (case strip_suffix ''.lvau'' name of
             Some n \<Rightarrow> if n = [] then name @ ''.decrypted'' else n
           | None \<Rightarrow> name @ ''.decrypted'')
      | InspectMode \<Rightarrow> name)"

text \<open>
  \<open>begin_selected_operation\<close>: \<open>dialog\<close> is what the save dialog returns. The task of the new thread
  is returned beside the window.
\<close>

definition begin_selected_operation :: "world \<Rightarrow> path option \<Rightarrow> gui_app \<Rightarrow> gui_app \<times> gui_task option" where
  "begin_selected_operation w dialog app =
     (case validation_error app of
        Some e \<Rightarrow> (app\<lparr>g_status := ''Error: '' @ e\<rparr>, None)
      | None \<Rightarrow>
     (case g_in_file app of
        None \<Rightarrow> (app\<lparr>g_status := ''Error: Select an input file''\<rparr>, None)
      | Some in_path \<Rightarrow>
          if g_mode app = InspectMode then (start_task app, Some (TaskInspect in_path))
          else
     (case dialog of
        None \<Rightarrow> (app, None)
      | Some out_path \<Rightarrow>
          if out_path = in_path then (app\<lparr>g_status := ''Error: Input and output paths must be different.''\<rparr>, None)
          else if path_exists w out_path \<and> \<not> g_force_overwrite app
          then (app\<lparr>g_status := ''Error: Output exists. Enable Force Overwrite or choose another path.''\<rparr>, None)
          else
     (case selected_credential app of
        None \<Rightarrow> (app\<lparr>g_status := ''Error: Enter a password or select the required key file''\<rparr>, None)
      | Some cr \<Rightarrow>
          (start_task (clear_sensitive_fields app),
           Some (TaskCrypto (g_mode app) cr in_path out_path (g_profile app) (g_sfx app) (g_force_overwrite app)))))))"

section \<open>Running a task\<close>

definition crypto_text :: "crates \<Rightarrow> (world, crypto_error, 'a) action \<Rightarrow> (world, string, 'a) action" where
  "crypto_text X = act_map_err (cr_crypto_text X)"

text \<open>Progress messages are steps of their own.\<close>

definition gui_crypto ::
  "crates \<Rightarrow> operation_mode \<Rightarrow> gui_credential \<Rightarrow> path \<Rightarrow> path \<Rightarrow> security_profile \<Rightarrow> (world, string, unit) action" where
  "gui_crypto X mode cr in_path crypto_output profile =
     (case cr of
        GuiPassword password seed_text \<Rightarrow>
          (let seed = (if seed_text = [] then None else Some seed_text) in
           if mode = EncryptMode
           then crypto_text X (encrypt_file_password (cr_prims X) (cr_postcard X) in_path crypto_output password seed profile None False)
           else crypto_text X (decrypt_file_password (cr_prims X) (cr_postcard X) in_path crypto_output password seed))
      | GuiKeyFile key_path \<Rightarrow>
          if mode = EncryptMode
          then act (act_map_err (\<lambda>e. ''Could not load public key: '' @ cr_crypto_text X e)
              (public_load_from_file (cr_mlkem X) (cr_base64 X) (cr_hybrid X) key_path)) (\<lambda>public_key.
            crypto_text X (encrypt_file_keypairs (cr_prims X) (cr_postcard X) in_path crypto_output [public_key] profile None False))
          else act (act_map_err (\<lambda>e. ''Could not load private key: '' @ cr_crypto_text X e)
              (private_load_from_file (cr_base64 X) (cr_hybrid X) key_path)) (\<lambda>private_key.
            crypto_text X (decrypt_file_keypair (cr_prims X) (cr_postcard X) in_path crypto_output private_key)))"

definition gui_sfx :: "crates \<Rightarrow> environ \<Rightarrow> path \<Rightarrow> path \<Rightarrow> bool \<Rightarrow> (world, string, unit) action" where
  "gui_sfx X E crypto_output out_path force =
     act (lift (map_err (cr_io_text X) (env_exe E))) (\<lambda>executable.
     act (lift (ok_or ''Could not determine the GUI executable directory'' (parent executable))) (\<lambda>executable_dir.
     let stub_path = below executable_dir [''lvau-stub.exe''] in
     act (\<lambda>w. (ensure (is_regular w stub_path) (''lvau-stub.exe was not found in '' @ display executable_dir), w)) (\<lambda>_.
       act_map_err (\<lambda>e. ''Could not build SFX: '' @ cr_io_text X e) (build_sfx_file stub_path crypto_output out_path force))))"

definition run_crypto ::
  "crates \<Rightarrow> environ \<Rightarrow> operation_mode \<Rightarrow> gui_credential \<Rightarrow> path \<Rightarrow> path \<Rightarrow> security_profile \<Rightarrow> bool \<Rightarrow> bool \<Rightarrow> (world, string, string) action" where
  "run_crypto X E mode cr in_path out_path profile sfx force w =
     (if in_path = out_path then (Inl ''Input and output paths must be different'', w)
      else if path_exists w out_path \<and> \<not> force then (Inl (''Output already exists: '' @ display out_path), w)
      else if sfx \<and> mode \<noteq> EncryptMode then (Inl ''SFX is available only for encryption'', w)
      else
        act (if sfx
            then with_temp_dir (env_tmp E) (let crypto_output = below (env_tmp E) [''payload.lvau''] in
              act (gui_crypto X mode cr in_path crypto_output profile) (\<lambda>_. gui_sfx X E crypto_output out_path force))
            else gui_crypto X mode cr in_path out_path profile) (\<lambda>_.
          ret (''Output saved to '' @ display out_path)) w)"

definition nl :: string where "nl = [char_of (10 :: nat)]"

definition inspect_details :: "preflight_result \<Rightarrow> string" where
  "inspect_details res =
     ''Preflight: '' @ status_name (pf_status res) @ nl @ ''Version: '' @ decimal (unat (pf_version res)) @ nl @
     ''Profile: '' @ pf_profile res @ nl @ ''Algorithm: '' @ pf_algorithm res @ nl @
     ''Content type: '' @ pf_content_type res @ nl @ ''Recipients: '' @ decimal (recipient_count res) @ nl @
     (if signature_present res
      then (case signature_valid res of
           Some True \<Rightarrow> ''Signature: cryptographically valid with the adjacent verify key (identity is not trusted automatically)''
         | Some False \<Rightarrow> ''Signature: INVALID for the adjacent verify key''
         | None \<Rightarrow> ''Signature: present but unverified'') @ nl
      else ''Signature: absent'' @ nl) @
     (case policy_ok res of
        None \<Rightarrow> []
      | Some p \<Rightarrow> ''Local policy: '' @ (if p then ''PASS'' else ''FAIL'') @ nl) @
     concat (map (\<lambda>x. ''Warning: '' @ x @ nl) (pf_warnings res @ policy_warnings res)) @
     concat (map (\<lambda>x. ''Error: '' @ x @ nl) (pf_errors res @ policy_violations res))"

text \<open>\<open>if path.is_file() { load(path).ok() } else { None }\<close>\<close>

definition load_if_file :: "path \<Rightarrow> (world, 'e, 'a) action \<Rightarrow> world \<Rightarrow> 'a option \<times> world" where
  "load_if_file p load w =
     (if is_regular w p then (case load w of (Inr x, w1) \<Rightarrow> (Some x, w1) | (Inl _, w1) \<Rightarrow> (None, w1)) else (None, w))"

definition inspect_file :: "crates \<Rightarrow> path \<Rightarrow> (world, string, string) action" where
  "inspect_file X in_path w =
     (let verify_path = with_extension in_path ''lvau-verify''; policy_path = Path False [''.lvau-policy.toml''] in
      case load_if_file verify_path (load_verify_key (cr_ed X) (cr_base64 X) verify_path) w of
        (verify_key, w1) \<Rightarrow>
      (case load_if_file policy_path (policy_load_from_file (cr_io_text X) (cr_from_policy X) policy_path) w1 of
        (policy, w2) \<Rightarrow>
      (case run_preflight (cr_crypto_text X) (cr_prims X) (cr_postcard X) (cr_ed X) in_path verify_key policy w2 of
        (res, w3) \<Rightarrow>
          if \<not> parse_ok res
          then (Inl (case parse_error res of Some e \<Rightarrow> e | None \<Rightarrow> ''Envelope parsing failed''), w3)
          else (Inr (inspect_details res), w3))))"

fun run_task :: "crates \<Rightarrow> environ \<Rightarrow> gui_task \<Rightarrow> (world, string, string) action" where
  "run_task X E (TaskInspect in_path) = inspect_file X in_path"
| "run_task X E (TaskCrypto mode cr in_path out_path profile sfx force) = run_crypto X E mode cr in_path out_path profile sfx force"

section \<open>The window\<close>

text \<open>
  What the user can do in a frame. The widgets are enabled while no task is running; those of an
  unselected mode are not shown.
\<close>

datatype gui_action =
    GenerateKeys path
  | SelectMode operation_mode
  | PickTarget path
  | ClearTarget
  | SelectAuth auth_mode
  | EditSecret bytes
  | EditConfirmation bytes
  | EditSeed bytes
  | ShowSecrets bool
  | ClearFields
  | PickKey path
  | SelectProfile security_profile
  | SelectSfx bool
  | SelectForce bool
  | Begin "path option"

fun gui_shown :: "gui_app \<Rightarrow> gui_action \<Rightarrow> bool" where
  "gui_shown app (GenerateKeys _) = True"
| "gui_shown app (SelectMode _) = True"
| "gui_shown app (PickTarget _) = True"
| "gui_shown app ClearTarget = (g_in_file app \<noteq> None)"
| "gui_shown app (SelectAuth _) = (g_mode app \<noteq> InspectMode)"
| "gui_shown app (EditConfirmation _) = (g_mode app = EncryptMode \<and> g_auth_mode app = AuthPassword)"
| "gui_shown app (PickKey _) = (g_mode app \<noteq> InspectMode \<and> g_auth_mode app = AuthKeyFile)"
| "gui_shown app (SelectProfile _) = (g_mode app = EncryptMode)"
| "gui_shown app (SelectSfx _) = (g_mode app = EncryptMode)"
| "gui_shown app (SelectForce _) = (g_mode app \<noteq> InspectMode)"
| "gui_shown app (Begin _) = (validation_error app = None)"
| "gui_shown app _ = (g_mode app \<noteq> InspectMode \<and> g_auth_mode app = AuthPassword)"

definition select_mode :: "operation_mode \<Rightarrow> gui_app \<Rightarrow> gui_app" where
  "select_mode m app =
     (if m = g_mode app then app
      else app\<lparr>g_mode := m, g_keyfile_path := None, g_secret_confirmation := [], g_status := [],
        g_sfx := (if m \<noteq> EncryptMode then False else g_sfx app)\<rparr>)"

definition gui_keygen :: "crates \<Rightarrow> path \<Rightarrow> world \<Rightarrow> string \<times> world" where
  "gui_keygen X private_path w =
     (let public_path = with_extension private_path ''lvau-pub'' in
      case act (act_map_err (cr_crypto_text X) (generate_keypair (cr_prims X) (cr_mlkem X))) (\<lambda>(private_key, public_key).
        act (act_map_err (\<lambda>e. ''Could not save private key: '' @ cr_crypto_text X e)
          (private_save_to_file (cr_base64 X) (cr_hybrid X) private_key private_path)) (\<lambda>_.
        act_map_err (\<lambda>e. ''Could not save public key: '' @ cr_crypto_text X e)
          (public_save_to_file (cr_base64 X) (cr_hybrid X) public_key public_path))) w of
        (Inr _, w1) \<Rightarrow> (''Success: Experimental identity generated'' @ nl @ ''Private: '' @ display private_path @ nl @
          ''Public: '' @ display public_path, w1)
      | (Inl e, w1) \<Rightarrow> (''Error: '' @ e, w1))"

record gui_system =
  gs_app :: gui_app
  gs_thread :: "gui_task option"
  gs_world :: world

fun gui_act :: "crates \<Rightarrow> gui_action \<Rightarrow> gui_system \<Rightarrow> gui_system" where
  "gui_act X (GenerateKeys p) s =
     (case gui_keygen X p (gs_world s) of (status, w) \<Rightarrow> s\<lparr>gs_app := (gs_app s)\<lparr>g_status := status\<rparr>, gs_world := w\<rparr>)"
| "gui_act X (SelectMode m) s = s\<lparr>gs_app := select_mode m (gs_app s)\<rparr>"
| "gui_act X (PickTarget p) s = s\<lparr>gs_app := (gs_app s)\<lparr>g_in_file := Some p, g_status := []\<rparr>\<rparr>"
| "gui_act X ClearTarget s = s\<lparr>gs_app := (gs_app s)\<lparr>g_in_file := None, g_status := []\<rparr>\<rparr>"
| "gui_act X (SelectAuth m) s = s\<lparr>gs_app := (gs_app s)\<lparr>g_auth_mode := m\<rparr>\<rparr>"
| "gui_act X (EditSecret t) s = s\<lparr>gs_app := (gs_app s)\<lparr>g_secret := t\<rparr>\<rparr>"
| "gui_act X (EditConfirmation t) s = s\<lparr>gs_app := (gs_app s)\<lparr>g_secret_confirmation := t\<rparr>\<rparr>"
| "gui_act X (EditSeed t) s = s\<lparr>gs_app := (gs_app s)\<lparr>g_seed := t\<rparr>\<rparr>"
| "gui_act X (ShowSecrets b) s = s\<lparr>gs_app := (gs_app s)\<lparr>g_show_secrets := b\<rparr>\<rparr>"
| "gui_act X ClearFields s = s\<lparr>gs_app := clear_sensitive_fields (gs_app s)\<rparr>"
| "gui_act X (PickKey p) s = s\<lparr>gs_app := (gs_app s)\<lparr>g_keyfile_path := Some p\<rparr>\<rparr>"
| "gui_act X (SelectProfile p) s = s\<lparr>gs_app := (gs_app s)\<lparr>g_profile := p\<rparr>\<rparr>"
| "gui_act X (SelectSfx b) s = s\<lparr>gs_app := (gs_app s)\<lparr>g_sfx := b\<rparr>\<rparr>"
| "gui_act X (SelectForce b) s = s\<lparr>gs_app := (gs_app s)\<lparr>g_force_overwrite := b\<rparr>\<rparr>"
| "gui_act X (Begin dialog) s =
     (case begin_selected_operation (gs_world s) dialog (gs_app s) of
        (app, None) \<Rightarrow> s\<lparr>gs_app := app\<rparr>
      | (app, Some t) \<Rightarrow> s\<lparr>gs_app := app, gs_thread := Some t\<rparr>)"

section \<open>Window and thread\<close>

text \<open>
  The steps of the window and of the background thread, in any order: a frame polls the channel and
  lets the user act when nothing is running; the thread sends progress, ends with a result, or
  dies, having done anything to the files; any thread logs.
\<close>

definition with_channel :: "(channel \<Rightarrow> channel) \<Rightarrow> gui_system \<Rightarrow> gui_system" where
  "with_channel f s = s\<lparr>gs_app := (gs_app s)\<lparr>g_worker := map_option f (g_worker (gs_app s))\<rparr>\<rparr>"

inductive gui_step :: "crates \<Rightarrow> environ \<Rightarrow> gui_system \<Rightarrow> gui_system \<Rightarrow> bool" for X E where
  frame_step: "gui_step X E s (s\<lparr>gs_app := poll_worker (gs_app s)\<rparr>)"
| action_step: "\<not> g_busy (gs_app s) \<Longrightarrow> gui_shown (gs_app s) a \<Longrightarrow> gui_step X E s (gui_act X a s)"
| progress_step: "gs_thread s = Some t \<Longrightarrow>
     gui_step X E s (with_channel (\<lambda>ch. ch\<lparr>ch_queue := ch_queue ch @ [Progress n]\<rparr>) s)"
| done_step: "gs_thread s = Some t \<Longrightarrow> run_task X E t (gs_world s) = (r, w) \<Longrightarrow>
     gui_step X E s ((with_channel (\<lambda>ch. ch\<lparr>ch_queue := ch_queue ch @ [Finished r], ch_open := False\<rparr>) s)\<lparr>gs_thread := None, gs_world := w\<rparr>)"
| panic_step: "gs_thread s = Some t \<Longrightarrow>
     gui_step X E s ((with_channel (\<lambda>ch. ch\<lparr>ch_open := False\<rparr>) s)\<lparr>gs_thread := None, gs_world := w\<rparr>)"
| log_step: "gui_step X E s (s\<lparr>gs_app := (gs_app s)\<lparr>g_logs := gui_log level args (g_logs (gs_app s))\<rparr>\<rparr>)"
| clear_log_step: "gui_step X E s (s\<lparr>gs_app := (gs_app s)\<lparr>g_logs := []\<rparr>\<rparr>)"

definition gui_start :: "world \<Rightarrow> gui_system" where
  "gui_start w = \<lparr>gs_app = gui_new [], gs_thread = None, gs_world = w\<rparr>"

end
