(* ===== verification/Gui_Correct.thy ===== *)
theory Gui_Correct
  imports Gui Cli_Correct
begin

text \<open>
  The desktop application: the invariant of the window and its background thread, the end of every
  task, and what a task does to files.
\<close>

section \<open>The channel\<close>

text \<open>A result is the last message of its thread.\<close>

lemma receive_progress:
  "\<forall>m \<in> set q. \<exists>n. m = Progress n \<Longrightarrow>
     \<exists>n'. receive q alive n = (n', if alive then None else Some (Inl ''Background operation ended unexpectedly''), [])"
  by (induction q arbitrary: n) auto

lemma receive_finished:
  "\<forall>m \<in> set q. \<exists>n. m = Progress n \<Longrightarrow> \<exists>n'. receive (q @ [Finished r]) alive n = (n', Some r, [])"
  by (induction q arbitrary: n) auto

text \<open>What can be in the channel: progress only while the thread runs, and at most one result at the end.\<close>

definition channel_ok :: "bool \<Rightarrow> channel \<Rightarrow> bool" where
  "channel_ok running ch \<longleftrightarrow> ch_open ch = running \<and>
     (\<exists>q. (\<forall>m \<in> set q. \<exists>n. m = Progress n) \<and>
       (ch_queue ch = q \<or> (\<not> running \<and> (\<exists>r. ch_queue ch = q @ [Finished r]))))"

text \<open>A task that may run: what the window validated before starting it.\<close>

definition task_ok :: "gui_task \<Rightarrow> bool" where
  "task_ok t = (case t of
       TaskInspect _ \<Rightarrow> True
     | TaskCrypto mode cr in_path out_path _ sfx _ \<Rightarrow>
         mode \<noteq> InspectMode \<and> in_path \<noteq> out_path \<and> (sfx \<longrightarrow> mode = EncryptMode) \<and>
         (case cr of GuiPassword password _ \<Rightarrow> password \<noteq> [] | GuiKeyFile _ \<Rightarrow> True))"

definition fields_empty :: "gui_app \<Rightarrow> bool" where
  "fields_empty app \<longleftrightarrow> g_secret app = [] \<and> g_secret_confirmation app = [] \<and> g_seed app = []"

definition gui_inv :: "gui_system \<Rightarrow> bool" where
  "gui_inv s \<longleftrightarrow>
     (g_busy (gs_app s) \<longleftrightarrow> g_worker (gs_app s) \<noteq> None) \<and>
     (gs_thread s \<noteq> None \<longrightarrow> g_busy (gs_app s)) \<and>
     (\<forall>ch. g_worker (gs_app s) = Some ch \<longrightarrow> channel_ok (gs_thread s \<noteq> None) ch) \<and>
     (\<forall>t. gs_thread s = Some t \<longrightarrow> task_ok t) \<and>
     (\<forall>mode cr i p prof sfx force. gs_thread s = Some (TaskCrypto mode cr i p prof sfx force) \<longrightarrow> fields_empty (gs_app s)) \<and>
     (g_sfx (gs_app s) \<longrightarrow> g_mode (gs_app s) = EncryptMode) \<and>
     length (g_logs (gs_app s)) \<le> MAX_GUI_LOG_BYTES"

lemma poll_fields [simp]:
  "g_mode (poll_worker app) = g_mode app" "g_sfx (poll_worker app) = g_sfx app" "g_logs (poll_worker app) = g_logs app"
  "g_secret (poll_worker app) = g_secret app" "g_secret_confirmation (poll_worker app) = g_secret_confirmation app"
  "g_seed (poll_worker app) = g_seed app"
  by (auto simp: poll_worker_def split: option.splits prod.splits)

lemma poll_idle: "g_worker app = None \<Longrightarrow> poll_worker app = app"
  by (simp add: poll_worker_def)

lemma poll_running:
  assumes "g_worker app = Some ch" "channel_ok True ch"
  shows "g_busy (poll_worker app) = g_busy app \<and> g_worker (poll_worker app) = Some (ch\<lparr>ch_queue := []\<rparr>)"
proof -
  obtain n where "receive (ch_queue ch) (ch_open ch) (g_processed_bytes app) = (n, None, [])"
    using assms(2) receive_progress [of "ch_queue ch" True] by (fastforce simp: channel_ok_def)
  then show ?thesis using assms(1) by (simp add: poll_worker_def)
qed

lemma poll_ended:
  assumes "g_worker app = Some ch" "channel_ok False ch"
  shows "\<not> g_busy (poll_worker app) \<and> g_worker (poll_worker app) = None \<and>
    (\<forall>r q. ch_queue ch = q @ [Finished r] \<longrightarrow> g_status (poll_worker app) = outcome r)"
proof -
  obtain q where q: "\<forall>m \<in> set q. \<exists>n. m = Progress n" "ch_queue ch = q \<or> (\<exists>r. ch_queue ch = q @ [Finished r])" "\<not> ch_open ch"
    using assms(2) by (auto simp: channel_ok_def)
  show ?thesis
  proof (cases "ch_queue ch = q")
    case True
    then obtain n where "receive (ch_queue ch) (ch_open ch) (g_processed_bytes app) =
        (n, Some (Inl ''Background operation ended unexpectedly''), [])"
      using receive_progress [OF q(1), of False] q(3) by auto
    moreover have "ch_queue ch \<noteq> q' @ [Finished r]" for q' r using True q(1) by force
    ultimately show ?thesis using assms(1) by (simp add: poll_worker_def)
  next
    case False
    then obtain r where r: "ch_queue ch = q @ [Finished r]" using q(2) by blast
    then obtain n where "receive (ch_queue ch) (ch_open ch) (g_processed_bytes app) = (n, Some r, [])"
      using receive_finished [OF q(1)] by fastforce
    then show ?thesis using assms(1) r by (auto simp: poll_worker_def)
  qed
qed

section \<open>The invariant\<close>

lemma gui_inv_start: "gui_inv (gui_start w)"
  by (simp add: gui_inv_def gui_start_def gui_new_def)

lemma next_boundary_ge: "i \<le> next_boundary bs i"
proof (induction bs i rule: next_boundary.induct)
  case (1 bs i)
  show ?case
  proof (cases "is_char_boundary bs i \<or> length bs < i")
    case False
    then have "i + 1 \<le> next_boundary bs (i + 1)" by (rule 1)
    then show ?thesis using False by (simp add: next_boundary.simps [of bs i])
  qed (simp add: next_boundary.simps [of bs i])
qed

definition trimmed :: "bytes \<Rightarrow> bytes" where
  "trimmed bs = (if MAX_GUI_LOG_BYTES < length bs then drop (next_boundary bs (length bs - MAX_GUI_LOG_BYTES)) bs else bs)"

lemma log_length:
  assumes "length logs \<le> MAX_GUI_LOG_BYTES"
  shows "length (gui_log level args logs) \<le> MAX_GUI_LOG_BYTES"
proof -
  have cut: "length (trimmed bs) \<le> MAX_GUI_LOG_BYTES" for bs
    using next_boundary_ge [of "length bs - MAX_GUI_LOG_BYTES" bs] by (simp add: trimmed_def le_diff_conv add.commute)
  have "gui_log level args logs = (if log_enabled level
      then trimmed (logs @ ascii (''['' @ level_name level @ ''] '') @ args @ [10]) else logs)"
    by (simp only: gui_log_def Let_def trimmed_def if_not_P if_P split: if_split) simp
  then show ?thesis using cut assms by presburger
qed

lemma begin_operation_cases:
  assumes "begin_selected_operation w dialog app = (app', t)" "g_sfx app \<longrightarrow> g_mode app = EncryptMode"
  shows "(t = None \<and> (\<exists>status. app' = app\<lparr>g_status := status\<rparr>)) \<or>
    (\<exists>p. t = Some (TaskInspect p) \<and> app' = start_task app) \<or>
    (\<exists>cr i p. t = Some (TaskCrypto (g_mode app) cr i p (g_profile app) (g_sfx app) (g_force_overwrite app)) \<and>
       app' = start_task (clear_sensitive_fields app) \<and> (path_exists w p \<longrightarrow> g_force_overwrite app) \<and>
       task_ok (TaskCrypto (g_mode app) cr i p (g_profile app) (g_sfx app) (g_force_overwrite app)))"
proof -
  have st: "\<exists>status. app = app\<lparr>g_status := status\<rparr>" by (rule exI [of _ "g_status app"]) simp
  have cr: "case c of GuiPassword p _ \<Rightarrow> p \<noteq> [] | GuiKeyFile _ \<Rightarrow> True" if "selected_credential app = Some c" for c
    using that by (auto simp: selected_credential_def split: auth_mode.splits if_splits)
  show ?thesis
    using assms st cr unfolding begin_selected_operation_def
    by (auto simp: task_ok_def split: option.splits if_splits)
qed

lemma gui_inv_step: "gui_step X E s s' \<Longrightarrow> gui_inv s \<Longrightarrow> gui_inv s'"
proof (induction rule: gui_step.induct)
  case (frame_step s)
  note inv = frame_step
  show ?case
  proof (cases "g_worker (gs_app s)")
    case None
    then show ?thesis using inv by (simp add: poll_idle)
  next
    case (Some ch)
    then have ok: "channel_ok (gs_thread s \<noteq> None) ch" using inv by (simp add: gui_inv_def)
    show ?thesis
    proof (cases "gs_thread s")
      case None
      then show ?thesis
        using poll_ended [OF Some] ok inv by (simp add: gui_inv_def)
    next
      case thread: (Some t)
      then have "channel_ok True (ch\<lparr>ch_queue := []\<rparr>)" using ok by (simp add: channel_ok_def)
      then show ?thesis
        using poll_running [OF Some] ok inv thread Some by (auto simp: gui_inv_def fields_empty_def)
    qed
  qed
next
  case (action_step s a)
  then have idle: "gs_thread s = None" "g_worker (gs_app s) = None" by (auto simp: gui_inv_def)
  show ?case
  proof (cases a)
    case (Begin dialog)
    obtain app' t where b: "begin_selected_operation (gs_world s) dialog (gs_app s) = (app', t)" by fastforce
    have sfx: "g_sfx (gs_app s) \<longrightarrow> g_mode (gs_app s) = EncryptMode" using action_step by (simp add: gui_inv_def)
    show ?thesis
      using begin_operation_cases [OF b sfx] action_step idle
      by (auto simp: Begin b gui_inv_def start_task_def clear_sensitive_fields_def fields_empty_def channel_ok_def task_ok_def)
  qed (use action_step idle in \<open>auto simp: gui_inv_def select_mode_def clear_sensitive_fields_def split: prod.splits\<close>)
next
  case (progress_step s t n)
  then obtain ch where ch: "g_worker (gs_app s) = Some ch" "channel_ok True ch" by (auto simp: gui_inv_def)
  have "channel_ok True (ch\<lparr>ch_queue := ch_queue ch @ [Progress n]\<rparr>)" using ch(2) by (auto simp: channel_ok_def)
  then show ?case using progress_step ch by (auto simp: gui_inv_def with_channel_def fields_empty_def)
next
  case (done_step s t r w)
  then obtain ch where ch: "g_worker (gs_app s) = Some ch" "channel_ok True ch" by (auto simp: gui_inv_def)
  have "channel_ok False (ch\<lparr>ch_queue := ch_queue ch @ [Finished r], ch_open := False\<rparr>)"
    using ch(2) by (auto simp: channel_ok_def)
  then show ?case using done_step ch by (auto simp: gui_inv_def with_channel_def)
next
  case (panic_step s t w)
  then obtain ch where ch: "g_worker (gs_app s) = Some ch" "channel_ok True ch" by (auto simp: gui_inv_def)
  have "channel_ok False (ch\<lparr>ch_open := False\<rparr>)" using ch(2) by (auto simp: channel_ok_def)
  then show ?case using panic_step ch by (auto simp: gui_inv_def with_channel_def)
next
  case (log_step s level args)
  then show ?case using log_length by (auto simp: gui_inv_def fields_empty_def)
next
  case (clear_log_step s)
  then show ?case by (auto simp: gui_inv_def fields_empty_def)
qed

lemma reachable_inv: "(gui_step X E)\<^sup>*\<^sup>* (gui_start w) s \<Longrightarrow> gui_inv s"
  by (induction rule: rtranclp_induct) (auto intro: gui_inv_start gui_inv_step)

text \<open>
  C24: In every state that the window and its thread reach, the window is busy exactly while it holds
  the channel of a task; a running task was validated, and while a cryptographic task runs the secret
  fields are empty; an archive is only asked for when encrypting; and the log is within its limit.
\<close>

theorem gui_invariant:
  assumes "(gui_step X E)\<^sup>*\<^sup>* (gui_start w) s"
  shows "gui_inv s"
  using assms by (rule reachable_inv)

section \<open>Every task ends\<close>

lemma done_then_frame:
  assumes inv: "gui_inv s" and t: "gs_thread s = Some t" and run: "run_task X E t (gs_world s) = (r, w)"
  obtains s' where "(gui_step X E)\<^sup>*\<^sup>* s s'" "\<not> g_busy (gs_app s')" "gs_thread s' = None" "gs_world s' = w"
    "g_status (gs_app s') = outcome r"
proof -
  obtain ch where ch: "g_worker (gs_app s) = Some ch" "channel_ok True ch" using inv t by (auto simp: gui_inv_def)
  let ?ch = "ch\<lparr>ch_queue := ch_queue ch @ [Finished r], ch_open := False\<rparr>"
  let ?s1 = "(with_channel (\<lambda>ch. ch\<lparr>ch_queue := ch_queue ch @ [Finished r], ch_open := False\<rparr>) s)\<lparr>gs_thread := None, gs_world := w\<rparr>"
  have ok: "channel_ok False ?ch" using ch(2) by (auto simp: channel_ok_def)
  have w: "g_worker (gs_app ?s1) = Some ?ch" using ch(1) by (simp add: with_channel_def)
  have q: "ch_queue ?ch = ch_queue ch @ [Finished r]" by simp
  have "\<not> g_busy (poll_worker (gs_app ?s1))" "g_status (poll_worker (gs_app ?s1)) = outcome r"
    using poll_ended [OF w ok] q by blast+
  moreover have "(gui_step X E)\<^sup>*\<^sup>* s (?s1\<lparr>gs_app := poll_worker (gs_app ?s1)\<rparr>)"
    by (rule converse_rtranclp_into_rtranclp, rule done_step [OF t run], rule r_into_rtranclp, rule frame_step)
  ultimately show ?thesis using that [of "?s1\<lparr>gs_app := poll_worker (gs_app ?s1)\<rparr>"] by simp
qed

text \<open>
  C25: The window never stays busy: from every busy state that is reached, the end of the thread and
  one frame make it idle, with the result of the task as its status and the files as the task left
  them; and if the thread has ended already, however it did, the next frame makes it idle.
\<close>

theorem gui_becomes_idle:
  assumes reached: "(gui_step X E)\<^sup>*\<^sup>* (gui_start w) s" and busy: "g_busy (gs_app s)"
  shows "(\<exists>s'. (gui_step X E)\<^sup>*\<^sup>* s s' \<and> \<not> g_busy (gs_app s') \<and> gs_thread s' = None \<and>
      (\<forall>t. gs_thread s = Some t \<longrightarrow>
        g_status (gs_app s') = outcome (fst (run_task X E t (gs_world s))) \<and> gs_world s' = snd (run_task X E t (gs_world s)))) \<and>
    (gs_thread s = None \<longrightarrow> \<not> g_busy (poll_worker (gs_app s)))"
proof -
  note inv = reachable_inv [OF reached]
  show ?thesis
  proof (cases "gs_thread s")
    case None
    obtain ch where "g_worker (gs_app s) = Some ch" "channel_ok False ch" using inv busy None by (auto simp: gui_inv_def)
    then have idle: "\<not> g_busy (poll_worker (gs_app s))" using poll_ended by blast
    have "(gui_step X E)\<^sup>*\<^sup>* s (s\<lparr>gs_app := poll_worker (gs_app s)\<rparr>)" by (intro r_into_rtranclp frame_step)
    with idle None show ?thesis by (intro conjI exI [of _ "s\<lparr>gs_app := poll_worker (gs_app s)\<rparr>"]) auto
  next
    case (Some t)
    obtain r v where run: "run_task X E t (gs_world s) = (r, v)" by fastforce
    obtain s' where "(gui_step X E)\<^sup>*\<^sup>* s s'" "\<not> g_busy (gs_app s')" "gs_thread s' = None" "gs_world s' = v"
      "g_status (gs_app s') = outcome r"
      by (rule done_then_frame [OF inv Some run])
    then show ?thesis using run Some by (intro conjI exI [of _ s']) auto
  qed
qed

section \<open>What a task does to files\<close>

lemma frame_build_sfx:
  assumes "dest cwd out \<subseteq> A"
  shows "frame cwd A (build_sfx_file stub payload out force)"
  unfolding build_sfx_file_def by (intro framing assms) (simp add: frame_def)

lemma frame_gui_crypto: "dest cwd out \<subseteq> A \<Longrightarrow> frame cwd A (gui_crypto X mode cr inp out prof)"
  unfolding gui_crypto_def crypto_text_def Let_def
  by (cases cr) (simp_all only: gui_credential.case, (intro framing; assumption)+)

lemma frame_gui_sfx: "dest cwd out \<subseteq> A \<Longrightarrow> frame cwd A (gui_sfx X E payload out force)"
  unfolding gui_sfx_def Let_def
  by (intro framing frame_build_sfx) (simp_all add: frame_def)

lemma frame_load_if_file:
  assumes "frame cwd {} load" "w_cwd w = cwd"
  shows "w_cwd (snd (load_if_file p load w)) = cwd \<and> w_fs (snd (load_if_file p load w)) = w_fs w"
proof -
  have "w_cwd (snd (load w)) = cwd" "w_fs (snd (load w)) = w_fs w"
    using assms by (auto simp: frame_def)
  then show ?thesis using assms(2) by (auto simp: load_if_file_def split: prod.splits sum.splits)
qed

lemma frame_inspect_file: "frame cwd {} (inspect_file X p)"
  unfolding frame_def
proof (intro allI impI)
  fix w :: world assume cwd: "w_cwd w = cwd"
  let ?v = "with_extension p ''lvau-verify''" and ?p = "Path False [''.lvau-policy.toml'']"
  obtain key w1 where l1: "load_if_file ?v (load_verify_key (cr_ed X) (cr_base64 X) ?v) w = (key, w1)" by fastforce
  obtain pol w2 where l2: "load_if_file ?p (policy_load_from_file (cr_io_text X) (cr_from_policy X) ?p) w1 = (pol, w2)" by fastforce
  obtain res w3 where l3: "run_preflight (cr_crypto_text X) (cr_prims X) (cr_postcard X) (cr_ed X) p key pol w2 = (res, w3)" by fastforce
  have w1: "w_cwd w1 = cwd" "w_fs w1 = w_fs w"
    using frame_load_if_file [OF _ cwd, of "load_verify_key (cr_ed X) (cr_base64 X) ?v" ?v] frame_readers l1 by auto
  have w2: "w_cwd w2 = cwd" "w_fs w2 = w_fs w1"
    using frame_load_if_file [OF _ w1(1), of "policy_load_from_file (cr_io_text X) (cr_from_policy X) ?p" ?p] frame_readers l2 by auto
  have "w3 = w2" using run_preflight_world l3 by (metis snd_conv)
  then have "snd (inspect_file X p w) = w2"
    using l1 l2 l3 by (simp add: inspect_file_def Let_def)
  then show "w_cwd (snd (inspect_file X p w)) = cwd \<and> (\<forall>k. k \<notin> {} \<longrightarrow> w_fs (snd (inspect_file X p w)) k = w_fs w k)"
    using w1 w2 by simp
qed

definition task_targets :: "environ \<Rightarrow> string list \<Rightarrow> gui_task \<Rightarrow> string list set" where
  "task_targets E cwd t = (case t of
       TaskInspect _ \<Rightarrow> {}
     | TaskCrypto _ _ _ p _ _ _ \<Rightarrow> dest cwd p \<union> dest_below cwd (env_tmp E))"

lemma frame_guarded:
  "frame cwd A n \<Longrightarrow> frame cwd A (\<lambda>w. if a then (Inl e1, w) else if b w then (Inl e2, w) else if c then (Inl e3, w) else n w)"
  by (simp add: frame_def)

lemma frame_run_task: "frame cwd (task_targets E cwd t) (run_task X E t)"
proof (cases t)
  case (TaskInspect p)
  then show ?thesis using frame_inspect_file by (simp add: task_targets_def)
next
  case (TaskCrypto mode cr i p prof sfx force)
  let ?A = "dest cwd p \<union> dest_below cwd (env_tmp E)"
  have tmp: "dest cwd (below (env_tmp E) [''payload.lvau'']) \<subseteq> ?A" using dest_in_below(2) by blast
  have "frame cwd ?A (run_crypto X E mode cr i p prof sfx force)"
  proof -
    let ?go = "act (if sfx
            then with_temp_dir (env_tmp E) (let crypto_output = below (env_tmp E) [''payload.lvau''] in
              act (gui_crypto X mode cr i crypto_output prof) (\<lambda>_. gui_sfx X E crypto_output p force))
            else gui_crypto X mode cr i p prof) (\<lambda>_. ret (''Output saved to '' @ display p))"
    have "frame cwd ?A ?go"
      unfolding Let_def by (intro framing frame_gui_crypto frame_gui_sfx tmp) auto
    from frame_guarded [OF this] show ?thesis
      unfolding run_crypto_def [abs_def] .
  qed
  then show ?thesis using TaskCrypto by (simp add: task_targets_def)
qed

text \<open>
  C26: A task of the window changes no file but its output and the temporary directory of an archive,
  an inspection changes none, and without \<open>Force Overwrite\<close> every existing entry stays as it was,
  whatever the outcome.
\<close>

theorem gui_task_keeps_files:
  assumes run: "run_task X E t w = (r, w')" and fresh: "fresh_name w (env_tmp E)"
  shows "(\<forall>k. k \<notin> task_targets E (w_cwd w) t \<longrightarrow> w_fs w' k = w_fs w k) \<and>
    (\<forall>mode cr i p prof sfx. t = TaskCrypto mode cr i p prof sfx False \<longrightarrow> keeps_entries w w')"
proof -
  have f: "\<forall>k. k \<notin> task_targets E (w_cwd w) t \<longrightarrow> w_fs w' k = w_fs w k"
    using frame_run_task [of "w_cwd w" E t X] run unfolding frame_def by (metis snd_conv)
  moreover have "keeps_entries w w'" if t: "t = TaskCrypto mode cr i p prof sfx False" for mode cr i p prof sfx
  proof (cases "path_exists w p")
    case True
    then have "w' = w" using run t by (auto simp: run_crypto_def split: if_splits)
    then show ?thesis by simp
  next
    case False
    then have "\<forall>k \<in> task_targets E (w_cwd w) t. w_fs w k = None"
      using free_dest [OF False refl] fresh_below [OF fresh] t by (auto simp: task_targets_def)
    with f show ?thesis unfolding keeps_entries_def by (metis option.distinct(1))
  qed
  ultimately show ?thesis by blast
qed

section \<open>Round trip\<close>

text \<open>What the window encrypts with a password, it decrypts with the same password and seed.\<close>

theorem gui_round_trip:
  assumes P: "ciphers_ok (cip (cr_prims X))" and S: "postcard_ok (cr_postcard X)"
    and enc: "run_task X E (TaskCrypto EncryptMode (GuiPassword pw seed) inp out prof False force) w = (Inr m, w1)"
    and inp: "lookup w inp = Some (Regular bs)" "length bs < 2 ^ 64"
    and env: "calm w1 out" "output_ok w1 out2" "path_exists w1 out2 \<longrightarrow> force2" "out \<noteq> out2"
  shows "run_task X E (TaskCrypto DecryptMode (GuiPassword pw seed) out out2 prof2 False force2) w1 =
    (Inr (''Output saved to '' @ display out2), put_file w1 out2 bs)"
proof -
  let ?seed = "if seed = [] then None else Some seed"
  have "encrypt_file_password (cr_prims X) (cr_postcard X) inp out pw ?seed prof None False w = (Inr (), w1)"
    using enc by (auto simp: run_crypto_def gui_crypto_def crypto_text_def Let_def res_elims split: if_splits)
  from password_restores [OF P S this inp env(1,2)]
  have "decrypt_file_password (cr_prims X) (cr_postcard X) out out2 pw ?seed w1 = (Inr (), put_file w1 out2 bs)" by blast
  then show ?thesis
    using env(3,4) by (simp add: run_crypto_def gui_crypto_def crypto_text_def Let_def act_apply act_map_err_def)
qed

end
