(* ===== verification/Gui_Log.thy ===== *)
theory Gui_Log
  imports Gui Key_Samples
begin

text \<open>
  The log buffer of the desktop application: character boundaries of UTF-8 text, and the bound on
  the buffer.
\<close>

section \<open>Character boundaries\<close>

text \<open>A valid text starts with a character of at most four bytes.\<close>

lemma utf8_first:
  assumes "utf8_valid bs" "bs \<noteq> []"
  obtains h r where "bs = h @ r" "h \<noteq> []" "length h \<le> 4" "\<not> cont (hd h)" "\<forall>x \<in> set (tl h). cont x" "utf8_valid r"
    "\<forall>s. utf8_valid s \<longrightarrow> utf8_valid (h @ s)"
proof -
  obtain a r where a: "bs = a # r" using assms(2) by (cases bs) auto
  show ?thesis
  proof (cases "a \<le> 0x7F")
    case True
    then have "\<not> cont a" by (simp add: cont_def word_le_nat_alt)
    then show ?thesis using that [of "[a]" r] assms(1) a True by simp
  next
    case low: False
    then obtain b r2 where b: "r = b # r2" using assms(1) a by (cases r) auto
    show ?thesis
    proof (cases "0xC2 \<le> a \<and> a \<le> 0xDF")
      case True
      then have "\<not> cont a" by (simp add: cont_def word_le_nat_alt)
      moreover have "cont b" "utf8_valid r2" using assms(1) low True by (simp_all add: a b)
      ultimately show ?thesis using that [of "[a, b]" r2] low True by (simp add: a b)
    next
      case two: False
      then obtain c r3 where c: "r2 = c # r3" using assms(1) low a b by (cases r2) auto
      show ?thesis
      proof (cases "a = 0xE0 \<or> a = 0xED \<or> 0xE1 \<le> a \<and> a \<le> 0xEF")
        case True
        then have "\<not> cont a" by (auto simp: cont_def word_le_nat_alt)
        moreover have "cont b" "cont c" "utf8_valid r3"
          using assms(1) low two True by (auto simp: a b c cont_def word_le_nat_alt split: if_splits)
        moreover have "\<forall>s. utf8_valid s \<longrightarrow> utf8_valid ([a, b, c] @ s)"
          using assms(1) low two True by (auto simp: a b c split: if_splits)
        ultimately show ?thesis using that [of "[a, b, c]" r3] by (simp add: a b c)
      next
        case three: False
        then obtain d r4 where d: "r3 = d # r4" using assms(1) low two a b c by (cases r3) auto
        have "\<not> cont a" "cont b" "cont c" "cont d" "utf8_valid r4"
          using assms(1) low two three by (auto simp: a b c d cont_def word_le_nat_alt split: if_splits)
        moreover have "\<forall>s. utf8_valid s \<longrightarrow> utf8_valid ([a, b, c, d] @ s)"
          using assms(1) low two three by (auto simp: a b c d split: if_splits)
        ultimately show ?thesis using that [of "[a, b, c, d]" r4] by (simp add: a b c d)
      qed
    qed
  qed
qed

lemma utf8_append: "utf8_valid a \<Longrightarrow> utf8_valid b \<Longrightarrow> utf8_valid (a @ b)"
proof (induction "length a" arbitrary: a rule: less_induct)
  case less
  show ?case
  proof (cases "a = []")
    case False
    obtain h r where "a = h @ r" "h \<noteq> []" "utf8_valid r" "\<forall>s. utf8_valid s \<longrightarrow> utf8_valid (h @ s)"
      by (rule utf8_first [OF less.prems(1) False])
    then show ?thesis using less.hyps [of r] less.prems(2) by simp
  qed (use less.prems in simp)
qed

lemma utf8_drop:
  "utf8_valid bs \<Longrightarrow> i \<le> length bs \<Longrightarrow> is_char_boundary bs i \<Longrightarrow> utf8_valid (drop i bs)"
proof (induction "length bs" arbitrary: bs i rule: less_induct)
  case less
  show ?case
  proof (cases "i = 0 \<or> i = length bs")
    case True
    then show ?thesis using less.prems(1) by auto
  next
    case False
    then have ne: "bs \<noteq> []" using less.prems(2) by auto
    obtain h r where h: "bs = h @ r" "h \<noteq> []" "\<forall>x \<in> set (tl h). cont x" "utf8_valid r"
      by (rule utf8_first [OF less.prems(1) ne])
    have nc: "\<not> cont (bs ! i)" "i < length bs" using False less.prems(2,3) by (auto simp: is_char_boundary_def)
    have "\<not> i < length h"
    proof
      assume "i < length h"
      then have "bs ! i \<in> set (tl h)" using h(1) False by (cases h; cases i) (auto simp: nth_append)
      then show False using h(3) nc(1) by blast
    qed
    moreover have "is_char_boundary r (i - length h)"
      using nc \<open>\<not> i < length h\<close> h(1) by (auto simp: is_char_boundary_def nth_append)
    ultimately show ?thesis using less.hyps [of r "i - length h"] h less.prems(2) by auto
  qed
qed

lemma near_boundary:
  "utf8_valid bs \<Longrightarrow> i \<le> length bs \<Longrightarrow> \<exists>j. i \<le> j \<and> j \<le> i + 3 \<and> j \<le> length bs \<and> is_char_boundary bs j"
proof (induction "length bs" arbitrary: bs i rule: less_induct)
  case less
  show ?case
  proof (cases "i = 0 \<or> i = length bs")
    case True
    then show ?thesis by (intro exI [of _ i]) (auto simp: is_char_boundary_def)
  next
    case False
    then have ne: "bs \<noteq> []" using less.prems(2) by auto
    obtain h r where h: "bs = h @ r" "h \<noteq> []" "length h \<le> 4" "utf8_valid r"
      by (rule utf8_first [OF less.prems(1) ne])
    have "\<exists>k. i - length h \<le> k \<and> k \<le> i - length h + 3 \<and> k \<le> length r \<and> is_char_boundary r k"
      by (rule less.hyps) (use h less.prems(2) in auto)
    then obtain k where k: "i - length h \<le> k" "k \<le> i - length h + 3" "k \<le> length r" "is_char_boundary r k"
      by blast
    have start: "is_char_boundary bs (length h)"
    proof (cases "r = []")
      case False
      obtain h' r' where "r = h' @ r'" "h' \<noteq> []" "\<not> cont (hd h')" by (rule utf8_first [OF h(4) False])
      then show ?thesis by (auto simp: is_char_boundary_def h(1) nth_append hd_conv_nth)
    qed (simp add: is_char_boundary_def h(1))
    show ?thesis
    proof (cases "i \<le> length h")
      case True
      then show ?thesis using h False start by (intro exI [of _ "length h"]) auto
    next
      case later: False
      have "is_char_boundary bs (length h + k)"
      proof (cases "k = 0")
        case True
        then show ?thesis using start by simp
      next
        case False
        then show ?thesis using k(4) by (auto simp: is_char_boundary_def h(1) nth_append)
      qed
      then show ?thesis using k later h(1) by (intro exI [of _ "length h + k"]) auto
    qed
  qed
qed

lemma next_boundary_first:
  "i \<le> j \<Longrightarrow> j \<le> length bs \<Longrightarrow> is_char_boundary bs j \<Longrightarrow>
     i \<le> next_boundary bs i \<and> next_boundary bs i \<le> j \<and> is_char_boundary bs (next_boundary bs i)"
proof (induction "j - i" arbitrary: i)
  case 0
  then show ?case by (simp add: next_boundary.simps [of bs i])
next
  case (Suc n)
  show ?case
  proof (cases "is_char_boundary bs i")
    case True
    then show ?thesis using Suc.prems by (simp add: next_boundary.simps [of bs i])
  next
    case False
    then have "i \<noteq> j" using Suc.prems(3) by auto
    then have "i + 1 \<le> next_boundary bs (i + 1) \<and> next_boundary bs (i + 1) \<le> j \<and>
        is_char_boundary bs (next_boundary bs (i + 1))"
      using Suc.hyps(2) Suc.prems by (intro Suc.hyps(1)) auto
    moreover have "next_boundary bs i = next_boundary bs (i + 1)"
      using False Suc.prems by (simp add: next_boundary.simps [of bs i])
    ultimately show ?thesis by simp
  qed
qed

lemma level_utf8: "utf8_valid (ascii (''['' @ level_name l @ ''] ''))"
  by (induction l; code_simp)

text \<open>
  C27: The log buffer never holds more than 64 KiB and stays valid UTF-8: a new line is appended, and
  when the text grows too long its beginning is cut off at a character boundary, at most three bytes
  more than necessary.
\<close>

theorem log_buffer_bounded:
  assumes "utf8_valid logs" "utf8_valid args" "length logs \<le> MAX_GUI_LOG_BYTES" "log_enabled level"
  defines "full \<equiv> logs @ ascii (''['' @ level_name level @ ''] '') @ args @ [10]"
  shows "\<exists>k. gui_log level args logs = drop k full \<and> length (drop k full) \<le> MAX_GUI_LOG_BYTES \<and>
    utf8_valid (drop k full) \<and> (length full \<le> MAX_GUI_LOG_BYTES \<longrightarrow> k = 0) \<and>
    (MAX_GUI_LOG_BYTES < length full \<longrightarrow> MAX_GUI_LOG_BYTES \<le> length (drop k full) + 3)"
proof -
  have "utf8_valid [10]" by simp
  then have v: "utf8_valid full" unfolding full_def using assms(1,2) level_utf8 by (intro utf8_append)
  have run: "gui_log level args logs = (if MAX_GUI_LOG_BYTES < length full
      then drop (next_boundary full (length full - MAX_GUI_LOG_BYTES)) full else full)"
    using assms(4) by (simp add: gui_log_def full_def Let_def)
  show ?thesis
  proof (cases "MAX_GUI_LOG_BYTES < length full")
    case False
    then show ?thesis using run v by (intro exI [of _ 0]) simp
  next
    case True
    let ?i = "length full - MAX_GUI_LOG_BYTES"
    obtain j where j: "?i \<le> j" "j \<le> ?i + 3" "j \<le> length full" "is_char_boundary full j"
      using near_boundary [OF v, of ?i] by auto
    note n = next_boundary_first [OF j(1,3,4)]
    have "utf8_valid (drop (next_boundary full ?i) full)"
      using utf8_drop [OF v] n j(3) by force
    then show ?thesis
      using True n j run by (intro exI [of _ "next_boundary full ?i"]) auto
  qed
qed

theorem log_buffer_bounded_witness:
  "\<exists>k. gui_log LogInfo [0xC3, 0xA9] (replicate MAX_GUI_LOG_BYTES 97) =
      drop k (replicate MAX_GUI_LOG_BYTES 97 @ ascii ''[INFO] '' @ [0xC3, 0xA9] @ [10]) \<and>
    length (gui_log LogInfo [0xC3, 0xA9] (replicate MAX_GUI_LOG_BYTES 97)) \<le> MAX_GUI_LOG_BYTES"
proof -
  have "utf8_valid (replicate MAX_GUI_LOG_BYTES 97)" by (rule utf8_ascii) simp
  moreover have "utf8_valid [0xC3, 0xA9]" by code_simp
  ultimately show ?thesis
    using log_buffer_bounded [of "replicate MAX_GUI_LOG_BYTES 97" "[0xC3, 0xA9]" LogInfo] by (auto simp: log_enabled_def)
qed

end
