(* ===== verification/Gui_Samples.thy ===== *)
theory Gui_Samples
  imports Gui_Correct Gui_Log Cli_Samples
begin

text \<open>
  The window used on the sample files: a file is picked, a password typed twice, and the file
  encrypted beside the others.
\<close>

definition gui_typed :: "gui_action list" where
  "gui_typed = [PickTarget sample_in, EditSecret [1], EditConfirmation [1], SelectProfile Fast, Begin (Some sfx_out)]"

definition gui_task_sample :: gui_task where
  "gui_task_sample = TaskCrypto EncryptMode (GuiPassword [1] []) sample_in sfx_out Fast False False"

text \<open>A sequence of actions that the idle window shows.\<close>

fun gui_allowed :: "crates \<Rightarrow> gui_action list \<Rightarrow> gui_system \<Rightarrow> bool" where
  "gui_allowed X [] s = True"
| "gui_allowed X (a # as) s = (\<not> g_busy (gs_app s) \<and> gui_shown (gs_app s) a \<and> gui_allowed X as (gui_act X a s))"

lemma gui_acts: "gui_allowed X as s \<Longrightarrow> (gui_step X E)\<^sup>*\<^sup>* s (fold (gui_act X) as s)"
proof (induction as arbitrary: s)
  case (Cons a as)
  then have "gui_step X E s (gui_act X a s)" "(gui_step X E)\<^sup>*\<^sup>* (gui_act X a s) (fold (gui_act X) (a # as) s)"
    by (auto intro: action_step)
  then show ?case by (rule converse_rtranclp_into_rtranclp)
qed simp

lemma gui_reaches_busy:
  obtains s where "(gui_step sample_crates sfx_environ)\<^sup>*\<^sup>* (gui_start cli_world) s" "g_busy (gs_app s)"
    "gs_thread s = Some gui_task_sample" "gs_world s = cli_world"
proof -
  let ?s = "fold (gui_act sample_crates) gui_typed (gui_start cli_world)"
  have ne: "sfx_out \<noteq> sample_in" by (simp add: sfx_out_def sample_in_def sample_file_def)
  note eval = gui_typed_def gui_start_def gui_new_def begin_selected_operation_def validation_error_def
    validate_password_fields_def selected_credential_def start_task_def clear_sensitive_fields_def ne gui_task_sample_def
  have "(gui_step sample_crates sfx_environ)\<^sup>*\<^sup>* (gui_start cli_world) ?s"
    by (rule gui_acts) (simp add: eval)
  moreover have "g_busy (gs_app ?s)" "gs_thread ?s = Some gui_task_sample" "gs_world ?s = cli_world"
    by (simp_all add: eval)
  ultimately show ?thesis using that by blast
qed

lemma gui_encrypts:
  obtains w where "run_task sample_crates sfx_environ gui_task_sample cli_world = (Inr (''Output saved to '' @ display sfx_out), w)"
proof -
  obtain w0 capsule where w: "same_but_rng cli_world w0"
    "encrypt_file_password sample_prims sample_postcard sample_in sfx_out [1] None Fast None False cli_world =
       (Inr (), put_file w0 sfx_out capsule)"
    by (rule cli_encrypts [of sfx_out]) simp_all
  have ne: "sample_in \<noteq> sfx_out" by (simp add: sfx_out_def sample_in_def sample_file_def)
  have run: "run_task sample_crates sfx_environ gui_task_sample cli_world =
      (Inr (''Output saved to '' @ display sfx_out), put_file w0 sfx_out capsule)"
    using ne w(2) by (simp add: gui_task_sample_def run_crypto_def gui_crypto_def crypto_text_def Let_def act_apply act_map_err_def)
  then show ?thesis using that by blast
qed

theorem gui_invariant_witness:
  "\<exists>s. (gui_step sample_crates sfx_environ)\<^sup>*\<^sup>* (gui_start cli_world) s \<and> gs_thread s = Some gui_task_sample \<and> gui_inv s"
proof -
  obtain s where "(gui_step sample_crates sfx_environ)\<^sup>*\<^sup>* (gui_start cli_world) s" "gs_thread s = Some gui_task_sample"
    by (rule gui_reaches_busy)
  then show ?thesis using gui_invariant by blast
qed

theorem gui_becomes_idle_witness:
  "\<exists>s'. (gui_step sample_crates sfx_environ)\<^sup>*\<^sup>* (gui_start cli_world) s' \<and> \<not> g_busy (gs_app s') \<and>
     g_status (gs_app s') = ''Success: Output saved to '' @ display sfx_out"
proof -
  obtain s where s: "(gui_step sample_crates sfx_environ)\<^sup>*\<^sup>* (gui_start cli_world) s" "g_busy (gs_app s)"
    "gs_thread s = Some gui_task_sample" "gs_world s = cli_world"
    by (rule gui_reaches_busy)
  obtain w where run: "run_task sample_crates sfx_environ gui_task_sample cli_world = (Inr (''Output saved to '' @ display sfx_out), w)"
    by (rule gui_encrypts)
  from gui_becomes_idle [OF s(1,2)] obtain s' where "(gui_step sample_crates sfx_environ)\<^sup>*\<^sup>* s s'" "\<not> g_busy (gs_app s')"
    "g_status (gs_app s') = outcome (fst (run_task sample_crates sfx_environ gui_task_sample cli_world))"
    using s(3,4) by auto
  then show ?thesis using s(1) run by (intro exI [of _ s']) (auto simp: outcome_def)
qed

theorem gui_task_keeps_files_witness:
  "\<exists>w'. run_task sample_crates sfx_environ gui_task_sample cli_world = (Inr (''Output saved to '' @ display sfx_out), w') \<and>
     keeps_entries cli_world w'"
proof -
  obtain w where run: "run_task sample_crates sfx_environ gui_task_sample cli_world = (Inr (''Output saved to '' @ display sfx_out), w)"
    by (rule gui_encrypts)
  have "fresh_name cli_world (env_tmp sfx_environ)" using cli_world_fresh by (simp add: sfx_environ_def)
  from gui_task_keeps_files [OF run this] have "keeps_entries cli_world w" unfolding gui_task_sample_def by blast
  then show ?thesis using run by blast
qed

end
