(* ===== verification/Spec2Isabelle.thy ===== *)
theory Spec2Isabelle
  imports Payload_Correct Suite Policy Capsule_Samples Signing_Samples Preflight_Samples Diff Bundle_Samples
    Extract_Samples Key_Samples Cli_Options Sfx_Samples Cli_Samples Cli_Outcome Password
    Policy_Enforced Gui_Samples
begin

text \<open>
  Lvau: local capsules for encrypted files and directories (a Rust workspace under src/crates). A
  capsule is a file with a public envelope and a payload that is sealed chunk by chunk under a file
  key; the file key is wrapped for a password or for hybrid key pairs. Around capsules there are
  bundles (directories packed into one payload), policies, author signatures and approval seals,
  release and recovery metadata, key files, recipient groups, secret sharing, self-extracting
  archives, a command line and a desktop application. This development models these parts as
  executable definitions, theory by theory, and proves what makes them correct.

  \<^bold>\<open>How the program is modelled.\<close> A fallible Rust function gives \<open>error + value\<close> with the error on
  the left (Prelude: \<open>rbind\<close>, \<open>ensure\<close>, \<open>ok_or\<close>, \<open>map_err\<close> for \<open>?\<close> and its relatives). A function that
  touches files is an \<open>action\<close>, a function from a state to a result and the next state; \<open>act\<close> chains
  two of them and stops at the first error. The state of the library is the record \<open>world\<close> of
  theory World: a file system without symbolic links (entries are directories, regular files with
  contents, or special), the working directory, the random generator as a stream with a position,
  and what the environment decides: how reads are cut and which of them fail (a script per file),
  the free space of the disk, and whether a sync succeeds. Extraction, where links matter, works on
  the world and a tree with links and link counts (\<open>xworld\<close> in Bundle\_Extract), which is taken from the
  file system at the output directory (\<open>tree_of\<close>) and written back (\<open>write_back\<close>); what the world does
  not tell of links is the record \<open>link_info\<close>. Readers and writers are in theory Streams.
  Integers of the code are words of their width, sizes in memory are natural numbers.

  \<^bold>\<open>Parameters.\<close> Third-party code is a record of functions that the definitions take as an argument,
  and its documented behaviour a named hypothesis: \<open>ciphers\<close> with \<open>ciphers_ok\<close> (each of the two AEADs opens
  exactly what it sealed under the same key, nonce and associated data, 16 bytes longer than the
  text), \<open>prims\<close> with \<open>dh_laws\<close> (Argon2, SHA-256, X25519 and ML-KEM-768 agree
  on shared secrets), \<open>postcard\<close> with \<open>postcard_ok\<close> (a prefix codec of envelopes), \<open>ed25519\<close> with
  \<open>ed25519_ok\<close>, \<open>bundle_prims\<close> with \<open>manifest_codec_ok\<close>, and the JSON, base64, TOML and secret
  sharing codecs of key, group, policy and share files. Each has an instance in one of the theories
  named \<open>Samples\<close> (and in Ciphers and Primitives) for which the hypothesis is proved; the witnesses
  of the properties run the program on these instances.

  \<^bold>\<open>Library.\<close> Prelude has the result type, bytes and words, and the collections \<open>res_elims\<close> and
  \<open>len_simps\<close>; Streams and World the operating system; Errors, Envelope, Ciphers and Primitives the
  data and the parameters; Containers the locale \<open>capsule_container\<close> that signing and metadata share.
  Frames has the rules that compute which files an action can change. Locales state the interfaces:
  \<open>chunk_nonce\<close> (Framing), \<open>tidy_chunk_codec\<close> (Parallel, provided by v2 and v3 chunks),
  \<open>atomic_commit\<close> (Capsule\_Correct, provided by every function that replaces a file at the end),
  \<open>capsule_container\<close> and its extensions; each is interpreted on the definitions of the code.

  \<^bold>\<open>crates/lvau-core/src/crypto.\<close>
  \<^item> Key\_Schedule (key\_schedule.rs), Framing (framing.rs), Lco (lco.rs): purposes and labels, nonces
    and associated data per chunk (injective in the index), the obfuscator of the Extreme profile.
  \<^item> Parallel (parallel.rs): \<open>stream_encrypt_payload\<close> and \<open>stream_decrypt_payload\<close> with their batches of 32
    chunks of 1 MiB; Payload\_Stream and Payload\_Correct show what encryption writes, that
    no run uses a nonce for two chunks, exactly which ciphertexts decryption accepts, its length,
    and that both end.
  \<^item> Suite (suite.rs, suite/v3.rs): the registry and the version 3 chunk primitive.
  \<^item> Capsule (mod.rs) and Primitives: envelopes, validation, wrapping for passwords and recipients,
    encryption, decryption, verification, the variants in memory; Password (password.rs).
    Capsule\_Correct has the round trips, Capsule\_Safety the limits of decoded envelopes, outputs that
    are complete or untouched, verification against decryption, and the places where the code
    falls short.
  \<^item> Key\_Files (keys.rs): generation, saving and loading of hybrid keys.

  \<^bold>\<open>crates/lvau-core/src.\<close>
  \<^item> Bundle\_Layout (bundle.rs), Bundle\_Stream and Bundle\_Extract (bundle\_stream.rs), Diff (diff.rs):
    manifests and their checks, packing, listing, verification, comparison, extraction.
    Bundle\_Correct, Bundle\_Claims and Extract\_Correct show that packing and extracting restores a
    directory, what a listing has authenticated, and that extraction stays inside its directory.
  \<^item> Policy (policy.rs): the linter against the declarative specification \<open>satisfies\<close>.
  \<^item> Signing (signing.rs), Release (release.rs): what a signature commits to, and workflows of
    annotations as reachability of a step relation (Signing\_Correct).
  \<^item> Preflight (preflight.rs), Report (report.rs), Recipient\_Groups (groups.rs), Recovery (recovery.rs).

  \<^bold>\<open>crates/lvau-protocol/src/envelope.rs\<close> is theory Envelope.

  \<^bold>\<open>crates/lvau-cli/src.\<close> The state \<open>console\<close> of Cli\_Base adds to the world what the user types at
  prompts, the changes behind links (\<open>c_beyond\<close>, shown to be none) and the lines printed; \<open>environ\<close> is
  what surrounds a command (permission bits, clock, fresh temporary names, directory listings, links
  in the file system, the editor). Json has the documents of \<open>--json\<close> as values
  with their envelope and the published schema (output.rs). Cli\_Crypt, Cli\_Artifacts and Cli\_Run have
  one definition per arm of \<open>run\<close>, the self-test, the commands and subcommands as datatypes, \<open>run\<close>,
  and \<open>main\<close> with its error line and exit status; Sfx has \<open>create_sfx\<close>.
  Extract\_Frames and Cli\_Safety compute for every command the files it can change, those of an
  extraction included, and show that a session of
  commands without \<open>--force\<close> (and without those that replace by design) keeps every existing entry,
  also in the output directories of extractions;
  Cli\_Correct has the round trips through the command line and what some commands do to names,
  Cli\_Extract the confinement of \<open>bundle extract\<close>, and Cli\_Outcome what a caller is told: exit status,
  error line and JSON documents. Policy\_Enforced follows a policy from the linter through encryption
  to the preflight of the capsule.

  \<^bold>\<open>crates/lvau-stub/src/main.rs\<close> is in theory Sfx: the search for the payload behind the program, the
  window as a step function, and the archive round trip from \<open>create_sfx\<close> to the extracted file.

  \<^bold>\<open>crates/lvau-gui/src/main.rs\<close> is theory Gui: the window, its background thread and their channel as an
  inductive step relation \<open>gui_step\<close>; Gui\_Correct has its invariant, the end of every task and the
  files a task can change, Gui\_Log the log buffer.

  \<^bold>\<open>Termination and bounds.\<close> No definition uses fuel. Loops over readers end by \<open>function\<close> with a
  measure: the data and events left in a reader, the chunks left to write, the bytes left in a log.
  The code's limits appear under their names (envelopes 1 MiB, 64 recipients, key, group, policy and
  share files, secret files 64 KiB, manifests, the log) and the properties state them.

  \<^bold>\<open>Not modelled.\<close> The Windows branches (access control lists, removal before a rename, the thread with
  a larger stack), permission bits of files that are written, zeroing of memory, the progress
  callback of the library and the progress bar, the parsing of arguments by clap, the
  layout of JSON values as text, the prompts' texts, drawing and file dialogs of the two windows
  (what the user chooses is an input), and the tests. Parallelism inside a batch of chunks is its
  sequential result. Concurrent changes of files by other programs appear only where the environment
  decides (reads); the thread of the desktop application runs its task as one step.
\<close>

end
